(* ===== verification/SR_Base.thy ===== *)
theory SR_Base
  imports
    Complex_Main
    "HOL-Library.Char_ord"
    "HOL-Library.List_Lexorder"
    "HOL-Library.Product_Lexorder"
    "HOL-Library.AList"
    "HOL-Library.Multiset"
    "HOL-Library.Word"
    "HOL-Library.Sublist"
begin

text \<open>
  Shared vocabulary of the development: the Go types every component uses (time, duration,
  float, string maps), the SQL statement forms the store is written in, decimal printing of
  identifiers, and the lemmas on lists, tables and strings the components share.

  \<^item> A \<^verbatim>\<open>time.Time\<close> is the number of nanoseconds since Go's zero time (year 1, UTC); the zero
    time is 0 and \<^verbatim>\<open>UTC()\<close> changes nothing. A nullable timestamp column holds the zero time where
    SQL holds NULL, which is what every scan of the store reads it back as.
  \<^item> A \<^verbatim>\<open>time.Duration\<close> is an integer; where the code can leave the 64-bit range the model wraps
    in two's complement (\<open>int64\<close>) or saturates as \<^verbatim>\<open>Time.Sub\<close> does.
  \<^item> A \<^verbatim>\<open>float64\<close> is an exact rational: rounding, infinities and NaN are not modelled (no JSON
    document can carry the latter two).
  \<^item> A \<^verbatim>\<open>map[string]string\<close> is an association list; reading a missing key gives the empty string.
  \<^item> A table is the list of its rows in insertion order.
\<close>

section \<open>Go values\<close>

type_synonym time = int
type_synonym duration = int
type_synonym float64 = rat
type_synonym strmap = "(string \<times> string) list"

definition int64 :: "int \<Rightarrow> int" where
  "int64 x = (x + 9223372036854775808) mod 18446744073709551616 - 9223372036854775808"

definition max_int64 :: int where
  "max_int64 = 9223372036854775807"

definition min_int64 :: int where
  "min_int64 = - 9223372036854775808"

text \<open>\<^verbatim>\<open>Time.Sub\<close> saturates at the ends of the duration range.\<close>

definition time_sub :: "time \<Rightarrow> time \<Rightarrow> duration" where
  "time_sub t u = max min_int64 (min max_int64 (t - u))"

text \<open>\<^verbatim>\<open>Time.UnixNano\<close>: nanoseconds since 1970, modulo the 64-bit range.\<close>

definition unix_nano :: "time \<Rightarrow> int" where
  "unix_nano t = int64 (t - 62135596800000000000)"

definition nanosecond :: duration where "nanosecond = 1"
definition second :: duration where "second = 1000000000"
definition minute :: duration where "minute = 60000000000"

definition get_str :: "strmap \<Rightarrow> string \<Rightarrow> string" where
  "get_str m k = (case map_of m k of None \<Rightarrow> '''' | Some v \<Rightarrow> v)"

definition has_prefix :: "string \<Rightarrow> string \<Rightarrow> bool" where
  "has_prefix s p \<longleftrightarrow> take (length p) s = p"

text \<open>\<^verbatim>\<open>strings.ToLower\<close> on the ASCII letters, the only ones the program's comparisons look at.\<close>

definition lower_char :: "char \<Rightarrow> char" where
  "lower_char c = (let n = of_char c :: nat in if 65 \<le> n \<and> n \<le> 90 then char_of (n + 32) else c)"

definition to_lower :: "string \<Rightarrow> string" where
  "to_lower s = map lower_char s"

text \<open>\<open>a\<close> stands before \<open>b\<close> in a list.\<close>

definition precedes :: "'a list \<Rightarrow> 'a \<Rightarrow> 'a \<Rightarrow> bool" where
  "precedes xs a b \<longleftrightarrow> (\<exists>us vs ws. xs = us @ a # vs @ b # ws)"

text \<open>\<^verbatim>\<open>fmt\<close>'s \<^verbatim>\<open>%d\<close> on a non-negative integer and on any integer.\<close>

definition digit_char :: "nat \<Rightarrow> char" where
  "digit_char d = char_of (48 + d)"

fun show_nat :: "nat \<Rightarrow> string" where
  "show_nat n = (if n < 10 then [digit_char n] else show_nat (n div 10) @ [digit_char (n mod 10)])"

declare show_nat.simps [simp del]

definition show_int :: "int \<Rightarrow> string" where
  "show_int i = (if i < 0 then CHR ''-'' # show_nat (nat (- i)) else show_nat (nat i))"

text \<open>\<^verbatim>\<open>hex.EncodeToString\<close>.\<close>

definition hex_digit :: "nat \<Rightarrow> char" where
  "hex_digit n = (if n < 10 then char_of (48 + n) else char_of (87 + n))"

definition hex_EncodeToString :: "string \<Rightarrow> string" where
  "hex_EncodeToString bs = concat (map (\<lambda>b. [hex_digit (of_char b div 16), hex_digit (of_char b mod 16)]) bs)"

section \<open>SQL statement forms\<close>

definition upd_where :: "('r \<Rightarrow> bool) \<Rightarrow> ('r \<Rightarrow> 'r) \<Rightarrow> 'r list \<Rightarrow> 'r list" where
  "upd_where P f t = map (\<lambda>r. if P r then f r else r) t"

definition del_where :: "('r \<Rightarrow> bool) \<Rightarrow> 'r list \<Rightarrow> 'r list" where
  "del_where P t = filter (\<lambda>r. \<not> P r) t"

definition rows_affected :: "('r \<Rightarrow> bool) \<Rightarrow> 'r list \<Rightarrow> nat" where
  "rows_affected P t = length (filter P t)"

text \<open>\<^verbatim>\<open>QueryRow ... WHERE key=?\<close>: the first row with the key, \<^term>\<open>None\<close> for \<^verbatim>\<open>sql.ErrNoRows\<close>.\<close>

definition row_by :: "('r \<Rightarrow> 'k) \<Rightarrow> 'k \<Rightarrow> 'r list \<Rightarrow> 'r option" where
  "row_by key k t = find (\<lambda>r. key r = k) t"

text \<open>\<^verbatim>\<open>COALESCE(MAX(f),0)+1\<close> over the rows that satisfy a condition.\<close>

definition next_number :: "('r \<Rightarrow> bool) \<Rightarrow> ('r \<Rightarrow> nat) \<Rightarrow> 'r list \<Rightarrow> nat" where
  "next_number P f t = Suc (foldr max (map f (filter P t)) 0)"

section \<open>Sequencing of fallible code\<close>

definition rbind :: "'e + 'a \<Rightarrow> ('a \<Rightarrow> 'e + 'b) \<Rightarrow> 'e + 'b" where
  "rbind m f = (case m of Inl e \<Rightarrow> Inl e | Inr x \<Rightarrow> f x)"

text \<open>A \<^verbatim>\<open>for\<close> loop whose body may return an error: the first error ends it.\<close>

fun foldM :: "('x \<Rightarrow> 's \<Rightarrow> 'e + 's) \<Rightarrow> 'x list \<Rightarrow> 's \<Rightarrow> 'e + 's" where
  "foldM f [] s = Inr s"
| "foldM f (x # xs) s = (case f x s of Inl e \<Rightarrow> Inl e | Inr s' \<Rightarrow> foldM f xs s')"

section \<open>Collections\<close>

named_theorems tab_simps "equations of the statement forms"
named_theorems op_defs "definitions of the store's operations"
named_theorems inv_intros "preservation of the store invariant"

section \<open>Lemmas on results and loops\<close>

lemma rbind_simps [simp]:
  "rbind (Inl e) f = Inl e"
  "rbind (Inr x) f = f x"
  by (simp_all add: rbind_def)

lemma rbind_eq_Inr [simp]: "rbind m f = Inr y \<longleftrightarrow> (\<exists>x. m = Inr x \<and> f x = Inr y)"
  by (cases m) auto

lemma foldM_append: "foldM f (xs @ ys) s = rbind (foldM f xs s) (foldM f ys)"
  by (induction xs arbitrary: s) (auto split: sum.splits)

text \<open>The rule for loops: an invariant that every iteration keeps holds at the end.\<close>

lemma foldM_inv:
  assumes "foldM f xs s = Inr s'" and "I s"
    and "\<And>x s s'. x \<in> set xs \<Longrightarrow> I s \<Longrightarrow> f x s = Inr s' \<Longrightarrow> I s'"
  shows "I s'"
  using assms
proof (induction xs arbitrary: s)
  case (Cons x xs)
  from Cons.prems(1) obtain s1 where s1: "f x s = Inr s1" "foldM f xs s1 = Inr s'"
    by (auto split: sum.splits)
  moreover have "I s1" using Cons.prems(2,3) s1(1) by (meson list.set_intros(1))
  ultimately show ?case using Cons.IH Cons.prems(3) by (meson list.set_intros(2))
qed simp

text \<open>A loop whose body never fails under the invariant returns a state.\<close>

lemma foldM_total:
  assumes "I s" and "\<And>x s. x \<in> set xs \<Longrightarrow> I s \<Longrightarrow> \<exists>s'. f x s = Inr s' \<and> I s'"
  shows "\<exists>s'. foldM f xs s = Inr s' \<and> I s'"
  using assms
proof (induction xs arbitrary: s)
  case (Cons x xs)
  from Cons.prems obtain s1 where "f x s = Inr s1" "I s1" by fastforce
  with Cons show ?case by simp
qed simp

section \<open>Lemmas on tables\<close>

lemma upd_where_Nil [simp, tab_simps]: "upd_where P f [] = []"
  by (simp add: upd_where_def)

lemma upd_where_append [simp, tab_simps]: "upd_where P f (t @ u) = upd_where P f t @ upd_where P f u"
  by (simp add: upd_where_def)

lemma length_upd_where [simp]: "length (upd_where P f t) = length t"
  by (simp add: upd_where_def)

lemma in_upd_where: "r \<in> set (upd_where P f t) \<longleftrightarrow> (\<exists>q\<in>set t. r = (if P q then f q else q))"
  by (auto simp: upd_where_def)

lemma upd_where_keep [simp]: "r \<in> set t \<Longrightarrow> \<not> P r \<Longrightarrow> r \<in> set (upd_where P f t)"
  by (force simp: in_upd_where)

lemma map_upd_where: "(\<And>r. g (f r) = g r) \<Longrightarrow> map g (upd_where P f t) = map g t"
  by (simp add: upd_where_def)

lemma upd_where_none: "\<forall>r\<in>set t. \<not> P r \<Longrightarrow> upd_where P f t = t"
  by (simp add: upd_where_def map_idI)

lemma ball_upd_where:
  "(\<forall>r\<in>set (upd_where P f t). Q r) \<longleftrightarrow> (\<forall>r\<in>set t. if P r then Q (f r) else Q r)"
  by (auto simp: upd_where_def)

lemma in_del_where [simp]: "r \<in> set (del_where P t) \<longleftrightarrow> r \<in> set t \<and> \<not> P r"
  by (auto simp: del_where_def)

lemma distinct_map_del_where: "distinct (map k t) \<Longrightarrow> distinct (map k (del_where P t))"
  by (simp add: del_where_def distinct_map_filter)

lemma filter_upd_where:
  "(\<And>r. Q (f r) = Q r) \<Longrightarrow> filter Q (upd_where P f t) = upd_where P f (filter Q t)"
  by (induction t) (auto simp: upd_where_def)

lemma row_by_None [simp]: "row_by key k t = None \<longleftrightarrow> k \<notin> key ` set t"
  by (auto simp: row_by_def find_None_iff)

lemma row_byD: "row_by key k t = Some r \<Longrightarrow> r \<in> set t \<and> key r = k"
  by (auto simp: row_by_def find_Some_iff)

lemma row_by_in: "row_by key k t = Some r \<Longrightarrow> k \<in> key ` set t"
  by (auto dest: row_byD)

lemma row_by_Some:
  assumes "distinct (map key t)" and "r \<in> set t"
  shows "row_by key (key r) t = Some r"
proof (cases "row_by key (key r) t")
  case None
  with assms(2) show ?thesis by simp
next
  case (Some q)
  then have "q \<in> set t" "key q = key r" by (auto dest: row_byD)
  with assms have "q = r" by (simp add: distinct_map inj_on_def)
  with Some show ?thesis by simp
qed

lemma find_append: "find P (t @ u) = (case find P t of None \<Rightarrow> find P u | Some r \<Rightarrow> Some r)"
  by (induction t) auto

lemma row_by_append:
  "row_by key k (t @ u) = (case row_by key k t of None \<Rightarrow> row_by key k u | Some r \<Rightarrow> Some r)"
  by (simp add: row_by_def find_append split: option.split)

lemma row_by_Cons [simp]: "row_by key k (r # t) = (if key r = k then Some r else row_by key k t)"
  by (simp add: row_by_def)

lemma row_by_Nil [simp]: "row_by key k [] = None"
  by (simp add: row_by_def)

lemma row_by_upd_where:
  assumes "\<And>r. key (f r) = key r"
  shows "row_by key k (upd_where P f t)
    = map_option (\<lambda>r. if P r then f r else r) (row_by key k t)"
  by (induction t) (auto simp: upd_where_def assms)

lemma distinct_key_eq:
  "distinct (map key t) \<Longrightarrow> r \<in> set t \<Longrightarrow> q \<in> set t \<Longrightarrow> key r = key q \<Longrightarrow> r = q"
  by (simp add: distinct_map inj_on_def)

lemma row_by_eq_iff:
  "distinct (map key t) \<Longrightarrow> row_by key k t = Some r \<longleftrightarrow> r \<in> set t \<and> key r = k"
  by (auto dest: row_byD simp: row_by_Some)

lemma le_foldr_max: "x \<in> set xs \<Longrightarrow> x \<le> foldr max xs (0::nat)"
  by (induction xs) auto

lemma foldr_max_in: "xs \<noteq> [] \<Longrightarrow> foldr max xs (0::nat) \<in> set xs"
proof (induction xs)
  case (Cons x xs)
  then show ?case by (cases "xs = []") (auto simp: max_def)
qed simp

lemma next_number_fresh: "r \<in> set t \<Longrightarrow> P r \<Longrightarrow> f r < next_number P f t"
  by (auto simp: next_number_def less_Suc_eq_le intro!: le_foldr_max)

lemma next_number_pos [simp]: "0 < next_number P f t"
  by (simp add: next_number_def)

lemma sorted_precedes:
  assumes "sorted (map k xs)" and "a \<in> set xs" and "b \<in> set xs" and "k a < k b"
  shows "precedes xs a b"
proof -
  from assms(2) obtain us vs where xs: "xs = us @ a # vs" by (auto dest: split_list)
  have "b \<notin> set us" using assms(1,4) by (auto simp: xs sorted_append)
  moreover have "b \<noteq> a" using assms(4) by auto
  ultimately have "b \<in> set vs" using assms(3) by (simp add: xs)
  then obtain ws zs where "vs = ws @ b # zs" by (auto dest: split_list)
  with xs show ?thesis by (auto simp: precedes_def)
qed

section \<open>Lemmas on identifiers\<close>

lemma digit_char_inj: "a < 10 \<Longrightarrow> b < 10 \<Longrightarrow> digit_char a = digit_char b \<Longrightarrow> a = b"
proof -
  assume "a < 10" "b < 10" "digit_char a = digit_char b"
  then have "of_char (digit_char a) = (of_char (digit_char b) :: nat)" by simp
  with \<open>a < 10\<close> \<open>b < 10\<close> show "a = b" by (simp add: digit_char_def)
qed

lemma digit_char_not_dash: "d < 10 \<Longrightarrow> digit_char d \<noteq> CHR ''-''"
proof
  assume "d < 10" "digit_char d = CHR ''-''"
  then have "of_char (digit_char d) = (of_char (CHR ''-'') :: nat)" by simp
  with \<open>d < 10\<close> show False by (simp add: digit_char_def)
qed

lemma show_nat_nonempty [simp]: "show_nat n \<noteq> []"
  by (subst show_nat.simps) simp

lemma show_nat_no_dash: "CHR ''-'' \<notin> set (show_nat n)"
proof (induction n rule: show_nat.induct)
  case (1 n)
  then show ?case
    using digit_char_not_dash [of n] digit_char_not_dash [of "n mod 10"]
    by (subst show_nat.simps) auto
qed

lemma show_nat_inj: "show_nat m = show_nat n \<Longrightarrow> m = n"
proof (induction m arbitrary: n rule: show_nat.induct)
  case (1 m)
  show ?case
  proof (cases "m < 10")
    case True
    note m = this
    show ?thesis
    proof (cases "n < 10")
      case True
      with m "1.prems" show ?thesis
        by (auto simp: show_nat.simps [of m] show_nat.simps [of n] dest: digit_char_inj)
    next
      case False
      with m "1.prems" show ?thesis
        by (auto simp: show_nat.simps [of m] show_nat.simps [of n] Cons_eq_append_conv)
    qed
  next
    case False
    note m = this
    show ?thesis
    proof (cases "n < 10")
      case True
      with m "1.prems" show ?thesis
        by (auto simp: show_nat.simps [of m] show_nat.simps [of n] append_eq_Cons_conv)
    next
      case False
      with m "1.prems" have eq: "show_nat (m div 10) = show_nat (n div 10)"
        "digit_char (m mod 10) = digit_char (n mod 10)"
        by (auto simp: show_nat.simps [of m] show_nat.simps [of n])
      from "1.IH" [OF m eq(1)] digit_char_inj [OF _ _ eq(2)] show ?thesis
        by (metis div_mult_mod_eq mod_less_divisor zero_less_numeral)
    qed
  qed
qed

text \<open>A separator that the last part does not contain splits the string uniquely.\<close>

lemma last_separator_unique:
  assumes "xs @ c # ys = xs' @ c # ys'" and "c \<notin> set ys" and "c \<notin> set ys'"
  shows "xs = xs' \<and> ys = ys'"
proof -
  have "takeWhile (\<lambda>x. x \<noteq> c) (rev (xs @ c # ys)) = rev ys"
    and "takeWhile (\<lambda>x. x \<noteq> c) (rev (xs' @ c # ys')) = rev ys'"
    using assms(2,3) by (auto simp: takeWhile_append)
  with assms(1) have "rev ys = rev ys'" by metis
  then have "ys = ys'" by simp
  with assms(1) show ?thesis by simp
qed

lemma numbered_id_inj:
  "i @ ''-'' @ show_nat m = j @ ''-'' @ show_nat n \<Longrightarrow> i = j \<and> m = n"
  using last_separator_unique [of i "CHR ''-''" "show_nat m" j "show_nat n"]
  by (auto simp: show_nat_no_dash dest: show_nat_inj)

lemma int64_id: "min_int64 \<le> x \<Longrightarrow> x \<le> max_int64 \<Longrightarrow> int64 x = x"
  by (simp add: int64_def min_int64_def max_int64_def)

lemma int64_range: "min_int64 \<le> int64 x \<and> int64 x \<le> max_int64"
proof -
  have "0 \<le> (x + 9223372036854775808) mod 18446744073709551616"
    "(x + 9223372036854775808) mod 18446744073709551616 < 18446744073709551616"
    by (simp_all only: pos_mod_sign pos_mod_bound)
  then show ?thesis by (simp add: int64_def min_int64_def max_int64_def)
qed

text \<open>Two's complement: the wrapped value is congruent to the exact one.\<close>

lemma int64_eq_signed: "int64 x = signed_take_bit 63 x"
  by (simp add: int64_def signed_take_bit_eq_take_bit_shift take_bit_eq_mod)

end
