(* ===== verification/SR_Domain.thy ===== *)
theory SR_Domain
  imports SR_Base
begin

text \<open>
  The domain model of \<^verbatim>\<open>internal/domain\<close>: the records and enumerations of \<^verbatim>\<open>types.go\<close>, the job and
  attempt state machines of \<^verbatim>\<open>state.go\<close> and the error codes of \<^verbatim>\<open>errors.go\<close>.

  A string enumeration is a datatype with one constructor per constant; where the program accepts
  the empty string or arbitrary text for it, the datatype has an \<open>Unset\<close> or an \<open>Other\<close>
  constructor. A pointer is an \<open>option\<close>.
\<close>

section \<open>Identifiers and enumerations\<close>

type_synonym JobID = string
type_synonym AttemptID = string
type_synonym WorkerID = string
type_synonym SandboxID = string
type_synonym LeaseID = string
type_synonym EventID = string
type_synonym SessionID = string

datatype SessionState =
    SessionUnset | SessionPending | SessionActive | SessionDraining | SessionClosed | SessionLost
  | SessionRecovering

datatype RecoveryPolicy =
    PolicyUnset | RecoveryNone | RecoveryCheckpoint | RecoveryRebuild | PolicyOther string

datatype CheckpointMode =
    ModeUnset | CheckpointExplicit | CheckpointAfterSuccess | ModeOther string

datatype RecoveryState =
    RecoveryUnset | RecoveryIdle | RecoveryPending | RecoveryProvisioning | RecoveryRestoring
  | RecoveryFailed

fun SessionTerminal :: "SessionState \<Rightarrow> bool" where
  "SessionTerminal s = (s = SessionClosed \<or> s = SessionLost)"

datatype JobState =
    JobQueued | JobWaiting | JobLeased | JobRunning | JobSucceeded | JobFailed | JobCanceled
  | JobTimedOut | JobDependencyFailed | JobSessionLost

fun JobTerminal :: "JobState \<Rightarrow> bool" where
  "JobTerminal JobSucceeded = True"
| "JobTerminal JobFailed = True"
| "JobTerminal JobCanceled = True"
| "JobTerminal JobTimedOut = True"
| "JobTerminal JobDependencyFailed = True"
| "JobTerminal JobSessionLost = True"
| "JobTerminal _ = False"

datatype AttemptState =
    AttemptLeased | AttemptRunning | AttemptSucceeded | AttemptFailed | AttemptCanceled
  | AttemptExpired | AttemptLost

fun AttemptActive :: "AttemptState \<Rightarrow> bool" where
  "AttemptActive s = (s = AttemptLeased \<or> s = AttemptRunning)"

fun AttemptTerminal :: "AttemptState \<Rightarrow> bool" where
  "AttemptTerminal AttemptSucceeded = True"
| "AttemptTerminal AttemptFailed = True"
| "AttemptTerminal AttemptCanceled = True"
| "AttemptTerminal AttemptExpired = True"
| "AttemptTerminal AttemptLost = True"
| "AttemptTerminal _ = False"

fun show_JobState :: "JobState \<Rightarrow> string" where
  "show_JobState JobQueued = ''queued''"
| "show_JobState JobWaiting = ''waiting''"
| "show_JobState JobLeased = ''leased''"
| "show_JobState JobRunning = ''running''"
| "show_JobState JobSucceeded = ''succeeded''"
| "show_JobState JobFailed = ''failed''"
| "show_JobState JobCanceled = ''canceled''"
| "show_JobState JobTimedOut = ''timed_out''"
| "show_JobState JobDependencyFailed = ''dependency_failed''"
| "show_JobState JobSessionLost = ''session_lost''"

section \<open>Routing\<close>

type_synonym ExecutorKind = string
type_synonym Architecture = string

record Capabilities =
  cap_Capabilities :: "string list"
  cap_Labels :: strmap
  cap_Architecture :: Architecture
  cap_Region :: string
  cap_ExecutorKinds :: "ExecutorKind list"
  cap_Upstreams :: "string list"

record RoutingConstraints =
  rc_Capabilities :: "string list"
  rc_Labels :: strmap
  rc_Architecture :: Architecture
  rc_Region :: string
  rc_ExecutorKind :: ExecutorKind
  rc_RequiredUpstream :: string
  rc_PreferredRegion :: string
  rc_PreferredSandbox :: SandboxID
  rc_PreferredProvider :: string
  rc_MaxCost :: "float64 option"

datatype UpstreamAvailability =
  UpstreamUnset | UpstreamAvailable | UpstreamUnavailable | UpstreamCooldown | UpstreamOther string

record UpstreamState =
  us_State :: UpstreamAvailability
  us_Health :: float64
  us_CooldownUntil :: time
  us_BudgetRemaining :: "float64 option"
  us_Cost :: "float64 option"
  us_Metadata :: strmap

fun contains :: "'a list \<Rightarrow> 'a \<Rightarrow> bool" where
  "contains [] wanted = False"
| "contains (v # vs) wanted = (if v = wanted then True else contains vs wanted)"

definition Satisfies :: "Capabilities \<Rightarrow> RoutingConstraints \<Rightarrow> bool" where
  "Satisfies c required =
    (if \<not> list_all (\<lambda>capability. contains (cap_Capabilities c) capability) (rc_Capabilities required)
     then False
     else if rc_Architecture required \<noteq> '''' \<and> cap_Architecture c \<noteq> rc_Architecture required
     then False
     else if rc_Region required \<noteq> '''' \<and> cap_Region c \<noteq> rc_Region required
     then False
     else if rc_ExecutorKind required \<noteq> '''' \<and> \<not> contains (cap_ExecutorKinds c) (rc_ExecutorKind required)
     then False
     else if rc_RequiredUpstream required \<noteq> ''''
             \<and> \<not> contains (cap_Upstreams c) (rc_RequiredUpstream required)
     then False
     else list_all (\<lambda>(key, v). get_str (cap_Labels c) key = v) (rc_Labels required))"

section \<open>Jobs, attempts, leases, events\<close>

record RetryPolicy =
  rp_MaxAttempts :: int
  rp_Backoff :: duration
  rp_MaxBackoff :: duration
  rp_MaxElapsed :: duration

datatype FailureClass = FailureRetryable | FailureNonRetryable | FailureOther string

record Failure =
  f_Code :: string
  f_Message :: string
  f_Class :: FailureClass

definition FailureIsRetryable :: "Failure \<Rightarrow> bool" where
  "FailureIsRetryable f \<longleftrightarrow> f_Class f = FailureRetryable"

record Lease =
  l_ID :: LeaseID
  l_WorkerID :: WorkerID
  l_AttemptID :: AttemptID
  l_ExpiresAt :: time

definition LeaseExpired :: "Lease \<Rightarrow> time \<Rightarrow> bool" where
  "LeaseExpired l tm \<longleftrightarrow> \<not> tm < l_ExpiresAt l"

text \<open>
  \<^verbatim>\<open>Attempt\<close> without its lease is a row of \<^verbatim>\<open>job_attempts\<close>; the domain value adds the lease.
\<close>

record AttemptCore =
  at_ID :: AttemptID
  at_JobID :: JobID
  at_Number :: nat
  at_State :: AttemptState
  at_WorkerID :: WorkerID
  at_SandboxID :: SandboxID
  at_Failure :: "Failure option"
  at_StartedAt :: "time option"
  at_EndedAt :: "time option"

record Attempt = AttemptCore +
  at_Lease :: Lease

record Event =
  e_ID :: EventID
  e_Sequence :: nat
  e_Type :: string
  e_JobID :: JobID
  e_AttemptID :: AttemptID
  e_OccurredAt :: time
  e_Data :: strmap
  e_WorkerSequence :: nat
  e_IdempotencyKey :: string

abbreviation EventJobTransition :: string where "EventJobTransition \<equiv> ''job_transition''"
abbreviation EventAttemptTransition :: string where "EventAttemptTransition \<equiv> ''attempt_transition''"

record JobResult =
  res_JobID :: JobID
  res_AttemptID :: AttemptID
  res_StatusCode :: int
  res_Data :: string
  res_ArtifactKey :: string
  res_Metadata :: strmap
  res_CreatedAt :: time

text \<open>
  \<^verbatim>\<open>Job\<close> without its attempts and events is the part of it a row of \<^verbatim>\<open>jobs\<close> holds.
\<close>

record JobCore =
  j_ID :: JobID
  j_IdempotencyKey :: string
  j_Kind :: string
  j_Payload :: string
  j_State :: JobState
  j_Constraints :: RoutingConstraints
  j_RetryPolicy :: RetryPolicy
  j_TimeoutAt :: time
  j_SessionID :: SessionID
  j_DependsOn :: "JobID list"
  j_CreatedAt :: time
  j_UpdatedAt :: time

record Job = JobCore +
  j_Attempts :: "Attempt list"
  j_Events :: "Event list"

section \<open>Workers, sandboxes, sessions, checkpoints\<close>

record Worker =
  w_ID :: WorkerID
  w_InstanceID :: string
  w_SandboxID :: SandboxID
  w_SandboxProvider :: string
  w_SessionID :: string
  w_ReservedSessionID :: SessionID
  w_SessionEpoch :: nat
  w_SessionTokenHash :: string
  w_SessionExpiresAt :: time
  w_WorkerVersion :: string
  w_ProtocolVersion :: string
  w_Capabilities :: Capabilities
  w_MaxConcurrency :: int
  w_AvailableSlots :: int
  w_ActiveAttempts :: "AttemptID list"
  w_SandboxMetadata :: strmap
  w_Health :: strmap
  w_UpstreamStatus :: "(string \<times> UpstreamState) list"
  w_RegisteredAt :: time
  w_LastSeenAt :: time

datatype WorkerHealth = WorkerHealthy | WorkerSuspect | WorkerDead

fun show_WorkerHealth :: "WorkerHealth \<Rightarrow> string" where
  "show_WorkerHealth WorkerHealthy = ''healthy''"
| "show_WorkerHealth WorkerSuspect = ''suspect''"
| "show_WorkerHealth WorkerDead = ''dead''"

record Sandbox =
  b_ID :: SandboxID
  b_WorkerID :: WorkerID
  b_Provider :: string
  b_ExternalID :: string
  b_Capabilities :: Capabilities
  b_State :: string
  b_CreatedAt :: time
  b_UpdatedAt :: time
  b_DrainAt :: time
  b_ReservedSessionID :: SessionID

record RebuildStep =
  rs_Kind :: string
  rs_Payload :: string
  rs_IdempotencyKey :: string

record Session =
  s_ID :: SessionID
  s_Pool :: string
  s_Capabilities :: Capabilities
  s_PreferredProvider :: string
  s_Labels :: strmap
  s_SandboxID :: SandboxID
  s_WorkerID :: WorkerID
  s_State :: SessionState
  s_IdleTTL :: duration
  s_MaxLifetime :: duration
  s_CreatedAt :: time
  s_LastActivity :: time
  s_IdleExpiresAt :: time
  s_ClosedAt :: time
  s_Failure :: "Failure option"
  s_RecoveryPolicy :: RecoveryPolicy
  s_CheckpointMode :: CheckpointMode
  s_RebuildPlan :: "RebuildStep list"
  s_Epoch :: nat
  s_RecoveryState :: RecoveryState
  s_RecoveryAttempts :: int
  s_RecoveryAfter :: time
  s_RecoveryError :: string
  s_LatestCheckpointID :: string
  s_RestoreAcknowledged :: bool

record RecoveryEvent =
  re_ID :: string
  re_SessionID :: SessionID
  re_Epoch :: nat
  re_Stage :: string
  re_Message :: string
  re_OccurredAt :: time

record Checkpoint =
  c_ID :: string
  c_SessionID :: SessionID
  c_Epoch :: nat
  c_Sequence :: nat
  c_Adapter :: string
  c_Location :: string
  c_Checksum :: string
  c_Size :: int
  c_State :: string
  c_CreatedAt :: time
  c_ExpiresAt :: time
  c_Error :: string

section \<open>Go zero values\<close>

text \<open>The value of a struct literal with no field set (\<^verbatim>\<open>domain.Job{}\<close> and its like).\<close>

definition zero_Capabilities :: Capabilities where
  "zero_Capabilities = \<lparr>cap_Capabilities = [], cap_Labels = [], cap_Architecture = '''',
     cap_Region = '''', cap_ExecutorKinds = [], cap_Upstreams = []\<rparr>"

definition zero_RoutingConstraints :: RoutingConstraints where
  "zero_RoutingConstraints = \<lparr>rc_Capabilities = [], rc_Labels = [], rc_Architecture = '''',
     rc_Region = '''', rc_ExecutorKind = '''', rc_RequiredUpstream = '''', rc_PreferredRegion = '''',
     rc_PreferredSandbox = '''', rc_PreferredProvider = '''', rc_MaxCost = None\<rparr>"

definition zero_RetryPolicy :: RetryPolicy where
  "zero_RetryPolicy = \<lparr>rp_MaxAttempts = 0, rp_Backoff = 0, rp_MaxBackoff = 0, rp_MaxElapsed = 0\<rparr>"

definition zero_Lease :: Lease where
  "zero_Lease = \<lparr>l_ID = '''', l_WorkerID = '''', l_AttemptID = '''', l_ExpiresAt = 0\<rparr>"

definition zero_Job :: Job where
  "zero_Job = \<lparr>j_ID = '''', j_IdempotencyKey = '''', j_Kind = '''', j_Payload = '''',
     j_State = JobQueued, j_Constraints = zero_RoutingConstraints, j_RetryPolicy = zero_RetryPolicy,
     j_TimeoutAt = 0, j_SessionID = '''', j_DependsOn = [], j_CreatedAt = 0, j_UpdatedAt = 0,
     j_Attempts = [], j_Events = []\<rparr>"

definition zero_Event :: Event where
  "zero_Event = \<lparr>e_ID = '''', e_Sequence = 0, e_Type = '''', e_JobID = '''', e_AttemptID = '''',
     e_OccurredAt = 0, e_Data = [], e_WorkerSequence = 0, e_IdempotencyKey = ''''\<rparr>"

definition zero_Worker :: Worker where
  "zero_Worker = \<lparr>w_ID = '''', w_InstanceID = '''', w_SandboxID = '''', w_SandboxProvider = '''',
     w_SessionID = '''', w_ReservedSessionID = '''', w_SessionEpoch = 0, w_SessionTokenHash = '''',
     w_SessionExpiresAt = 0, w_WorkerVersion = '''', w_ProtocolVersion = '''',
     w_Capabilities = zero_Capabilities, w_MaxConcurrency = 0, w_AvailableSlots = 0,
     w_ActiveAttempts = [], w_SandboxMetadata = [], w_Health = [], w_UpstreamStatus = [],
     w_RegisteredAt = 0, w_LastSeenAt = 0\<rparr>"

definition zero_Sandbox :: Sandbox where
  "zero_Sandbox = \<lparr>b_ID = '''', b_WorkerID = '''', b_Provider = '''', b_ExternalID = '''',
     b_Capabilities = zero_Capabilities, b_State = '''', b_CreatedAt = 0, b_UpdatedAt = 0,
     b_DrainAt = 0, b_ReservedSessionID = ''''\<rparr>"

definition zero_Session :: Session where
  "zero_Session = \<lparr>s_ID = '''', s_Pool = '''', s_Capabilities = zero_Capabilities,
     s_PreferredProvider = '''', s_Labels = [], s_SandboxID = '''', s_WorkerID = '''',
     s_State = SessionUnset, s_IdleTTL = 0, s_MaxLifetime = 0, s_CreatedAt = 0, s_LastActivity = 0,
     s_IdleExpiresAt = 0, s_ClosedAt = 0, s_Failure = None, s_RecoveryPolicy = PolicyUnset,
     s_CheckpointMode = ModeUnset, s_RebuildPlan = [], s_Epoch = 0, s_RecoveryState = RecoveryUnset,
     s_RecoveryAttempts = 0, s_RecoveryAfter = 0, s_RecoveryError = '''', s_LatestCheckpointID = '''',
     s_RestoreAcknowledged = False\<rparr>"

definition zero_Checkpoint :: Checkpoint where
  "zero_Checkpoint = \<lparr>c_ID = '''', c_SessionID = '''', c_Epoch = 0, c_Sequence = 0, c_Adapter = '''',
     c_Location = '''', c_Checksum = '''', c_Size = 0, c_State = '''', c_CreatedAt = 0, c_ExpiresAt = 0,
     c_Error = ''''\<rparr>"

section \<open>Errors\<close>

datatype ErrorCode =
    ErrInvalidTransition | ErrTerminalState | ErrActiveAttempt | ErrAttemptNumber
  | ErrAttemptNotFound | ErrEventSequence | ErrInvalidValue

datatype DomainError =
    DomainErrorV ErrorCode string string
  | JobTransitionError JobState JobState ErrorCode
  | AttemptTransitionError AttemptState AttemptState ErrorCode

section \<open>State machines\<close>

definition CanTransition :: "JobState \<Rightarrow> JobState \<Rightarrow> bool" where
  "CanTransition from to =
    (if JobTerminal from \<or> from = to then False
     else case from of
       JobWaiting \<Rightarrow> to = JobQueued \<or> to = JobCanceled \<or> to = JobDependencyFailed
         \<or> to = JobSessionLost \<or> to = JobTimedOut
     | JobQueued \<Rightarrow> to = JobLeased \<or> to = JobCanceled \<or> to = JobTimedOut
         \<or> to = JobDependencyFailed \<or> to = JobSessionLost
     | JobLeased \<Rightarrow> to = JobRunning \<or> to = JobQueued \<or> to = JobCanceled \<or> to = JobTimedOut
         \<or> to = JobSessionLost
     | JobRunning \<Rightarrow> to = JobSucceeded \<or> to = JobFailed \<or> to = JobQueued \<or> to = JobCanceled
         \<or> to = JobTimedOut \<or> to = JobSessionLost
     | _ \<Rightarrow> False)"

definition CanAttemptTransition :: "AttemptState \<Rightarrow> AttemptState \<Rightarrow> bool" where
  "CanAttemptTransition from to =
    (if AttemptTerminal from \<or> from = to then False
     else case from of
       AttemptLeased \<Rightarrow> to = AttemptRunning \<or> to = AttemptSucceeded \<or> to = AttemptFailed
         \<or> to = AttemptCanceled \<or> to = AttemptExpired \<or> to = AttemptLost
     | AttemptRunning \<Rightarrow> to = AttemptSucceeded \<or> to = AttemptFailed \<or> to = AttemptCanceled
         \<or> to = AttemptExpired \<or> to = AttemptLost
     | _ \<Rightarrow> False)"

definition Transition :: "JobState \<Rightarrow> Job \<Rightarrow> DomainError + Job" where
  "Transition to j =
    (if \<not> CanTransition (j_State j) to
     then Inl (JobTransitionError (j_State j) to
            (if JobTerminal (j_State j) then ErrTerminalState else ErrInvalidTransition))
     else Inr (j\<lparr>j_State := to\<rparr>))"

definition AddAttempt :: "Attempt \<Rightarrow> Job \<Rightarrow> DomainError + Job" where
  "AddAttempt attempt j =
    (if JobTerminal (j_State j)
     then Inl (DomainErrorV ErrTerminalState ''job'' ''cannot add an attempt to a terminal job'')
     else if list_ex (\<lambda>existing. AttemptActive (at_State existing)) (j_Attempts j)
     then Inl (DomainErrorV ErrActiveAttempt ''job'' ''an active attempt already exists'')
     else
       let want = (if j_Attempts j \<noteq> [] then at_Number (last (j_Attempts j)) + 1 else 1) in
       if at_Number attempt \<noteq> want
       then Inl (DomainErrorV ErrAttemptNumber ''attempt'' ''attempt number must be the next monotonic number'')
       else if at_State attempt \<noteq> AttemptLeased
       then Inl (DomainErrorV ErrInvalidValue ''attempt'' ''new attempts must start leased'')
       else if l_AttemptID (at_Lease attempt) \<noteq> at_ID attempt
       then Inl (DomainErrorV ErrInvalidValue ''lease'' ''lease attempt ID must match attempt ID'')
       else Inr (j\<lparr>j_Attempts := j_Attempts j @ [attempt]\<rparr>))"

fun transition_attempts ::
  "AttemptID \<Rightarrow> AttemptState \<Rightarrow> Failure option \<Rightarrow> time \<Rightarrow> Attempt list \<Rightarrow> DomainError + Attempt list"
where
  "transition_attempts i to failure tm [] =
     Inl (DomainErrorV ErrAttemptNotFound ''attempt'' ''attempt does not belong to job'')"
| "transition_attempts i to failure tm (attempt # rest) =
    (if at_ID attempt \<noteq> i
     then rbind (transition_attempts i to failure tm rest) (\<lambda>rest'. Inr (attempt # rest'))
     else if \<not> CanAttemptTransition (at_State attempt) to
     then Inl (AttemptTransitionError (at_State attempt) to
            (if AttemptTerminal (at_State attempt) then ErrTerminalState else ErrInvalidTransition))
     else
       let a1 = attempt\<lparr>at_State := to\<rparr>;
           a2 = (if to = AttemptRunning then a1\<lparr>at_StartedAt := Some tm\<rparr> else a1);
           a3 = (if AttemptTerminal to then a2\<lparr>at_EndedAt := Some tm, at_Failure := failure\<rparr> else a2)
       in Inr (a3 # rest))"

definition TransitionAttempt ::
  "AttemptID \<Rightarrow> AttemptState \<Rightarrow> Failure option \<Rightarrow> time \<Rightarrow> Job \<Rightarrow> DomainError + Job"
where
  "TransitionAttempt i to failure tm j =
     rbind (transition_attempts i to failure tm (j_Attempts j)) (\<lambda>as. Inr (j\<lparr>j_Attempts := as\<rparr>))"

definition AppendEvent :: "Event \<Rightarrow> Job \<Rightarrow> DomainError + Job" where
  "AppendEvent event j =
    (let want = (if j_Events j \<noteq> [] then e_Sequence (last (j_Events j)) + 1 else 1) in
     if e_Sequence event \<noteq> want
     then Inl (DomainErrorV ErrEventSequence ''event'' ''event sequence must be contiguous and increasing'')
     else if e_JobID event \<noteq> j_ID j
     then Inl (DomainErrorV ErrInvalidValue ''event'' ''event job ID must match job ID'')
     else Inr (j\<lparr>j_Events := j_Events j @ [event]\<rparr>))"

definition TimedOut :: "time \<Rightarrow> Job \<Rightarrow> bool" where
  "TimedOut tm j \<longleftrightarrow> j_TimeoutAt j \<noteq> 0 \<and> \<not> tm < j_TimeoutAt j"

section \<open>The job as a state machine\<close>

text \<open>Steps of one in-memory job: the four mutating methods of \<^verbatim>\<open>*Job\<close>, when they succeed.\<close>

inductive job_step :: "Job \<Rightarrow> Job \<Rightarrow> bool" where
  step_transition: "Transition to j = Inr j' \<Longrightarrow> job_step j j'"
| step_add_attempt: "AddAttempt a j = Inr j' \<Longrightarrow> job_step j j'"
| step_attempt: "TransitionAttempt i to f tm j = Inr j' \<Longrightarrow> job_step j j'"
| step_event: "AppendEvent e j = Inr j' \<Longrightarrow> job_step j j'"

text \<open>
  What the methods promise together: attempts are numbered 1, 2, ..., at most one is active, and
  the events are numbered 1, 2, ... and belong to the job.
\<close>

definition job_wf :: "Job \<Rightarrow> bool" where
  "job_wf j \<longleftrightarrow>
     map at_Number (j_Attempts j) = [1..<Suc (length (j_Attempts j))]
   \<and> length (filter (\<lambda>a. AttemptActive (at_State a)) (j_Attempts j)) \<le> 1
   \<and> map e_Sequence (j_Events j) = [1..<Suc (length (j_Events j))]
   \<and> list_all (\<lambda>e. e_JobID e = j_ID j) (j_Events j)"

inductive_cases job_stepE: "job_step j j'"

section \<open>Lemmas\<close>

lemma contains_iff [simp]: "contains xs x \<longleftrightarrow> x \<in> set xs"
  by (induction xs) auto

lemma Satisfies_iff:
  "Satisfies c r \<longleftrightarrow>
     set (rc_Capabilities r) \<subseteq> set (cap_Capabilities c)
   \<and> (rc_Architecture r = '''' \<or> rc_Architecture r = cap_Architecture c)
   \<and> (rc_Region r = '''' \<or> rc_Region r = cap_Region c)
   \<and> (rc_ExecutorKind r = '''' \<or> rc_ExecutorKind r \<in> set (cap_ExecutorKinds c))
   \<and> (rc_RequiredUpstream r = '''' \<or> rc_RequiredUpstream r \<in> set (cap_Upstreams c))
   \<and> (\<forall>(k, v) \<in> set (rc_Labels r). get_str (cap_Labels c) k = v)"
  by (auto simp: Satisfies_def list_all_iff)

lemma Terminal_not_Active: "AttemptTerminal s \<longleftrightarrow> \<not> AttemptActive s"
  by (cases s) auto

lemma CanAttemptTransition_from: "CanAttemptTransition s t \<Longrightarrow> AttemptActive s \<and> s \<noteq> t"
  by (cases s) (auto simp: CanAttemptTransition_def)

lemma CanAttemptTransition_terminal:
  "AttemptTerminal t \<Longrightarrow> CanAttemptTransition s t \<longleftrightarrow> AttemptActive s"
  by (cases s; cases t) (auto simp: CanAttemptTransition_def)

lemma CanTransition_from: "CanTransition s t \<Longrightarrow> \<not> JobTerminal s \<and> s \<noteq> t"
  by (auto simp: CanTransition_def split: if_splits)

lemma transition_attempts_numbers:
  "transition_attempts i to f tm as = Inr as' \<Longrightarrow> map at_Number as' = map at_Number as"
  by (induction as arbitrary: as') (auto split: if_splits simp: Let_def)

lemma transition_attempts_active:
  "transition_attempts i to f tm as = Inr as' \<Longrightarrow>
    length (filter (\<lambda>a. AttemptActive (at_State a)) as')
      \<le> length (filter (\<lambda>a. AttemptActive (at_State a)) as)"
  by (induction as arbitrary: as')
    (auto split: if_splits simp: Let_def dest!: CanAttemptTransition_from)

lemma length_transition_attempts:
  "transition_attempts i to f tm as = Inr as' \<Longrightarrow> length as' = length as"
  by (metis transition_attempts_numbers length_map)

lemma numbered_last:
  assumes "map f xs = [1..<Suc (length xs)]" and "xs \<noteq> []"
  shows "f (last xs) = length xs"
proof -
  have "f (last xs) = last (map f xs)" using assms(2) by (simp add: last_map)
  also have "\<dots> = last [1..<Suc (length xs)]" by (simp only: assms(1))
  also have "\<dots> = length xs" using assms(2) by (simp add: last_upt Suc_le_eq)
  finally show ?thesis .
qed

lemma numbered_snoc:
  assumes "map f xs = [1..<Suc (length xs)]"
    and "f x = (if xs \<noteq> [] then f (last xs) + 1 else 1)"
  shows "map f (xs @ [x]) = [1..<Suc (length (xs @ [x]))]"
proof -
  have "f x = Suc (length xs)"
    using assms numbered_last [of f xs] by (auto split: if_splits)
  then show ?thesis using assms(1) by simp
qed

lemma Transition_wf: "job_wf j \<Longrightarrow> Transition to j = Inr j' \<Longrightarrow> job_wf j'"
  by (auto simp: Transition_def job_wf_def split: if_splits)

lemma AddAttempt_wf:
  assumes "job_wf j" and "AddAttempt a j = Inr j'"
  shows "job_wf j'"
proof -
  from assms(2) have j': "j' = j\<lparr>j_Attempts := j_Attempts j @ [a]\<rparr>"
    and none: "\<forall>b\<in>set (j_Attempts j). \<not> AttemptActive (at_State b)"
    and num: "at_Number a = (if j_Attempts j \<noteq> [] then at_Number (last (j_Attempts j)) + 1 else 1)"
    by (auto simp: AddAttempt_def Let_def list_ex_iff split: if_splits)
  from assms(1) num have "map at_Number (j_Attempts j @ [a]) = [1..<Suc (length (j_Attempts j @ [a]))]"
    by (intro numbered_snoc) (auto simp: job_wf_def)
  moreover have "filter (\<lambda>b. AttemptActive (at_State b)) (j_Attempts j) = []"
    using none by (simp add: filter_empty_conv)
  ultimately show ?thesis using assms(1) by (simp add: j' job_wf_def)
qed

lemma TransitionAttempt_wf:
  assumes "job_wf j" and "TransitionAttempt i to f tm j = Inr j'"
  shows "job_wf j'"
proof -
  from assms(2) obtain as where as: "transition_attempts i to f tm (j_Attempts j) = Inr as"
    and j': "j' = j\<lparr>j_Attempts := as\<rparr>"
    by (auto simp: TransitionAttempt_def)
  show ?thesis
    using assms(1) transition_attempts_numbers [OF as] transition_attempts_active [OF as]
      length_transition_attempts [OF as]
    by (simp add: j' job_wf_def)
qed

lemma AppendEvent_wf:
  assumes "job_wf j" and "AppendEvent e j = Inr j'"
  shows "job_wf j'"
proof -
  from assms(2) have j': "j' = j\<lparr>j_Events := j_Events j @ [e]\<rparr>" and "e_JobID e = j_ID j"
    and num: "e_Sequence e = (if j_Events j \<noteq> [] then e_Sequence (last (j_Events j)) + 1 else 1)"
    by (auto simp: AppendEvent_def Let_def split: if_splits)
  moreover from assms(1) num
  have "map e_Sequence (j_Events j @ [e]) = [1..<Suc (length (j_Events j @ [e]))]"
    by (intro numbered_snoc) (auto simp: job_wf_def)
  ultimately show ?thesis using assms(1) by (simp add: job_wf_def)
qed

lemmas job_ops_wf = Transition_wf AddAttempt_wf TransitionAttempt_wf AppendEvent_wf

lemma job_step_wf: "job_step j j' \<Longrightarrow> job_wf j \<Longrightarrow> job_wf j'"
  by (induction rule: job_step.induct) (blast intro: job_ops_wf)+

lemma job_step_id: "job_step j j' \<Longrightarrow> j_ID j' = j_ID j"
  by (induction rule: job_step.induct)
    (auto simp: Transition_def AddAttempt_def TransitionAttempt_def AppendEvent_def Let_def
      split: if_splits)

lemma job_step_terminal:
  "job_step j j' \<Longrightarrow> JobTerminal (j_State j) \<Longrightarrow> j_State j' = j_State j \<and> length (j_Attempts j') = length (j_Attempts j)"
  by (induction rule: job_step.induct)
    (auto simp: Transition_def AddAttempt_def TransitionAttempt_def AppendEvent_def Let_def
      dest: CanTransition_from length_transition_attempts split: if_splits)

lemma job_steps_terminal:
  "job_step\<^sup>*\<^sup>* j j' \<Longrightarrow> JobTerminal (j_State j) \<Longrightarrow>
    j_State j' = j_State j \<and> length (j_Attempts j') = length (j_Attempts j)"
  by (induction rule: rtranclp_induct) (auto dest: job_step_terminal)

lemma job_steps_wf: "job_step\<^sup>*\<^sup>* j j' \<Longrightarrow> job_wf j \<Longrightarrow> job_wf j'"
  by (induction rule: rtranclp_induct) (auto dest: job_step_wf)

section \<open>Properties\<close>

text \<open>
  C1: Whatever sequence of the four mutating methods of a job succeeds, a job that starts with its
  attempts and events numbered 1, 2, ... and at most one active attempt keeps them so, and keeps its
  identity.
\<close>

theorem job_methods_keep_wf:
  assumes "job_wf j" and "job_step\<^sup>*\<^sup>* j j'"
  shows "job_wf j' \<and> j_ID j' = j_ID j"
  using assms(2,1)
  by (induction rule: rtranclp_induct) (auto dest: job_step_wf job_step_id)

definition demo_attempt :: Attempt where
  "demo_attempt = \<lparr>at_ID = ''j-1'', at_JobID = ''j'', at_Number = 1, at_State = AttemptLeased,
     at_WorkerID = ''w'', at_SandboxID = '''', at_Failure = None, at_StartedAt = None, at_EndedAt = None,
     at_Lease = zero_Lease\<lparr>l_AttemptID := ''j-1''\<rparr>\<rparr>"

theorem job_methods_keep_wf_witness:
  "job_wf zero_Job
   \<and> job_step\<^sup>*\<^sup>* zero_Job (zero_Job\<lparr>j_State := JobLeased, j_Attempts := [demo_attempt]\<rparr>)
   \<and> job_wf (zero_Job\<lparr>j_State := JobLeased, j_Attempts := [demo_attempt]\<rparr>)"
proof -
  have wf: "job_wf zero_Job" by (simp add: job_wf_def zero_Job_def)
  have "job_step zero_Job (zero_Job\<lparr>j_State := JobLeased\<rparr>)"
    by (rule step_transition [of JobLeased]) (simp add: Transition_def CanTransition_def zero_Job_def)
  moreover have "job_step (zero_Job\<lparr>j_State := JobLeased\<rparr>)
      (zero_Job\<lparr>j_State := JobLeased, j_Attempts := [demo_attempt]\<rparr>)"
    by (rule step_add_attempt [of demo_attempt])
      (simp add: AddAttempt_def demo_attempt_def zero_Job_def zero_Lease_def)
  ultimately have "job_step\<^sup>*\<^sup>* zero_Job (zero_Job\<lparr>j_State := JobLeased, j_Attempts := [demo_attempt]\<rparr>)"
    by (meson rtranclp.rtrancl_into_rtrancl rtranclp.rtrancl_refl)
  with wf show ?thesis using job_methods_keep_wf [OF wf] by blast
qed

text \<open>
  A terminal job is final: after any sequence of successful method calls its state is the same
  and no attempt has been added to it.
\<close>

theorem terminal_job_is_final:
  assumes "JobTerminal (j_State j)" and "job_step\<^sup>*\<^sup>* j j'"
  shows "j_State j' = j_State j \<and> length (j_Attempts j') = length (j_Attempts j)"
  using job_steps_terminal [OF assms(2,1)] .

theorem terminal_job_is_final_witness:
  "j_State (zero_Job\<lparr>j_State := JobFailed, j_Events := [zero_Event\<lparr>e_Sequence := 1\<rparr>]\<rparr>) = JobFailed
   \<and> job_step\<^sup>*\<^sup>* (zero_Job\<lparr>j_State := JobFailed\<rparr>)
        (zero_Job\<lparr>j_State := JobFailed, j_Events := [zero_Event\<lparr>e_Sequence := 1\<rparr>]\<rparr>)"
proof -
  have t: "JobTerminal (j_State (zero_Job\<lparr>j_State := JobFailed\<rparr>))" by simp
  have "job_step (zero_Job\<lparr>j_State := JobFailed\<rparr>)
      (zero_Job\<lparr>j_State := JobFailed, j_Events := [zero_Event\<lparr>e_Sequence := 1\<rparr>]\<rparr>)"
    by (rule step_event [of "zero_Event\<lparr>e_Sequence := 1\<rparr>"])
      (simp add: AppendEvent_def zero_Job_def zero_Event_def)
  then have "job_step\<^sup>*\<^sup>* (zero_Job\<lparr>j_State := JobFailed\<rparr>)
      (zero_Job\<lparr>j_State := JobFailed, j_Events := [zero_Event\<lparr>e_Sequence := 1\<rparr>]\<rparr>)" by blast
  with terminal_job_is_final [OF t this] show ?thesis by simp
qed

end
