(* ===== verification/SR_Schema.thy ===== *)
theory SR_Schema
  imports SR_Domain
begin

text \<open>
  The relational store behind \<^verbatim>\<open>internal/store/sqlite\<close>: the tables of the migrations, the constraint
  checks SQLite makes on an INSERT (primary keys, UNIQUE columns and partial UNIQUE indexes, foreign
  keys), the error mapping of \<^verbatim>\<open>mapErr\<close>, transactions, and the row readers.

  A table is the list of its rows in insertion order. JSON columns hold the decoded value (the store
  encodes and decodes them with \<^verbatim>\<open>encoding/json\<close> on every write and read). An error inside a
  transaction leaves the database as it was, since every transaction has a deferred rollback; an
  operation made of several statements without a transaction returns the database it reached.
  Failures of the disk or the driver are not modelled.
\<close>

section \<open>Tables\<close>

record JobRow = JobCore +
  jr_NextAttemptAt :: "time option"

record TokenRow =
  t_TokenHash :: string
  t_SandboxID :: SandboxID
  t_SandboxProvider :: string
  t_Pool :: string
  t_CapabilityHash :: string
  t_ExpiresAt :: time
  t_ConsumedAt :: "time option"

record DB =
  db_jobs :: "JobRow list"
  db_attempts :: "AttemptCore list"
  db_leases :: "Lease list"
  db_events :: "Event list"
  db_results :: "JobResult list"
  db_workers :: "Worker list"
  db_sandboxes :: "Sandbox list"
  db_sessions :: "Session list"
  db_checkpoints :: "Checkpoint list"
  db_tokens :: "TokenRow list"
  db_recovery_events :: "RecoveryEvent list"

definition empty_db :: DB where
  "empty_db = \<lparr>db_jobs = [], db_attempts = [], db_leases = [], db_events = [], db_results = [],
     db_workers = [], db_sandboxes = [], db_sessions = [], db_checkpoints = [], db_tokens = [],
     db_recovery_events = []\<rparr>"

section \<open>Errors\<close>

datatype SqlError = NoRows | UniqueViolation | ForeignKeyViolation | ScanError

datatype StoreError = ErrNotFound | ErrConflict | ErrSQL SqlError

fun mapErr :: "SqlError \<Rightarrow> StoreError" where
  "mapErr NoRows = ErrNotFound"
| "mapErr UniqueViolation = ErrConflict"
| "mapErr e = ErrSQL e"

definition mapped :: "SqlError + 'a \<Rightarrow> StoreError + 'a" where
  "mapped m = (case m of Inl e \<Rightarrow> Inl (mapErr e) | Inr x \<Rightarrow> Inr x)"

definition raw :: "SqlError + 'a \<Rightarrow> StoreError + 'a" where
  "raw m = (case m of Inl e \<Rightarrow> Inl (ErrSQL e) | Inr x \<Rightarrow> Inr x)"

text \<open>\<^verbatim>\<open>QueryRow(...).Scan\<close>: no row is an error.\<close>

definition one_row :: "'r option \<Rightarrow> SqlError + 'r" where
  "one_row m = (case m of None \<Rightarrow> Inl NoRows | Some r \<Rightarrow> Inr r)"

section \<open>Transactions and plain statement sequences\<close>

type_synonym 'a tx = "DB \<Rightarrow> StoreError + 'a \<times> DB"
type_synonym 'a op = "DB \<Rightarrow> (StoreError + 'a) \<times> DB"

definition commit :: "'a tx \<Rightarrow> 'a op" where
  "commit f s = (case f s of Inl e \<Rightarrow> (Inl e, s) | Inr (x, s') \<Rightarrow> (Inr x, s'))"

section \<open>Inserts\<close>

definition insert_job :: "JobRow \<Rightarrow> DB \<Rightarrow> SqlError + DB" where
  "insert_job r s =
    (if j_ID r \<in> j_ID ` set (db_jobs s)
        \<or> (j_IdempotencyKey r \<noteq> '''' \<and> j_IdempotencyKey r \<in> j_IdempotencyKey ` set (db_jobs s))
     then Inl UniqueViolation
     else if j_SessionID r \<noteq> '''' \<and> j_SessionID r \<notin> s_ID ` set (db_sessions s)
     then Inl ForeignKeyViolation
     else Inr (s\<lparr>db_jobs := db_jobs s @ [r]\<rparr>))"

definition insert_attempt :: "AttemptCore \<Rightarrow> DB \<Rightarrow> SqlError + DB" where
  "insert_attempt a s =
    (if at_ID a \<in> at_ID ` set (db_attempts s)
        \<or> (at_JobID a, at_Number a) \<in> (\<lambda>x. (at_JobID x, at_Number x)) ` set (db_attempts s)
        \<or> (AttemptActive (at_State a)
            \<and> (\<exists>x \<in> set (db_attempts s). at_JobID x = at_JobID a \<and> AttemptActive (at_State x)))
     then Inl UniqueViolation
     else if at_JobID a \<notin> j_ID ` set (db_jobs s)
        \<or> at_WorkerID a \<notin> w_ID ` set (db_workers s)
        \<or> (at_SandboxID a \<noteq> '''' \<and> at_SandboxID a \<notin> b_ID ` set (db_sandboxes s))
     then Inl ForeignKeyViolation
     else Inr (s\<lparr>db_attempts := db_attempts s @ [a]\<rparr>))"

definition insert_lease :: "Lease \<Rightarrow> DB \<Rightarrow> SqlError + DB" where
  "insert_lease l s =
    (if l_ID l \<in> l_ID ` set (db_leases s) \<or> l_AttemptID l \<in> l_AttemptID ` set (db_leases s)
     then Inl UniqueViolation
     else if l_WorkerID l \<notin> w_ID ` set (db_workers s) \<or> l_AttemptID l \<notin> at_ID ` set (db_attempts s)
     then Inl ForeignKeyViolation
     else Inr (s\<lparr>db_leases := db_leases s @ [l]\<rparr>))"

definition event_clash :: "Event \<Rightarrow> Event \<Rightarrow> bool" where
  "event_clash e x \<longleftrightarrow> e_ID x = e_ID e
     \<or> (e_JobID x = e_JobID e \<and> e_Sequence x = e_Sequence e)
     \<or> (e_IdempotencyKey e \<noteq> '''' \<and> e_AttemptID x = e_AttemptID e
         \<and> e_IdempotencyKey x = e_IdempotencyKey e)
     \<or> (0 < e_WorkerSequence e \<and> e_AttemptID x = e_AttemptID e
         \<and> e_WorkerSequence x = e_WorkerSequence e)"

definition insert_event :: "Event \<Rightarrow> DB \<Rightarrow> SqlError + DB" where
  "insert_event e s =
    (if list_ex (event_clash e) (db_events s) then Inl UniqueViolation
     else if e_JobID e \<notin> j_ID ` set (db_jobs s) then Inl ForeignKeyViolation
     else Inr (s\<lparr>db_events := db_events s @ [e]\<rparr>))"

text \<open>\<^verbatim>\<open>INSERT OR IGNORE\<close> skips the row on a uniqueness violation; a foreign key still fails.\<close>

definition insert_or_ignore :: "('r \<Rightarrow> DB \<Rightarrow> SqlError + DB) \<Rightarrow> 'r \<Rightarrow> DB \<Rightarrow> SqlError + DB" where
  "insert_or_ignore ins r s =
    (case ins r s of Inl UniqueViolation \<Rightarrow> Inr s | Inl e \<Rightarrow> Inl e | Inr s' \<Rightarrow> Inr s')"

definition insert_session :: "Session \<Rightarrow> DB \<Rightarrow> SqlError + DB" where
  "insert_session v s =
    (if s_ID v \<in> s_ID ` set (db_sessions s) then Inl UniqueViolation
     else Inr (s\<lparr>db_sessions := db_sessions s @ [v]\<rparr>))"

definition insert_checkpoint :: "Checkpoint \<Rightarrow> DB \<Rightarrow> SqlError + DB" where
  "insert_checkpoint c s =
    (if c_ID c \<in> c_ID ` set (db_checkpoints s)
        \<or> (c_SessionID c, c_Sequence c) \<in> (\<lambda>x. (c_SessionID x, c_Sequence x)) ` set (db_checkpoints s)
     then Inl UniqueViolation
     else if c_SessionID c \<notin> s_ID ` set (db_sessions s) then Inl ForeignKeyViolation
     else Inr (s\<lparr>db_checkpoints := db_checkpoints s @ [c]\<rparr>))"

definition insert_token :: "TokenRow \<Rightarrow> DB \<Rightarrow> SqlError + DB" where
  "insert_token t s =
    (if t_TokenHash t \<in> t_TokenHash ` set (db_tokens s) then Inl UniqueViolation
     else Inr (s\<lparr>db_tokens := db_tokens s @ [t]\<rparr>))"

definition insert_recovery_event :: "RecoveryEvent \<Rightarrow> DB \<Rightarrow> SqlError + DB" where
  "insert_recovery_event e s =
    (if re_ID e \<in> re_ID ` set (db_recovery_events s) then Inl UniqueViolation
     else if re_SessionID e \<notin> s_ID ` set (db_sessions s) then Inl ForeignKeyViolation
     else Inr (s\<lparr>db_recovery_events := db_recovery_events s @ [e]\<rparr>))"

section \<open>Updates and deletes\<close>

definition update_jobs :: "(JobRow \<Rightarrow> bool) \<Rightarrow> (JobRow \<Rightarrow> JobRow) \<Rightarrow> DB \<Rightarrow> DB" where
  "update_jobs P f s = s\<lparr>db_jobs := upd_where P f (db_jobs s)\<rparr>"

definition update_attempts :: "(AttemptCore \<Rightarrow> bool) \<Rightarrow> (AttemptCore \<Rightarrow> AttemptCore) \<Rightarrow> DB \<Rightarrow> DB" where
  "update_attempts P f s = s\<lparr>db_attempts := upd_where P f (db_attempts s)\<rparr>"

definition update_leases :: "(Lease \<Rightarrow> bool) \<Rightarrow> (Lease \<Rightarrow> Lease) \<Rightarrow> DB \<Rightarrow> DB" where
  "update_leases P f s = s\<lparr>db_leases := upd_where P f (db_leases s)\<rparr>"

definition delete_leases :: "(Lease \<Rightarrow> bool) \<Rightarrow> DB \<Rightarrow> DB" where
  "delete_leases P s = s\<lparr>db_leases := del_where P (db_leases s)\<rparr>"

definition update_workers :: "(Worker \<Rightarrow> bool) \<Rightarrow> (Worker \<Rightarrow> Worker) \<Rightarrow> DB \<Rightarrow> DB" where
  "update_workers P f s = s\<lparr>db_workers := upd_where P f (db_workers s)\<rparr>"

definition update_sandboxes :: "(Sandbox \<Rightarrow> bool) \<Rightarrow> (Sandbox \<Rightarrow> Sandbox) \<Rightarrow> DB \<Rightarrow> DB" where
  "update_sandboxes P f s = s\<lparr>db_sandboxes := upd_where P f (db_sandboxes s)\<rparr>"

definition update_sessions :: "(Session \<Rightarrow> bool) \<Rightarrow> (Session \<Rightarrow> Session) \<Rightarrow> DB \<Rightarrow> DB" where
  "update_sessions P f s = s\<lparr>db_sessions := upd_where P f (db_sessions s)\<rparr>"

definition update_checkpoints :: "(Checkpoint \<Rightarrow> bool) \<Rightarrow> (Checkpoint \<Rightarrow> Checkpoint) \<Rightarrow> DB \<Rightarrow> DB" where
  "update_checkpoints P f s = s\<lparr>db_checkpoints := upd_where P f (db_checkpoints s)\<rparr>"

definition update_tokens :: "(TokenRow \<Rightarrow> bool) \<Rightarrow> (TokenRow \<Rightarrow> TokenRow) \<Rightarrow> DB \<Rightarrow> DB" where
  "update_tokens P f s = s\<lparr>db_tokens := upd_where P f (db_tokens s)\<rparr>"

lemmas stmt_defs = update_jobs_def update_attempts_def update_leases_def delete_leases_def
  update_workers_def update_sandboxes_def update_sessions_def update_checkpoints_def update_tokens_def

section \<open>Readers\<close>

definition job_of_row :: "JobRow \<Rightarrow> Attempt list \<Rightarrow> Event list \<Rightarrow> Job" where
  "job_of_row r as es = \<lparr>j_ID = j_ID r, j_IdempotencyKey = j_IdempotencyKey r, j_Kind = j_Kind r,
     j_Payload = j_Payload r, j_State = j_State r, j_Constraints = j_Constraints r,
     j_RetryPolicy = j_RetryPolicy r, j_TimeoutAt = j_TimeoutAt r, j_SessionID = j_SessionID r,
     j_DependsOn = j_DependsOn r, j_CreatedAt = j_CreatedAt r, j_UpdatedAt = j_UpdatedAt r,
     j_Attempts = as, j_Events = es\<rparr>"

definition row_of_job :: "Job \<Rightarrow> JobRow" where
  "row_of_job j = \<lparr>j_ID = j_ID j, j_IdempotencyKey = j_IdempotencyKey j, j_Kind = j_Kind j,
     j_Payload = (if j_Payload j = '''' then ''null'' else j_Payload j),
     j_State = j_State j, j_Constraints = j_Constraints j, j_RetryPolicy = j_RetryPolicy j,
     j_TimeoutAt = j_TimeoutAt j, j_SessionID = j_SessionID j, j_DependsOn = j_DependsOn j,
     j_CreatedAt = j_CreatedAt j, j_UpdatedAt = j_UpdatedAt j, jr_NextAttemptAt = None\<rparr>"

definition attempt_of_row :: "DB \<Rightarrow> AttemptCore \<Rightarrow> Attempt" where
  "attempt_of_row s a =
    \<lparr>at_ID = at_ID a, at_JobID = at_JobID a, at_Number = at_Number a, at_State = at_State a,
     at_WorkerID = at_WorkerID a, at_SandboxID = at_SandboxID a, at_Failure = at_Failure a,
     at_StartedAt = at_StartedAt a, at_EndedAt = at_EndedAt a,
     at_Lease = (case row_by l_AttemptID (at_ID a) (db_leases s) of
        None \<Rightarrow> zero_Lease
      | Some l \<Rightarrow> \<lparr>l_ID = l_ID l, l_WorkerID = at_WorkerID a, l_AttemptID = at_ID a,
                   l_ExpiresAt = l_ExpiresAt l\<rparr>)\<rparr>"

definition getAttempt :: "AttemptID \<Rightarrow> DB \<Rightarrow> StoreError + Attempt" where
  "getAttempt i s = mapped (rbind (one_row (row_by at_ID i (db_attempts s))) (\<lambda>a. Inr (attempt_of_row s a)))"

definition listAttempts :: "JobID \<Rightarrow> DB \<Rightarrow> Attempt list" where
  "listAttempts i s =
     map (attempt_of_row s) (sort_key at_Number (filter (\<lambda>a. at_JobID a = i) (db_attempts s)))"

definition listEvents :: "JobID \<Rightarrow> nat \<Rightarrow> nat \<Rightarrow> DB \<Rightarrow> Event list" where
  "listEvents i after limit s =
     take limit (sort_key e_Sequence (filter (\<lambda>e. e_JobID e = i \<and> e_Sequence e > after) (db_events s)))"

definition GetJob :: "JobID \<Rightarrow> DB \<Rightarrow> StoreError + Job" where
  "GetJob i s = mapped (rbind (one_row (row_by j_ID i (db_jobs s)))
     (\<lambda>r. Inr (job_of_row r (listAttempts i s) (listEvents i 0 10000 s))))"

definition GetJobByIdempotencyKey :: "string \<Rightarrow> DB \<Rightarrow> StoreError + Job" where
  "GetJobByIdempotencyKey k s =
     rbind (mapped (one_row (if k = '''' then None else row_by j_IdempotencyKey k (db_jobs s))))
       (\<lambda>r. GetJob (j_ID r) s)"

definition ListEvents :: "JobID \<Rightarrow> nat \<Rightarrow> int \<Rightarrow> DB \<Rightarrow> Event list" where
  "ListEvents i after limit s = listEvents i after (if limit \<le> 0 then 100 else nat limit) s"

definition GetWorker :: "WorkerID \<Rightarrow> DB \<Rightarrow> StoreError + Worker" where
  "GetWorker i s = mapped (one_row (row_by w_ID i (db_workers s)))"

definition GetWorkerByInstanceID :: "string \<Rightarrow> DB \<Rightarrow> StoreError + Worker" where
  "GetWorkerByInstanceID k s =
     rbind (mapped (one_row (row_by w_InstanceID k (db_workers s)))) (\<lambda>w. GetWorker (w_ID w) s)"

definition ListWorkers :: "DB \<Rightarrow> Worker list" where
  "ListWorkers s = sort_key w_ID (db_workers s)"

definition getSandbox :: "SandboxID \<Rightarrow> DB \<Rightarrow> StoreError + Sandbox" where
  "getSandbox i s = mapped (one_row (row_by b_ID i (db_sandboxes s)))"

definition ListSandboxes :: "DB \<Rightarrow> Sandbox list" where
  "ListSandboxes s = sort_key b_ID (db_sandboxes s)"

definition GetSession :: "SessionID \<Rightarrow> DB \<Rightarrow> StoreError + Session" where
  "GetSession i s = mapped (one_row (row_by s_ID i (db_sessions s)))"

text \<open>No state given means every state.\<close>

definition ListSessions :: "SessionState list \<Rightarrow> DB \<Rightarrow> Session list" where
  "ListSessions states s =
     sort_key (\<lambda>v. (s_CreatedAt v, s_ID v))
       (filter (\<lambda>v. states = [] \<or> s_State v \<in> set states) (db_sessions s))"

definition ListSessionJobs :: "SessionID \<Rightarrow> DB \<Rightarrow> Job list" where
  "ListSessionJobs i s =
     map (\<lambda>r. job_of_row r (listAttempts (j_ID r) s) (listEvents (j_ID r) 0 10000 s))
       (sort_key (\<lambda>r. (j_CreatedAt r, j_ID r))
         (filter (\<lambda>r. j_SessionID r \<noteq> '''' \<and> j_SessionID r = i) (db_jobs s)))"

text \<open>\<^verbatim>\<open>CURRENT_TIMESTAMP\<close> is the argument \<open>now\<close>.\<close>

definition ListQueuedJobs :: "int \<Rightarrow> time \<Rightarrow> DB \<Rightarrow> Job list" where
  "ListQueuedJobs limit now s =
     map (\<lambda>r. job_of_row r (listAttempts (j_ID r) s) (listEvents (j_ID r) 0 10000 s))
       (take (if limit \<le> 0 then 100 else nat limit)
         (sort_key (\<lambda>r. (j_CreatedAt r, j_ID r))
           (filter (\<lambda>r. j_State r = JobQueued
              \<and> (case jr_NextAttemptAt r of None \<Rightarrow> True | Some t \<Rightarrow> t \<le> now)) (db_jobs s))))"

definition ListRecoveryEvents :: "SessionID \<Rightarrow> DB \<Rightarrow> RecoveryEvent list" where
  "ListRecoveryEvents i s =
     sort_key (\<lambda>e. (re_OccurredAt e, re_ID e)) (filter (\<lambda>e. re_SessionID e = i) (db_recovery_events s))"

text \<open>\<^verbatim>\<open>ORDER BY sequence DESC\<close>: sequences are unique within a session.\<close>

definition ListCheckpoints :: "SessionID \<Rightarrow> DB \<Rightarrow> Checkpoint list" where
  "ListCheckpoints i s =
     sort_key (\<lambda>c. - int (c_Sequence c)) (filter (\<lambda>c. c_SessionID c = i) (db_checkpoints s))"

definition ListAllCheckpoints :: "DB \<Rightarrow> Checkpoint list" where
  "ListAllCheckpoints s = sort_key (\<lambda>c. (c_SessionID c, - int (c_Sequence c))) (db_checkpoints s)"

definition next_event_sequence :: "JobID \<Rightarrow> DB \<Rightarrow> nat" where
  "next_event_sequence i s = next_number (\<lambda>e. e_JobID e = i) e_Sequence (db_events s)"

section \<open>A keyed table of the database\<close>

text \<open>
  What the operations rely on of a table: reading it after one of its own UPDATE statements gives the
  updated rows, and its key identifies a row.
\<close>

locale keyed_table =
  fixes tab :: "DB \<Rightarrow> 'r list"
    and update :: "('r \<Rightarrow> bool) \<Rightarrow> ('r \<Rightarrow> 'r) \<Rightarrow> DB \<Rightarrow> DB"
    and key :: "'r \<Rightarrow> string"
  assumes tab_update: "tab (update P f s) = upd_where P f (tab s)"
begin

lemma lookup_update:
  "(\<And>r. key (f r) = key r) \<Longrightarrow>
    row_by key k (tab (update P f s)) = map_option (\<lambda>r. if P r then f r else r) (row_by key k (tab s))"
  by (simp add: tab_update row_by_upd_where)

lemma keys_update: "(\<And>r. key (f r) = key r) \<Longrightarrow> map key (tab (update P f s)) = map key (tab s)"
  by (simp add: tab_update map_upd_where)

lemma key_set_update: "(\<And>r. key (f r) = key r) \<Longrightarrow> key ` set (tab (update P f s)) = key ` set (tab s)"
  using keys_update [of f P s] by (metis list.set_map)

lemma update_one:
  assumes "distinct (map key (tab s))" and "r \<in> set (tab s)" and "\<And>r. key (f r) = key r"
  shows "row_by key (key r) (tab (update (\<lambda>q. key q = key r) f s)) = Some (f r)"
  using lookup_update [OF assms(3), of "key r" "\<lambda>q. key q = key r" s] row_by_Some [OF assms(1,2)] by simp

lemma update_others:
  assumes "\<And>r. key (f r) = key r" and "k \<noteq> k'"
  shows "row_by key k' (tab (update (\<lambda>q. key q = k) f s)) = row_by key k' (tab s)"
proof -
  have "map_option (\<lambda>r. if key r = k then f r else r) (row_by key k' (tab s)) = row_by key k' (tab s)"
  proof (cases "row_by key k' (tab s)")
    case None
    then show ?thesis by (simp only: option.map)
  next
    case (Some r)
    then have "key r \<noteq> k" using assms(2) row_byD [OF Some] by simp
    with Some show ?thesis by simp
  qed
  with lookup_update [OF assms(1), of k' "\<lambda>q. key q = k" s] show ?thesis by simp
qed

end

section \<open>Lemmas\<close>

lemma mapped_simps [simp]: "mapped (Inl e) = Inl (mapErr e)" "mapped (Inr x) = Inr x"
  by (simp_all add: mapped_def)

lemma raw_simps [simp]: "raw (Inl e) = Inl (ErrSQL e)" "raw (Inr x) = Inr x"
  by (simp_all add: raw_def)

lemma mapped_eq_Inr [simp]: "mapped m = Inr x \<longleftrightarrow> m = Inr x"
  by (cases m) auto

lemma raw_eq_Inr [simp]: "raw m = Inr x \<longleftrightarrow> m = Inr x"
  by (cases m) auto

lemma one_row_simps [simp]: "one_row None = Inl NoRows" "one_row (Some r) = Inr r"
  by (simp_all add: one_row_def)

lemma one_row_eq_Inr [simp]: "one_row m = Inr r \<longleftrightarrow> m = Some r"
  by (cases m) auto

lemma commit_Inl: "f s = Inl e \<Longrightarrow> commit f s = (Inl e, s)"
  by (simp add: commit_def)

lemma commit_Inr: "f s = Inr (x, s') \<Longrightarrow> commit f s = (Inr x, s')"
  by (simp add: commit_def)

lemma commit_inv: "I s \<Longrightarrow> (\<And>x s'. f s = Inr (x, s') \<Longrightarrow> I s') \<Longrightarrow> I (snd (commit f s))"
  by (auto simp: commit_def split: sum.splits)

lemma insert_event_Inr:
  "insert_event e s = Inr s' \<Longrightarrow>
    s' = s\<lparr>db_events := db_events s @ [e]\<rparr> \<and> \<not> list_ex (event_clash e) (db_events s)
    \<and> e_JobID e \<in> j_ID ` set (db_jobs s)"
  by (auto simp: insert_event_def split: if_splits)

lemma insert_or_ignore_Inr:
  "insert_or_ignore ins r s = Inr s' \<Longrightarrow> s' = s \<or> ins r s = Inr s'"
  by (auto simp: insert_or_ignore_def split: sum.splits SqlError.splits)

lemma insert_or_ignore_event_Inr:
  "insert_or_ignore insert_event e s = Inr s' \<Longrightarrow>
     s' = s \<or> s' = s\<lparr>db_events := db_events s @ [e]\<rparr>"
  by (auto dest!: insert_or_ignore_Inr insert_event_Inr)

lemma insert_or_ignore_recovery_Inr:
  "insert_or_ignore insert_recovery_event e s = Inr s' \<Longrightarrow>
     s' = s \<or> s' = s\<lparr>db_recovery_events := db_recovery_events s @ [e]\<rparr>"
  by (auto dest!: insert_or_ignore_Inr simp: insert_recovery_event_def split: if_splits)

lemma next_event_sequence_fresh:
  "x \<in> set (db_events s) \<Longrightarrow> e_JobID x = i \<Longrightarrow> e_Sequence x < next_event_sequence i s"
  by (simp add: next_event_sequence_def next_number_fresh)

lemma job_of_row_simps [simp]:
  "j_ID (job_of_row r as es) = j_ID r" "j_State (job_of_row r as es) = j_State r"
  "j_SessionID (job_of_row r as es) = j_SessionID r" "j_Constraints (job_of_row r as es) = j_Constraints r"
  "j_CreatedAt (job_of_row r as es) = j_CreatedAt r" "j_DependsOn (job_of_row r as es) = j_DependsOn r"
  "j_Attempts (job_of_row r as es) = as" "j_Events (job_of_row r as es) = es"
  "j_TimeoutAt (job_of_row r as es) = j_TimeoutAt r" "j_IdempotencyKey (job_of_row r as es) = j_IdempotencyKey r"
  "j_Payload (job_of_row r as es) = j_Payload r"
  by (simp_all add: job_of_row_def)

lemma row_of_job_simps [simp]:
  "j_ID (row_of_job j) = j_ID j" "j_State (row_of_job j) = j_State j"
  "j_SessionID (row_of_job j) = j_SessionID j" "j_DependsOn (row_of_job j) = j_DependsOn j"
  "j_IdempotencyKey (row_of_job j) = j_IdempotencyKey j" "jr_NextAttemptAt (row_of_job j) = None"
  "j_Constraints (row_of_job j) = j_Constraints j"
  by (simp_all add: row_of_job_def)

lemma attempt_of_row_simps [simp]:
  "at_ID (attempt_of_row s a) = at_ID a" "at_JobID (attempt_of_row s a) = at_JobID a"
  "at_State (attempt_of_row s a) = at_State a" "at_WorkerID (attempt_of_row s a) = at_WorkerID a"
  "at_Number (attempt_of_row s a) = at_Number a" "at_SandboxID (attempt_of_row s a) = at_SandboxID a"
  by (simp_all add: attempt_of_row_def)

interpretation jobs: keyed_table db_jobs update_jobs j_ID
  by unfold_locales (simp add: update_jobs_def)

interpretation attempts: keyed_table db_attempts update_attempts at_ID
  by unfold_locales (simp add: update_attempts_def)

interpretation leases: keyed_table db_leases update_leases l_AttemptID
  by unfold_locales (simp add: update_leases_def)

interpretation workers: keyed_table db_workers update_workers w_ID
  by unfold_locales (simp add: update_workers_def)

interpretation sandboxes: keyed_table db_sandboxes update_sandboxes b_ID
  by unfold_locales (simp add: update_sandboxes_def)

interpretation sessions: keyed_table db_sessions update_sessions s_ID
  by unfold_locales (simp add: update_sessions_def)

interpretation checkpoints: keyed_table db_checkpoints update_checkpoints c_ID
  by unfold_locales (simp add: update_checkpoints_def)

interpretation tokens: keyed_table db_tokens update_tokens t_TokenHash
  by unfold_locales (simp add: update_tokens_def)

end
