(* ===== verification/SR_Jobs.thy ===== *)
theory SR_Jobs
  imports SR_Schema
begin

text \<open>
  The job operations of \<^verbatim>\<open>internal/store/sqlite\<close>: submission with dependencies, cancellation, the
  propagation of a failed dependency to everything downstream of it, the event log and the results.

  The recursive common table expression of \<^verbatim>\<open>propagateDependencyFailure\<close> is modelled by the queue
  algorithm SQLite documents for it: rows wait in a queue, the head is joined with the recursive
  select, and rows not seen before (\<^verbatim>\<open>UNION\<close>) are appended.
\<close>

section \<open>Statements shared by several operations\<close>

definition commit0 :: "(DB \<Rightarrow> StoreError + DB) \<Rightarrow> unit op" where
  "commit0 f = commit (\<lambda>s. rbind (f s) (\<lambda>s'. Inr ((), s')))"

definition pending :: "JobState \<Rightarrow> bool" where
  "pending st \<longleftrightarrow> st = JobWaiting \<or> st = JobQueued"

definition active_attempt :: "JobID \<Rightarrow> DB \<Rightarrow> AttemptCore option" where
  "active_attempt i s = find (\<lambda>a. at_JobID a = i \<and> AttemptActive (at_State a)) (db_attempts s)"

definition owned_attempt :: "AttemptID \<Rightarrow> WorkerID \<Rightarrow> DB \<Rightarrow> AttemptCore option" where
  "owned_attempt i w s = find (\<lambda>a. at_ID a = i \<and> at_WorkerID a = w) (db_attempts s)"

definition end_attempt :: "AttemptID \<Rightarrow> AttemptState \<Rightarrow> Failure option \<Rightarrow> time \<Rightarrow> DB \<Rightarrow> DB" where
  "end_attempt i st f tm = update_attempts (\<lambda>a. at_ID a = i)
     (\<lambda>a. a\<lparr>at_State := st, at_Failure := f, at_EndedAt := Some tm\<rparr>)"

definition release_slot :: "WorkerID \<Rightarrow> DB \<Rightarrow> DB" where
  "release_slot w = update_workers (\<lambda>x. w_ID x = w)
     (\<lambda>x. x\<lparr>w_AvailableSlots := min (w_MaxConcurrency x) (w_AvailableSlots x + 1)\<rparr>)"

section \<open>Submission\<close>

fun validate_deps :: "JobID \<Rightarrow> SessionID \<Rightarrow> JobID list \<Rightarrow> JobID list \<Rightarrow> DB \<Rightarrow> StoreError + unit" where
  "validate_deps self sid seen [] s = Inr ()"
| "validate_deps self sid seen (i # is) s =
    (if i = self \<or> i \<in> set seen then Inl ErrConflict
     else case row_by j_ID i (db_jobs s) of
       None \<Rightarrow> Inl ErrNotFound
     | Some r \<Rightarrow> if j_SessionID r \<noteq> sid then Inl ErrConflict
                 else validate_deps self sid (i # seen) is s)"

definition validateDependencies :: "Job \<Rightarrow> DB \<Rightarrow> StoreError + unit" where
  "validateDependencies j s =
    rbind (validate_deps (j_ID j) (j_SessionID j) [] (j_DependsOn j) s) (\<lambda>_.
      if j_SessionID j \<noteq> '''' then
        rbind (mapped (one_row (row_by s_ID (j_SessionID j) (db_sessions s)))) (\<lambda>v.
          if SessionTerminal (s_State v) \<or> s_State v = SessionDraining then Inl ErrConflict else Inr ())
      else Inr ())"

text \<open>The loop over the dependencies' states; the flag is \<^verbatim>\<open>allSucceeded\<close>.\<close>

fun dependency_states :: "JobID list \<Rightarrow> bool \<Rightarrow> DB \<Rightarrow> StoreError + bool" where
  "dependency_states [] ok s = Inr ok"
| "dependency_states (i # is) ok s =
    (case row_by j_ID i (db_jobs s) of
       None \<Rightarrow> Inl ErrNotFound
     | Some r \<Rightarrow> if JobTerminal (j_State r) \<and> j_State r \<noteq> JobSucceeded then Inl ErrConflict
                 else dependency_states is (ok \<and> j_State r = JobSucceeded) s)"

text \<open>The defaults, the checks and the state the row is inserted with.\<close>

definition prepare_job :: "time \<Rightarrow> Job \<Rightarrow> DB \<Rightarrow> StoreError + Job" where
  "prepare_job now j s =
    (let j1 = j\<lparr>j_CreatedAt := (if j_CreatedAt j = 0 then now else j_CreatedAt j)\<rparr>;
         j2 = j1\<lparr>j_UpdatedAt := (if j_UpdatedAt j1 = 0 then j_CreatedAt j1 else j_UpdatedAt j1)\<rparr>;
         j3 = (if j_DependsOn j2 \<noteq> [] then j2\<lparr>j_State := JobWaiting\<rparr> else j2)
     in rbind (validateDependencies j3 s) (\<lambda>_.
          if j_DependsOn j3 \<noteq> [] then
            rbind (dependency_states (j_DependsOn j3) True s) (\<lambda>allSucceeded.
              Inr (if allSucceeded then j3\<lparr>j_State := JobQueued\<rparr> else j3))
          else Inr j3))"

definition CreateJob :: "time \<Rightarrow> Job \<Rightarrow> Job op" where
  "CreateJob now j s =
    (let fresh = (case prepare_job now j s of
          Inl e \<Rightarrow> (Inl e, s)
        | Inr j' \<Rightarrow> (case mapped (insert_job (row_of_job j') s) of
              Inr s' \<Rightarrow> (Inr j', s')
            | Inl e \<Rightarrow> if e = ErrConflict \<and> j_IdempotencyKey j \<noteq> ''''
                       then (GetJobByIdempotencyKey (j_IdempotencyKey j) s, s) else (Inl e, s)))
     in if j_IdempotencyKey j \<noteq> '''' then
          (case GetJobByIdempotencyKey (j_IdempotencyKey j) s of
             Inr old \<Rightarrow> (Inr old, s)
           | Inl e \<Rightarrow> if e \<noteq> ErrNotFound then (Inl e, s) else fresh)
        else fresh)"

section \<open>Propagation of a failed dependency\<close>

definition terminal_event_id :: "string \<Rightarrow> JobID \<Rightarrow> time \<Rightarrow> EventID" where
  "terminal_event_id reason i tm = reason @ ''-'' @ i @ ''-'' @ show_int (unix_nano tm)"

definition appendTerminalEvent :: "JobID \<Rightarrow> JobState \<Rightarrow> string \<Rightarrow> time \<Rightarrow> DB \<Rightarrow> StoreError + DB" where
  "appendTerminalEvent i st reason tm s = raw (insert_event (zero_Event\<lparr>
     e_ID := terminal_event_id reason i tm,
     e_Sequence := next_event_sequence i s, e_Type := EventJobTransition, e_JobID := i,
     e_OccurredAt := tm,
     e_Data := [(''job_state'', show_JobState st), (''reason'', reason)]\<rparr>) s)"

definition direct_dependents :: "JobRow list \<Rightarrow> JobID \<Rightarrow> JobID list" where
  "direct_dependents js x =
     map j_ID (filter (\<lambda>r. pending (j_State r) \<and> x \<in> set (j_DependsOn r)) js)"

definition unseen :: "JobRow list \<Rightarrow> JobID list \<Rightarrow> JobID \<Rightarrow> JobID list" where
  "unseen js seen x = remdups (filter (\<lambda>i. i \<notin> set seen) (direct_dependents js x))"

lemma unseen_set: "set (unseen js seen x) = set (direct_dependents js x) - set seen"
  by (auto simp: unseen_def)

lemma unseen_bound: "set (unseen js seen x) \<subseteq> j_ID ` set js - set seen"
  by (auto simp: unseen_def direct_dependents_def)

function downstream_loop :: "JobRow list \<Rightarrow> JobID list \<Rightarrow> JobID list \<Rightarrow> JobID list" where
  "downstream_loop js [] seen = seen"
| "downstream_loop js (x # queue) seen =
    downstream_loop js (queue @ unseen js seen x) (seen @ unseen js seen x)"
  by pat_completeness auto

termination
proof (relation "measures [\<lambda>(js, q, seen). card (j_ID ` set js - set seen), \<lambda>(js, q, seen). length q]",
    goal_cases)
  case (2 js x queue seen)
  show ?case
  proof (cases "unseen js seen x = []")
    case False
    then have "j_ID ` set js - set (seen @ unseen js seen x) \<subset> j_ID ` set js - set seen"
      using unseen_bound [of js seen x] by (cases "unseen js seen x") auto
    then have "card (j_ID ` set js - set (seen @ unseen js seen x)) < card (j_ID ` set js - set seen)"
      by (intro psubset_card_mono) auto
    then show ?thesis by simp
  qed simp
qed simp

definition downstream :: "JobID \<Rightarrow> DB \<Rightarrow> JobID list" where
  "downstream src s = sort (downstream_loop (db_jobs s)
     (remdups (direct_dependents (db_jobs s) src)) (remdups (direct_dependents (db_jobs s) src)))"

definition fail_dependent :: "time \<Rightarrow> JobID \<Rightarrow> DB \<Rightarrow> StoreError + DB" where
  "fail_dependent tm i s =
    appendTerminalEvent i JobDependencyFailed ''dependency_failed'' tm
      (update_jobs (\<lambda>r. j_ID r = i \<and> pending (j_State r))
        (\<lambda>r. r\<lparr>j_State := JobDependencyFailed, j_UpdatedAt := tm\<rparr>) s)"

definition propagateDependencyFailure :: "JobID \<Rightarrow> time \<Rightarrow> DB \<Rightarrow> StoreError + DB" where
  "propagateDependencyFailure src tm s = foldM (fail_dependent tm) (downstream src s) s"

section \<open>Cancellation\<close>

definition CancelJob_tx :: "JobID \<Rightarrow> time \<Rightarrow> DB \<Rightarrow> StoreError + DB" where
  "CancelJob_tx i tm s =
    (let P = (\<lambda>r. j_ID r = i \<and> \<not> JobTerminal (j_State r));
         s1 = update_jobs P
           (\<lambda>r. r\<lparr>j_State := JobCanceled, jr_NextAttemptAt := None, j_UpdatedAt := tm\<rparr>) s
     in if rows_affected P (db_jobs s) \<noteq> 1 then
          (case row_by j_ID i (db_jobs s1) of None \<Rightarrow> Inl ErrNotFound | Some _ \<Rightarrow> Inl ErrConflict)
        else
          (let attempt = active_attempt i s1;
               failure = \<lparr>f_Code = ''job_canceled'', f_Message = ''job canceled by client'',
                 f_Class = FailureNonRetryable\<rparr>;
               s2 = (case attempt of None \<Rightarrow> s1
                  | Some a \<Rightarrow> delete_leases (\<lambda>l. l_AttemptID l = at_ID a)
                      (end_attempt (at_ID a) AttemptCanceled (Some failure) tm s1))
           in rbind (propagateDependencyFailure i tm s2) (\<lambda>s3.
                raw (insert_event (zero_Event\<lparr>
                  e_ID := ''canceled-'' @ i, e_Sequence := next_event_sequence i s3,
                  e_Type := EventJobTransition, e_JobID := i,
                  e_AttemptID := (case attempt of None \<Rightarrow> '''' | Some a \<Rightarrow> at_ID a),
                  e_OccurredAt := tm,
                  e_Data := [(''job_state'', ''canceled''), (''reason'', ''client_request'')]\<rparr>) s3))))"

definition CancelJob :: "JobID \<Rightarrow> time \<Rightarrow> unit op" where
  "CancelJob i tm = commit0 (CancelJob_tx i tm)"

section \<open>Events and results\<close>

definition AppendEvent_store :: "Event \<Rightarrow> unit op" where
  "AppendEvent_store v = commit0 (\<lambda>s. mapped (insert_event v s))"

definition AppendAttemptEvent_tx :: "time \<Rightarrow> AttemptID \<Rightarrow> WorkerID \<Rightarrow> Event \<Rightarrow> Event tx" where
  "AppendAttemptEvent_tx now i w v s =
    rbind (mapped (one_row (owned_attempt i w s))) (\<lambda>a.
      if \<not> AttemptActive (at_State a) then Inl ErrConflict
      else
        (let v1 = v\<lparr>e_JobID := at_JobID a, e_AttemptID := i\<rparr>;
             old = (if e_IdempotencyKey v1 = '''' then None
                    else find (\<lambda>x. e_AttemptID x = i \<and> e_IdempotencyKey x = e_IdempotencyKey v1)
                      (db_events s))
         in case old of
              Some x \<Rightarrow> Inr (x, s)
            | None \<Rightarrow>
                (let v2 = v1\<lparr>
                       e_ID := (if e_ID v1 = '''' then ''event-'' @ i @ ''-'' @ show_int (unix_nano now)
                                else e_ID v1),
                       e_OccurredAt := (if e_OccurredAt v1 = 0 then now else e_OccurredAt v1),
                       e_Sequence := next_event_sequence (at_JobID a) s\<rparr>
                 in rbind (mapped (insert_event v2 s)) (\<lambda>s'. Inr (v2, s')))))"

definition AppendAttemptEvent :: "time \<Rightarrow> AttemptID \<Rightarrow> WorkerID \<Rightarrow> Event \<Rightarrow> Event op" where
  "AppendAttemptEvent now i w v = commit (AppendAttemptEvent_tx now i w v)"

definition upsert_result :: "JobResult \<Rightarrow> DB \<Rightarrow> DB" where
  "upsert_result r s = s\<lparr>db_results :=
     (if res_JobID r \<in> res_JobID ` set (db_results s)
      then upd_where (\<lambda>x. res_JobID x = res_JobID r) (\<lambda>_. r) (db_results s)
      else db_results s @ [r])\<rparr>"

definition SaveResult_tx :: "AttemptID \<Rightarrow> WorkerID \<Rightarrow> JobResult \<Rightarrow> DB \<Rightarrow> StoreError + DB" where
  "SaveResult_tx i w result s =
    rbind (mapped (one_row (owned_attempt i w s))) (\<lambda>a.
      if \<not> AttemptActive (at_State a) then Inl ErrConflict
      else Inr (upsert_result (result\<lparr>res_JobID := at_JobID a, res_AttemptID := i\<rparr>) s))"

definition SaveResult :: "AttemptID \<Rightarrow> WorkerID \<Rightarrow> JobResult \<Rightarrow> unit op" where
  "SaveResult i w result = commit0 (SaveResult_tx i w result)"

definition GetResult :: "JobID \<Rightarrow> DB \<Rightarrow> StoreError + JobResult" where
  "GetResult i s = mapped (one_row (row_by res_JobID i (db_results s)))"

section \<open>Specification of the propagation\<close>

text \<open>The edges of the dependency graph that end in a job which can still be failed.\<close>

definition dep_edges :: "JobRow list \<Rightarrow> (JobID \<times> JobID) set" where
  "dep_edges js = {(x, j_ID r) |x r. r \<in> set js \<and> pending (j_State r) \<and> x \<in> set (j_DependsOn r)}"

definition dep_failed :: "time \<Rightarrow> JobRow \<Rightarrow> JobRow" where
  "dep_failed tm r = r\<lparr>j_State := JobDependencyFailed, j_UpdatedAt := tm\<rparr>"

section \<open>Lemmas: downstream\<close>

lemma direct_dependents_set: "set (direct_dependents js x) = dep_edges js `` {x}"
  by (auto simp: direct_dependents_def dep_edges_def Image_def)

lemma downstream_loop_sound:
  assumes "set q \<subseteq> set seen" and "set seen \<subseteq> (dep_edges js)\<^sup>+ `` {src}"
  shows "set (downstream_loop js q seen) \<subseteq> (dep_edges js)\<^sup>+ `` {src}"
  using assms
proof (induction js q seen rule: downstream_loop.induct)
  case (2 js x q seen)
  have "set (unseen js seen x) \<subseteq> (dep_edges js)\<^sup>+ `` {src}"
    using 2(2,3) by (auto simp: unseen_set direct_dependents_set intro: trancl_into_trancl)
  with 2 show ?case by auto
qed simp

lemma downstream_loop_closed:
  assumes "set q \<subseteq> set seen" and "\<And>y. y \<in> set seen - set q \<Longrightarrow> dep_edges js `` {y} \<subseteq> set seen"
  shows "set seen \<subseteq> set (downstream_loop js q seen)
    \<and> dep_edges js `` set (downstream_loop js q seen) \<subseteq> set (downstream_loop js q seen)"
  using assms
proof (induction js q seen rule: downstream_loop.induct)
  case (2 js x q seen)
  let ?n = "unseen js seen x"
  have "dep_edges js `` {y} \<subseteq> set (seen @ ?n)" if "y \<in> set (seen @ ?n) - set (q @ ?n)" for y
  proof (cases "y = x")
    case True
    then show ?thesis by (auto simp: unseen_set direct_dependents_set)
  next
    case False
    with that have "y \<in> set seen - set (x # q)" by auto
    with 2(3) [of y] show ?thesis by auto
  qed
  with 2(1) [OF _ this] 2(2) show ?case by auto
qed auto

lemma downstream_loop_distinct:
  "distinct seen \<Longrightarrow> distinct (downstream_loop js q seen)"
proof (induction js q seen rule: downstream_loop.induct)
  case (2 js x q seen)
  have "distinct (seen @ unseen js seen x)" using "2.prems" by (auto simp: unseen_def)
  with 2 show ?case by simp
qed simp

lemma closed_trancl: "E `` {x} \<subseteq> A \<Longrightarrow> E `` A \<subseteq> A \<Longrightarrow> E\<^sup>+ `` {x} \<subseteq> A"
proof
  fix y assume "E `` {x} \<subseteq> A" "E `` A \<subseteq> A" "y \<in> E\<^sup>+ `` {x}"
  then have "(x, y) \<in> E\<^sup>+" by simp
  then show "y \<in> A" by (induction rule: trancl_induct) (use \<open>E `` {x} \<subseteq> A\<close> \<open>E `` A \<subseteq> A\<close> in auto)
qed

lemma downstream_set: "set (downstream src s) = (dep_edges (db_jobs s))\<^sup>+ `` {src}"
proof -
  let ?js = "db_jobs s" and ?q = "remdups (direct_dependents (db_jobs s) src)"
  have q: "set ?q = dep_edges ?js `` {src}" by (simp add: direct_dependents_set)
  have "set (downstream_loop ?js ?q ?q) \<subseteq> (dep_edges ?js)\<^sup>+ `` {src}"
    by (rule downstream_loop_sound) (auto simp: direct_dependents_set)
  moreover have "(dep_edges ?js)\<^sup>+ `` {src} \<subseteq> set (downstream_loop ?js ?q ?q)"
    using downstream_loop_closed [of ?q ?q ?js] q by (intro closed_trancl) auto
  ultimately show ?thesis by (simp add: downstream_def)
qed

lemma downstream_distinct: "distinct (downstream src s)"
  by (simp add: downstream_def downstream_loop_distinct)

lemma downstream_sorted: "sorted (downstream src s)"
  by (simp add: downstream_def)

lemma downstream_jobs: "i \<in> set (downstream src s) \<Longrightarrow> \<exists>r \<in> set (db_jobs s). j_ID r = i \<and> pending (j_State r)"
  by (auto simp: downstream_set dep_edges_def elim: tranclE)

section \<open>Lemmas: propagation\<close>

lemma fail_dependent_Inr:
  assumes "fail_dependent tm i s = Inr s'"
  shows "\<exists>e. s' = s\<lparr>db_jobs := upd_where (\<lambda>r. j_ID r = i \<and> pending (j_State r)) (dep_failed tm) (db_jobs s),
      db_events := db_events s @ [e]\<rparr> \<and> e_JobID e = i \<and> e_Type e = EventJobTransition
      \<and> e_Data e = [(''job_state'', ''dependency_failed''), (''reason'', ''dependency_failed'')]"
  using assms
  by (auto simp: fail_dependent_def appendTerminalEvent_def stmt_defs dep_failed_def [abs_def]
      dest!: insert_event_Inr)

lemma dep_failed_simps [simp]:
  "j_ID (dep_failed tm r) = j_ID r" "j_State (dep_failed tm r) = JobDependencyFailed"
  "j_SessionID (dep_failed tm r) = j_SessionID r" "j_DependsOn (dep_failed tm r) = j_DependsOn r"
  "j_RetryPolicy (dep_failed tm r) = j_RetryPolicy r"
  "j_IdempotencyKey (dep_failed tm r) = j_IdempotencyKey r" "j_Kind (dep_failed tm r) = j_Kind r"
  "j_Payload (dep_failed tm r) = j_Payload r" "j_Constraints (dep_failed tm r) = j_Constraints r"
  "j_TimeoutAt (dep_failed tm r) = j_TimeoutAt r" "j_CreatedAt (dep_failed tm r) = j_CreatedAt r"
  by (simp_all add: dep_failed_def)

lemma upd_where_dep_failed_twice:
  "upd_where (\<lambda>r. j_ID r \<in> set is \<and> pending (j_State r)) (dep_failed tm)
     (upd_where (\<lambda>r. j_ID r = i \<and> pending (j_State r)) (dep_failed tm) js)
   = upd_where (\<lambda>r. j_ID r \<in> set (i # is) \<and> pending (j_State r)) (dep_failed tm) js"
  by (auto simp: upd_where_def pending_def)

lemma fail_dependents_Inr:
  assumes "foldM (fail_dependent tm) is s = Inr s'"
  shows "\<exists>es. s' = s\<lparr>db_jobs := upd_where (\<lambda>r. j_ID r \<in> set is \<and> pending (j_State r)) (dep_failed tm) (db_jobs s),
      db_events := db_events s @ es\<rparr> \<and> map e_JobID es = is
      \<and> (\<forall>e \<in> set es. e_Type e = EventJobTransition
          \<and> e_Data e = [(''job_state'', ''dependency_failed''), (''reason'', ''dependency_failed'')])"
  using assms
proof (induction "is" arbitrary: s)
  case Nil
  then show ?case by (simp add: upd_where_none)
next
  case (Cons i "is")
  then obtain s1 where s1: "fail_dependent tm i s = Inr s1" "foldM (fail_dependent tm) is s1 = Inr s'"
    by (auto split: sum.splits)
  from fail_dependent_Inr [OF s1(1)] obtain e where e:
    "s1 = s\<lparr>db_jobs := upd_where (\<lambda>r. j_ID r = i \<and> pending (j_State r)) (dep_failed tm) (db_jobs s),
      db_events := db_events s @ [e]\<rparr>" "e_JobID e = i" "e_Type e = EventJobTransition"
    "e_Data e = [(''job_state'', ''dependency_failed''), (''reason'', ''dependency_failed'')]"
    by blast
  from Cons.IH [OF s1(2)] obtain es where es:
    "s' = s1\<lparr>db_jobs := upd_where (\<lambda>r. j_ID r \<in> set is \<and> pending (j_State r)) (dep_failed tm) (db_jobs s1),
      db_events := db_events s1 @ es\<rparr>" "map e_JobID es = is"
    "\<forall>e \<in> set es. e_Type e = EventJobTransition
      \<and> e_Data e = [(''job_state'', ''dependency_failed''), (''reason'', ''dependency_failed'')]"
    by blast
  show ?case
  proof (intro exI conjI)
    show "s' = s\<lparr>db_jobs := upd_where (\<lambda>r. j_ID r \<in> set (i # is) \<and> pending (j_State r)) (dep_failed tm) (db_jobs s),
      db_events := db_events s @ (e # es)\<rparr>"
      unfolding es(1) e(1) by (simp add: upd_where_dep_failed_twice)
    show "map e_JobID (e # es) = i # is" using e(2) es(2) by simp
    show "\<forall>e \<in> set (e # es). e_Type e = EventJobTransition
          \<and> e_Data e = [(''job_state'', ''dependency_failed''), (''reason'', ''dependency_failed'')]"
      using e(3,4) es(3) by (simp only: list.set ball_simps)
  qed
qed

lemma propagate_Inr:
  "propagateDependencyFailure src tm s = Inr s' \<Longrightarrow>
    \<exists>es. s' = s\<lparr>db_jobs := upd_where (\<lambda>r. (src, j_ID r) \<in> (dep_edges (db_jobs s))\<^sup>+ \<and> pending (j_State r))
        (dep_failed tm) (db_jobs s), db_events := db_events s @ es\<rparr>"
  using fail_dependents_Inr [of tm "downstream src s" s s']
  by (auto simp: propagateDependencyFailure_def downstream_set)

lemma fail_dependent_total:
  assumes "\<exists>r \<in> set (db_jobs s). j_ID r = i"
    and "terminal_event_id ''dependency_failed'' i tm \<notin> e_ID ` set (db_events s)"
  shows "\<exists>s' e. fail_dependent tm i s = Inr s' \<and> j_ID ` set (db_jobs s') = j_ID ` set (db_jobs s)
    \<and> db_events s' = db_events s @ [e] \<and> e_ID e = terminal_event_id ''dependency_failed'' i tm"
proof -
  let ?s1 = "update_jobs (\<lambda>r. j_ID r = i \<and> pending (j_State r)) (\<lambda>r. r\<lparr>j_State := JobDependencyFailed, j_UpdatedAt := tm\<rparr>) s"
  let ?e = "zero_Event\<lparr>e_ID := terminal_event_id ''dependency_failed'' i tm,
     e_Sequence := next_event_sequence i ?s1, e_Type := EventJobTransition, e_JobID := i, e_OccurredAt := tm,
     e_Data := [(''job_state'', show_JobState JobDependencyFailed), (''reason'', ''dependency_failed'')]\<rparr>"
  have ids: "j_ID ` set (db_jobs ?s1) = j_ID ` set (db_jobs s)" by (rule jobs.key_set_update) simp
  have ev: "db_events ?s1 = db_events s" by (simp add: update_jobs_def)
  have "\<not> event_clash ?e x" if "x \<in> set (db_events s)" for x
    using that assms(2) next_event_sequence_fresh [of x ?s1 i] ev
    by (auto simp: event_clash_def zero_Event_def image_iff)
  then have "\<not> list_ex (event_clash ?e) (db_events ?s1)" by (simp add: ev list_ex_iff)
  then have "fail_dependent tm i s = Inr (?s1\<lparr>db_events := db_events ?s1 @ [?e]\<rparr>)"
    using assms(1) ids by (auto simp: fail_dependent_def appendTerminalEvent_def insert_event_def)
  with ids ev show ?thesis by simp
qed

lemma fail_dependents_total:
  assumes "distinct is" and "set is \<subseteq> j_ID ` set (db_jobs s)"
    and "\<And>i. i \<in> set is \<Longrightarrow> terminal_event_id ''dependency_failed'' i tm \<notin> e_ID ` set (db_events s)"
  shows "\<exists>s'. foldM (fail_dependent tm) is s = Inr s'"
  using assms
proof (induction "is" arbitrary: s)
  case (Cons i "is")
  have "\<exists>r \<in> set (db_jobs s). j_ID r = i" using Cons.prems(2) by auto
  from fail_dependent_total [OF this Cons.prems(3)] obtain s1 e where s1: "fail_dependent tm i s = Inr s1"
    "j_ID ` set (db_jobs s1) = j_ID ` set (db_jobs s)" "db_events s1 = db_events s @ [e]"
    "e_ID e = terminal_event_id ''dependency_failed'' i tm" by auto
  have "\<exists>s'. foldM (fail_dependent tm) is s1 = Inr s'"
  proof (rule Cons.IH)
    show "distinct is" using Cons.prems(1) by simp
    show "set is \<subseteq> j_ID ` set (db_jobs s1)" using Cons.prems(2) s1(2) by simp
    fix k assume k: "k \<in> set is"
    then have "k \<noteq> i" using Cons.prems(1) by auto
    with s1(4) have "e_ID e \<noteq> terminal_event_id ''dependency_failed'' k tm" by (simp add: terminal_event_id_def)
    with k Cons.prems(3) [of k] s1(3)
    show "terminal_event_id ''dependency_failed'' k tm \<notin> e_ID ` set (db_events s1)" by auto
  qed
  with s1(1) show ?case by simp
qed simp

section \<open>Lemmas: readers and writers\<close>

lemma GetJob_Inr: "GetJob i s = Inr j \<Longrightarrow> j_ID j = i \<and> i \<in> j_ID ` set (db_jobs s)"
  by (auto simp: GetJob_def dest!: row_byD)

lemma GetJob_exists: "i \<in> j_ID ` set (db_jobs s) \<Longrightarrow> \<exists>j. GetJob i s = Inr j \<and> j_ID j = i"
proof -
  assume "i \<in> j_ID ` set (db_jobs s)"
  then obtain r where "row_by j_ID i (db_jobs s) = Some r" by (metis not_None_eq row_by_None)
  then show ?thesis by (auto simp: GetJob_def dest: row_byD)
qed

lemma prepare_job_keeps:
  "prepare_job now j s = Inr j' \<Longrightarrow> j_ID j' = j_ID j \<and> j_IdempotencyKey j' = j_IdempotencyKey j
    \<and> j_SessionID j' = j_SessionID j \<and> j_DependsOn j' = j_DependsOn j \<and> j_RetryPolicy j' = j_RetryPolicy j"
  by (auto simp: prepare_job_def Let_def split: if_splits)

lemma insert_job_Inr:
  "insert_job r s = Inr s' \<Longrightarrow> s' = s\<lparr>db_jobs := db_jobs s @ [r]\<rparr> \<and> j_ID r \<notin> j_ID ` set (db_jobs s)
    \<and> (j_IdempotencyKey r \<noteq> '''' \<longrightarrow> j_IdempotencyKey r \<notin> j_IdempotencyKey ` set (db_jobs s))"
  by (auto simp: insert_job_def split: if_splits)

lemma GetJobByIdempotencyKey_Inr:
  "GetJobByIdempotencyKey k s = Inr j \<longleftrightarrow> k \<noteq> '''' \<and>
     (\<exists>r. row_by j_IdempotencyKey k (db_jobs s) = Some r \<and> GetJob (j_ID r) s = Inr j)"
  by (auto simp: GetJobByIdempotencyKey_def split: if_splits)

text \<open>The three ways a submission can succeed.\<close>

lemma CreateJob_cases:
  assumes "CreateJob now j s = (Inr j', s')"
  obtains (existing) "GetJobByIdempotencyKey (j_IdempotencyKey j) s = Inr j'" "s' = s" "j_IdempotencyKey j \<noteq> ''''"
    | (fresh) "prepare_job now j s = Inr j'" "insert_job (row_of_job j') s = Inr s'"
        "j_IdempotencyKey j = '''' \<or> GetJobByIdempotencyKey (j_IdempotencyKey j) s = Inl ErrNotFound"
  using assms by (auto simp: CreateJob_def Let_def split: if_splits sum.splits)

lemma CreateJob_error: "CreateJob now j s = (Inl e, s') \<Longrightarrow> s' = s"
  by (auto simp: CreateJob_def Let_def split: if_splits sum.splits)

lemma owned_attemptD:
  "owned_attempt i w s = Some a \<Longrightarrow> a \<in> set (db_attempts s) \<and> at_ID a = i \<and> at_WorkerID a = w"
  by (auto simp: owned_attempt_def find_Some_iff)

lemma active_attemptD:
  "active_attempt i s = Some a \<Longrightarrow> a \<in> set (db_attempts s) \<and> at_JobID a = i \<and> AttemptActive (at_State a)"
  by (auto simp: active_attempt_def find_Some_iff)

lemma active_attempt_None:
  "active_attempt i s = None \<longleftrightarrow> (\<forall>a \<in> set (db_attempts s). at_JobID a = i \<longrightarrow> \<not> AttemptActive (at_State a))"
  by (auto simp: active_attempt_def find_None_iff)

lemma upsert_result_lookup: "row_by res_JobID (res_JobID r) (db_results (upsert_result r s)) = Some r"
proof (cases "res_JobID r \<in> res_JobID ` set (db_results s)")
  case True
  have "row_by res_JobID (res_JobID r) (upd_where (\<lambda>x. res_JobID x = res_JobID r) (\<lambda>_. r) t) = Some r"
    if "res_JobID r \<in> res_JobID ` set t" for t
    using that by (induction t) (auto simp: upd_where_def)
  with True show ?thesis by (simp add: upsert_result_def)
next
  case False
  then have "row_by res_JobID (res_JobID r) (db_results s) = None" by simp
  with False show ?thesis by (simp add: upsert_result_def row_by_append del: row_by_None)
qed

section \<open>Concrete databases\<close>

definition demo_row :: "JobID \<Rightarrow> JobState \<Rightarrow> JobID list \<Rightarrow> JobRow" where
  "demo_row i st deps = row_of_job (zero_Job\<lparr>j_ID := i, j_State := st, j_DependsOn := deps\<rparr>)"

text \<open>Three jobs in a chain, the first one leased by a worker.\<close>

definition demo_attempt :: AttemptCore where
  "demo_attempt = \<lparr>at_ID = ''a-1'', at_JobID = ''a'', at_Number = 1, at_State = AttemptLeased,
     at_WorkerID = ''w'', at_SandboxID = '''', at_Failure = None, at_StartedAt = Some 5, at_EndedAt = None\<rparr>"

definition demo_chain :: DB where
  "demo_chain = empty_db\<lparr>
     db_jobs := [demo_row ''a'' JobLeased [], demo_row ''b'' JobWaiting [''a''], demo_row ''c'' JobWaiting [''b'']],
     db_attempts := [demo_attempt],
     db_leases := [\<lparr>l_ID = ''lease-a-1'', l_WorkerID = ''w'', l_AttemptID = ''a-1'', l_ExpiresAt = 100\<rparr>],
     db_workers := [zero_Worker\<lparr>w_ID := ''w'', w_MaxConcurrency := 1\<rparr>]\<rparr>"

definition demo_submission :: Job where
  "demo_submission = zero_Job\<lparr>j_ID := ''job-1'', j_IdempotencyKey := ''key'', j_State := JobQueued\<rparr>"

section \<open>Properties\<close>

text \<open>
  C10: the recursive query of the dependency propagation returns, sorted and without duplicates,
  exactly the jobs that a chain of dependencies through waiting or queued jobs connects to the failed
  job: the queue evaluation computes the transitive closure.
\<close>

theorem downstream_transitive_closure:
  "set (downstream src s) = (dep_edges (db_jobs s))\<^sup>+ `` {src}
    \<and> sorted (downstream src s) \<and> distinct (downstream src s)"
  by (simp add: downstream_set downstream_sorted downstream_distinct)

text \<open>
  As long as the event identifiers of this instant are unused, the propagation does not fail;
  it sets every waiting or queued job downstream of the failed one to \<open>dependency_failed\<close>, changes
  no other job and no other table, and logs one transition event per failed job in order.
\<close>

theorem propagation_fails_exactly_downstream:
  assumes "\<forall>i. terminal_event_id ''dependency_failed'' i tm \<notin> e_ID ` set (db_events s)"
  shows "\<exists>es. propagateDependencyFailure src tm s = Inr (s\<lparr>
      db_jobs := upd_where (\<lambda>r. (src, j_ID r) \<in> (dep_edges (db_jobs s))\<^sup>+ \<and> pending (j_State r))
        (\<lambda>r. r\<lparr>j_State := JobDependencyFailed, j_UpdatedAt := tm\<rparr>) (db_jobs s),
      db_events := db_events s @ es\<rparr>)
    \<and> map e_JobID es = downstream src s"
proof -
  have "set (downstream src s) \<subseteq> j_ID ` set (db_jobs s)" by (auto dest: downstream_jobs)
  from fail_dependents_total [OF downstream_distinct this] assms
  obtain s' where s': "foldM (fail_dependent tm) (downstream src s) s = Inr s'" by blast
  from fail_dependents_Inr [OF s'] s' show ?thesis
    by (auto simp: propagateDependencyFailure_def downstream_set dep_failed_def [abs_def])
qed

theorem propagation_fails_exactly_downstream_witness:
  "(\<forall>i. terminal_event_id ''dependency_failed'' i 7 \<notin> e_ID ` set (db_events demo_chain))
   \<and> (\<exists>es. propagateDependencyFailure ''a'' 7 demo_chain = Inr (demo_chain\<lparr>
      db_jobs := upd_where (\<lambda>r. (''a'', j_ID r) \<in> (dep_edges (db_jobs demo_chain))\<^sup>+ \<and> pending (j_State r))
        (\<lambda>r. r\<lparr>j_State := JobDependencyFailed, j_UpdatedAt := 7\<rparr>) (db_jobs demo_chain),
      db_events := db_events demo_chain @ es\<rparr>)
    \<and> map e_JobID es = downstream ''a'' demo_chain)
   \<and> downstream ''a'' demo_chain = [''b'', ''c'']"
proof -
  have "\<forall>i. terminal_event_id ''dependency_failed'' i 7 \<notin> e_ID ` set (db_events demo_chain)"
    by (simp add: demo_chain_def empty_db_def)
  moreover note propagation_fails_exactly_downstream [OF this, of "''a''"]
  moreover have "downstream ''a'' demo_chain = [''b'', ''c'']" by code_simp
  ultimately show ?thesis by blast
qed

text \<open>
  Submission is idempotent: once a submission with an idempotency key has returned a job, any
  later submission under the same key, whatever its body, returns that job again and changes
  nothing.
\<close>

theorem create_job_idempotent:
  assumes "CreateJob now j s = (Inr j', s')" and "j_IdempotencyKey j \<noteq> ''''"
    and "j_IdempotencyKey k = j_IdempotencyKey j"
  shows "\<exists>old. CreateJob later k s' = (Inr old, s') \<and> j_ID old = j_ID j'"
proof -
  have "\<exists>old. GetJobByIdempotencyKey (j_IdempotencyKey j) s' = Inr old \<and> j_ID old = j_ID j'"
  proof (cases rule: CreateJob_cases [OF assms(1)])
    case 1
    then show ?thesis by simp
  next
    case 2
    note ins = insert_job_Inr [OF 2(2)] and keeps = prepare_job_keeps [OF 2(1)]
    then have "row_by j_IdempotencyKey (j_IdempotencyKey j) (db_jobs s') = Some (row_of_job j')"
      using assms(2) row_by_None [of j_IdempotencyKey "j_IdempotencyKey j" "db_jobs s"]
      by (simp add: row_by_append del: row_by_None)
    moreover obtain old where "GetJob (j_ID j') s' = Inr old \<and> j_ID old = j_ID j'"
      using GetJob_exists [of "j_ID j'" s'] ins by auto
    ultimately show ?thesis using assms(2) by (auto simp: GetJobByIdempotencyKey_Inr)
  qed
  then show ?thesis using assms(2,3) by (auto simp: CreateJob_def Let_def)
qed

theorem create_job_idempotent_witness:
  "\<exists>j' s' old. CreateJob 9 demo_submission empty_db = (Inr j', s')
    \<and> CreateJob 12 (demo_submission\<lparr>j_ID := ''job-2''\<rparr>) s' = (Inr old, s') \<and> j_ID old = ''job-1''"
proof -
  define r where "r = CreateJob 9 demo_submission empty_db"
  have ok: "case r of (Inr j', s') \<Rightarrow> j_ID j' = ''job-1'' | _ \<Rightarrow> False" unfolding r_def by code_simp
  then obtain j' s' where r: "r = (Inr j', s')" "j_ID j' = ''job-1''" by (auto split: prod.splits sum.splits)
  have "\<exists>old. CreateJob 12 (demo_submission\<lparr>j_ID := ''job-2''\<rparr>) s' = (Inr old, s') \<and> j_ID old = j_ID j'"
    by (rule create_job_idempotent [OF r(1) [unfolded r_def]]) (simp_all add: demo_submission_def)
  with r show ?thesis unfolding r_def by metis
qed

text \<open>
  Reporting an attempt's event is idempotent: a worker that repeats a report under its
  idempotency key gets the stored event back, whatever it sends the second time, and the log does
  not grow; a report that is new takes a sequence number above every event of its job.
\<close>

theorem attempt_event_idempotent:
  assumes "AppendAttemptEvent now i w v s = (Inr x, s')" and "e_IdempotencyKey v \<noteq> ''''"
    and "e_IdempotencyKey u = e_IdempotencyKey v"
  shows "AppendAttemptEvent later i w u s' = (Inr x, s')
    \<and> (s' = s \<or> (db_events s' = db_events s @ [x]
        \<and> (\<forall>e \<in> set (db_events s). e_JobID e = e_JobID x \<longrightarrow> e_Sequence e < e_Sequence x)))"
proof -
  from assms(1) have tx: "AppendAttemptEvent_tx now i w v s = Inr (x, s')"
    by (auto simp: AppendAttemptEvent_def commit_def split: sum.splits)
  then obtain a where a: "owned_attempt i w s = Some a" "AttemptActive (at_State a)"
    by (auto simp: AppendAttemptEvent_tx_def split: if_splits)
  let ?P = "\<lambda>x. e_AttemptID x = i \<and> e_IdempotencyKey x = e_IdempotencyKey v"
  show ?thesis
  proof (cases "find ?P (db_events s)")
    case (Some y)
    with tx a assms(2) have "x = y" "s' = s" by (auto simp: AppendAttemptEvent_tx_def Let_def)
    with Some a assms(2,3) show ?thesis
      by (simp add: AppendAttemptEvent_def AppendAttemptEvent_tx_def Let_def commit_def)
  next
    case None
    with tx a assms(2) have ins: "insert_event x s = Inr s'" "e_JobID x = at_JobID a" "?P x"
      "e_Sequence x = next_event_sequence (at_JobID a) s"
      by (auto simp: AppendAttemptEvent_tx_def Let_def)
    from insert_event_Inr [OF ins(1)] have s': "s' = s\<lparr>db_events := db_events s @ [x]\<rparr>" by blast
    have "find ?P (db_events s') = Some x" using None ins(3) by (simp add: s' find_append)
    moreover have "owned_attempt i w s' = Some a" using a by (simp add: s' owned_attempt_def)
    ultimately show ?thesis
      using a assms(2,3) ins next_event_sequence_fresh [of _ s "at_JobID a"]
      by (simp add: AppendAttemptEvent_def AppendAttemptEvent_tx_def Let_def commit_def s')
  qed
qed

theorem attempt_event_idempotent_witness:
  "\<exists>x s'. AppendAttemptEvent 9 ''a-1'' ''w'' (zero_Event\<lparr>e_IdempotencyKey := ''k''\<rparr>) demo_chain = (Inr x, s')
    \<and> AppendAttemptEvent 10 ''a-1'' ''w'' (zero_Event\<lparr>e_IdempotencyKey := ''k'', e_Type := ''log''\<rparr>) s' = (Inr x, s')
    \<and> e_Sequence x = 1"
proof -
  define r where "r = AppendAttemptEvent 9 ''a-1'' ''w'' (zero_Event\<lparr>e_IdempotencyKey := ''k''\<rparr>) demo_chain"
  have "case r of (Inr x, s') \<Rightarrow> e_Sequence x = 1 | _ \<Rightarrow> False"
    by (simp add: r_def AppendAttemptEvent_def AppendAttemptEvent_tx_def commit_def demo_chain_def
        empty_db_def owned_attempt_def demo_attempt_def zero_Event_def insert_event_def demo_row_def
        next_event_sequence_def next_number_def Let_def)
  then obtain x s' where r: "r = (Inr x, s')" "e_Sequence x = 1" by (auto split: prod.splits sum.splits)
  have "AppendAttemptEvent 10 ''a-1'' ''w'' (zero_Event\<lparr>e_IdempotencyKey := ''k'', e_Type := ''log''\<rparr>) s' = (Inr x, s')"
    using attempt_event_idempotent [OF r(1) [unfolded r_def],
        of "zero_Event\<lparr>e_IdempotencyKey := ''k'', e_Type := ''log''\<rparr>" 10] by simp
  with r show ?thesis unfolding r_def by blast
qed

end
