(* ===== verification/SR_Scheduler.thy ===== *)
theory SR_Scheduler
  imports SR_Domain
begin

text \<open>
  The placement policy of \<^verbatim>\<open>internal/scheduler/scheduler.go\<close>: the eligibility test, the score and
  the ranking. \<^verbatim>\<open>Rank\<close> also reports decisions to an observer; the model returns that log beside the
  ranking. The empty reason code of \<^verbatim>\<open>eligible\<close> is \<^term>\<open>None\<close>.
\<close>

datatype ReasonCode =
    ReasonCapability | ReasonExecutor | ReasonLabels | ReasonArchitecture | ReasonRegion
  | ReasonWorkerHealth | ReasonConcurrency | ReasonSandbox | ReasonUpstream | ReasonUpstreamCooldown
  | ReasonUpstreamBudget | ReasonCost | ReasonSelected

record Decision =
  d_JobID :: JobID
  d_Worker :: WorkerID
  d_Reason :: ReasonCode
  d_Score :: float64
  d_Chosen :: bool

record Weights =
  wt_ExactMatch :: float64
  wt_PreferredRegion :: float64
  wt_SandboxAffinity :: float64
  wt_ProviderAffinity :: float64
  wt_UpstreamHealth :: float64
  wt_WorkerLoad :: float64
  wt_QueueAge :: float64
  wt_Starvation :: float64
  wt_Cost :: float64

record Config =
  cfg_Weights :: Weights
  cfg_StarvationAfter :: duration

record Request =
  rq_Jobs :: "Job list"
  rq_Worker :: Worker
  rq_Sandbox :: Sandbox
  rq_Now :: time
  rq_Active :: int

definition zero_weights :: Weights where
  "zero_weights = \<lparr>wt_ExactMatch = 0, wt_PreferredRegion = 0, wt_SandboxAffinity = 0,
     wt_ProviderAffinity = 0, wt_UpstreamHealth = 0, wt_WorkerLoad = 0, wt_QueueAge = 0,
     wt_Starvation = 0, wt_Cost = 0\<rparr>"

definition default_weights :: Weights where
  "default_weights = \<lparr>wt_ExactMatch = 20, wt_PreferredRegion = 12, wt_SandboxAffinity = 8,
     wt_ProviderAffinity = 6, wt_UpstreamHealth = 5, wt_WorkerLoad = 5, wt_QueueAge = 1,
     wt_Starvation = 30, wt_Cost = 1\<rparr>"

definition New :: "Config \<Rightarrow> Config" where
  "New config =
    (let c1 = (if cfg_Weights config = zero_weights then config\<lparr>cfg_Weights := default_weights\<rparr> else config)
     in if cfg_StarvationAfter c1 \<le> 0 then c1\<lparr>cfg_StarvationAfter := 5 * minute\<rparr> else c1)"

definition get_upstream :: "(string \<times> UpstreamState) list \<Rightarrow> string \<Rightarrow> UpstreamState" where
  "get_upstream m k = (case map_of m k of Some u \<Rightarrow> u | None \<Rightarrow>
     \<lparr>us_State = UpstreamUnset, us_Health = 0, us_CooldownUntil = 0, us_BudgetRemaining = None,
      us_Cost = None, us_Metadata = []\<rparr>)"

definition eligible_upstream :: "Job \<Rightarrow> Request \<Rightarrow> ReasonCode option" where
  "eligible_upstream j r =
    (let w = rq_Worker r; c = j_Constraints j; up = rc_RequiredUpstream c in
     if up = '''' then None
     else if \<not> contains (cap_Upstreams (w_Capabilities w)) up
             \<or> \<not> contains (cap_Upstreams (b_Capabilities (rq_Sandbox r))) up
     then Some ReasonUpstream
     else case map_of (w_UpstreamStatus w) up of
       None \<Rightarrow> Some ReasonUpstream
     | Some u \<Rightarrow>
         if us_State u = UpstreamUnavailable \<or> us_State u = UpstreamUnset
         then Some ReasonUpstream
         else if us_State u = UpstreamCooldown
                 \<or> (us_CooldownUntil u \<noteq> 0 \<and> rq_Now r < us_CooldownUntil u)
         then Some ReasonUpstreamCooldown
         else if us_State u \<noteq> UpstreamAvailable
         then Some ReasonUpstream
         else if (case us_BudgetRemaining u of Some b \<Rightarrow> b \<le> 0 | None \<Rightarrow> False)
         then Some ReasonUpstreamBudget
         else if (case (rc_MaxCost c, us_Cost u) of (Some m, Some x) \<Rightarrow> x > m | _ \<Rightarrow> False)
         then Some ReasonCost
         else None)"

definition eligible :: "Job \<Rightarrow> Request \<Rightarrow> ReasonCode option" where
  "eligible j r =
    (let w = rq_Worker r; c = j_Constraints j; box = rq_Sandbox r;
         wc = w_Capabilities w; bc = b_Capabilities box;
         status = to_lower (get_str (w_Health w) ''status'') in
     if w_MaxConcurrency w > 0 \<and> (w_AvailableSlots w \<le> 0 \<or> rq_Active r \<ge> w_MaxConcurrency w)
     then Some ReasonConcurrency
     else if status \<noteq> '''' \<and> status \<noteq> ''ok'' \<and> status \<noteq> ''healthy'' \<and> status \<noteq> ''ready''
     then Some ReasonWorkerHealth
     else if b_ID box = '''' \<or> b_WorkerID box \<noteq> w_ID w
             \<or> (b_State box \<noteq> '''' \<and> b_State box \<noteq> ''ready'' \<and> b_State box \<noteq> ''running'')
     then Some ReasonSandbox
     else if list_ex (\<lambda>v. \<not> contains (cap_Capabilities wc) v \<or> \<not> contains (cap_Capabilities bc) v)
               (rc_Capabilities c)
     then Some ReasonCapability
     else if rc_ExecutorKind c \<noteq> '''' \<and> (\<not> contains (cap_ExecutorKinds wc) (rc_ExecutorKind c)
               \<or> \<not> contains (cap_ExecutorKinds bc) (rc_ExecutorKind c))
     then Some ReasonExecutor
     else if list_ex (\<lambda>(k, v). get_str (cap_Labels wc) k \<noteq> v \<or> get_str (cap_Labels bc) k \<noteq> v)
               (rc_Labels c)
     then Some ReasonLabels
     else if rc_Architecture c \<noteq> '''' \<and> (cap_Architecture wc \<noteq> rc_Architecture c
               \<or> cap_Architecture bc \<noteq> rc_Architecture c)
     then Some ReasonArchitecture
     else if rc_Region c \<noteq> '''' \<and> (cap_Region wc \<noteq> rc_Region c \<or> cap_Region bc \<noteq> rc_Region c)
     then Some ReasonRegion
     else eligible_upstream j r)"

definition exact :: "RoutingConstraints \<Rightarrow> Capabilities \<Rightarrow> bool" where
  "exact c a \<longleftrightarrow> length (rc_Capabilities c) = length (cap_Capabilities a)
     \<and> length (rc_Labels c) = length (cap_Labels a)
     \<and> (rc_Architecture c = '''' \<or> rc_Architecture c = cap_Architecture a)
     \<and> (rc_Region c = '''' \<or> rc_Region c = cap_Region a)"

text \<open>The terms of the score that do not depend on the job's age, and those that do.\<close>

definition static_score :: "Config \<Rightarrow> RoutingConstraints \<Rightarrow> Request \<Rightarrow> float64" where
  "static_score p c r =
    (let w = rq_Worker r; weights = cfg_Weights p in
       (if exact c (w_Capabilities w) then wt_ExactMatch weights else 0)
     + (if rc_PreferredRegion c \<noteq> '''' \<and> rc_PreferredRegion c = cap_Region (w_Capabilities w)
        then wt_PreferredRegion weights else 0)
     + (if rc_PreferredSandbox c \<noteq> '''' \<and> rc_PreferredSandbox c = w_SandboxID w
        then wt_SandboxAffinity weights else 0)
     + (if rc_PreferredProvider c \<noteq> '''' \<and> rc_PreferredProvider c = w_SandboxProvider w
        then wt_ProviderAffinity weights else 0)
     + (if rc_RequiredUpstream c \<noteq> ''''
        then wt_UpstreamHealth weights * us_Health (get_upstream (w_UpstreamStatus w) (rc_RequiredUpstream c))
        else 0)
     + (if w_MaxConcurrency w > 0
        then wt_WorkerLoad weights * of_int (w_MaxConcurrency w - rq_Active r) / of_int (w_MaxConcurrency w)
        else 0)
     - (if rc_RequiredUpstream c \<noteq> ''''
        then (case us_Cost (get_upstream (w_UpstreamStatus w) (rc_RequiredUpstream c)) of
                None \<Rightarrow> 0 | Some cost \<Rightarrow> wt_Cost weights * cost)
        else 0))"

definition age_score :: "Config \<Rightarrow> duration \<Rightarrow> float64" where
  "age_score p age =
     (if age > 0 then wt_QueueAge (cfg_Weights p) * (of_int age / of_int minute) else 0)
   + (if age \<ge> cfg_StarvationAfter p then wt_Starvation (cfg_Weights p) else 0)"

definition score :: "Config \<Rightarrow> Job \<Rightarrow> Request \<Rightarrow> float64" where
  "score p j r = static_score p (j_Constraints j) r + age_score p (time_sub (rq_Now r) (j_CreatedAt j))"

text \<open>
  The comparison function of \<^verbatim>\<open>sort.SliceStable\<close>, as a key: higher score, then earlier creation,
  then smaller identifier.
\<close>

definition rank_key :: "Config \<Rightarrow> Request \<Rightarrow> Job \<Rightarrow> float64 \<times> time \<times> JobID" where
  "rank_key p r j = (- score p j r, j_CreatedAt j, j_ID j)"

definition Ranked :: "Config \<Rightarrow> Request \<Rightarrow> Job list" where
  "Ranked p r = sort_key (rank_key p r) (filter (\<lambda>j. eligible j r = None) (rq_Jobs r))"

definition observed :: "Config \<Rightarrow> Request \<Rightarrow> Decision list" where
  "observed p r =
     concat (map (\<lambda>j. case eligible j r of None \<Rightarrow> [] | Some reason \<Rightarrow>
        [\<lparr>d_JobID = j_ID j, d_Worker = w_ID (rq_Worker r), d_Reason = reason, d_Score = 0, d_Chosen = False\<rparr>])
      (rq_Jobs r))
   @ (case Ranked p r of [] \<Rightarrow> [] | j # _ \<Rightarrow>
        [\<lparr>d_JobID = j_ID j, d_Worker = w_ID (rq_Worker r), d_Reason = ReasonSelected,
          d_Score = score p j r, d_Chosen = True\<rparr>])"

definition Rank :: "Config \<Rightarrow> Request \<Rightarrow> Job list \<times> Decision list" where
  "Rank p r = (Ranked p r, observed p r)"

section \<open>The scheduler interface\<close>

text \<open>
  \<^verbatim>\<open>scheduler.Scheduler\<close> is an interface; the store relies on what follows. A scheduler returns only
  jobs it was given, each at most as often as it was given.
\<close>

locale scheduler =
  fixes rank :: "Request \<Rightarrow> Job list"
  assumes rank_sub: "j \<in> set (rank r) \<Longrightarrow> j \<in> set (rq_Jobs r)"
begin

lemma rank_no_jobs: "rq_Jobs r = [] \<Longrightarrow> rank r = []"
  using rank_sub [of _ r] by (metis empty_set equals0D last_in_set)

end

text \<open>A scheduler that, in addition, only returns jobs both the worker and the sandbox can run.\<close>

locale routing_scheduler = scheduler +
  assumes rank_worker: "j \<in> set (rank r) \<Longrightarrow> Satisfies (w_Capabilities (rq_Worker r)) (j_Constraints j)"
    and rank_sandbox: "j \<in> set (rank r) \<Longrightarrow> Satisfies (b_Capabilities (rq_Sandbox r)) (j_Constraints j)"
    and rank_bound: "j \<in> set (rank r) \<Longrightarrow> b_WorkerID (rq_Sandbox r) = w_ID (rq_Worker r)"

section \<open>Lemmas\<close>

lemma if_Some_None: "(if P then Some a else x) = None \<longleftrightarrow> \<not> P \<and> x = None"
  by simp

lemma eligible_upstream_None:
  assumes "eligible_upstream j r = None" and "rc_RequiredUpstream (j_Constraints j) \<noteq> ''''"
  shows "rc_RequiredUpstream (j_Constraints j) \<in> set (cap_Upstreams (w_Capabilities (rq_Worker r)))"
    and "rc_RequiredUpstream (j_Constraints j) \<in> set (cap_Upstreams (b_Capabilities (rq_Sandbox r)))"
    and "\<exists>u. map_of (w_UpstreamStatus (rq_Worker r)) (rc_RequiredUpstream (j_Constraints j)) = Some u
      \<and> us_State u = UpstreamAvailable \<and> (us_CooldownUntil u = 0 \<or> us_CooldownUntil u \<le> rq_Now r)
      \<and> (\<forall>b. us_BudgetRemaining u = Some b \<longrightarrow> 0 < b)
      \<and> (\<forall>m x. rc_MaxCost (j_Constraints j) = Some m \<longrightarrow> us_Cost u = Some x \<longrightarrow> x \<le> m)"
proof -
  note facts = assms(1) [unfolded eligible_upstream_def Let_def]
  show "rc_RequiredUpstream (j_Constraints j) \<in> set (cap_Upstreams (w_Capabilities (rq_Worker r)))"
    and "rc_RequiredUpstream (j_Constraints j) \<in> set (cap_Upstreams (b_Capabilities (rq_Sandbox r)))"
    using facts assms(2) by (auto split: if_splits)
  show "\<exists>u. map_of (w_UpstreamStatus (rq_Worker r)) (rc_RequiredUpstream (j_Constraints j)) = Some u
      \<and> us_State u = UpstreamAvailable \<and> (us_CooldownUntil u = 0 \<or> us_CooldownUntil u \<le> rq_Now r)
      \<and> (\<forall>b. us_BudgetRemaining u = Some b \<longrightarrow> 0 < b)
      \<and> (\<forall>m x. rc_MaxCost (j_Constraints j) = Some m \<longrightarrow> us_Cost u = Some x \<longrightarrow> x \<le> m)"
    using facts assms(2)
    by (cases "map_of (w_UpstreamStatus (rq_Worker r)) (rc_RequiredUpstream (j_Constraints j))")
      (auto simp: not_le not_less split: if_splits option.splits)
qed

lemma eligible_None_iff:
  "eligible j r = None \<longleftrightarrow>
    (let w = rq_Worker r; c = j_Constraints j; box = rq_Sandbox r;
         wc = w_Capabilities w; bc = b_Capabilities box;
         status = to_lower (get_str (w_Health w) ''status'') in
      \<not> (w_MaxConcurrency w > 0 \<and> (w_AvailableSlots w \<le> 0 \<or> rq_Active r \<ge> w_MaxConcurrency w))
    \<and> \<not> (status \<noteq> '''' \<and> status \<noteq> ''ok'' \<and> status \<noteq> ''healthy'' \<and> status \<noteq> ''ready'')
    \<and> \<not> (b_ID box = '''' \<or> b_WorkerID box \<noteq> w_ID w
         \<or> (b_State box \<noteq> '''' \<and> b_State box \<noteq> ''ready'' \<and> b_State box \<noteq> ''running''))
    \<and> \<not> list_ex (\<lambda>v. \<not> contains (cap_Capabilities wc) v \<or> \<not> contains (cap_Capabilities bc) v)
          (rc_Capabilities c)
    \<and> \<not> (rc_ExecutorKind c \<noteq> '''' \<and> (\<not> contains (cap_ExecutorKinds wc) (rc_ExecutorKind c)
          \<or> \<not> contains (cap_ExecutorKinds bc) (rc_ExecutorKind c)))
    \<and> \<not> list_ex (\<lambda>(k, v). get_str (cap_Labels wc) k \<noteq> v \<or> get_str (cap_Labels bc) k \<noteq> v)
          (rc_Labels c)
    \<and> \<not> (rc_Architecture c \<noteq> '''' \<and> (cap_Architecture wc \<noteq> rc_Architecture c
          \<or> cap_Architecture bc \<noteq> rc_Architecture c))
    \<and> \<not> (rc_Region c \<noteq> '''' \<and> (cap_Region wc \<noteq> rc_Region c \<or> cap_Region bc \<noteq> rc_Region c))
    \<and> eligible_upstream j r = None)"
  unfolding eligible_def Let_def if_Some_None by (rule refl)

lemma eligible_None_raw:
  assumes "eligible j r = None"
  defines "w \<equiv> rq_Worker r" and "c \<equiv> j_Constraints j" and "box \<equiv> rq_Sandbox r"
  defines "wc \<equiv> w_Capabilities w" and "bc \<equiv> b_Capabilities box"
  shows "\<not> (w_MaxConcurrency w > 0 \<and> (w_AvailableSlots w \<le> 0 \<or> rq_Active r \<ge> w_MaxConcurrency w))"
    and "\<not> (b_ID box = '''' \<or> b_WorkerID box \<noteq> w_ID w
         \<or> (b_State box \<noteq> '''' \<and> b_State box \<noteq> ''ready'' \<and> b_State box \<noteq> ''running''))"
    and "\<not> list_ex (\<lambda>v. \<not> contains (cap_Capabilities wc) v \<or> \<not> contains (cap_Capabilities bc) v)
          (rc_Capabilities c)"
    and "\<not> (rc_ExecutorKind c \<noteq> '''' \<and> (\<not> contains (cap_ExecutorKinds wc) (rc_ExecutorKind c)
          \<or> \<not> contains (cap_ExecutorKinds bc) (rc_ExecutorKind c)))"
    and "\<not> list_ex (\<lambda>(k, v). get_str (cap_Labels wc) k \<noteq> v \<or> get_str (cap_Labels bc) k \<noteq> v)
          (rc_Labels c)"
    and "\<not> (rc_Architecture c \<noteq> '''' \<and> (cap_Architecture wc \<noteq> rc_Architecture c
          \<or> cap_Architecture bc \<noteq> rc_Architecture c))"
    and "\<not> (rc_Region c \<noteq> '''' \<and> (cap_Region wc \<noteq> rc_Region c \<or> cap_Region bc \<noteq> rc_Region c))"
    and "eligible_upstream j r = None"
  using assms(1) unfolding eligible_None_iff Let_def assms(2-) by - (elim conjE, assumption)+

lemma eligible_None_caps:
  assumes "eligible j r = None" and "caps \<in> {w_Capabilities (rq_Worker r), b_Capabilities (rq_Sandbox r)}"
  shows "set (rc_Capabilities (j_Constraints j)) \<subseteq> set (cap_Capabilities caps)"
    and "rc_ExecutorKind (j_Constraints j) = '''' \<or> rc_ExecutorKind (j_Constraints j) \<in> set (cap_ExecutorKinds caps)"
    and "\<forall>(k, v) \<in> set (rc_Labels (j_Constraints j)). get_str (cap_Labels caps) k = v"
    and "rc_Architecture (j_Constraints j) = '''' \<or> rc_Architecture (j_Constraints j) = cap_Architecture caps"
    and "rc_Region (j_Constraints j) = '''' \<or> rc_Region (j_Constraints j) = cap_Region caps"
proof -
  note raw = eligible_None_raw [OF assms(1)]
  from assms(2) consider "caps = w_Capabilities (rq_Worker r)" | "caps = b_Capabilities (rq_Sandbox r)"
    by blast
  note cs = this
  show "set (rc_Capabilities (j_Constraints j)) \<subseteq> set (cap_Capabilities caps)"
    by (cases rule: cs) (use raw(3) in \<open>auto simp: list_ex_iff\<close>)
  show "rc_ExecutorKind (j_Constraints j) = '''' \<or> rc_ExecutorKind (j_Constraints j) \<in> set (cap_ExecutorKinds caps)"
    by (cases rule: cs) (use raw(4) in auto)
  show "\<forall>(k, v) \<in> set (rc_Labels (j_Constraints j)). get_str (cap_Labels caps) k = v"
    by (cases rule: cs) (use raw(5) in \<open>auto simp: list_ex_iff\<close>)
  show "rc_Architecture (j_Constraints j) = '''' \<or> rc_Architecture (j_Constraints j) = cap_Architecture caps"
    by (cases rule: cs) (use raw(6) in auto)
  show "rc_Region (j_Constraints j) = '''' \<or> rc_Region (j_Constraints j) = cap_Region caps"
    by (cases rule: cs) (use raw(7) in auto)
qed

lemma eligible_None:
  assumes "eligible j r = None"
  shows "Satisfies (w_Capabilities (rq_Worker r)) (j_Constraints j)"
    and "Satisfies (b_Capabilities (rq_Sandbox r)) (j_Constraints j)"
    and "b_WorkerID (rq_Sandbox r) = w_ID (rq_Worker r)"
    and "w_MaxConcurrency (rq_Worker r) > 0 \<Longrightarrow>
           w_AvailableSlots (rq_Worker r) > 0 \<and> rq_Active r < w_MaxConcurrency (rq_Worker r)"
proof -
  note up = eligible_upstream_None [OF eligible_None_raw(8) [OF assms]]
  show "Satisfies (w_Capabilities (rq_Worker r)) (j_Constraints j)"
    unfolding Satisfies_iff using eligible_None_caps [OF assms, of "w_Capabilities (rq_Worker r)"] up(1) by simp metis
  show "Satisfies (b_Capabilities (rq_Sandbox r)) (j_Constraints j)"
    unfolding Satisfies_iff using eligible_None_caps [OF assms, of "b_Capabilities (rq_Sandbox r)"] up(2) by simp metis
  show "b_WorkerID (rq_Sandbox r) = w_ID (rq_Worker r)"
    using eligible_None_raw(2) [OF assms] by blast
  show "w_MaxConcurrency (rq_Worker r) > 0 \<Longrightarrow>
           w_AvailableSlots (rq_Worker r) > 0 \<and> rq_Active r < w_MaxConcurrency (rq_Worker r)"
    using eligible_None_raw(1) [OF assms] by linarith
qed

lemma set_Ranked [simp]: "set (Ranked p r) = {j \<in> set (rq_Jobs r). eligible j r = None}"
  by (simp add: Ranked_def)

lemma sorted_Ranked: "sorted (map (rank_key p r) (Ranked p r))"
  by (simp add: Ranked_def)

lemma time_sub_mono: "u \<le> v \<Longrightarrow> time_sub t v \<le> time_sub t u"
  by (simp add: time_sub_def max_def min_def)

lemma age_score_mono:
  assumes "0 \<le> wt_QueueAge (cfg_Weights p)" and "0 \<le> wt_Starvation (cfg_Weights p)" and "a \<le> b"
  shows "age_score p a \<le> age_score p b"
proof -
  have "(of_int a / of_int minute :: rat) \<le> of_int b / of_int minute"
    using assms(3) by (simp add: minute_def divide_right_mono)
  then have "wt_QueueAge (cfg_Weights p) * (of_int a / of_int minute)
      \<le> wt_QueueAge (cfg_Weights p) * (of_int b / of_int minute)"
    using assms(1) by (rule mult_left_mono)
  moreover have "0 < b \<Longrightarrow> 0 \<le> wt_QueueAge (cfg_Weights p) * (of_int b / of_int minute)"
    using assms(1) by (simp add: minute_def)
  ultimately show ?thesis using assms(2,3) unfolding age_score_def by auto
qed

text \<open>The score of a job without an upstream requirement, under the default weights.\<close>

definition no_upstream :: "Job \<Rightarrow> bool" where
  "no_upstream j \<longleftrightarrow> rc_RequiredUpstream (j_Constraints j) = ''''"

definition load_score :: "Config \<Rightarrow> Request \<Rightarrow> float64" where
  "load_score p r = (if w_MaxConcurrency (rq_Worker r) > 0
     then wt_WorkerLoad (cfg_Weights p) * of_int (w_MaxConcurrency (rq_Worker r) - rq_Active r)
          / of_int (w_MaxConcurrency (rq_Worker r))
     else 0)"

lemma static_score_bounds:
  assumes "cfg_Weights p = default_weights" and "no_upstream j"
  shows "load_score p r \<le> static_score p (j_Constraints j) r"
    and "static_score p (j_Constraints j) r \<le> 46 + load_score p r"
  using assms
  by (auto simp: static_score_def load_score_def default_weights_def no_upstream_def Let_def)

interpretation policy: routing_scheduler "Ranked p" for p
  by unfold_locales (auto dest: eligible_None(1-3))

section \<open>Properties\<close>

text \<open>
  C2: Routing soundness: every job \<^verbatim>\<open>Rank\<close> returns can run where it is about to be placed. The
  worker and its sandbox both satisfy the job's constraints, the sandbox belongs to the worker and is
  ready or running, a worker with a concurrency limit has a free slot, and a required upstream is
  reported available, is not cooling down, has budget left and is within the job's cost limit.
\<close>

theorem rank_sound:
  assumes "j \<in> set (fst (Rank p r))"
  shows "Satisfies (w_Capabilities (rq_Worker r)) (j_Constraints j)
    \<and> Satisfies (b_Capabilities (rq_Sandbox r)) (j_Constraints j)
    \<and> b_WorkerID (rq_Sandbox r) = w_ID (rq_Worker r)
    \<and> b_State (rq_Sandbox r) \<in> {'''', ''ready'', ''running''}
    \<and> (0 < w_MaxConcurrency (rq_Worker r) \<longrightarrow>
         0 < w_AvailableSlots (rq_Worker r) \<and> rq_Active r < w_MaxConcurrency (rq_Worker r))
    \<and> (rc_RequiredUpstream (j_Constraints j) \<noteq> '''' \<longrightarrow>
        (\<exists>u. map_of (w_UpstreamStatus (rq_Worker r)) (rc_RequiredUpstream (j_Constraints j)) = Some u
          \<and> us_State u = UpstreamAvailable
          \<and> (us_CooldownUntil u = 0 \<or> us_CooldownUntil u \<le> rq_Now r)
          \<and> (\<forall>b. us_BudgetRemaining u = Some b \<longrightarrow> 0 < b)
          \<and> (\<forall>m x. rc_MaxCost (j_Constraints j) = Some m \<longrightarrow> us_Cost u = Some x \<longrightarrow> x \<le> m)))"
proof -
  from assms have e: "eligible j r = None" by (simp add: Rank_def)
  have "b_State (rq_Sandbox r) \<in> {'''', ''ready'', ''running''}"
    using eligible_None_raw(2) [OF e] by auto
  with eligible_None [OF e] eligible_upstream_None(3) [OF eligible_None_raw(8) [OF e]]
  show ?thesis by simp
qed

definition demo_worker :: Worker where
  "demo_worker = zero_Worker\<lparr>w_ID := ''w'', w_SandboxID := ''b'', w_MaxConcurrency := 2,
     w_AvailableSlots := 2\<rparr>"

definition demo_sandbox :: Sandbox where
  "demo_sandbox = zero_Sandbox\<lparr>b_ID := ''b'', b_WorkerID := ''w'', b_State := ''ready''\<rparr>"

definition demo_request :: "Job list \<Rightarrow> Request" where
  "demo_request js = \<lparr>rq_Jobs = js, rq_Worker = demo_worker, rq_Sandbox = demo_sandbox,
     rq_Now = 100 * minute, rq_Active = 0\<rparr>"

definition demo_job :: "JobID \<Rightarrow> time \<Rightarrow> Job" where
  "demo_job i t = zero_Job\<lparr>j_ID := i, j_CreatedAt := t\<rparr>"

definition default_policy :: Config where
  "default_policy = New \<lparr>cfg_Weights = zero_weights, cfg_StarvationAfter = 0\<rparr>"

lemmas demo_defs = demo_worker_def demo_sandbox_def demo_request_def demo_job_def zero_Worker_def
  zero_Sandbox_def zero_Job_def zero_RoutingConstraints_def zero_Capabilities_def

lemma default_policy_simps [simp]:
  "cfg_Weights default_policy = default_weights" "cfg_StarvationAfter default_policy = 5 * minute"
  by (simp_all add: default_policy_def New_def Let_def)

lemma demo_eligible: "eligible (demo_job i t) (demo_request js) = None"
  by (simp add: eligible_def eligible_upstream_def demo_defs get_str_def to_lower_def)

theorem rank_sound_witness:
  "demo_job ''j'' 1 \<in> set (fst (Rank default_policy (demo_request [demo_job ''j'' 1])))
   \<and> Satisfies (w_Capabilities demo_worker) (j_Constraints (demo_job ''j'' 1))"
proof -
  have m: "demo_job ''j'' 1 \<in> set (fst (Rank default_policy (demo_request [demo_job ''j'' 1])))"
    using demo_eligible by (simp add: Rank_def) (simp add: demo_request_def)
  show ?thesis using m rank_sound [OF m] by (simp add: demo_request_def)
qed


text \<open>
  First come, first served among equals: of two eligible jobs with the same constraints the one
  created earlier is placed before the other, for every policy whose age weights are not negative.
\<close>

theorem rank_fifo:
  assumes "a \<in> set (rq_Jobs r)" and "b \<in> set (rq_Jobs r)"
    and "eligible a r = None" and "eligible b r = None"
    and "j_Constraints a = j_Constraints b" and "j_CreatedAt a < j_CreatedAt b"
    and "0 \<le> wt_QueueAge (cfg_Weights p)" and "0 \<le> wt_Starvation (cfg_Weights p)"
  shows "precedes (fst (Rank p r)) a b"
proof -
  have "score p b r \<le> score p a r"
    unfolding score_def assms(5)
    using age_score_mono [OF assms(7,8) time_sub_mono, of "j_CreatedAt a" "j_CreatedAt b"] assms(6)
    by simp
  with assms(6) have "rank_key p r a < rank_key p r b"
    by (auto simp: rank_key_def less_prod_def)
  with assms show ?thesis
    unfolding Rank_def fst_conv by (intro sorted_precedes [OF sorted_Ranked]) auto
qed

theorem rank_fifo_witness:
  "precedes (fst (Rank default_policy (demo_request [demo_job ''late'' 7, demo_job ''early'' 5])))
     (demo_job ''early'' 5) (demo_job ''late'' 7)"
  by (rule rank_fifo) (simp_all add: demo_eligible, simp_all add: demo_defs default_weights_def)

text \<open>
  No starvation under the default policy: among eligible jobs that require no upstream, a job
  that has waited 22 minutes is placed before every job that has waited less than five, whatever
  match, region, sandbox and provider preferences the younger job earns points for.
\<close>

theorem rank_no_starvation:
  assumes "a \<in> set (rq_Jobs r)" and "b \<in> set (rq_Jobs r)"
    and "eligible a r = None" and "eligible b r = None"
    and "no_upstream a" and "no_upstream b"
    and "22 * minute \<le> time_sub (rq_Now r) (j_CreatedAt a)"
    and "time_sub (rq_Now r) (j_CreatedAt b) < 5 * minute"
  shows "precedes (fst (Rank default_policy r)) a b"
proof -
  have "age_score default_policy (22 * minute)
      \<le> age_score default_policy (time_sub (rq_Now r) (j_CreatedAt a))"
    by (rule age_score_mono) (use assms(7) in \<open>simp_all add: default_weights_def\<close>)
  moreover have "age_score default_policy (22 * minute) = 52"
    by (simp add: age_score_def default_weights_def minute_def)
  moreover have "age_score default_policy (time_sub (rq_Now r) (j_CreatedAt b)) \<le> 5"
    using assms(8) by (auto simp: age_score_def default_weights_def minute_def)
  ultimately have "score default_policy b r < score default_policy a r"
    unfolding score_def
    using static_score_bounds(1) [of default_policy a r] static_score_bounds(2) [of default_policy b r]
      assms(5,6) by simp
  then have "rank_key default_policy r a < rank_key default_policy r b"
    by (simp add: rank_key_def less_prod_def)
  with assms show ?thesis
    unfolding Rank_def fst_conv by (intro sorted_precedes [OF sorted_Ranked]) auto
qed

theorem rank_no_starvation_witness:
  "precedes (fst (Rank default_policy (demo_request [demo_job ''new'' (99 * minute), demo_job ''old'' minute])))
     (demo_job ''old'' minute) (demo_job ''new'' (99 * minute))"
  by (rule rank_no_starvation)
    (simp_all add: demo_eligible,
     simp_all add: demo_defs no_upstream_def time_sub_def minute_def max_int64_def min_int64_def)

end
