(* ===== verification/SR_Leases.thy ===== *)
theory SR_Leases
  imports SR_Jobs SR_Scheduler
begin

text \<open>
  The lease protocol of \<^verbatim>\<open>internal/store/sqlite\<close>: claiming a job for a worker, renewing a lease,
  completing an attempt, expiring leases with a backed-off retry, and enforcing job deadlines.

  The scheduler a claim ranks its candidates with is a parameter (\<open>cr_Scheduler\<close>); without one the
  store uses the default policy.
\<close>

section \<open>Requests\<close>

record ClaimRequest =
  cr_Worker :: Worker
  cr_SandboxID :: SandboxID
  cr_Now :: time
  cr_LeaseDuration :: duration
  cr_Capacity :: int
  cr_Scheduler :: "(Request \<Rightarrow> Job list) option"

text \<open>The empty job state of a completion is \<^term>\<open>None\<close>.\<close>

record Completion =
  cm_AttemptID :: AttemptID
  cm_WorkerID :: WorkerID
  cm_AttemptState :: AttemptState
  cm_JobState :: "JobState option"
  cm_Failure :: "Failure option"
  cm_At :: time
  cm_Event :: Event

definition idle_expiry :: "time \<Rightarrow> duration \<Rightarrow> time" where
  "idle_expiry tm idle = (if idle > 0 then tm + idle else 0)"

definition touch_session :: "SessionID \<Rightarrow> time \<Rightarrow> duration \<Rightarrow> DB \<Rightarrow> DB" where
  "touch_session i tm idle = update_sessions (\<lambda>v. s_ID v = i \<and> s_State v = SessionActive)
     (\<lambda>v. v\<lparr>s_LastActivity := tm, s_IdleExpiresAt := idle_expiry tm idle\<rparr>)"

section \<open>Claiming\<close>

definition active_count :: "WorkerID \<Rightarrow> DB \<Rightarrow> int" where
  "active_count w s = int (rows_affected (\<lambda>a. at_WorkerID a = w \<and> AttemptActive (at_State a)) (db_attempts s))"

definition claimable :: "time \<Rightarrow> DB \<Rightarrow> Job list" where
  "claimable now s = map (\<lambda>r. job_of_row r [] [])
     (sort_key (\<lambda>r. (j_CreatedAt r, j_ID r))
       (filter (\<lambda>r. j_State r = JobQueued \<and> (j_TimeoutAt r = 0 \<or> j_TimeoutAt r > now)
          \<and> (case jr_NextAttemptAt r of None \<Rightarrow> True | Some t \<Rightarrow> t \<le> now)) (db_jobs s)))"

definition session_requirements :: "Session \<Rightarrow> RoutingConstraints" where
  "session_requirements v = zero_RoutingConstraints\<lparr>
     rc_Capabilities := cap_Capabilities (s_Capabilities v), rc_Labels := cap_Labels (s_Capabilities v),
     rc_Architecture := cap_Architecture (s_Capabilities v), rc_Region := cap_Region (s_Capabilities v),
     rc_PreferredProvider := s_PreferredProvider v\<rparr>"

definition rebuild_prefix :: "SessionID \<Rightarrow> nat \<Rightarrow> string" where
  "rebuild_prefix sid epoch = ''rebuild-'' @ sid @ ''-'' @ show_nat epoch @ ''-''"

text \<open>
  The session checks of the claim loop. \<^term>\<open>False\<close> is a \<^verbatim>\<open>continue\<close>; a pending session is bound to
  the worker and the sandbox here.
\<close>

definition bind_pending :: "ClaimRequest \<Rightarrow> Session \<Rightarrow> DB \<Rightarrow> bool \<times> DB" where
  "bind_pending r v s =
    (let P = (\<lambda>x. s_ID x = s_ID v \<and> s_State x = SessionPending);
         s1 = update_sessions P (\<lambda>x. x\<lparr>s_WorkerID := w_ID (cr_Worker r), s_SandboxID := cr_SandboxID r,
           s_State := SessionActive, s_LastActivity := cr_Now r,
           s_IdleExpiresAt := idle_expiry (cr_Now r) (s_IdleTTL v)\<rparr>) s
     in if rows_affected P (db_sessions s) \<noteq> 1 then (False, s1)
        else (True,
          update_sandboxes (\<lambda>b. b_ID b = cr_SandboxID r) (\<lambda>b. b\<lparr>b_ReservedSessionID := s_ID v\<rparr>)
            (update_workers (\<lambda>w. w_ID w = w_ID (cr_Worker r))
              (\<lambda>w. w\<lparr>w_ReservedSessionID := s_ID v, w_SessionEpoch := s_Epoch v\<rparr>) s1)))"

definition session_gate :: "ClaimRequest \<Rightarrow> Job \<Rightarrow> SessionID \<Rightarrow> DB \<Rightarrow> StoreError + bool \<times> DB" where
  "session_gate r j reserved s =
    (if j_SessionID j = '''' then Inr (reserved = '''', s)
     else rbind (mapped (one_row (row_by s_ID (j_SessionID j) (db_sessions s)))) (\<lambda>v.
       if \<not> Satisfies (w_Capabilities (cr_Worker r)) (session_requirements v)
          \<or> (s_PreferredProvider v \<noteq> '''' \<and> w_SandboxProvider (cr_Worker r) \<noteq> s_PreferredProvider v)
       then Inr (False, s)
       else if s_State v = SessionActive
          \<and> (s_WorkerID v \<noteq> w_ID (cr_Worker r) \<or> s_SandboxID v \<noteq> cr_SandboxID r)
       then Inr (False, s)
       else if s_State v = SessionPending then
         (if reserved \<noteq> '''' \<and> reserved \<noteq> j_SessionID j then Inr (False, s)
          else Inr (bind_pending r v s))
       else if s_State v = SessionRecovering then
         Inr (\<not> (reserved \<noteq> j_SessionID j \<or> w_SessionEpoch (cr_Worker r) \<noteq> s_Epoch v
                \<or> \<not> has_prefix (j_ID j) (rebuild_prefix (j_SessionID j) (s_Epoch v))), s)
       else Inr (s_State v = SessionActive, s)))"

definition attempt_id :: "JobID \<Rightarrow> nat \<Rightarrow> AttemptID" where
  "attempt_id i n = i @ ''-'' @ show_nat n"

definition lease_id :: "AttemptID \<Rightarrow> LeaseID" where
  "lease_id a = ''lease-'' @ a"

definition new_attempt :: "ClaimRequest \<Rightarrow> JobID \<Rightarrow> nat \<Rightarrow> Attempt" where
  "new_attempt r i n = \<lparr>at_ID = attempt_id i n, at_JobID = i, at_Number = n, at_State = AttemptLeased,
     at_WorkerID = w_ID (cr_Worker r), at_SandboxID = cr_SandboxID r, at_Failure = None,
     at_StartedAt = None, at_EndedAt = None,
     at_Lease = \<lparr>l_ID = lease_id (attempt_id i n), l_WorkerID = w_ID (cr_Worker r),
       l_AttemptID = attempt_id i n, l_ExpiresAt = cr_Now r + cr_LeaseDuration r\<rparr>\<rparr>"

text \<open>The row \<^verbatim>\<open>INSERT INTO job_attempts\<close> writes for it.\<close>

definition attempt_row :: "ClaimRequest \<Rightarrow> JobID \<Rightarrow> nat \<Rightarrow> AttemptCore" where
  "attempt_row r i n = \<lparr>at_ID = attempt_id i n, at_JobID = i, at_Number = n, at_State = AttemptLeased,
     at_WorkerID = w_ID (cr_Worker r), at_SandboxID = cr_SandboxID r, at_Failure = None,
     at_StartedAt = Some (cr_Now r), at_EndedAt = None\<rparr>"

definition take_slot :: "ClaimRequest \<Rightarrow> DB \<Rightarrow> StoreError + DB" where
  "take_slot r s =
    (if cr_Capacity r > 0 then
       (let P = (\<lambda>w. w_ID w = w_ID (cr_Worker r) \<and> w_AvailableSlots w > 0) in
        if rows_affected P (db_workers s) \<noteq> 1 then Inl ErrConflict
        else Inr (update_workers P (\<lambda>w. w\<lparr>w_AvailableSlots := w_AvailableSlots w - 1\<rparr>) s))
     else Inr s)"

text \<open>From the chosen job to the commit; \<^term>\<open>None\<close> when the job is no longer queued.\<close>

definition lease_job :: "ClaimRequest \<Rightarrow> Job \<Rightarrow> DB \<Rightarrow> StoreError + (Attempt \<times> Job) option \<times> DB" where
  "lease_job r j s =
    (let i = j_ID j;
         n = next_number (\<lambda>a. at_JobID a = i) at_Number (db_attempts s);
         a = new_attempt r i n;
         P = (\<lambda>x. j_ID x = i \<and> j_State x = JobQueued);
         s1 = update_jobs P (\<lambda>x. x\<lparr>j_State := JobLeased, j_UpdatedAt := cr_Now r\<rparr>) s
     in if rows_affected P (db_jobs s) = 0 then Inr (None, s1)
        else
          rbind (take_slot r s1) (\<lambda>s2.
          rbind (raw (insert_attempt (attempt_row r i n) s2)) (\<lambda>s3.
          rbind (raw (insert_lease (at_Lease a) s3)) (\<lambda>s4.
          rbind (if j_SessionID j \<noteq> '''' then
              rbind (raw (one_row (row_by s_ID (j_SessionID j) (db_sessions s4)))) (\<lambda>v.
                Inr (touch_session (j_SessionID j) (cr_Now r) (s_IdleTTL v) s4))
            else Inr s4) (\<lambda>s5.
          Inr (Some (a, j\<lparr>j_State := JobLeased, j_Attempts := [a]\<rparr>), s5))))))"

fun claim_loop :: "ClaimRequest \<Rightarrow> Job list \<Rightarrow> DB \<Rightarrow> StoreError + (Attempt \<times> Job) \<times> DB" where
  "claim_loop r [] s = Inl ErrNotFound"
| "claim_loop r (j # js) s =
    rbind (raw (one_row (row_by w_ID (w_ID (cr_Worker r)) (db_workers s)))) (\<lambda>w.
    rbind (session_gate r j (w_ReservedSessionID w) s) (\<lambda>(pass, s1).
      if \<not> pass then claim_loop r js s1
      else rbind (lease_job r j s1) (\<lambda>(res, s2).
        case res of None \<Rightarrow> claim_loop r js s2 | Some x \<Rightarrow> Inr (x, s2))))"

text \<open>A missing worker makes the capacity subquery NULL, which does not scan into an \<^verbatim>\<open>int\<close>.\<close>

definition claim_capacity :: "ClaimRequest \<Rightarrow> DB \<Rightarrow> StoreError + ClaimRequest" where
  "claim_capacity r s =
    (if cr_Capacity r > 0 then
       (case row_by w_ID (w_ID (cr_Worker r)) (db_workers s) of
          None \<Rightarrow> Inl (ErrSQL ScanError)
        | Some w \<Rightarrow> Inr (r\<lparr>cr_Worker := (cr_Worker r)\<lparr>w_AvailableSlots := w_AvailableSlots w,
              w_MaxConcurrency := min (w_MaxConcurrency w) (cr_Capacity r)\<rparr>\<rparr>))
     else Inr r)"

definition claim_rank :: "ClaimRequest \<Rightarrow> Request \<Rightarrow> Job list" where
  "claim_rank r = (case cr_Scheduler r of None \<Rightarrow> Ranked default_policy | Some f \<Rightarrow> f)"

definition claim_ranked :: "ClaimRequest \<Rightarrow> Sandbox \<Rightarrow> DB \<Rightarrow> Job list" where
  "claim_ranked r box s = claim_rank r
     \<lparr>rq_Jobs = claimable (cr_Now r) s, rq_Worker = cr_Worker r, rq_Sandbox = box, rq_Now = cr_Now r,
      rq_Active = active_count (w_ID (cr_Worker r)) s\<rparr>"

definition ClaimNextJob_tx :: "ClaimRequest \<Rightarrow> (Attempt \<times> Job) tx" where
  "ClaimNextJob_tx r0 s =
    rbind (claim_capacity r0 s) (\<lambda>r.
    rbind (getSandbox (cr_SandboxID r) s) (\<lambda>box.
      claim_loop r (claim_ranked r box s) s))"

definition ClaimNextJob :: "ClaimRequest \<Rightarrow> (Attempt \<times> Job) op" where
  "ClaimNextJob r = commit (ClaimNextJob_tx r)"

section \<open>Renewing\<close>

definition RenewLease_tx :: "time \<Rightarrow> AttemptID \<Rightarrow> WorkerID \<Rightarrow> time \<Rightarrow> DB \<Rightarrow> StoreError + DB" where
  "RenewLease_tx now a w until s =
    (let P = (\<lambda>l. l_AttemptID l = a \<and> l_WorkerID l = w \<and> l_ExpiresAt l > now
           \<and> (\<exists>x \<in> set (db_attempts s). at_ID x = a \<and> AttemptActive (at_State x)))
     in if rows_affected P (db_leases s) \<noteq> 1 then Inl ErrNotFound
        else Inr (update_leases P (\<lambda>l. l\<lparr>l_ExpiresAt := until\<rparr>) s))"

definition RenewLease :: "time \<Rightarrow> AttemptID \<Rightarrow> WorkerID \<Rightarrow> time \<Rightarrow> unit op" where
  "RenewLease now a w until = commit0 (RenewLease_tx now a w until)"

section \<open>Completing\<close>

definition unblock_dependents :: "JobID \<Rightarrow> time \<Rightarrow> DB \<Rightarrow> DB" where
  "unblock_dependents i tm s = update_jobs
     (\<lambda>r. j_State r = JobWaiting \<and> i \<in> set (j_DependsOn r)
        \<and> \<not> (\<exists>d \<in> set (j_DependsOn r). \<exists>p \<in> set (db_jobs s). j_ID p = d \<and> j_State p \<noteq> JobSucceeded))
     (\<lambda>r. r\<lparr>j_State := JobQueued, j_UpdatedAt := tm\<rparr>) s"

definition completion_job_state :: "Completion \<Rightarrow> AttemptCore \<Rightarrow> JobRow \<Rightarrow> JobState" where
  "completion_job_state c a r = (case cm_JobState c of Some st \<Rightarrow> st
     | None \<Rightarrow> if (case cm_Failure c of None \<Rightarrow> False | Some f \<Rightarrow> FailureIsRetryable f)
           \<and> int (at_Number a) < rp_MaxAttempts (j_RetryPolicy r)
           \<and> (j_TimeoutAt r = 0 \<or> cm_At c < j_TimeoutAt r)
         then JobQueued else JobFailed)"

text \<open>The job's new state and what it means for the jobs that depend on it.\<close>

definition settle_job :: "JobID \<Rightarrow> JobState \<Rightarrow> time \<Rightarrow> DB \<Rightarrow> StoreError + DB" where
  "settle_job i st tm s =
    (let s1 = update_jobs (\<lambda>r. j_ID r = i) (\<lambda>r. r\<lparr>j_State := st, j_UpdatedAt := tm\<rparr>) s
     in if st = JobSucceeded then Inr (unblock_dependents i tm s1)
        else if JobTerminal st then propagateDependencyFailure i tm s1
        else Inr s1)"

definition completion_event :: "Completion \<Rightarrow> JobID \<Rightarrow> DB \<Rightarrow> Event" where
  "completion_event c i s =
    (let e = (cm_Event c)\<lparr>e_JobID := i, e_AttemptID := cm_AttemptID c\<rparr> in
     e\<lparr>e_OccurredAt := (if e_OccurredAt e = 0 then cm_At c else e_OccurredAt e),
       e_ID := (if e_ID e = '''' then ''event-'' @ cm_AttemptID c @ ''-'' @ show_int (unix_nano (cm_At c))
                else e_ID e),
       e_Sequence := (if e_Sequence e = 0 then next_event_sequence i s else e_Sequence e)\<rparr>)"

definition touch_job_session :: "JobRow \<Rightarrow> time \<Rightarrow> DB \<Rightarrow> StoreError + DB" where
  "touch_job_session r tm s =
    (if j_SessionID r \<noteq> '''' then
       rbind (raw (one_row (row_by s_ID (j_SessionID r) (db_sessions s)))) (\<lambda>v.
         Inr (touch_session (j_SessionID r) tm (s_IdleTTL v) s))
     else Inr s)"

definition CompleteAttempt_tx :: "Completion \<Rightarrow> DB \<Rightarrow> StoreError + DB" where
  "CompleteAttempt_tx c s =
    (if \<not> AttemptTerminal (cm_AttemptState c)
        \<or> (case cm_JobState c of None \<Rightarrow> False | Some st \<Rightarrow> \<not> JobTerminal st)
     then Inl ErrConflict
     else
       rbind (mapped (one_row (owned_attempt (cm_AttemptID c) (cm_WorkerID c) s))) (\<lambda>a.
       rbind (mapped (one_row (row_by j_ID (at_JobID a) (db_jobs s)))) (\<lambda>r.
         if \<not> CanAttemptTransition (at_State a) (cm_AttemptState c) then Inl ErrConflict
         else case row_by l_AttemptID (cm_AttemptID c) (db_leases s) of
           None \<Rightarrow> Inl ErrConflict
         | Some l \<Rightarrow>
             if \<not> cm_At c < l_ExpiresAt l then Inl ErrConflict
             else
               (let s1 = release_slot (cm_WorkerID c)
                     (delete_leases (\<lambda>x. l_AttemptID x = cm_AttemptID c)
                       (end_attempt (cm_AttemptID c) (cm_AttemptState c) (cm_Failure c) (cm_At c) s))
                in rbind (settle_job (at_JobID a) (completion_job_state c a r) (cm_At c) s1) (\<lambda>s2.
                   rbind (touch_job_session r (cm_At c) s2) (\<lambda>s3.
                   mapped (insert_event (completion_event c (at_JobID a) s3) s3)))))))"

definition CompleteAttempt :: "Completion \<Rightarrow> unit op" where
  "CompleteAttempt c = commit0 (CompleteAttempt_tx c)"

section \<open>Retry delay\<close>

definition fnv32a :: "string \<Rightarrow> 32 word" where
  "fnv32a bs = fold (\<lambda>c h. (xor h (of_nat (of_char c))) * 16777619) bs 2166136261"

fun backoff_loop :: "nat \<Rightarrow> duration \<Rightarrow> duration \<Rightarrow> duration" where
  "backoff_loop 0 d maximum = d"
| "backoff_loop (Suc n) d maximum =
    (if maximum \<le> 0 \<or> d < maximum then
       (if d > 4611686018427387904 then d else backoff_loop n (int64 (d * 2)) maximum)
     else d)"

definition uint64 :: "int \<Rightarrow> int" where
  "uint64 x = x mod 18446744073709551616"

definition retryDelay :: "duration \<Rightarrow> duration \<Rightarrow> nat \<Rightarrow> AttemptID \<Rightarrow> duration" where
  "retryDelay base maximum attempt i =
    (if base \<le> 0 then 0
     else
       (let d0 = backoff_loop (attempt - 1) base maximum;
            d = (if maximum > 0 \<and> d0 > maximum then maximum else d0);
            jitter = uint64 (uint64 d * (uint (fnv32a i) mod 251)) div 1000
        in int64 (d + int64 jitter)))"

section \<open>Expiring leases\<close>

definition retry_allowed :: "AttemptCore \<Rightarrow> JobRow \<Rightarrow> time \<Rightarrow> bool" where
  "retry_allowed a r now \<longleftrightarrow> int (at_Number a) < rp_MaxAttempts (j_RetryPolicy r)
     \<and> (j_TimeoutAt r = 0 \<or> now < j_TimeoutAt r)
     \<and> (rp_MaxElapsed (j_RetryPolicy r) \<le> 0
        \<or> time_sub now (j_CreatedAt r) < rp_MaxElapsed (j_RetryPolicy r))"

definition expired_job_state :: "AttemptCore \<Rightarrow> JobRow \<Rightarrow> time \<Rightarrow> JobState \<times> time option" where
  "expired_job_state a r now =
    (if j_TimeoutAt r \<noteq> 0 \<and> \<not> now < j_TimeoutAt r then (JobTimedOut, None)
     else if retry_allowed a r now then
       (JobQueued, Some (now + retryDelay (rp_Backoff (j_RetryPolicy r)) (rp_MaxBackoff (j_RetryPolicy r))
          (at_Number a) (at_ID a)))
     else (JobFailed, None))"

definition lease_expired_failure :: Failure where
  "lease_expired_failure = \<lparr>f_Code = ''lease_expired'', f_Message = ''worker lease expired'',
     f_Class = FailureRetryable\<rparr>"

definition lease_expired_event :: "time \<Rightarrow> AttemptID \<Rightarrow> JobID \<Rightarrow> JobState \<Rightarrow> DB \<Rightarrow> Event" where
  "lease_expired_event now i job st s = zero_Event\<lparr>
     e_ID := ''lease-expired-'' @ i, e_Sequence := next_event_sequence job s,
     e_Type := EventAttemptTransition, e_JobID := job, e_AttemptID := i, e_OccurredAt := now,
     e_Data := [(''attempt_state'', ''lease_expired''), (''job_state'', show_JobState st),
       (''reason'', ''lease_expired'')]\<rparr>"

text \<open>One iteration for an attempt and job row that the join found.\<close>

definition expire_active :: "time \<Rightarrow> AttemptID \<Rightarrow> AttemptCore \<Rightarrow> JobRow \<Rightarrow> DB \<Rightarrow> StoreError + DB" where
  "expire_active now i a r s =
    (let s1 = update_attempts (\<lambda>x. at_ID x = i \<and> AttemptActive (at_State x))
           (\<lambda>x. x\<lparr>at_State := AttemptExpired, at_Failure := Some lease_expired_failure,
              at_EndedAt := Some now\<rparr>) s;
         st = fst (expired_job_state a r now);
         s2 = update_jobs (\<lambda>x. j_ID x = at_JobID a \<and> (j_State x = JobLeased \<or> j_State x = JobRunning))
           (\<lambda>x. x\<lparr>j_State := st, jr_NextAttemptAt := snd (expired_job_state a r now), j_UpdatedAt := now\<rparr>) s1
     in rbind (if JobTerminal st then propagateDependencyFailure (at_JobID a) now s2 else Inr s2) (\<lambda>s3.
          let s4 = release_slot (at_WorkerID a) (delete_leases (\<lambda>l. l_AttemptID l = i) s3)
          in raw (insert_or_ignore insert_event (lease_expired_event now i (at_JobID a) st s4) s4)))"

definition expire_lease :: "time \<Rightarrow> AttemptID \<Rightarrow> DB \<Rightarrow> StoreError + DB" where
  "expire_lease now i s =
    (case find (\<lambda>a. at_ID a = i \<and> AttemptActive (at_State a)) (db_attempts s) of
       None \<Rightarrow> Inr s
     | Some a \<Rightarrow> (case row_by j_ID (at_JobID a) (db_jobs s) of
         None \<Rightarrow> Inr s
       | Some r \<Rightarrow> expire_active now i a r s))"

definition expireLeases_tx :: "(Lease \<Rightarrow> bool) \<Rightarrow> time \<Rightarrow> AttemptID list tx" where
  "expireLeases_tx where_clause now s =
    (let ids = map l_AttemptID (sort_key l_ExpiresAt (filter where_clause (db_leases s)))
     in rbind (foldM (expire_lease now) ids s) (\<lambda>s'. Inr (ids, s')))"

definition ExpireLeases :: "time \<Rightarrow> AttemptID list op" where
  "ExpireLeases now = commit (expireLeases_tx (\<lambda>l. l_ExpiresAt l \<le> now) now)"

definition ExpireWorkerLeases :: "WorkerID \<Rightarrow> time \<Rightarrow> AttemptID list op" where
  "ExpireWorkerLeases w now = commit (expireLeases_tx (\<lambda>l. l_WorkerID l = w) now)"

section \<open>Deadlines\<close>

definition job_timeout_failure :: Failure where
  "job_timeout_failure = \<lparr>f_Code = ''job_timeout'', f_Message = ''job deadline exceeded'',
     f_Class = FailureNonRetryable\<rparr>"

definition timeout_event :: "time \<Rightarrow> JobID \<Rightarrow> AttemptCore option \<Rightarrow> DB \<Rightarrow> Event" where
  "timeout_event now i attempt s = zero_Event\<lparr>
     e_ID := ''timeout-'' @ i, e_Sequence := next_event_sequence i s,
     e_Type := EventJobTransition, e_JobID := i,
     e_AttemptID := (case attempt of None \<Rightarrow> '''' | Some a \<Rightarrow> at_ID a), e_OccurredAt := now,
     e_Data := [(''job_state'', ''timed_out''), (''reason'', ''deadline_exceeded'')]\<rparr>"

definition timeout_job :: "time \<Rightarrow> JobID \<Rightarrow> DB \<Rightarrow> StoreError + DB" where
  "timeout_job now i s =
    (let attempt = active_attempt i s;
         s1 = (case attempt of None \<Rightarrow> s
            | Some a \<Rightarrow> release_slot (at_WorkerID a)
                (delete_leases (\<lambda>l. l_AttemptID l = at_ID a)
                  (end_attempt (at_ID a) AttemptCanceled (Some job_timeout_failure) now s)));
         s2 = update_jobs (\<lambda>r. j_ID r = i)
           (\<lambda>r. r\<lparr>j_State := JobTimedOut, jr_NextAttemptAt := None, j_UpdatedAt := now\<rparr>) s1
     in rbind (propagateDependencyFailure i now s2) (\<lambda>s3.
          raw (insert_or_ignore insert_event (timeout_event now i attempt s3) s3)))"

definition overdue :: "time \<Rightarrow> DB \<Rightarrow> JobID list" where
  "overdue now s = sort (map j_ID (filter
     (\<lambda>r. j_TimeoutAt r \<noteq> 0 \<and> j_TimeoutAt r \<le> now \<and> \<not> JobTerminal (j_State r)) (db_jobs s)))"

definition TimeoutJobs_tx :: "time \<Rightarrow> JobID list tx" where
  "TimeoutJobs_tx now s = rbind (foldM (timeout_job now) (overdue now s) s) (\<lambda>s'. Inr (overdue now s, s'))"

definition TimeoutJobs :: "time \<Rightarrow> JobID list op" where
  "TimeoutJobs now = commit (TimeoutJobs_tx now)"

end
