(* ===== verification/SR_Sessions.thy ===== *)
theory SR_Sessions
  imports SR_Leases
begin

text \<open>
  The sessions of \<^verbatim>\<open>internal/store/sqlite/sessions.go\<close>: creation, binding to a worker and a sandbox,
  closing and expiry, the recovery protocol with its epochs, and the checkpoint catalogue.

  An epoch is a \<^typ>\<open>nat\<close>; it starts at 1 and every recovery request raises it by one. The iteration
  over a Go map in the checkpoint collection is one update of all its keys, since the updates are
  independent.
\<close>

section \<open>Creation and binding\<close>

definition session_defaults :: "Session \<Rightarrow> Session" where
  "session_defaults v = v\<lparr>
     s_State := (if s_State v = SessionUnset then SessionPending else s_State v),
     s_RecoveryPolicy := (if s_RecoveryPolicy v = PolicyUnset then RecoveryNone else s_RecoveryPolicy v),
     s_CheckpointMode := (if s_CheckpointMode v = ModeUnset then CheckpointExplicit else s_CheckpointMode v),
     s_Epoch := (if s_Epoch v = 0 then 1 else s_Epoch v),
     s_RecoveryState := (if s_RecoveryState v = RecoveryUnset then RecoveryIdle else s_RecoveryState v)\<rparr>"

definition session_times :: "time \<Rightarrow> Session \<Rightarrow> Session" where
  "session_times now v =
    (let v1 = v\<lparr>s_CreatedAt := (if s_CreatedAt v = 0 then now else s_CreatedAt v)\<rparr>;
         v2 = v1\<lparr>s_LastActivity := (if s_LastActivity v1 = 0 then s_CreatedAt v1 else s_LastActivity v1)\<rparr>
     in if s_IdleTTL v2 > 0 then v2\<lparr>s_IdleExpiresAt := s_LastActivity v2 + s_IdleTTL v2\<rparr> else v2)"

text \<open>The columns the INSERT names; the others take their defaults.\<close>

definition row_of_session :: "Session \<Rightarrow> Session" where
  "row_of_session v = v\<lparr>s_SandboxID := '''', s_WorkerID := '''', s_ClosedAt := 0, s_Failure := None,
     s_RecoveryAttempts := 0, s_RecoveryAfter := 0, s_RecoveryError := '''', s_LatestCheckpointID := '''',
     s_RestoreAcknowledged := False\<rparr>"

definition CreateSession :: "time \<Rightarrow> Session \<Rightarrow> Session op" where
  "CreateSession now v0 s =
    (if s_ID v0 = '''' \<or> s_Pool v0 = '''' \<or> s_IdleTTL v0 < 0 \<or> s_MaxLifetime v0 < 0 then (Inl ErrConflict, s)
     else
       (let v = session_defaults v0 in
        if s_State v \<noteq> SessionPending then (Inl ErrConflict, s)
        else if s_RecoveryPolicy v \<noteq> RecoveryNone \<and> s_RecoveryPolicy v \<noteq> RecoveryCheckpoint
             \<and> s_RecoveryPolicy v \<noteq> RecoveryRebuild then (Inl ErrConflict, s)
        else if s_CheckpointMode v \<noteq> CheckpointExplicit \<and> s_CheckpointMode v \<noteq> CheckpointAfterSuccess
        then (Inl ErrConflict, s)
        else if s_RecoveryPolicy v = RecoveryRebuild
             \<and> (s_RebuildPlan v = [] \<or> list_ex (\<lambda>x. rs_Kind x = '''' \<or> rs_IdempotencyKey x = '''') (s_RebuildPlan v))
        then (Inl ErrConflict, s)
        else (case mapped (insert_session (row_of_session (session_times now v)) s) of
            Inl e \<Rightarrow> (Inl e, s) | Inr s' \<Rightarrow> (Inr (session_times now v), s'))))"

definition BindSession_tx :: "SessionID \<Rightarrow> WorkerID \<Rightarrow> SandboxID \<Rightarrow> time \<Rightarrow> DB \<Rightarrow> StoreError + DB" where
  "BindSession_tx i w b tm s =
    rbind (mapped (one_row (row_by s_ID i (db_sessions s)))) (\<lambda>v.
      let P = (\<lambda>x. s_ID x = i \<and> s_State x = SessionPending
            \<and> \<not> (\<exists>y \<in> set (db_sessions s). s_WorkerID y = w \<and> s_State y = SessionActive));
          s1 = update_sessions P (\<lambda>x. x\<lparr>s_WorkerID := w, s_SandboxID := b, s_State := SessionActive,
            s_LastActivity := tm, s_IdleExpiresAt := idle_expiry tm (s_IdleTTL v)\<rparr>) s
      in if rows_affected P (db_sessions s) \<noteq> 1 then Inl ErrConflict
         else rbind (raw (one_row (row_by s_ID i (db_sessions s1)))) (\<lambda>v1.
           Inr (update_sandboxes (\<lambda>x. b_ID x = b \<and> (b_ReservedSessionID x = '''' \<or> b_ReservedSessionID x = i))
                  (\<lambda>x. x\<lparr>b_ReservedSessionID := i, b_UpdatedAt := tm\<rparr>)
                 (update_workers (\<lambda>x. w_ID x = w \<and> (w_ReservedSessionID x = '''' \<or> w_ReservedSessionID x = i))
                   (\<lambda>x. x\<lparr>w_ReservedSessionID := i, w_SessionEpoch := s_Epoch v1\<rparr>) s1))))"

definition BindSession :: "SessionID \<Rightarrow> WorkerID \<Rightarrow> SandboxID \<Rightarrow> time \<Rightarrow> unit op" where
  "BindSession i w b tm = commit0 (BindSession_tx i w b tm)"

section \<open>Finishing a session\<close>

definition unfinished :: "JobState \<Rightarrow> bool" where
  "unfinished st \<longleftrightarrow> st = JobWaiting \<or> st = JobQueued \<or> st = JobLeased \<or> st = JobRunning"

definition of_session :: "SessionID \<Rightarrow> JobRow \<Rightarrow> bool" where
  "of_session i r \<longleftrightarrow> j_SessionID r \<noteq> '''' \<and> j_SessionID r = i"

definition session_attempt :: "SessionID \<Rightarrow> DB \<Rightarrow> AttemptCore \<Rightarrow> bool" where
  "session_attempt i s a \<longleftrightarrow> (\<exists>r \<in> set (db_jobs s). of_session i r \<and> j_ID r = at_JobID a)"

definition drain_sandbox :: "time \<Rightarrow> Sandbox \<Rightarrow> Sandbox" where
  "drain_sandbox tm b = b\<lparr>b_ReservedSessionID := '''',
     b_State := (if b_State b = ''ready'' \<or> b_State b = ''running'' then ''draining'' else b_State b),
     b_DrainAt := (if b_State b = ''ready'' \<or> b_State b = ''running'' then tm else b_DrainAt b)\<rparr>"

text \<open>The attempts and leases of the session's jobs, then the reservations.\<close>

definition release_session :: "Session \<Rightarrow> AttemptState \<Rightarrow> Failure \<Rightarrow> time \<Rightarrow> DB \<Rightarrow> DB" where
  "release_session v ast f tm s =
    (let i = s_ID v;
         s1 = update_attempts (\<lambda>a. session_attempt i s a \<and> AttemptActive (at_State a))
           (\<lambda>a. a\<lparr>at_State := ast, at_Failure := Some f, at_EndedAt := Some tm\<rparr>) s;
         s2 = delete_leases (\<lambda>l. \<exists>a \<in> set (db_attempts s1). at_ID a = l_AttemptID l \<and> session_attempt i s1 a) s1;
         s3 = (if s_WorkerID v \<noteq> '''' then
             update_workers (\<lambda>w. w_ID w = s_WorkerID v \<and> w_ReservedSessionID w = i)
               (\<lambda>w. w\<lparr>w_ReservedSessionID := ''''\<rparr>) s2 else s2)
     in if s_SandboxID v \<noteq> '''' then
          update_sandboxes (\<lambda>b. b_ID b = s_SandboxID v \<and> b_ReservedSessionID b = i) (drain_sandbox tm) s3
        else s3)"

definition finishSessionTx :: "SessionID \<Rightarrow> SessionState \<Rightarrow> string \<Rightarrow> time \<Rightarrow> DB \<Rightarrow> StoreError + DB" where
  "finishSessionTx i state code tm s =
    rbind (mapped (one_row (row_by s_ID i (db_sessions s)))) (\<lambda>v.
      if SessionTerminal (s_State v) then Inr s
      else
        (let f = \<lparr>f_Code = code, f_Message = code, f_Class = FailureNonRetryable\<rparr>;
             s1 = update_sessions (\<lambda>x. s_ID x = i) (\<lambda>x. x\<lparr>s_State := state, s_ClosedAt := tm,
               s_Failure := (if state = SessionLost then Some f else None)\<rparr>) s;
             jobState = (if state = SessionLost then JobSessionLost else JobCanceled);
             P = (\<lambda>r. of_session i r \<and> unfinished (j_State r));
             changed = sort (map j_ID (filter P (db_jobs s1)));
             s2 = update_jobs P (\<lambda>r. r\<lparr>j_State := jobState, j_UpdatedAt := tm\<rparr>) s1
         in rbind (foldM (\<lambda>jid. appendTerminalEvent jid jobState code tm) changed s2) (\<lambda>s3.
              Inr (release_session v (if state = SessionLost then AttemptLost else AttemptCanceled) f tm s3))))"

definition finishSession :: "SessionID \<Rightarrow> SessionState \<Rightarrow> string \<Rightarrow> time \<Rightarrow> unit op" where
  "finishSession i state code tm = commit0 (finishSessionTx i state code tm)"

definition CloseSession :: "SessionID \<Rightarrow> time \<Rightarrow> unit op" where
  "CloseSession i tm = finishSession i SessionClosed ''session_closed'' tm"

section \<open>Expiry\<close>

definition session_active_count :: "SessionID \<Rightarrow> DB \<Rightarrow> nat" where
  "session_active_count i s =
     rows_affected (\<lambda>a. session_attempt i s a \<and> AttemptActive (at_State a)) (db_attempts s)"

definition session_due :: "time \<Rightarrow> DB \<Rightarrow> Session \<Rightarrow> bool" where
  "session_due tm s v =
    (let maxed = s_MaxLifetime v > 0 \<and> \<not> tm < s_CreatedAt v + s_MaxLifetime v;
         idle = s_IdleExpiresAt v \<noteq> 0 \<and> \<not> tm < s_IdleExpiresAt v;
         idle' = (if idle \<and> \<not> maxed then session_active_count (s_ID v) s = 0 else idle)
     in idle' \<or> maxed)"

fun close_all :: "time \<Rightarrow> SessionID list \<Rightarrow> unit op" where
  "close_all tm [] s = (Inr (), s)"
| "close_all tm (i # is) s =
    (case CloseSession i tm s of (Inl e, s') \<Rightarrow> (Inl e, s') | (Inr _, s') \<Rightarrow> close_all tm is s')"

definition ExpireSessions :: "time \<Rightarrow> SessionID list op" where
  "ExpireSessions tm s =
    (let ids = map s_ID (filter (session_due tm s) (ListSessions [SessionPending, SessionActive] s)) in
     case close_all tm ids s of (Inl e, s') \<Rightarrow> (Inl e, s') | (Inr _, s') \<Rightarrow> (Inr ids, s'))"

section \<open>Recovery\<close>

definition recovery_event :: "string \<Rightarrow> SessionID \<Rightarrow> nat \<Rightarrow> string \<Rightarrow> string \<Rightarrow> time \<Rightarrow> RecoveryEvent" where
  "recovery_event eid i epoch stage msg tm = \<lparr>re_ID = eid, re_SessionID = i, re_Epoch = epoch,
     re_Stage = stage, re_Message = msg, re_OccurredAt = tm\<rparr>"

definition log_recovery :: "RecoveryEvent \<Rightarrow> DB \<Rightarrow> StoreError + DB" where
  "log_recovery e s = raw (insert_or_ignore insert_recovery_event e s)"

definition RequestRecovery_tx :: "SessionID \<Rightarrow> time \<Rightarrow> DB \<Rightarrow> StoreError + DB" where
  "RequestRecovery_tx i tm s =
    (let P = (\<lambda>v. s_ID v = i \<and> (s_State v = SessionActive \<or> s_State v = SessionRecovering)
           \<and> s_RecoveryPolicy v \<noteq> RecoveryNone);
         s1 = update_sessions P (\<lambda>v. v\<lparr>s_State := SessionRecovering, s_RecoveryState := RecoveryPending,
           s_Epoch := s_Epoch v + 1, s_WorkerID := '''', s_SandboxID := '''', s_RestoreAcknowledged := False,
           s_RecoveryAfter := tm, s_RecoveryError := ''''\<rparr>) s
     in if rows_affected P (db_sessions s) \<noteq> 1 then Inl ErrConflict
        else rbind (raw (one_row (row_by s_ID i (db_sessions s1)))) (\<lambda>v.
          log_recovery (recovery_event (''recovery-requested-'' @ i @ ''-'' @ show_nat (s_Epoch v)) i (s_Epoch v)
            ''requested'' '''' tm) s1))"

definition RequestRecovery :: "SessionID \<Rightarrow> time \<Rightarrow> unit op" where
  "RequestRecovery i tm = commit0 (RequestRecovery_tx i tm)"

definition ClaimRecovery_tx :: "SessionID \<Rightarrow> time \<Rightarrow> Session tx" where
  "ClaimRecovery_tx i tm s =
    (let P = (\<lambda>v. s_ID v = i \<and> s_State v = SessionRecovering
           \<and> (s_RecoveryState v = RecoveryPending \<or> s_RecoveryState v = RecoveryFailed)
           \<and> (s_RecoveryAfter v = 0 \<or> s_RecoveryAfter v \<le> tm));
         s1 = update_sessions P (\<lambda>v. v\<lparr>s_RecoveryState := RecoveryProvisioning,
           s_RecoveryAttempts := s_RecoveryAttempts v + 1\<rparr>) s
     in if rows_affected P (db_sessions s) \<noteq> 1 then Inl ErrConflict
        else rbind (GetSession i s1) (\<lambda>v.
          rbind (log_recovery (recovery_event (''recovery-claimed-'' @ i @ ''-'' @ show_nat (s_Epoch v) @ ''-''
              @ show_int (s_RecoveryAttempts v)) i (s_Epoch v) ''provisioning'' '''' tm) s1) (\<lambda>s2.
            Inr (v, s2))))"

definition ClaimRecovery :: "SessionID \<Rightarrow> time \<Rightarrow> Session op" where
  "ClaimRecovery i tm = commit (ClaimRecovery_tx i tm)"

definition CompleteRecovery_tx ::
    "SessionID \<Rightarrow> nat \<Rightarrow> WorkerID \<Rightarrow> SandboxID \<Rightarrow> time \<Rightarrow> DB \<Rightarrow> StoreError + DB" where
  "CompleteRecovery_tx i epoch w b tm s =
    (let P = (\<lambda>v. s_ID v = i \<and> s_Epoch v = epoch \<and> s_State v = SessionRecovering \<and> s_RestoreAcknowledged v);
         s1 = update_sessions P (\<lambda>v. v\<lparr>s_State := SessionActive, s_RecoveryState := RecoveryIdle,
           s_WorkerID := w, s_SandboxID := b, s_LastActivity := tm, s_RecoveryAfter := 0,
           s_RecoveryError := ''''\<rparr>) s
     in if rows_affected P (db_sessions s) \<noteq> 1 then Inl ErrConflict
        else log_recovery (recovery_event (''recovery-complete-'' @ i @ ''-'' @ show_nat epoch) i epoch
            ''completed'' '''' tm)
          (update_workers (\<lambda>x. w_ID x = w) (\<lambda>x. x\<lparr>w_ReservedSessionID := i, w_SessionEpoch := epoch\<rparr>) s1))"

definition CompleteRecovery :: "SessionID \<Rightarrow> nat \<Rightarrow> WorkerID \<Rightarrow> SandboxID \<Rightarrow> time \<Rightarrow> unit op" where
  "CompleteRecovery i epoch w b tm = commit0 (CompleteRecovery_tx i epoch w b tm)"

definition drop_reservation :: "SessionID \<Rightarrow> nat \<Rightarrow> DB \<Rightarrow> DB" where
  "drop_reservation i epoch = update_workers (\<lambda>x. w_ReservedSessionID x = i \<and> w_SessionEpoch x = epoch)
     (\<lambda>x. x\<lparr>w_ReservedSessionID := '''', w_SessionEpoch := 0\<rparr>)"

definition FailRecovery_tx ::
    "SessionID \<Rightarrow> nat \<Rightarrow> string \<Rightarrow> time \<Rightarrow> time \<Rightarrow> DB \<Rightarrow> StoreError + DB" where
  "FailRecovery_tx i epoch msg retry now s =
    (let P = (\<lambda>v. s_ID v = i \<and> s_Epoch v = epoch \<and> s_State v = SessionRecovering);
         s1 = update_sessions P (\<lambda>v. v\<lparr>s_RecoveryState := RecoveryFailed, s_RecoveryError := msg,
           s_RecoveryAfter := retry\<rparr>) s
     in if rows_affected P (db_sessions s) \<noteq> 1 then Inl ErrConflict
        else log_recovery (recovery_event (''recovery-failed-'' @ i @ ''-'' @ show_nat epoch @ ''-''
            @ show_int (unix_nano now)) i epoch ''retry_wait'' msg now) (drop_reservation i epoch s1))"

definition FailRecovery :: "SessionID \<Rightarrow> nat \<Rightarrow> string \<Rightarrow> time \<Rightarrow> time \<Rightarrow> unit op" where
  "FailRecovery i epoch msg retry now = commit0 (FailRecovery_tx i epoch msg retry now)"

definition AcknowledgeRecovery_tx :: "SessionID \<Rightarrow> nat \<Rightarrow> WorkerID \<Rightarrow> time \<Rightarrow> DB \<Rightarrow> StoreError + DB" where
  "AcknowledgeRecovery_tx i epoch w tm s =
    (let P = (\<lambda>v. s_ID v = i \<and> s_Epoch v = epoch \<and> s_State v = SessionRecovering
           \<and> (\<exists>x \<in> set (db_workers s). w_ID x = w \<and> w_ReservedSessionID x = i \<and> w_SessionEpoch x = epoch));
         s1 = update_sessions P (\<lambda>v. v\<lparr>s_RestoreAcknowledged := True, s_RecoveryState := RecoveryRestoring\<rparr>) s
     in if rows_affected P (db_sessions s) \<noteq> 1 then Inl ErrConflict
        else log_recovery (recovery_event (''recovery-ack-'' @ i @ ''-'' @ show_nat epoch) i epoch
            ''validated'' '''' tm) s1)"

definition AcknowledgeRecovery :: "SessionID \<Rightarrow> nat \<Rightarrow> WorkerID \<Rightarrow> time \<Rightarrow> unit op" where
  "AcknowledgeRecovery i epoch w tm = commit0 (AcknowledgeRecovery_tx i epoch w tm)"

definition TerminalRecovery_tx :: "SessionID \<Rightarrow> nat \<Rightarrow> string \<Rightarrow> time \<Rightarrow> DB \<Rightarrow> StoreError + DB" where
  "TerminalRecovery_tx i epoch msg tm s =
    rbind (mapped (one_row (row_by s_ID i (db_sessions s)))) (\<lambda>v.
      if s_Epoch v \<noteq> epoch \<or> s_State v \<noteq> SessionRecovering then Inl ErrConflict
      else rbind (finishSessionTx i SessionLost ''recovery_failed'' tm s) (\<lambda>s1.
        let f = \<lparr>f_Code = ''recovery_failed'', f_Message = msg, f_Class = FailureNonRetryable\<rparr>;
            s2 = update_sessions (\<lambda>x. s_ID x = i) (\<lambda>x. x\<lparr>s_RecoveryState := RecoveryFailed,
              s_RecoveryError := msg, s_Failure := Some f\<rparr>) s1;
            s3 = drop_reservation i epoch s2;
            s4 = update_sandboxes (\<lambda>b. b_ReservedSessionID b = i) (drain_sandbox tm) s3
        in log_recovery (recovery_event (''recovery-terminal-'' @ i @ ''-'' @ show_nat epoch) i epoch
             ''terminal_failed'' msg tm) s4))"

definition TerminalRecovery :: "SessionID \<Rightarrow> nat \<Rightarrow> string \<Rightarrow> time \<Rightarrow> unit op" where
  "TerminalRecovery i epoch msg tm = commit0 (TerminalRecovery_tx i epoch msg tm)"

definition AppendRecoveryEvent :: "RecoveryEvent \<Rightarrow> unit op" where
  "AppendRecoveryEvent e = commit0 (log_recovery e)"

definition ListRecoveringSessions :: "time \<Rightarrow> DB \<Rightarrow> Session list" where
  "ListRecoveringSessions tm s =
     filter (\<lambda>v. s_RecoveryAfter v = 0 \<or> \<not> tm < s_RecoveryAfter v) (ListSessions [SessionRecovering] s)"

section \<open>Checkpoints\<close>

definition CreateCheckpoint_tx :: "Checkpoint \<Rightarrow> DB \<Rightarrow> StoreError + DB" where
  "CreateCheckpoint_tx c s =
    (if c_ID c = '''' \<or> c_SessionID c = '''' \<or> c_Epoch c = 0 \<or> c_Adapter c = '''' then Inl ErrConflict
     else rbind (mapped (one_row (row_by s_ID (c_SessionID c) (db_sessions s)))) (\<lambda>v.
       if s_Epoch v \<noteq> c_Epoch c then Inl ErrConflict
       else
         (let c1 = c\<lparr>c_Sequence := (if c_Sequence c = 0
                  then next_number (\<lambda>x. c_SessionID x = c_SessionID c) c_Sequence (db_checkpoints s)
                  else c_Sequence c),
                c_State := (if c_State c = '''' then ''creating'' else c_State c)\<rparr>
          in mapped (insert_checkpoint c1 s))))"

definition CreateCheckpoint :: "Checkpoint \<Rightarrow> unit op" where
  "CreateCheckpoint c = commit0 (CreateCheckpoint_tx c)"

definition CompleteCheckpoint_tx ::
    "string \<Rightarrow> SessionID \<Rightarrow> nat \<Rightarrow> string \<Rightarrow> string \<Rightarrow> int \<Rightarrow> DB \<Rightarrow> StoreError + DB" where
  "CompleteCheckpoint_tx i sid epoch loc checksum bytes s =
    (let P = (\<lambda>c. c_ID c = i \<and> c_SessionID c = sid \<and> c_Epoch c = epoch \<and> c_State c = ''creating'');
         Q = (\<lambda>v. s_ID v = sid \<and> s_Epoch v = epoch)
     in if rows_affected P (db_checkpoints s) \<noteq> 1 then Inl ErrConflict
        else if rows_affected Q (db_sessions s) \<noteq> 1 then Inl ErrConflict
        else Inr (update_sessions Q (\<lambda>v. v\<lparr>s_LatestCheckpointID := i\<rparr>)
          (update_checkpoints P (\<lambda>c. c\<lparr>c_State := ''ready'', c_Location := loc, c_Checksum := checksum,
             c_Size := bytes\<rparr>) s)))"

definition CompleteCheckpoint :: "string \<Rightarrow> SessionID \<Rightarrow> nat \<Rightarrow> string \<Rightarrow> string \<Rightarrow> int \<Rightarrow> unit op" where
  "CompleteCheckpoint i sid epoch loc checksum bytes =
     commit0 (CompleteCheckpoint_tx i sid epoch loc checksum bytes)"

definition MarkCheckpoint :: "string \<Rightarrow> string \<Rightarrow> string \<Rightarrow> unit op" where
  "MarkCheckpoint i state msg s =
    (if state \<noteq> ''partial'' \<and> state \<noteq> ''corrupt'' then (Inl ErrConflict, s)
     else
       (let P = (\<lambda>c. c_ID c = i);
            s1 = update_checkpoints P (\<lambda>c. c\<lparr>c_State := state, c_Error := msg\<rparr>) s
        in if rows_affected P (db_checkpoints s) \<noteq> 1 then (Inl ErrNotFound, s1) else (Inr (), s1)))"

text \<open>
  The scan of the collection over the joined rows, newest sequence first within a session; the
  function argument is the Go map \<^verbatim>\<open>rank\<close>.
\<close>

definition past_expiry :: "time \<Rightarrow> Checkpoint \<Rightarrow> bool" where
  "past_expiry tm c \<longleftrightarrow> c_ExpiresAt c \<noteq> 0 \<and> \<not> tm < c_ExpiresAt c"

fun gc_scan :: "time \<Rightarrow> int \<Rightarrow> bool \<Rightarrow> (Checkpoint \<times> SessionState) list \<Rightarrow> (SessionID \<Rightarrow> int) \<Rightarrow> Checkpoint list" where
  "gc_scan tm retain deleteOnClose [] rank = []"
| "gc_scan tm retain deleteOnClose ((c, st) # rows) rank =
    (let broken = (c_State c = ''corrupt'' \<or> c_State c = ''partial'') in
     if deleteOnClose \<and> SessionTerminal st then c # gc_scan tm retain deleteOnClose rows rank
     else if c_State c = ''ready'' then
       (let rank' = rank(c_SessionID c := rank (c_SessionID c) + 1);
            remove = (if rank' (c_SessionID c) \<le> retain then False
                      else if past_expiry tm c then True else broken)
        in (if remove then [c] else []) @ gc_scan tm retain deleteOnClose rows rank')
     else (if past_expiry tm c \<or> broken then [c] else []) @ gc_scan tm retain deleteOnClose rows rank)"

definition gc_rows :: "DB \<Rightarrow> (Checkpoint \<times> SessionState) list" where
  "gc_rows s = concat (map (\<lambda>c. case row_by s_ID (c_SessionID c) (db_sessions s) of
       None \<Rightarrow> [] | Some v \<Rightarrow> [(c, s_State v)])
     (sort_key (\<lambda>c. (c_SessionID c, - int (c_Sequence c), - c_CreatedAt c, c_ID c)) (db_checkpoints s)))"

definition latest_ready :: "SessionID \<Rightarrow> DB \<Rightarrow> string" where
  "latest_ready i s =
    (case sort_key (\<lambda>c. (- int (c_Sequence c), - c_CreatedAt c, c_ID c))
         (filter (\<lambda>c. c_SessionID c = i \<and> c_State c = ''ready'') (db_checkpoints s)) of
       [] \<Rightarrow> '''' | c # _ \<Rightarrow> c_ID c)"

definition GarbageCollectCheckpoints_tx :: "time \<Rightarrow> int \<Rightarrow> bool \<Rightarrow> Checkpoint list tx" where
  "GarbageCollectCheckpoints_tx tm retainLatest deleteOnClose s =
    (let retain = (if retainLatest < 0 then 0 else retainLatest);
         out = gc_scan tm retain deleteOnClose (gc_rows s) (\<lambda>_. 0);
         s1 = s\<lparr>db_checkpoints := del_where (\<lambda>c. c_ID c \<in> c_ID ` set out) (db_checkpoints s)\<rparr>;
         s2 = update_sessions (\<lambda>v. s_ID v \<in> c_SessionID ` set out)
           (\<lambda>v. v\<lparr>s_LatestCheckpointID := latest_ready (s_ID v) s1\<rparr>) s1
     in Inr (out, s2))"

definition GarbageCollectCheckpoints :: "time \<Rightarrow> int \<Rightarrow> bool \<Rightarrow> Checkpoint list op" where
  "GarbageCollectCheckpoints tm retainLatest deleteOnClose =
     commit (GarbageCollectCheckpoints_tx tm retainLatest deleteOnClose)"

end
