(* ===== verification/SR_Workers.thy ===== *)
theory SR_Workers
  imports SR_Sessions
begin

text \<open>
  Workers, sandboxes and bootstrap credentials in \<^verbatim>\<open>internal/store/sqlite\<close>: registration and
  heartbeat writes, health verdicts with their effect on the reserved session, sandbox states, and
  the single-use tokens sandboxes register with.
\<close>

section \<open>Workers\<close>

text \<open>
  \<^verbatim>\<open>ON CONFLICT(id) DO UPDATE\<close> leaves \<^verbatim>\<open>registered_at\<close> alone; \<^verbatim>\<open>workers_instance_idx\<close> makes a
  non-empty instance unique across workers.
\<close>

definition UpsertWorker :: "time \<Rightarrow> Worker \<Rightarrow> unit op" where
  "UpsertWorker now w0 s =
    (let w1 = w0\<lparr>w_LastSeenAt := (if w_LastSeenAt w0 = 0 then now else w_LastSeenAt w0)\<rparr>;
         w = w1\<lparr>w_RegisteredAt := (if w_RegisteredAt w1 = 0 then w_LastSeenAt w1 else w_RegisteredAt w1)\<rparr>
     in if w_InstanceID w \<noteq> ''''
           \<and> (\<exists>x \<in> set (db_workers s). w_InstanceID x = w_InstanceID w \<and> w_ID x \<noteq> w_ID w)
        then (Inl (ErrSQL UniqueViolation), s)
        else if w_ID w \<in> w_ID ` set (db_workers s)
        then (Inr (), update_workers (\<lambda>x. w_ID x = w_ID w) (\<lambda>x. w\<lparr>w_RegisteredAt := w_RegisteredAt x\<rparr>) s)
        else (Inr (), s\<lparr>db_workers := db_workers s @ [w]\<rparr>))"

definition SetWorkerHealth :: "WorkerID \<Rightarrow> WorkerHealth \<Rightarrow> time \<Rightarrow> unit op" where
  "SetWorkerHealth i health tm s =
    (case GetWorker i s of
       Inl e \<Rightarrow> (Inl e, s)
     | Inr w \<Rightarrow>
         (let h = AList.update ''status'' (show_WorkerHealth health) (w_Health w);
              P = (\<lambda>x. w_ID x = i);
              s1 = update_workers P (\<lambda>x. x\<lparr>w_Health := h,
                w_SessionTokenHash := (if health = WorkerDead then '''' else w_SessionTokenHash x),
                w_SessionExpiresAt := (if health = WorkerDead then 0 else w_SessionExpiresAt x)\<rparr>) s
          in if rows_affected P (db_workers s) \<noteq> 1 then (Inl ErrNotFound, s1)
             else if health = WorkerDead \<and> w_ReservedSessionID w \<noteq> '''' then
               (case GetSession (w_ReservedSessionID w) s1 of
                  Inl e \<Rightarrow> (Inl e, s1)
                | Inr v \<Rightarrow> if s_RecoveryPolicy v \<noteq> RecoveryNone then RequestRecovery (s_ID v) tm s1
                          else finishSession (s_ID v) SessionLost ''session_lost'' tm s1)
             else (Inr (), s1)))"

section \<open>Credentials\<close>

definition CreateBootstrapToken :: "TokenRow \<Rightarrow> unit op" where
  "CreateBootstrapToken t = commit0 (\<lambda>s. mapped (insert_token (t\<lparr>t_ConsumedAt := None\<rparr>) s))"

definition ConsumeBootstrapToken ::
    "string \<Rightarrow> SandboxID \<Rightarrow> string \<Rightarrow> string \<Rightarrow> string \<Rightarrow> time \<Rightarrow> unit op" where
  "ConsumeBootstrapToken hash b provider pool caps now s =
    (let P = (\<lambda>t. t_TokenHash t = hash \<and> t_SandboxID t = b \<and> t_SandboxProvider t = provider \<and> t_Pool t = pool
           \<and> t_CapabilityHash t = caps \<and> t_ConsumedAt t = None \<and> t_ExpiresAt t > now);
         s1 = update_tokens P (\<lambda>t. t\<lparr>t_ConsumedAt := Some now\<rparr>) s
     in if rows_affected P (db_tokens s) \<noteq> 1 then (Inl ErrNotFound, s1) else (Inr (), s1))"

definition RevokeSandboxCredentials :: "time \<Rightarrow> SandboxID \<Rightarrow> unit op" where
  "RevokeSandboxCredentials now b s = (Inr (),
     update_workers (\<lambda>w. w_SandboxID w = b) (\<lambda>w. w\<lparr>w_SessionTokenHash := '''', w_SessionExpiresAt := 0\<rparr>)
      (update_tokens (\<lambda>t. t_SandboxID t = b)
        (\<lambda>t. t\<lparr>t_ConsumedAt := (case t_ConsumedAt t of None \<Rightarrow> Some now | Some c \<Rightarrow> Some c)\<rparr>) s))"

section \<open>Sandboxes\<close>

text \<open>The update leaves \<^verbatim>\<open>created_at\<close> and \<^verbatim>\<open>reserved_session_id\<close> alone.\<close>

definition UpsertSandbox :: "time \<Rightarrow> Sandbox \<Rightarrow> unit op" where
  "UpsertSandbox now v0 s =
    (let v1 = v0\<lparr>b_CreatedAt := (if b_CreatedAt v0 = 0 then now else b_CreatedAt v0)\<rparr>;
         v = v1\<lparr>b_UpdatedAt := (if b_UpdatedAt v1 = 0 then b_CreatedAt v1 else b_UpdatedAt v1)\<rparr>
     in if b_ID v \<in> b_ID ` set (db_sandboxes s)
        then (Inr (), update_sandboxes (\<lambda>x. b_ID x = b_ID v)
          (\<lambda>x. v\<lparr>b_CreatedAt := b_CreatedAt x, b_ReservedSessionID := b_ReservedSessionID x\<rparr>) s)
        else (Inr (), s\<lparr>db_sandboxes := db_sandboxes s @ [v]\<rparr>))"

definition SetSandboxState :: "time \<Rightarrow> SandboxID \<Rightarrow> string \<Rightarrow> time \<Rightarrow> unit op" where
  "SetSandboxState now i state tm s =
    (let P = (\<lambda>b. b_ID b = i);
         s1 = update_sandboxes P (\<lambda>b. b\<lparr>b_State := state, b_UpdatedAt := tm,
           b_DrainAt := (if state = ''draining'' then (if b_DrainAt b = 0 then tm else b_DrainAt b)
                         else b_DrainAt b)\<rparr>) s
     in if rows_affected P (db_sandboxes s) \<noteq> 1 then (Inl ErrNotFound, s1)
        else if state = ''terminated'' \<or> state = ''failed'' \<or> state = ''stopped''
        then RevokeSandboxCredentials now i s1
        else (Inr (), s1))"

text \<open>The attempts that ran in a sandbox reference its row.\<close>

definition DeleteSandbox :: "SandboxID \<Rightarrow> unit op" where
  "DeleteSandbox i s =
    (if i \<notin> b_ID ` set (db_sandboxes s) then (Inl ErrNotFound, s)
     else if i \<noteq> '''' \<and> (\<exists>a \<in> set (db_attempts s). at_SandboxID a = i) then (Inl (ErrSQL ForeignKeyViolation), s)
     else (Inr (), s\<lparr>db_sandboxes := del_where (\<lambda>b. b_ID b = i) (db_sandboxes s)\<rparr>))"

end
