(* ===== verification/SR_LeaseInv.thy ===== *)
theory SR_LeaseInv
  imports SR_Workers
begin

text \<open>
  The lease invariant of the store and its preservation by every operation that writes jobs,
  attempts or leases: leases and active attempts correspond one to one, a job is leased or running
  exactly while it has an active attempt, and it never has two.
\<close>

section \<open>The invariant\<close>

definition running_state :: "JobState \<Rightarrow> bool" where
  "running_state st \<longleftrightarrow> st = JobLeased \<or> st = JobRunning"

abbreviation active :: "AttemptCore \<Rightarrow> bool" where
  "active a \<equiv> AttemptActive (at_State a)"

definition keys_inv :: "DB \<Rightarrow> bool" where
  "keys_inv s \<longleftrightarrow> distinct (map j_ID (db_jobs s)) \<and> distinct (map at_ID (db_attempts s))
     \<and> distinct (map l_AttemptID (db_leases s))
     \<and> (\<forall>a \<in> set (db_attempts s). at_JobID a \<in> j_ID ` set (db_jobs s)
          \<and> at_ID a = attempt_id (at_JobID a) (at_Number a))"

definition active_inv :: "DB \<Rightarrow> bool" where
  "active_inv s \<longleftrightarrow>
     (\<forall>a \<in> set (db_attempts s). \<forall>b \<in> set (db_attempts s).
        active a \<and> active b \<and> at_JobID a = at_JobID b \<longrightarrow> a = b)
   \<and> (\<forall>r \<in> set (db_jobs s). running_state (j_State r) \<longleftrightarrow>
        (\<exists>a \<in> set (db_attempts s). at_JobID a = j_ID r \<and> active a))"

definition lease_rows_inv :: "DB \<Rightarrow> bool" where
  "lease_rows_inv s \<longleftrightarrow>
     (\<forall>l \<in> set (db_leases s). l_ID l = lease_id (l_AttemptID l)
        \<and> (\<exists>a \<in> set (db_attempts s). at_ID a = l_AttemptID l \<and> active a \<and> at_WorkerID a = l_WorkerID l))
   \<and> (\<forall>a \<in> set (db_attempts s). active a \<longrightarrow> at_ID a \<in> l_AttemptID ` set (db_leases s))"

definition lease_inv :: "DB \<Rightarrow> bool" where
  "lease_inv s \<longleftrightarrow> keys_inv s \<and> active_inv s \<and> lease_rows_inv s"

section \<open>Generic preservation\<close>

declare AttemptActive.simps [simp del]

lemma upd_where_map: "upd_where P f t = map (\<lambda>r. if P r then f r else r) t"
  by (simp add: upd_where_def)

lemma lease_inv_cong:
  "db_jobs s' = db_jobs s \<Longrightarrow> db_attempts s' = db_attempts s \<Longrightarrow> db_leases s' = db_leases s
    \<Longrightarrow> lease_inv s' = lease_inv s"
  by (simp add: lease_inv_def keys_inv_def active_inv_def lease_rows_inv_def)

lemma attempts_same_id:
  "lease_inv s \<Longrightarrow> a \<in> set (db_attempts s) \<Longrightarrow> b \<in> set (db_attempts s) \<Longrightarrow> at_ID a = at_ID b \<Longrightarrow> a = b"
  by (auto simp: lease_inv_def keys_inv_def intro: distinct_key_eq [of at_ID])

lemma jobs_same_id:
  "lease_inv s \<Longrightarrow> r \<in> set (db_jobs s) \<Longrightarrow> q \<in> set (db_jobs s) \<Longrightarrow> j_ID r = j_ID q \<Longrightarrow> r = q"
  by (auto simp: lease_inv_def keys_inv_def intro: distinct_key_eq [of j_ID])

text \<open>
  What every operation that ends attempts does: the jobs in \<open>X\<close> stop running, their active attempts
  become inactive and their leases go; everything else keeps its identity.
\<close>

lemma lease_inv_retire:
  assumes inv: "lease_inv s"
    and jobs: "db_jobs s' = map F (db_jobs s)"
    and attempts: "db_attempts s' = map G (db_attempts s)"
    and leases: "db_leases s' = map H (filter (\<lambda>l. \<forall>a \<in> set (db_attempts s).
          at_ID a = l_AttemptID l \<longrightarrow> at_JobID a \<notin> X) (db_leases s))"
    and F: "\<And>r. r \<in> set (db_jobs s) \<Longrightarrow> j_ID (F r) = j_ID r
          \<and> running_state (j_State (F r)) = (running_state (j_State r) \<and> j_ID r \<notin> X)"
    and G: "\<And>a. a \<in> set (db_attempts s) \<Longrightarrow> at_ID (G a) = at_ID a \<and> at_JobID (G a) = at_JobID a
          \<and> at_Number (G a) = at_Number a \<and> at_WorkerID (G a) = at_WorkerID a
          \<and> active (G a) = (active a \<and> at_JobID a \<notin> X)"
    and H: "\<And>l. l_ID (H l) = l_ID l \<and> l_AttemptID (H l) = l_AttemptID l \<and> l_WorkerID (H l) = l_WorkerID l"
  shows "lease_inv s'"
proof -
  let ?J = "db_jobs s" and ?A = "db_attempts s" and ?L = "db_leases s"
  from inv have keys: "keys_inv s" and act: "active_inv s" and rows: "lease_rows_inv s"
    by (simp_all add: lease_inv_def)
  have jids: "map j_ID (db_jobs s') = map j_ID ?J" using F by (simp add: jobs)
  have aids: "map at_ID (db_attempts s') = map at_ID ?A" using G by (simp add: attempts)
  have "map l_AttemptID (db_leases s') = map l_AttemptID (filter (\<lambda>l. \<forall>a \<in> set ?A.
          at_ID a = l_AttemptID l \<longrightarrow> at_JobID a \<notin> X) ?L)"
    using H by (simp add: leases)
  then have "distinct (map l_AttemptID (db_leases s'))"
    using keys by (simp add: keys_inv_def distinct_map_filter)
  moreover have "j_ID ` set (db_jobs s') = j_ID ` set ?J" using jids by (metis list.set_map)
  moreover have "\<forall>a \<in> set (db_attempts s'). at_JobID a \<in> j_ID ` set ?J \<and> at_ID a = attempt_id (at_JobID a) (at_Number a)"
    using keys G by (auto simp: keys_inv_def attempts)
  ultimately have "keys_inv s'"
    using keys jids aids by (simp add: keys_inv_def)
  moreover have "active_inv s'"
    unfolding active_inv_def
  proof (intro conjI ballI impI)
    fix a' b' assume "a' \<in> set (db_attempts s')" "b' \<in> set (db_attempts s')"
      and ab: "active a' \<and> active b' \<and> at_JobID a' = at_JobID b'"
    then obtain a b where "a \<in> set ?A" "b \<in> set ?A" "a' = G a" "b' = G b" by (auto simp: attempts)
    with ab G [of a] G [of b] have "a = b" using act unfolding active_inv_def by auto
    with \<open>a' = G a\<close> \<open>b' = G b\<close> show "a' = b'" by simp
  next
    fix r' assume "r' \<in> set (db_jobs s')"
    then obtain r where r: "r \<in> set ?J" "r' = F r" by (auto simp: jobs)
    have "running_state (j_State r) \<longleftrightarrow> (\<exists>a \<in> set ?A. at_JobID a = j_ID r \<and> active a)"
      using act r(1) by (simp add: active_inv_def)
    moreover have "(\<exists>a \<in> set (db_attempts s'). at_JobID a = j_ID r \<and> active a)
        \<longleftrightarrow> (\<exists>a \<in> set ?A. at_JobID a = j_ID r \<and> active a \<and> j_ID r \<notin> X)"
      using G by (auto simp: attempts)
    ultimately show "running_state (j_State r') \<longleftrightarrow> (\<exists>a \<in> set (db_attempts s'). at_JobID a = j_ID r' \<and> active a)"
      using F [OF r(1)] r(2) by auto
  qed
  moreover have "lease_rows_inv s'"
    unfolding lease_rows_inv_def
  proof (intro conjI ballI impI)
    fix l' assume "l' \<in> set (db_leases s')"
    then obtain l where l: "l \<in> set ?L" "l' = H l" "\<forall>a \<in> set ?A. at_ID a = l_AttemptID l \<longrightarrow> at_JobID a \<notin> X"
      by (auto simp: leases)
    with rows show "l_ID l' = lease_id (l_AttemptID l')" using H [of l] by (simp add: lease_rows_inv_def)
    from l rows obtain a where a: "a \<in> set ?A" "at_ID a = l_AttemptID l" "active a" "at_WorkerID a = l_WorkerID l"
      by (auto simp: lease_rows_inv_def)
    then have "G a \<in> set (db_attempts s')" by (simp add: attempts)
    with a l G [OF a(1)] H [of l]
    show "\<exists>a \<in> set (db_attempts s'). at_ID a = l_AttemptID l' \<and> active a \<and> at_WorkerID a = l_WorkerID l'" by auto
  next
    fix a' assume "a' \<in> set (db_attempts s')" "active a'"
    then obtain a where a: "a \<in> set ?A" "a' = G a" "active a" "at_JobID a \<notin> X" using G by (auto simp: attempts)
    then obtain l where l: "l \<in> set ?L" "l_AttemptID l = at_ID a" using rows by (force simp: lease_rows_inv_def)
    have "\<forall>b \<in> set ?A. at_ID b = l_AttemptID l \<longrightarrow> at_JobID b \<notin> X"
      using a l attempts_same_id [OF inv _ a(1)] by auto
    with l have "H l \<in> set (db_leases s')" by (auto simp: leases)
    with l a G [OF a(1)] H [of l] show "at_ID a' \<in> l_AttemptID ` set (db_leases s')" by force
  qed
  ultimately show ?thesis by (simp add: lease_inv_def)
qed

text \<open>One attempt ended by its identifier and its lease deleted.\<close>

lemma lease_inv_end_one:
  assumes inv: "lease_inv s" and a: "a \<in> set (db_attempts s)" "active a"
    and jobs: "db_jobs s' = map F (db_jobs s)"
    and attempts: "db_attempts s' = upd_where (\<lambda>x. at_ID x = at_ID a) g (db_attempts s)"
    and leases: "db_leases s' = del_where (\<lambda>l. l_AttemptID l = at_ID a) (db_leases s)"
    and F: "\<And>r. r \<in> set (db_jobs s) \<Longrightarrow> j_ID (F r) = j_ID r
          \<and> running_state (j_State (F r)) = (running_state (j_State r) \<and> j_ID r \<noteq> at_JobID a)"
    and g: "\<And>x. at_ID (g x) = at_ID x \<and> at_JobID (g x) = at_JobID x \<and> at_Number (g x) = at_Number x
          \<and> at_WorkerID (g x) = at_WorkerID x \<and> \<not> active (g x)"
  shows "lease_inv s'"
proof (rule lease_inv_retire [OF inv jobs, where X = "{at_JobID a}" and H = id])
  show "db_attempts s' = map (\<lambda>x. if at_ID x = at_ID a then g x else x) (db_attempts s)"
    by (simp add: attempts upd_where_map)
  have one: "b = a" if "b \<in> set (db_attempts s)" "active b" "at_JobID b = at_JobID a" for b
    using inv a that by (auto simp: lease_inv_def active_inv_def)
  have "l_AttemptID l \<noteq> at_ID a \<longleftrightarrow> (\<forall>b \<in> set (db_attempts s). at_ID b = l_AttemptID l \<longrightarrow> at_JobID b \<notin> {at_JobID a})"
    if l: "l \<in> set (db_leases s)" for l
  proof -
    obtain b where b: "b \<in> set (db_attempts s)" "at_ID b = l_AttemptID l" "active b"
      using inv l by (auto simp: lease_inv_def lease_rows_inv_def)
    have eq: "x = b" if "x \<in> set (db_attempts s)" "at_ID x = l_AttemptID l" for x
      using attempts_same_id [OF inv that(1) b(1)] that(2) b(2) by simp
    show ?thesis
    proof
      assume "l_AttemptID l \<noteq> at_ID a"
      then have "at_JobID b \<noteq> at_JobID a" using b one [of b] by auto
      then show "\<forall>x \<in> set (db_attempts s). at_ID x = l_AttemptID l \<longrightarrow> at_JobID x \<notin> {at_JobID a}"
        using eq by auto
    qed (use a(1) in auto)
  qed
  then show "db_leases s' = map id (filter (\<lambda>l. \<forall>b \<in> set (db_attempts s).
      at_ID b = l_AttemptID l \<longrightarrow> at_JobID b \<notin> {at_JobID a}) (db_leases s))"
    by (simp add: leases del_where_def cong: filter_cong)
  fix x assume x: "x \<in> set (db_attempts s)"
  show "at_ID (if at_ID x = at_ID a then g x else x) = at_ID x
      \<and> at_JobID (if at_ID x = at_ID a then g x else x) = at_JobID x
      \<and> at_Number (if at_ID x = at_ID a then g x else x) = at_Number x
      \<and> at_WorkerID (if at_ID x = at_ID a then g x else x) = at_WorkerID x
      \<and> active (if at_ID x = at_ID a then g x else x) = (active x \<and> at_JobID x \<notin> {at_JobID a})"
  proof (cases "at_ID x = at_ID a")
    case True
    then have "x = a" using attempts_same_id [OF inv x a(1)] by simp
    with g show ?thesis by simp
  next
    case False
    then show ?thesis using one [OF x] by auto
  qed
qed (use F in auto)

text \<open>Jobs rewritten without starting or stopping any of them.\<close>

lemma lease_inv_jobs:
  assumes "lease_inv s" and "db_jobs s' = map F (db_jobs s)"
    and "db_attempts s' = db_attempts s" and "db_leases s' = db_leases s"
    and "\<And>r. r \<in> set (db_jobs s) \<Longrightarrow> j_ID (F r) = j_ID r
          \<and> running_state (j_State (F r)) = running_state (j_State r)"
  shows "lease_inv s'"
  by (rule lease_inv_retire [OF assms(1,2), where X = "{}" and G = id and H = id]) (use assms(3-) in auto)

section \<open>What the operations write\<close>

text \<open>The tables other than jobs, attempts, leases, events and results are untouched.\<close>

definition same_infra :: "DB \<Rightarrow> DB \<Rightarrow> bool" where
  "same_infra s s' \<longleftrightarrow> db_workers s' = db_workers s \<and> db_sandboxes s' = db_sandboxes s
     \<and> db_sessions s' = db_sessions s \<and> db_checkpoints s' = db_checkpoints s \<and> db_tokens s' = db_tokens s
     \<and> db_recovery_events s' = db_recovery_events s"

definition ended :: "AttemptState \<Rightarrow> Failure option \<Rightarrow> time \<Rightarrow> AttemptCore \<Rightarrow> AttemptCore" where
  "ended st f tm a = a\<lparr>at_State := st, at_Failure := f, at_EndedAt := Some tm\<rparr>"

definition moved :: "JobState \<Rightarrow> time option \<Rightarrow> time \<Rightarrow> JobRow \<Rightarrow> JobRow" where
  "moved st next_at tm r = r\<lparr>j_State := st, jr_NextAttemptAt := next_at, j_UpdatedAt := tm\<rparr>"

lemma moved_keeps [simp]:
  "j_IdempotencyKey (moved st nx tm r) = j_IdempotencyKey r"
  "j_Kind (moved st nx tm r) = j_Kind r"
  "j_Payload (moved st nx tm r) = j_Payload r"
  "j_Constraints (moved st nx tm r) = j_Constraints r"
  "j_TimeoutAt (moved st nx tm r) = j_TimeoutAt r"
  "j_CreatedAt (moved st nx tm r) = j_CreatedAt r"
  by (simp_all add: moved_def)

lemma ended_simps [simp]:
  "at_ID (ended st f tm a) = at_ID a" "at_JobID (ended st f tm a) = at_JobID a"
  "at_Number (ended st f tm a) = at_Number a" "at_WorkerID (ended st f tm a) = at_WorkerID a"
  "at_State (ended st f tm a) = st" "at_SandboxID (ended st f tm a) = at_SandboxID a"
  by (simp_all add: ended_def)

lemma moved_simps [simp]:
  "j_ID (moved st nx tm r) = j_ID r" "j_State (moved st nx tm r) = st"
  "j_SessionID (moved st nx tm r) = j_SessionID r" "j_DependsOn (moved st nx tm r) = j_DependsOn r"
  "j_RetryPolicy (moved st nx tm r) = j_RetryPolicy r"
  by (simp_all add: moved_def)

text \<open>A job moved by its identifier, then its dependents failed.\<close>

definition cascade :: "JobID \<Rightarrow> time \<Rightarrow> JobRow list \<Rightarrow> JobRow list" where
  "cascade i tm js =
     upd_where (\<lambda>r. (i, j_ID r) \<in> (dep_edges js)\<^sup>+ \<and> pending (j_State r)) (dep_failed tm) js"

lemma propagate_cascade:
  assumes "propagateDependencyFailure i tm s = Inr s'"
  shows "\<exists>es. s' = s\<lparr>db_jobs := cascade i tm (db_jobs s), db_events := db_events s @ es\<rparr>"
  using propagate_Inr [OF assms] by (simp add: cascade_def)

lemma cascade_map:
  "\<exists>C. cascade i tm js = map C js \<and> (\<forall>r. j_ID (C r) = j_ID r \<and> j_DependsOn (C r) = j_DependsOn r
      \<and> j_SessionID (C r) = j_SessionID r \<and> j_RetryPolicy (C r) = j_RetryPolicy r
      \<and> running_state (j_State (C r)) = running_state (j_State r)
      \<and> (j_State (C r) = j_State r \<or> pending (j_State r) \<and> j_State (C r) = JobDependencyFailed))"
  by (rule exI [of _ "\<lambda>r. if (i, j_ID r) \<in> (dep_edges js)\<^sup>+ \<and> pending (j_State r) then dep_failed tm r else r"])
    (auto simp: cascade_def upd_where_map pending_def running_state_def)

lemma cascade_upd:
  assumes "\<And>r. j_ID (f r) = j_ID r \<and> running_state (j_State (f r)) = b"
  obtains F where "cascade i tm (upd_where P f js) = map F js"
    and "\<And>r. j_ID (F r) = j_ID r \<and> running_state (j_State (F r)) = (if P r then b else running_state (j_State r))"
proof -
  from cascade_map [of i tm "upd_where P f js"] obtain C where C:
    "cascade i tm (upd_where P f js) = map C (upd_where P f js)"
    "\<forall>r. j_ID (C r) = j_ID r \<and> running_state (j_State (C r)) = running_state (j_State r)" by blast
  show ?thesis
  proof (rule that [of "\<lambda>r. C (if P r then f r else r)"])
    show "cascade i tm (upd_where P f js) = map (\<lambda>r. C (if P r then f r else r)) js"
      unfolding C(1) by (simp add: upd_where_map)
  qed (use C(2) assms in auto)
qed

lemma rows_affected_ex: "rows_affected P t \<noteq> 0 \<longleftrightarrow> (\<exists>r \<in> set t. P r)"
  by (simp add: rows_affected_def filter_empty_conv)

lemma CancelJob_Inr:
  assumes "CancelJob_tx i tm s = Inr s'"
  shows "\<exists>es. db_jobs s' = cascade i tm
        (upd_where (\<lambda>r. j_ID r = i \<and> \<not> JobTerminal (j_State r)) (moved JobCanceled None tm) (db_jobs s))
      \<and> (\<exists>r \<in> set (db_jobs s). j_ID r = i \<and> \<not> JobTerminal (j_State r))
      \<and> (\<exists>f. case active_attempt i s of
          None \<Rightarrow> db_attempts s' = db_attempts s \<and> db_leases s' = db_leases s
        | Some a \<Rightarrow> db_attempts s' = upd_where (\<lambda>x. at_ID x = at_ID a) (ended AttemptCanceled (Some f) tm) (db_attempts s)
            \<and> db_leases s' = del_where (\<lambda>l. l_AttemptID l = at_ID a) (db_leases s))
      \<and> db_events s' = db_events s @ es \<and> same_infra s s'"
proof -
  let ?P = "\<lambda>r. j_ID r = i \<and> \<not> JobTerminal (j_State r)"
  let ?s1 = "update_jobs ?P (\<lambda>r. r\<lparr>j_State := JobCanceled, jr_NextAttemptAt := None, j_UpdatedAt := tm\<rparr>) s"
  let ?f = "\<lparr>f_Code = ''job_canceled'', f_Message = ''job canceled by client'', f_Class = FailureNonRetryable\<rparr>"
  let ?s2 = "case active_attempt i ?s1 of None \<Rightarrow> ?s1 | Some a \<Rightarrow> delete_leases (\<lambda>l. l_AttemptID l = at_ID a)
      (end_attempt (at_ID a) AttemptCanceled (Some ?f) tm ?s1)"
  from assms have one: "rows_affected ?P (db_jobs s) = 1"
    by (auto simp: CancelJob_tx_def Let_def split: if_splits option.splits)
  from assms one obtain s3 e where s3: "propagateDependencyFailure i tm ?s2 = Inr s3" "insert_event e s3 = Inr s'"
    by (auto simp: CancelJob_tx_def Let_def)
  from propagate_cascade [OF s3(1)] obtain es where es:
    "s3 = ?s2\<lparr>db_jobs := cascade i tm (db_jobs ?s2), db_events := db_events ?s2 @ es\<rparr>" by blast
  from insert_event_Inr [OF s3(2)] have s': "s' = s3\<lparr>db_events := db_events s3 @ [e]\<rparr>" by blast
  have aa: "active_attempt i ?s1 = active_attempt i s" by (simp add: active_attempt_def update_jobs_def)
  have "\<exists>r \<in> set (db_jobs s). ?P r" using one rows_affected_ex [of ?P "db_jobs s"] by simp
  then show ?thesis
    unfolding s' es aa
    by (cases "active_attempt i s")
      (auto simp: stmt_defs end_attempt_def same_infra_def moved_def [abs_def] ended_def [abs_def]
        intro!: exI [of _ "es @ [e]"] exI [of _ ?f])
qed

lemma lease_inv_CancelJob:
  assumes "lease_inv s" and "CancelJob_tx i tm s = Inr s'"
  shows "lease_inv s'"
proof -
  let ?P = "\<lambda>r. j_ID r = i \<and> \<not> JobTerminal (j_State r)"
  from CancelJob_Inr [OF assms(2)] obtain f where
    jobs: "db_jobs s' = cascade i tm (upd_where ?P (moved JobCanceled None tm) (db_jobs s))"
    and att: "case active_attempt i s of
          None \<Rightarrow> db_attempts s' = db_attempts s \<and> db_leases s' = db_leases s
        | Some a \<Rightarrow> db_attempts s' = upd_where (\<lambda>x. at_ID x = at_ID a) (ended AttemptCanceled (Some f) tm) (db_attempts s)
            \<and> db_leases s' = del_where (\<lambda>l. l_AttemptID l = at_ID a) (db_leases s)" by blast
  obtain F where jobs': "db_jobs s' = map F (db_jobs s)" and F: "\<And>r. j_ID (F r) = j_ID r
      \<and> running_state (j_State (F r)) = (if ?P r then False else running_state (j_State r))"
    by (rule cascade_upd [of "moved JobCanceled None tm" False i tm ?P "db_jobs s"])
      (use jobs in \<open>auto simp: running_state_def\<close>)
  show ?thesis
  proof (cases "active_attempt i s")
    case None
    have "\<not> running_state (j_State r)" if "r \<in> set (db_jobs s)" "j_ID r = i" for r
      using None that assms(1) by (auto simp: active_attempt_None lease_inv_def active_inv_def)
    then show ?thesis using None att F
      by (intro lease_inv_jobs [OF assms(1) jobs']) auto
  next
    case (Some a)
    note a = active_attemptD [OF Some]
    show ?thesis
    proof (rule lease_inv_end_one [OF assms(1) _ _ jobs', of a "ended AttemptCanceled (Some f) tm"])
      fix r assume "r \<in> set (db_jobs s)"
      show "j_ID (F r) = j_ID r \<and> running_state (j_State (F r)) = (running_state (j_State r) \<and> j_ID r \<noteq> at_JobID a)"
        using F a by (auto simp: running_state_def)
    qed (use Some a att in \<open>auto simp: AttemptActive.simps\<close>)
  qed
qed

definition stated :: "JobState \<Rightarrow> time \<Rightarrow> JobRow \<Rightarrow> JobRow" where
  "stated st tm r = r\<lparr>j_State := st, j_UpdatedAt := tm\<rparr>"

lemma stated_keeps [simp]:
  "j_IdempotencyKey (stated st tm r) = j_IdempotencyKey r"
  "j_Kind (stated st tm r) = j_Kind r"
  "j_Payload (stated st tm r) = j_Payload r"
  "j_Constraints (stated st tm r) = j_Constraints r"
  "j_TimeoutAt (stated st tm r) = j_TimeoutAt r"
  "j_CreatedAt (stated st tm r) = j_CreatedAt r"
  by (simp_all add: stated_def)

lemma stated_simps [simp]:
  "j_ID (stated st tm r) = j_ID r" "j_State (stated st tm r) = st"
  "j_SessionID (stated st tm r) = j_SessionID r" "j_DependsOn (stated st tm r) = j_DependsOn r"
  "j_RetryPolicy (stated st tm r) = j_RetryPolicy r"
  by (simp_all add: stated_def)

definition unblocked :: "JobID \<Rightarrow> time \<Rightarrow> JobRow list \<Rightarrow> JobRow list" where
  "unblocked i tm js = upd_where
     (\<lambda>r. j_State r = JobWaiting \<and> i \<in> set (j_DependsOn r)
        \<and> \<not> (\<exists>d \<in> set (j_DependsOn r). \<exists>p \<in> set js. j_ID p = d \<and> j_State p \<noteq> JobSucceeded))
     (stated JobQueued tm) js"

definition settled :: "JobID \<Rightarrow> JobState \<Rightarrow> time \<Rightarrow> JobRow list \<Rightarrow> JobRow list" where
  "settled i st tm js =
    (let js1 = upd_where (\<lambda>r. j_ID r = i) (stated st tm) js
     in if st = JobSucceeded then unblocked i tm js1 else if JobTerminal st then cascade i tm js1 else js1)"

lemma jobs_only: "s\<lparr>db_jobs := js\<rparr> = s\<lparr>db_jobs := js, db_events := db_events s @ []\<rparr>"
  by (cases s) simp

lemma settle_job_Inr:
  assumes "settle_job i st tm s = Inr s'"
  shows "\<exists>es. s' = s\<lparr>db_jobs := settled i st tm (db_jobs s), db_events := db_events s @ es\<rparr>"
proof -
  let ?s1 = "update_jobs (\<lambda>r. j_ID r = i) (stated st tm) s"
  have def: "settle_job i st tm s = (if st = JobSucceeded then Inr (unblock_dependents i tm ?s1)
      else if JobTerminal st then propagateDependencyFailure i tm ?s1 else Inr ?s1)"
    by (simp add: settle_job_def stated_def [abs_def])
  consider "st = JobSucceeded" | "st \<noteq> JobSucceeded" "JobTerminal st" | "st \<noteq> JobSucceeded" "\<not> JobTerminal st" by blast
  then show ?thesis
  proof cases
    case 1
    then have "s' = s\<lparr>db_jobs := settled i st tm (db_jobs s)\<rparr>" using assms def
      by (simp add: settled_def unblock_dependents_def unblocked_def stmt_defs stated_def [abs_def] Let_def)
    then show ?thesis using jobs_only by blast
  next
    case 2
    with assms def propagate_cascade [of i tm ?s1 s'] show ?thesis by (simp add: settled_def update_jobs_def)
  next
    case 3
    then have "s' = s\<lparr>db_jobs := settled i st tm (db_jobs s)\<rparr>" using assms def
      by (simp add: settled_def update_jobs_def Let_def)
    then show ?thesis using jobs_only by blast
  qed
qed

lemma touch_job_session_Inr:
  "touch_job_session r tm s = Inr s' \<Longrightarrow> s' = s \<or> (\<exists>idle. s' = touch_session (j_SessionID r) tm idle s)"
  by (auto simp: touch_job_session_def split: if_splits)

text \<open>A successful completion: who owned the attempt, and what was written.\<close>

lemma CompleteAttempt_Inr:
  assumes "CompleteAttempt_tx c s = Inr s'"
  obtains a r l es where
    "owned_attempt (cm_AttemptID c) (cm_WorkerID c) s = Some a"
    "row_by j_ID (at_JobID a) (db_jobs s) = Some r"
    "CanAttemptTransition (at_State a) (cm_AttemptState c)"
    "AttemptTerminal (cm_AttemptState c)"
    "\<And>st. cm_JobState c = Some st \<Longrightarrow> JobTerminal st"
    "row_by l_AttemptID (cm_AttemptID c) (db_leases s) = Some l" "cm_At c < l_ExpiresAt l"
    "db_jobs s' = settled (at_JobID a) (completion_job_state c a r) (cm_At c) (db_jobs s)"
    "db_attempts s' = upd_where (\<lambda>x. at_ID x = cm_AttemptID c)
       (ended (cm_AttemptState c) (cm_Failure c) (cm_At c)) (db_attempts s)"
    "db_leases s' = del_where (\<lambda>x. l_AttemptID x = cm_AttemptID c) (db_leases s)"
    "db_events s' = db_events s @ es"
    "db_workers s' = db_workers (release_slot (cm_WorkerID c) s)"
    "db_sessions s' = db_sessions s \<or> (\<exists>idle. db_sessions s' = db_sessions (touch_session (j_SessionID r) (cm_At c) idle s))"
    "db_sandboxes s' = db_sandboxes s" "db_checkpoints s' = db_checkpoints s" "db_tokens s' = db_tokens s"
    "db_recovery_events s' = db_recovery_events s" "db_results s' = db_results s"
proof -
  from assms obtain a r l where pre:
    "owned_attempt (cm_AttemptID c) (cm_WorkerID c) s = Some a"
    "row_by j_ID (at_JobID a) (db_jobs s) = Some r"
    "CanAttemptTransition (at_State a) (cm_AttemptState c)" "AttemptTerminal (cm_AttemptState c)"
    "\<And>st. cm_JobState c = Some st \<Longrightarrow> JobTerminal st"
    "row_by l_AttemptID (cm_AttemptID c) (db_leases s) = Some l" "cm_At c < l_ExpiresAt l"
    by (auto simp: CompleteAttempt_tx_def split: if_splits option.splits)
  let ?s1 = "release_slot (cm_WorkerID c) (delete_leases (\<lambda>x. l_AttemptID x = cm_AttemptID c)
      (end_attempt (cm_AttemptID c) (cm_AttemptState c) (cm_Failure c) (cm_At c) s))"
  let ?st = "completion_job_state c a r"
  from assms pre obtain s2 s3 where
    "settle_job (at_JobID a) ?st (cm_At c) ?s1 = Inr s2" "touch_job_session r (cm_At c) s2 = Inr s3"
    "insert_event (completion_event c (at_JobID a) s3) s3 = Inr s'"
    by (auto simp: CompleteAttempt_tx_def Let_def split: if_splits option.splits)
  then obtain es e where s2: "s2 = ?s1\<lparr>db_jobs := settled (at_JobID a) ?st (cm_At c) (db_jobs ?s1), db_events := db_events ?s1 @ es\<rparr>"
    and s3: "s3 = s2 \<or> (\<exists>idle. s3 = touch_session (j_SessionID r) (cm_At c) idle s2)"
    and s': "s' = s3\<lparr>db_events := db_events s3 @ [e]\<rparr>"
    by (blast dest: settle_job_Inr touch_job_session_Inr insert_event_Inr)
  show thesis
    by (rule that [OF pre, of "es @ [e]"])
      (use s2 s3 s' in \<open>auto simp: stmt_defs end_attempt_def release_slot_def touch_session_def ended_def [abs_def]\<close>)
qed

lemma completion_not_running:
  "(\<And>st. cm_JobState c = Some st \<Longrightarrow> JobTerminal st) \<Longrightarrow> \<not> running_state (completion_job_state c a r)"
  by (auto simp: completion_job_state_def running_state_def split: option.splits if_splits)

lemma settled_map:
  assumes "\<not> running_state st"
  obtains F where "settled i st tm js = map F js"
    and "\<And>r. j_ID (F r) = j_ID r \<and> running_state (j_State (F r)) = (j_ID r \<noteq> i \<and> running_state (j_State r))"
proof (cases "st = JobSucceeded")
  case True
  let ?js = "upd_where (\<lambda>r. j_ID r = i) (stated st tm) js"
  let ?Q = "\<lambda>r. j_State r = JobWaiting \<and> i \<in> set (j_DependsOn r)
      \<and> \<not> (\<exists>d \<in> set (j_DependsOn r). \<exists>p \<in> set ?js. j_ID p = d \<and> j_State p \<noteq> JobSucceeded)"
  let ?U = "\<lambda>r. if ?Q r then stated JobQueued tm r else r"
  have "settled i st tm js = unblocked i tm ?js" by (simp add: settled_def True)
  also have "\<dots> = map ?U ?js" unfolding unblocked_def by (rule upd_where_map)
  also have "\<dots> = map (\<lambda>r. ?U (if j_ID r = i then stated st tm r else r)) js"
    unfolding upd_where_map [of _ _ js] by (simp only: map_map comp_def)
  finally show thesis
  proof (rule that)
    have U: "j_ID (?U r) = j_ID r \<and> running_state (j_State (?U r)) = running_state (j_State r)" for r
      by (auto simp: running_state_def)
    fix r
    show "j_ID (?U (if j_ID r = i then stated st tm r else r)) = j_ID r \<and>
      running_state (j_State (?U (if j_ID r = i then stated st tm r else r))) = (j_ID r \<noteq> i \<and> running_state (j_State r))"
      using U [of "if j_ID r = i then stated st tm r else r"] assms by (cases "j_ID r = i") (simp_all only: if_True if_False stated_simps simp_thms)
  qed
next
  case False
  show thesis
  proof (cases "JobTerminal st")
    case True
    have mv: "\<And>r. j_ID (stated st tm r) = j_ID r \<and> running_state (j_State (stated st tm r)) = False"
      using assms by simp
    obtain F where F: "cascade i tm (upd_where (\<lambda>r. j_ID r = i) (stated st tm) js) = map F js"
      "\<And>r. j_ID (F r) = j_ID r \<and> running_state (j_State (F r)) = (if j_ID r = i then False else running_state (j_State r))"
      by (rule cascade_upd [OF mv, of i tm "\<lambda>r. j_ID r = i" js]) (rule that)
    show thesis
      by (rule that [of F]) (use True False F in \<open>simp_all add: settled_def\<close>)
  next
    case F: False
    show thesis
      by (rule that [of "\<lambda>r. if j_ID r = i then stated st tm r else r"])
        (use assms F False in \<open>auto simp: settled_def upd_where_map\<close>)
  qed
qed

lemma terminal_not_active: "AttemptTerminal st \<Longrightarrow> \<not> AttemptActive st"
  by (cases st) (auto simp: AttemptActive.simps)

lemma CanAttemptTransition_active: "CanAttemptTransition st st' \<Longrightarrow> AttemptActive st"
  by (cases st) (auto simp: CanAttemptTransition_def AttemptActive.simps split: if_splits)

lemma lease_inv_CompleteAttempt:
  assumes inv: "lease_inv s" and "CompleteAttempt_tx c s = Inr s'"
  shows "lease_inv s'"
  using assms(2)
proof (rule CompleteAttempt_Inr)
  fix a r
  assume a: "owned_attempt (cm_AttemptID c) (cm_WorkerID c) s = Some a"
    and can: "CanAttemptTransition (at_State a) (cm_AttemptState c)" "AttemptTerminal (cm_AttemptState c)"
    and st: "\<And>st. cm_JobState c = Some st \<Longrightarrow> JobTerminal st"
    and jobs: "db_jobs s' = settled (at_JobID a) (completion_job_state c a r) (cm_At c) (db_jobs s)"
    and att: "db_attempts s' = upd_where (\<lambda>x. at_ID x = cm_AttemptID c)
       (ended (cm_AttemptState c) (cm_Failure c) (cm_At c)) (db_attempts s)"
    and leases: "db_leases s' = del_where (\<lambda>x. l_AttemptID x = cm_AttemptID c) (db_leases s)"
  note own = owned_attemptD [OF a]
  obtain F where F: "db_jobs s' = map F (db_jobs s)" "\<And>r. j_ID (F r) = j_ID r
      \<and> running_state (j_State (F r)) = (j_ID r \<noteq> at_JobID a \<and> running_state (j_State r))"
    using settled_map [OF completion_not_running [OF st]] jobs by metis
  show ?thesis
    by (rule lease_inv_end_one [OF inv _ _ F(1), of a "ended (cm_AttemptState c) (cm_Failure c) (cm_At c)"])
      (use own F(2) att leases can in \<open>auto simp: terminal_not_active dest: CanAttemptTransition_active\<close>)
qed

lemma expire_active_Inr:
  assumes "expire_active now i a r s = Inr s'" and "expired_job_state a r now = (st, nx)"
  shows "\<exists>es. db_attempts s' = upd_where (\<lambda>x. at_ID x = i \<and> active x) (ended AttemptExpired (Some lease_expired_failure) now) (db_attempts s)
      \<and> db_jobs s' = (let js = upd_where (\<lambda>x. j_ID x = at_JobID a \<and> running_state (j_State x)) (moved st nx now) (db_jobs s)
          in if JobTerminal st then cascade (at_JobID a) now js else js)
      \<and> db_leases s' = del_where (\<lambda>l. l_AttemptID l = i) (db_leases s)
      \<and> db_events s' = db_events s @ es
      \<and> db_workers s' = db_workers (release_slot (at_WorkerID a) s)
      \<and> db_sessions s' = db_sessions s \<and> db_sandboxes s' = db_sandboxes s \<and> db_checkpoints s' = db_checkpoints s
      \<and> db_tokens s' = db_tokens s \<and> db_recovery_events s' = db_recovery_events s"
proof -
  define s2 where "s2 = s\<lparr>db_attempts := upd_where (\<lambda>x. at_ID x = i \<and> active x)
      (ended AttemptExpired (Some lease_expired_failure) now) (db_attempts s),
      db_jobs := upd_where (\<lambda>x. j_ID x = at_JobID a \<and> running_state (j_State x)) (moved st nx now) (db_jobs s)\<rparr>"
  let ?rel = "\<lambda>x. release_slot (at_WorkerID a) (delete_leases (\<lambda>l. l_AttemptID l = i) x)"
  have s2: "update_jobs (\<lambda>x. j_ID x = at_JobID a \<and> (j_State x = JobLeased \<or> j_State x = JobRunning))
      (\<lambda>x. x\<lparr>j_State := st, jr_NextAttemptAt := nx, j_UpdatedAt := now\<rparr>)
      (update_attempts (\<lambda>x. at_ID x = i \<and> active x)
        (\<lambda>x. x\<lparr>at_State := AttemptExpired, at_Failure := Some lease_expired_failure, at_EndedAt := Some now\<rparr>) s) = s2"
    by (simp add: s2_def update_jobs_def update_attempts_def moved_def [abs_def] ended_def [abs_def] running_state_def)
  from assms(1) obtain s3 e where
    s3: "(if JobTerminal st then propagateDependencyFailure (at_JobID a) now s2 else Inr s2) = Inr s3"
    and e: "insert_or_ignore insert_event e (?rel s3) = Inr s'"
    unfolding expire_active_def Let_def assms(2) fst_conv snd_conv s2 by auto
  have "\<exists>es. s3 = s2\<lparr>db_jobs := (if JobTerminal st then cascade (at_JobID a) now (db_jobs s2) else db_jobs s2),
      db_events := db_events s2 @ es\<rparr>"
  proof (cases "JobTerminal st")
    case True
    with s3 propagate_cascade [of "at_JobID a" now s2 s3] show ?thesis by simp
  next
    case False
    with s3 show ?thesis by (intro exI [of _ "[]"]) simp
  qed
  then obtain es where es: "s3 = s2\<lparr>db_jobs := (if JobTerminal st then cascade (at_JobID a) now (db_jobs s2) else db_jobs s2),
      db_events := db_events s2 @ es\<rparr>" ..
  have ev: "db_events (?rel s3) = db_events s3" by (simp add: stmt_defs release_slot_def)
  from insert_or_ignore_event_Inr [OF e] have "\<exists>es'. s' = (?rel s3)\<lparr>db_events := db_events s3 @ es'\<rparr>"
    unfolding ev by (elim disjE) (auto simp: ev [symmetric] intro: exI [of _ "[]"])
  then obtain es' where s': "s' = (?rel s3)\<lparr>db_events := db_events s3 @ es'\<rparr>" ..
  show ?thesis
    by (rule exI [of _ "es @ es'"]) (simp add: s' es s2_def stmt_defs release_slot_def Let_def)
qed

lemma expire_lease_cases:
  assumes "expire_lease now i s = Inr s'"
  obtains (skip) "s' = s" "find (\<lambda>a. at_ID a = i \<and> active a) (db_attempts s) = None
      \<or> (\<exists>a \<in> set (db_attempts s). at_JobID a \<notin> j_ID ` set (db_jobs s))"
    | (expire) a r where "find (\<lambda>a. at_ID a = i \<and> active a) (db_attempts s) = Some a"
      "row_by j_ID (at_JobID a) (db_jobs s) = Some r" "expire_active now i a r s = Inr s'"
proof (cases "find (\<lambda>a. at_ID a = i \<and> active a) (db_attempts s)")
  case None
  with assms skip show thesis by (simp add: expire_lease_def)
next
  case (Some a)
  then have a: "a \<in> set (db_attempts s)" by (auto simp: find_Some_iff)
  show thesis
  proof (cases "row_by j_ID (at_JobID a) (db_jobs s)")
    case None
    then have "at_JobID a \<notin> j_ID ` set (db_jobs s)" by simp
    with None Some a assms skip show thesis by (auto simp: expire_lease_def simp del: row_by_None)
  next
    case (Some r)
    with assms \<open>find _ _ = Some a\<close> expire show thesis by (simp add: expire_lease_def)
  qed
qed

lemma expired_not_running: "expired_job_state a r now = (st, nx) \<Longrightarrow> \<not> running_state st"
  by (auto simp: expired_job_state_def running_state_def split: if_splits)

lemma cascade_if_upd:
  assumes "\<And>r. j_ID (f r) = j_ID r \<and> running_state (j_State (f r)) = b"
  obtains F where "(let js = upd_where P f t in if B then cascade i tm js else js) = map F t"
    and "\<And>r. j_ID (F r) = j_ID r \<and> running_state (j_State (F r)) = (if P r then b else running_state (j_State r))"
proof (cases B)
  case True
  show thesis by (rule cascade_upd [OF assms, of i tm P t]) (use True that in auto)
next
  case False
  show thesis
    by (rule that [of "\<lambda>r. if P r then f r else r"]) (use False assms in \<open>auto simp: upd_where_map\<close>)
qed

lemma lease_inv_expire_lease:
  assumes inv: "lease_inv s" and "expire_lease now i s = Inr s'"
  shows "lease_inv s'"
  using assms(2)
proof (cases rule: expire_lease_cases)
  case skip
  with inv show ?thesis by simp
next
  case (expire a r)
  obtain st nx where st: "expired_job_state a r now = (st, nx)" by (cases "expired_job_state a r now")
  from expire(1) have a: "a \<in> set (db_attempts s)" "at_ID a = i" "active a" by (auto simp: find_Some_iff)
  note eff = expire_active_Inr [OF expire(3) st]
  have mv: "\<And>r. j_ID (moved st nx now r) = j_ID r \<and> running_state (j_State (moved st nx now r)) = False"
    using expired_not_running [OF st] by simp
  obtain F where F: "(let js = upd_where (\<lambda>x. j_ID x = at_JobID a \<and> running_state (j_State x)) (moved st nx now) (db_jobs s)
          in if JobTerminal st then cascade (at_JobID a) now js else js) = map F (db_jobs s)"
    "\<And>r. j_ID (F r) = j_ID r \<and> running_state (j_State (F r))
      = (if j_ID r = at_JobID a \<and> running_state (j_State r) then False else running_state (j_State r))"
    by (rule cascade_if_upd [OF mv, of "\<lambda>x. j_ID x = at_JobID a \<and> running_state (j_State x)"
          "db_jobs s" "JobTerminal st" "at_JobID a" now]) (rule that)
  have same: "(at_ID x = i \<and> active x) = (at_ID x = at_ID a)" if "x \<in> set (db_attempts s)" for x
    using a(2,3) attempts_same_id [OF inv that a(1)] by metis
  have "upd_where (\<lambda>x. at_ID x = i \<and> active x) g (db_attempts s) = upd_where (\<lambda>x. at_ID x = at_ID a) g (db_attempts s)" for g
    unfolding upd_where_map by (rule map_cong) (simp_all only: same)
  with eff F(1) a show ?thesis
    by (intro lease_inv_end_one [OF inv a(1,3), of s' F "ended AttemptExpired (Some lease_expired_failure) now"])
      (use F(2) in \<open>auto simp: AttemptActive.simps\<close>)
qed

lemma lease_inv_expireLeases:
  assumes "lease_inv s" and "expireLeases_tx P now s = Inr (ids, s')"
  shows "lease_inv s'"
proof -
  from assms(2) obtain xs where "foldM (expire_lease now) xs s = Inr s'" by (auto simp: expireLeases_tx_def Let_def)
  then show ?thesis by (rule foldM_inv) (use assms(1) lease_inv_expire_lease in auto)
qed

lemma timeout_job_Inr:
  assumes "timeout_job now i s = Inr s'"
  shows "\<exists>es. db_jobs s' = cascade i now (upd_where (\<lambda>r. j_ID r = i) (moved JobTimedOut None now) (db_jobs s))
      \<and> (case active_attempt i s of
          None \<Rightarrow> db_attempts s' = db_attempts s \<and> db_leases s' = db_leases s \<and> db_workers s' = db_workers s
        | Some a \<Rightarrow> db_attempts s' = upd_where (\<lambda>x. at_ID x = at_ID a) (ended AttemptCanceled (Some job_timeout_failure) now) (db_attempts s)
            \<and> db_leases s' = del_where (\<lambda>l. l_AttemptID l = at_ID a) (db_leases s)
            \<and> db_workers s' = db_workers (release_slot (at_WorkerID a) s))
      \<and> db_events s' = db_events s @ es \<and> db_sessions s' = db_sessions s \<and> db_sandboxes s' = db_sandboxes s
      \<and> db_checkpoints s' = db_checkpoints s \<and> db_tokens s' = db_tokens s \<and> db_recovery_events s' = db_recovery_events s"
proof -
  let ?s1 = "case active_attempt i s of None \<Rightarrow> s | Some a \<Rightarrow> release_slot (at_WorkerID a)
      (delete_leases (\<lambda>l. l_AttemptID l = at_ID a) (end_attempt (at_ID a) AttemptCanceled (Some job_timeout_failure) now s))"
  let ?s2 = "update_jobs (\<lambda>r. j_ID r = i) (moved JobTimedOut None now) ?s1"
  from assms obtain s3 e where s3: "propagateDependencyFailure i now ?s2 = Inr s3"
    and e: "insert_or_ignore insert_event e s3 = Inr s'"
    by (auto simp: timeout_job_def Let_def moved_def [abs_def])
  from propagate_cascade [OF s3] obtain es where
    es: "s3 = ?s2\<lparr>db_jobs := cascade i now (db_jobs ?s2), db_events := db_events ?s2 @ es\<rparr>" by blast
  from insert_or_ignore_event_Inr [OF e] have "\<exists>es'. s' = s3\<lparr>db_events := db_events s3 @ es'\<rparr>"
    by (elim disjE) (auto intro: exI [of _ "[]"])
  then obtain es' where s': "s' = s3\<lparr>db_events := db_events s3 @ es'\<rparr>" ..
  show ?thesis
    by (rule exI [of _ "es @ es'"], cases "active_attempt i s")
      (simp_all add: s' es stmt_defs release_slot_def end_attempt_def ended_def [abs_def])
qed

lemma lease_inv_timeout_job:
  assumes inv: "lease_inv s" and "timeout_job now i s = Inr s'"
  shows "lease_inv s'"
proof -
  note eff = timeout_job_Inr [OF assms(2)]
  have mv: "\<And>r. j_ID (moved JobTimedOut None now r) = j_ID r
      \<and> running_state (j_State (moved JobTimedOut None now r)) = False" by (simp add: running_state_def)
  obtain F where F: "cascade i now (upd_where (\<lambda>r. j_ID r = i) (moved JobTimedOut None now) (db_jobs s)) = map F (db_jobs s)"
    "\<And>r. j_ID (F r) = j_ID r \<and> running_state (j_State (F r)) = (if j_ID r = i then False else running_state (j_State r))"
    by (rule cascade_upd [OF mv, of i now "\<lambda>r. j_ID r = i" "db_jobs s"]) (rule that)
  from eff F(1) have jobs: "db_jobs s' = map F (db_jobs s)" by auto
  show ?thesis
  proof (cases "active_attempt i s")
    case None
    have "\<not> running_state (j_State r)" if "r \<in> set (db_jobs s)" "j_ID r = i" for r
      using None that inv by (auto simp: active_attempt_None lease_inv_def active_inv_def)
    then show ?thesis using None eff F(2)
      by (intro lease_inv_jobs [OF inv jobs]) auto
  next
    case (Some a)
    note a = active_attemptD [OF Some]
    show ?thesis
      by (rule lease_inv_end_one [OF inv _ _ jobs, of a "ended AttemptCanceled (Some job_timeout_failure) now"])
        (use Some a eff F(2) in \<open>auto simp: AttemptActive.simps\<close>)
  qed
qed

lemma lease_inv_TimeoutJobs:
  assumes "lease_inv s" and "TimeoutJobs_tx now s = Inr (ids, s')"
  shows "lease_inv s'"
proof -
  from assms(2) obtain xs where "foldM (timeout_job now) xs s = Inr s'" by (auto simp: TimeoutJobs_tx_def)
  then show ?thesis by (rule foldM_inv) (use assms(1) lease_inv_timeout_job in auto)
qed

lemma terminal_events_Inr:
  assumes "foldM (\<lambda>i. appendTerminalEvent i st code tm) is s = Inr s'"
  shows "\<exists>es. s' = s\<lparr>db_events := db_events s @ es\<rparr> \<and> map e_JobID es = is"
  using assms
proof (induction "is" arbitrary: s)
  case (Cons i "is")
  then obtain s1 where s1: "appendTerminalEvent i st code tm s = Inr s1"
    "foldM (\<lambda>i. appendTerminalEvent i st code tm) is s1 = Inr s'" by (auto split: sum.splits)
  from s1(1) obtain e where e: "s1 = s\<lparr>db_events := db_events s @ [e]\<rparr>" "e_JobID e = i"
    by (auto simp: appendTerminalEvent_def dest!: insert_event_Inr)
  from Cons.IH [OF s1(2)] obtain es where "s' = s1\<lparr>db_events := db_events s1 @ es\<rparr>" "map e_JobID es = is" by blast
  with e show ?case by (intro exI [of _ "e # es"]) simp
qed (auto intro: exI [of _ "[]"])

definition lost_or_canceled :: "SessionState \<Rightarrow> JobState" where
  "lost_or_canceled st = (if st = SessionLost then JobSessionLost else JobCanceled)"

lemma session_attempt_iff:
  "session_attempt i x a \<longleftrightarrow> i \<noteq> '''' \<and> (at_JobID a, i) \<in> set (map (\<lambda>r. (j_ID r, j_SessionID r)) (db_jobs x))"
proof
  assume "session_attempt i x a"
  then obtain r where r: "r \<in> set (db_jobs x)" "j_SessionID r \<noteq> ''''" "j_SessionID r = i" "j_ID r = at_JobID a"
    unfolding session_attempt_def of_session_def by blast
  from r(1) have "(j_ID r, j_SessionID r) \<in> set (map (\<lambda>r. (j_ID r, j_SessionID r)) (db_jobs x))" by simp
  with r show "i \<noteq> '''' \<and> (at_JobID a, i) \<in> set (map (\<lambda>r. (j_ID r, j_SessionID r)) (db_jobs x))" by simp
qed (auto simp: session_attempt_def of_session_def)

lemma session_attempt_cong:
  assumes "map (\<lambda>r. (j_ID r, j_SessionID r)) (db_jobs s) = map (\<lambda>r. (j_ID r, j_SessionID r)) (db_jobs s')"
  shows "session_attempt i s = session_attempt i s'"
  by (rule ext) (simp only: session_attempt_iff assms)

lemma finishSessionTx_Inr:
  assumes "finishSessionTx i state code tm s = Inr s'"
  obtains v where "row_by s_ID i (db_sessions s) = Some v" "SessionTerminal (s_State v)" "s' = s"
  | v f es where "row_by s_ID i (db_sessions s) = Some v" "\<not> SessionTerminal (s_State v)"
    "db_jobs s' = upd_where (\<lambda>r. of_session i r \<and> unfinished (j_State r)) (stated (lost_or_canceled state) tm) (db_jobs s)"
    "db_attempts s' = upd_where (\<lambda>a. session_attempt i s a \<and> active a)
      (ended (if state = SessionLost then AttemptLost else AttemptCanceled) (Some f) tm) (db_attempts s)"
    "db_leases s' = del_where (\<lambda>l. \<exists>a \<in> set (db_attempts s). at_ID a = l_AttemptID l \<and> session_attempt i s a) (db_leases s)"
    "db_sessions s' = upd_where (\<lambda>x. s_ID x = i) (\<lambda>x. x\<lparr>s_State := state, s_ClosedAt := tm,
        s_Failure := (if state = SessionLost then Some f else None)\<rparr>) (db_sessions s)"
    "db_events s' = db_events s @ es" "db_checkpoints s' = db_checkpoints s" "db_tokens s' = db_tokens s"
    "db_recovery_events s' = db_recovery_events s"
    "db_workers s' = (if s_WorkerID v \<noteq> '''' then upd_where (\<lambda>w. w_ID w = s_WorkerID v \<and> w_ReservedSessionID w = i)
               (\<lambda>w. w\<lparr>w_ReservedSessionID := ''''\<rparr>) (db_workers s) else db_workers s)"
    "db_sandboxes s' = (if s_SandboxID v \<noteq> '''' then
          upd_where (\<lambda>b. b_ID b = s_SandboxID v \<and> b_ReservedSessionID b = i) (drain_sandbox tm) (db_sandboxes s) else db_sandboxes s)"
proof -
  from assms obtain v where v: "row_by s_ID i (db_sessions s) = Some v" by (auto simp: finishSessionTx_def)
  then have vid: "s_ID v = i" by (auto dest: row_byD)
  show thesis
  proof (cases "SessionTerminal (s_State v)")
    case True
    with assms v that(1) show thesis by (simp add: finishSessionTx_def)
  next
    case False
    define f where "f = \<lparr>f_Code = code, f_Message = code, f_Class = FailureNonRetryable\<rparr>"
    let ?s1 = "update_sessions (\<lambda>x. s_ID x = i) (\<lambda>x. x\<lparr>s_State := state, s_ClosedAt := tm,
               s_Failure := (if state = SessionLost then Some f else None)\<rparr>) s"
    let ?s2 = "update_jobs (\<lambda>r. of_session i r \<and> unfinished (j_State r)) (stated (lost_or_canceled state) tm) ?s1"
    let ?ast = "if state = SessionLost then AttemptLost else AttemptCanceled"
    from assms v False obtain s3 xs where
      s3: "foldM (\<lambda>jid. appendTerminalEvent jid (lost_or_canceled state) code tm) xs ?s2 = Inr s3"
      and s': "s' = release_session v ?ast f tm s3"
      unfolding finishSessionTx_def Let_def lost_or_canceled_def stated_def [abs_def] f_def by auto
    from terminal_events_Inr [OF s3] obtain es where es: "s3 = ?s2\<lparr>db_events := db_events ?s2 @ es\<rparr>" by blast
    have sa: "session_attempt i x = session_attempt i s" if "db_jobs x = db_jobs s3" for x
      by (rule session_attempt_cong) (simp add: that es stmt_defs map_upd_where)
    have ex: "(\<exists>a \<in> set (upd_where P (\<lambda>a. a\<lparr>at_State := st, at_Failure := g, at_EndedAt := t\<rparr>) A).
        at_ID a = k \<and> session_attempt i s a) \<longleftrightarrow> (\<exists>a \<in> set A. at_ID a = k \<and> session_attempt i s a)" for P st g t A k
      by (induction A) (auto simp: upd_where_def session_attempt_def)
    show thesis
      by (intro that(2) [OF v False, of f es])
        (simp_all add: s' release_session_def Let_def vid sa stmt_defs es ended_def [abs_def] ex)
  qed
qed

lemma lease_inv_finishSessionTx:
  assumes inv: "lease_inv s" and "finishSessionTx i state code tm s = Inr s'"
  shows "lease_inv s'"
  using assms(2)
proof (cases rule: finishSessionTx_Inr)
  case 1
  with inv show ?thesis by simp
next
  case (2 v f es)
  define X where "X = {k. \<exists>r \<in> set (db_jobs s). of_session i r \<and> j_ID r = k}"
  have sa: "session_attempt i s a \<longleftrightarrow> at_JobID a \<in> X" for a by (simp add: session_attempt_def X_def)
  have inX: "j_ID r \<in> X \<longleftrightarrow> of_session i r" if "r \<in> set (db_jobs s)" for r
    using that jobs_same_id [OF inv] by (auto simp: X_def)
  show ?thesis
  proof (rule lease_inv_retire [OF inv, where X = X and H = id])
    show "db_jobs s' = map (\<lambda>r. if of_session i r \<and> unfinished (j_State r) then stated (lost_or_canceled state) tm r else r) (db_jobs s)"
      using 2(3) by (simp add: upd_where_map)
    show "db_attempts s' = map (\<lambda>a. if session_attempt i s a \<and> active a
        then ended (if state = SessionLost then AttemptLost else AttemptCanceled) (Some f) tm a else a) (db_attempts s)"
      using 2(4) by (simp add: upd_where_map)
    show "db_leases s' = map id (filter (\<lambda>l. \<forall>a \<in> set (db_attempts s). at_ID a = l_AttemptID l \<longrightarrow> at_JobID a \<notin> X) (db_leases s))"
      using 2(5) by (simp add: del_where_def sa)
  qed (auto simp: inX sa running_state_def unfinished_def lost_or_canceled_def AttemptActive.simps)
qed

lemma RenewLease_Inr:
  "RenewLease_tx now a w until s = Inr s' \<Longrightarrow>
    \<exists>P. s' = update_leases P (\<lambda>l. l\<lparr>l_ExpiresAt := until\<rparr>) s"
  by (auto simp: RenewLease_tx_def Let_def split: if_splits)

lemma lease_inv_RenewLease:
  assumes "lease_inv s" and "RenewLease_tx now a w until s = Inr s'"
  shows "lease_inv s'"
proof -
  from RenewLease_Inr [OF assms(2)] obtain P where s': "s' = update_leases P (\<lambda>l. l\<lparr>l_ExpiresAt := until\<rparr>) s" by blast
  show ?thesis
    by (rule lease_inv_retire [OF assms(1), where X = "{}" and F = id and G = id
          and H = "\<lambda>l. if P l then l\<lparr>l_ExpiresAt := until\<rparr> else l"])
      (auto simp: s' update_leases_def upd_where_map)
qed

lemma lease_inv_append_job:
  assumes inv: "lease_inv s" and "db_jobs s' = db_jobs s @ [r]" and "db_attempts s' = db_attempts s"
    and "db_leases s' = db_leases s" and new: "j_ID r \<notin> j_ID ` set (db_jobs s)" and "\<not> running_state (j_State r)"
  shows "lease_inv s'"
proof -
  have "at_JobID a \<noteq> j_ID r" if "a \<in> set (db_attempts s)" for a
  proof -
    have "at_JobID a \<in> j_ID ` set (db_jobs s)" using inv that by (simp add: lease_inv_def keys_inv_def)
    with new show ?thesis by metis
  qed
  then show ?thesis using assms by (auto simp: lease_inv_def keys_inv_def active_inv_def lease_rows_inv_def)
qed

lemma prepare_job_state:
  assumes "prepare_job now j s = Inr j'" and "j_State j = JobQueued"
  shows "j_State j' = JobQueued \<or> j_State j' = JobWaiting"
  using assms by (auto simp: prepare_job_def Let_def split: if_splits)

lemma lease_inv_CreateJob:
  assumes inv: "lease_inv s" and "j_State j = JobQueued"
  shows "lease_inv (snd (CreateJob now j s))"
proof (cases "CreateJob now j s")
  case (Pair res s')
  show ?thesis
  proof (cases res)
    case (Inl e)
    with Pair inv show ?thesis using CreateJob_error [of now j s e s'] by simp
  next
    case (Inr j')
    with Pair have "CreateJob now j s = (Inr j', s')" by simp
    then show ?thesis
    proof (cases rule: CreateJob_cases)
      case existing
      with inv Pair show ?thesis by simp
    next
      case fresh
      note ins = insert_job_Inr [OF fresh(2)]
      have "lease_inv s'"
        by (rule lease_inv_append_job [OF inv, of s' "row_of_job j'"])
          (use ins prepare_job_state [OF fresh(1) assms(2)] in \<open>simp_all add: running_state_def, auto\<close>)
      with Pair show ?thesis by simp
    qed
  qed
qed

end
