(* ===== verification/SR_ClaimInv.thy ===== *)
theory SR_ClaimInv
  imports SR_LeaseInv
begin

text \<open>
  What a claim writes: the session checks touch sessions, workers and sandboxes only, and the
  chosen job gets one attempt and one lease. The lease invariant survives a claim, so it survives
  every operation of the store.
\<close>

section \<open>The claim loop\<close>

definition same_core :: "DB \<Rightarrow> DB \<Rightarrow> bool" where
  "same_core s s' \<longleftrightarrow> db_jobs s' = db_jobs s \<and> db_attempts s' = db_attempts s \<and> db_leases s' = db_leases s
     \<and> db_events s' = db_events s \<and> db_results s' = db_results s \<and> db_checkpoints s' = db_checkpoints s
     \<and> db_tokens s' = db_tokens s \<and> db_recovery_events s' = db_recovery_events s
     \<and> map s_ID (db_sessions s') = map s_ID (db_sessions s) \<and> map w_ID (db_workers s') = map w_ID (db_workers s)
     \<and> map b_ID (db_sandboxes s') = map b_ID (db_sandboxes s)"

lemma same_core_refl [simp]: "same_core s s"
  by (simp add: same_core_def)

lemma same_core_trans: "same_core s s1 \<Longrightarrow> same_core s1 s2 \<Longrightarrow> same_core s s2"
  by (simp add: same_core_def)

lemma session_gate_core: "session_gate r j reserved s = Inr (ok, s') \<Longrightarrow> same_core s s'"
  by (auto simp: session_gate_def bind_pending_def Let_def stmt_defs same_core_def map_upd_where split: if_splits)

lemma lease_job_None: "lease_job r j s = Inr (None, s') \<Longrightarrow> s' = s"
proof -
  let ?P = "\<lambda>x. j_ID x = j_ID j \<and> j_State x = JobQueued"
  assume "lease_job r j s = Inr (None, s')"
  then have *: "rows_affected ?P (db_jobs s) = 0"
    "s' = update_jobs ?P (\<lambda>x. x\<lparr>j_State := JobLeased, j_UpdatedAt := cr_Now r\<rparr>) s"
    by (auto simp: lease_job_def Let_def split: if_splits)
  from *(1) have "\<forall>x \<in> set (db_jobs s). \<not> ?P x" using rows_affected_ex [of ?P "db_jobs s"] by auto
  with *(2) show "s' = s" by (simp add: update_jobs_def upd_where_none)
qed

lemma take_slot_Inr:
  "take_slot r s = Inr s' \<Longrightarrow> s' = s \<and> \<not> cr_Capacity r > 0 \<or>
    cr_Capacity r > 0 \<and> s' = update_workers (\<lambda>w. w_ID w = w_ID (cr_Worker r) \<and> w_AvailableSlots w > 0)
      (\<lambda>w. w\<lparr>w_AvailableSlots := w_AvailableSlots w - 1\<rparr>) s
    \<and> (\<exists>w \<in> set (db_workers s). w_ID w = w_ID (cr_Worker r) \<and> w_AvailableSlots w > 0)"
  using rows_affected_ex [of "\<lambda>w. w_ID w = w_ID (cr_Worker r) \<and> w_AvailableSlots w > 0" "db_workers s"]
  by (auto simp: take_slot_def Let_def split: if_splits)

text \<open>The attempt a claim creates, and the rows it writes.\<close>

lemma lease_job_Inr:
  assumes "lease_job r j s = Inr (Some (a, j'), s')"
  defines "n \<equiv> next_number (\<lambda>a. at_JobID a = j_ID j) at_Number (db_attempts s)"
  shows "a = new_attempt r (j_ID j) n" "j' = j\<lparr>j_State := JobLeased, j_Attempts := [a]\<rparr>"
    "\<exists>x \<in> set (db_jobs s). j_ID x = j_ID j \<and> j_State x = JobQueued"
    "db_jobs s' = upd_where (\<lambda>x. j_ID x = j_ID j \<and> j_State x = JobQueued) (stated JobLeased (cr_Now r)) (db_jobs s)"
    "db_attempts s' = db_attempts s @ [attempt_row r (j_ID j) n]"
    "at_ID a \<notin> at_ID ` set (db_attempts s)"
    "db_leases s' = db_leases s @ [at_Lease a]"
    "l_AttemptID (at_Lease a) \<notin> l_AttemptID ` set (db_leases s)"
    "db_events s' = db_events s" "db_results s' = db_results s" "db_sandboxes s' = db_sandboxes s"
    "db_checkpoints s' = db_checkpoints s" "db_tokens s' = db_tokens s" "db_recovery_events s' = db_recovery_events s"
    "\<exists>s2. take_slot r s = Inr s2 \<and> db_workers s' = db_workers s2"
    "db_sessions s' = db_sessions s \<or> (\<exists>idle. db_sessions s' = db_sessions (touch_session (j_SessionID j) (cr_Now r) idle s))"
proof -
  let ?P = "\<lambda>x. j_ID x = j_ID j \<and> j_State x = JobQueued"
  let ?s1 = "update_jobs ?P (stated JobLeased (cr_Now r)) s"
  from assms(1) have some: "rows_affected ?P (db_jobs s) \<noteq> 0"
    by (auto simp: lease_job_def Let_def split: if_splits)
  then show "\<exists>x \<in> set (db_jobs s). ?P x" by (simp only: rows_affected_ex)
  from assms(1) some obtain s2 s3 s4 where
    s2: "take_slot r ?s1 = Inr s2" and s3: "insert_attempt (attempt_row r (j_ID j) n) s2 = Inr s3"
    and s4: "insert_lease (at_Lease a) s3 = Inr s4"
    and s5: "s' = s4 \<or> (\<exists>idle. s' = touch_session (j_SessionID j) (cr_Now r) idle s4)"
    and res: "a = new_attempt r (j_ID j) n" "j' = j\<lparr>j_State := JobLeased, j_Attempts := [a]\<rparr>"
    by (auto simp: lease_job_def Let_def n_def stated_def [abs_def] split: if_splits)
  show "a = new_attempt r (j_ID j) n" "j' = j\<lparr>j_State := JobLeased, j_Attempts := [a]\<rparr>" by (fact res)+
  from s3 have s3': "s3 = s2\<lparr>db_attempts := db_attempts s2 @ [attempt_row r (j_ID j) n]\<rparr>"
    "at_ID (attempt_row r (j_ID j) n) \<notin> at_ID ` set (db_attempts s2)"
    by (auto simp: insert_attempt_def split: if_splits)
  from s4 have s4': "s4 = s3\<lparr>db_leases := db_leases s3 @ [at_Lease a]\<rparr>"
    "l_AttemptID (at_Lease a) \<notin> l_AttemptID ` set (db_leases s3)"
    by (auto simp: insert_lease_def split: if_splits)
  have ts: "take_slot r s = Inr (s\<lparr>db_workers := db_workers s2\<rparr>)
      \<and> s2 = ?s1\<lparr>db_workers := db_workers s2\<rparr>"
    using s2 by (auto simp: take_slot_def Let_def stmt_defs split: if_splits)
  then obtain ws where ws: "s2 = ?s1\<lparr>db_workers := ws\<rparr>" by blast
  have s2': "db_jobs s2 = db_jobs ?s1 \<and> db_attempts s2 = db_attempts s \<and> db_leases s2 = db_leases s
      \<and> db_events s2 = db_events s \<and> db_results s2 = db_results s \<and> db_sandboxes s2 = db_sandboxes s
      \<and> db_checkpoints s2 = db_checkpoints s \<and> db_tokens s2 = db_tokens s
      \<and> db_recovery_events s2 = db_recovery_events s \<and> db_sessions s2 = db_sessions s"
    by (simp add: ws update_jobs_def)
  show "db_jobs s' = upd_where ?P (stated JobLeased (cr_Now r)) (db_jobs s)"
    using s5 s2' by (auto simp: s4'(1) s3'(1) touch_session_def stmt_defs)
  show "db_attempts s' = db_attempts s @ [attempt_row r (j_ID j) n]"
    using s5 s2' by (auto simp: s4'(1) s3'(1) touch_session_def stmt_defs)
  show "at_ID a \<notin> at_ID ` set (db_attempts s)"
    using s3'(2) s2' by (simp add: res attempt_row_def new_attempt_def)
  show "db_leases s' = db_leases s @ [at_Lease a]"
    using s5 s2' by (auto simp: s4'(1) s3'(1) touch_session_def stmt_defs)
  show "l_AttemptID (at_Lease a) \<notin> l_AttemptID ` set (db_leases s)"
    using s4'(2) s2' by (simp add: s3'(1))
  show "db_events s' = db_events s" "db_results s' = db_results s" "db_sandboxes s' = db_sandboxes s"
    "db_checkpoints s' = db_checkpoints s" "db_tokens s' = db_tokens s" "db_recovery_events s' = db_recovery_events s"
    using s5 s2' by (auto simp: s4'(1) s3'(1) touch_session_def stmt_defs)
  show "\<exists>s2. take_slot r s = Inr s2 \<and> db_workers s' = db_workers s2"
    using ts s5 by (auto simp: s4'(1) s3'(1) touch_session_def stmt_defs intro!: exI [of _ "s\<lparr>db_workers := db_workers s2\<rparr>"])
  show "db_sessions s' = db_sessions s \<or> (\<exists>idle. db_sessions s' = db_sessions (touch_session (j_SessionID j) (cr_Now r) idle s))"
    using s5 s2' by (auto simp: s4'(1) s3'(1) touch_session_def stmt_defs)
qed

lemma claim_loop_Inr:
  assumes "claim_loop r js s = Inr ((a, j'), s')"
  shows "\<exists>j s0 s1 w. j \<in> set js \<and> same_core s s0 \<and> row_by w_ID (w_ID (cr_Worker r)) (db_workers s0) = Some w
    \<and> session_gate r j (w_ReservedSessionID w) s0 = Inr (True, s1) \<and> lease_job r j s1 = Inr (Some (a, j'), s')"
  using assms
proof (induction js arbitrary: s)
  case (Cons j js)
  from Cons.prems obtain w pass s1 where w: "row_by w_ID (w_ID (cr_Worker r)) (db_workers s) = Some w"
    and gate: "session_gate r j (w_ReservedSessionID w) s = Inr (pass, s1)"
    by auto
  have rec: ?case if "claim_loop r js s1 = Inr ((a, j'), s')"
    using Cons.IH [OF that] session_gate_core [OF gate] same_core_trans by (meson list.set_intros(2))
  show ?case
  proof (cases pass)
    case False
    with Cons.prems w gate rec show ?thesis by simp
  next
    case True
    with Cons.prems w gate obtain res s2 where res: "lease_job r j s1 = Inr (res, s2)"
      "(case res of None \<Rightarrow> claim_loop r js s2 | Some x \<Rightarrow> Inr (x, s2)) = Inr ((a, j'), s')" by auto
    show ?thesis
    proof (cases res)
      case None
      with res rec lease_job_None [of r j s1 s2] show ?thesis by simp
    next
      case (Some x)
      with res w gate True show ?thesis by (intro exI [of _ j] exI [of _ s] exI [of _ s1] exI [of _ w]) simp
    qed
  qed
qed simp

text \<open>The request with the capacity the database allows.\<close>

lemma ClaimNextJob_Inr:
  assumes "ClaimNextJob_tx r0 s = Inr ((a, j'), s')"
  obtains r box j s0 s1 w where "claim_capacity r0 s = Inr r" "getSandbox (cr_SandboxID r) s = Inr box"
    "j \<in> set (claim_ranked r box s)" "same_core s s0"
    "row_by w_ID (w_ID (cr_Worker r)) (db_workers s0) = Some w"
    "session_gate r j (w_ReservedSessionID w) s0 = Inr (True, s1)" "lease_job r j s1 = Inr (Some (a, j'), s')"
proof -
  from assms obtain r box where "claim_capacity r0 s = Inr r" "getSandbox (cr_SandboxID r) s = Inr box"
    "claim_loop r (claim_ranked r box s) s = Inr ((a, j'), s')" by (auto simp: ClaimNextJob_tx_def)
  with claim_loop_Inr [OF this(3)] that show thesis by blast
qed

section \<open>Preservation\<close>

lemma lease_inv_lease_job:
  assumes inv: "lease_inv s" and leased: "lease_job r j s = Inr (Some (a, j'), s')"
  shows "lease_inv s'"
proof -
  define n where "n = next_number (\<lambda>a. at_JobID a = j_ID j) at_Number (db_attempts s)"
  define new where "new = attempt_row r (j_ID j) n"
  note eff = lease_job_Inr [OF leased, folded n_def]
  let ?P = "\<lambda>x. j_ID x = j_ID j \<and> j_State x = JobQueued"
  from inv have keys: "keys_inv s" and act: "active_inv s" and rows: "lease_rows_inv s" by (simp_all add: lease_inv_def)
  from eff(3) obtain q where q: "q \<in> set (db_jobs s)" "?P q" by blast
  have nrun: "\<not> active b" if "b \<in> set (db_attempts s)" "at_JobID b = j_ID j" for b
    using act q that by (fastforce simp: active_inv_def running_state_def)
  have new: "at_JobID new = j_ID j" "active new" "at_ID new = at_ID a" "at_WorkerID new = w_ID (cr_Worker r)"
    "at_ID new = attempt_id (at_JobID new) (at_Number new)"
    by (simp_all add: new_def attempt_row_def eff(1) new_attempt_def AttemptActive.simps)
  have lease: "l_AttemptID (at_Lease a) = at_ID new" "l_WorkerID (at_Lease a) = w_ID (cr_Worker r)"
    "l_ID (at_Lease a) = lease_id (at_ID new)"
    by (simp_all add: new_def attempt_row_def eff(1) new_attempt_def)
  have A: "db_attempts s' = db_attempts s @ [new]" using eff(5) by (simp add: new_def)
  have ids: "map j_ID (db_jobs s') = map j_ID (db_jobs s)" unfolding eff(4) by (simp add: map_upd_where)
  then have idset: "j_ID ` set (db_jobs s') = j_ID ` set (db_jobs s)" by (metis list.set_map)
  have "j_ID j \<in> j_ID ` set (db_jobs s)" using q by (metis imageI)
  then have "keys_inv s'"
    unfolding keys_inv_def ids idset A eff(7)
    using keys eff(6,8) q new by (auto simp: keys_inv_def lease(1))
  moreover have "active_inv s'"
    unfolding active_inv_def
  proof (intro conjI ballI impI)
    fix x y assume "x \<in> set (db_attempts s')" "y \<in> set (db_attempts s')" "active x \<and> active y \<and> at_JobID x = at_JobID y"
    then show "x = y" using nrun new act unfolding A active_inv_def by auto
  next
    fix x' assume "x' \<in> set (db_jobs s')"
    then obtain x where x: "x \<in> set (db_jobs s)" "x' = (if ?P x then stated JobLeased (cr_Now r) x else x)"
      by (auto simp: eff(4) in_upd_where)
    have old: "running_state (j_State x) \<longleftrightarrow> (\<exists>b \<in> set (db_attempts s). at_JobID b = j_ID x \<and> active b)"
      using act x(1) by (simp add: active_inv_def)
    show "running_state (j_State x') \<longleftrightarrow> (\<exists>b \<in> set (db_attempts s'). at_JobID b = j_ID x' \<and> active b)"
    proof (cases "j_ID x = j_ID j")
      case True
      then have "x = q" using jobs_same_id [OF inv x(1) q(1)] q(2) by simp
      with q x new show ?thesis by (simp add: A running_state_def)
    next
      case False
      with x old new show ?thesis by (simp add: A)
    qed
  qed
  moreover have "lease_rows_inv s'"
    using rows new lease unfolding lease_rows_inv_def A eff(7) by (auto 0 3)
  ultimately show ?thesis by (simp add: lease_inv_def)
qed

lemma lease_inv_ClaimNextJob:
  assumes "lease_inv s" and "ClaimNextJob_tx r s = Inr (x, s')"
  shows "lease_inv s'"
proof -
  obtain a j' where x: "x = (a, j')" by (cases x)
  show ?thesis
  proof (rule ClaimNextJob_Inr [OF assms(2) [unfolded x]])
    fix r1 j w s0 s1
    assume "same_core s s0" "session_gate r1 j (w_ReservedSessionID w) s0 = Inr (True, s1)"
      and leased: "lease_job r1 j s1 = Inr (Some (a, j'), s')"
    then have "same_core s s1" by (blast intro: same_core_trans session_gate_core)
    then have "lease_inv s1" using assms(1) lease_inv_cong [of s1 s] by (simp add: same_core_def)
    then show ?thesis using leased by (rule lease_inv_lease_job)
  qed
qed

end
