(* ===== verification/SR_DepInv.thy ===== *)
theory SR_DepInv
  imports SR_ClaimInv
begin

text \<open>
  The dependency invariant of the store: a job depends only on earlier jobs of its own session, it
  is queued, leased or running only when every dependency has succeeded, and it waits only while
  none has failed and one is unfinished. Every operation keeps it, so a waiting job can never be
  stuck.
\<close>

section \<open>The invariant\<close>

definition failed_state :: "JobState \<Rightarrow> bool" where
  "failed_state st \<longleftrightarrow> JobTerminal st \<and> st \<noteq> JobSucceeded"

definition ready_state :: "JobState \<Rightarrow> bool" where
  "ready_state st \<longleftrightarrow> st = JobQueued \<or> running_state st"

fun deps_earlier :: "JobID list \<Rightarrow> (JobID \<times> JobID list) list \<Rightarrow> bool" where
  "deps_earlier seen [] = True"
| "deps_earlier seen ((i, ds) # js) = (set ds \<subseteq> set seen \<and> deps_earlier (i # seen) js)"

definition dep_shape :: "JobRow list \<Rightarrow> bool" where
  "dep_shape js \<longleftrightarrow> deps_earlier [] (map (\<lambda>r. (j_ID r, j_DependsOn r)) js)
     \<and> (\<forall>r \<in> set js. \<forall>q \<in> set js. j_ID q \<in> set (j_DependsOn r) \<longrightarrow> j_SessionID q = j_SessionID r)"

definition dep_states :: "JobRow list \<Rightarrow> bool" where
  "dep_states js \<longleftrightarrow>
     (\<forall>r \<in> set js. ready_state (j_State r) \<longrightarrow>
        (\<forall>q \<in> set js. j_ID q \<in> set (j_DependsOn r) \<longrightarrow> j_State q = JobSucceeded))
   \<and> (\<forall>r \<in> set js. j_State r = JobWaiting \<longrightarrow>
        (\<exists>q \<in> set js. j_ID q \<in> set (j_DependsOn r) \<and> j_State q \<noteq> JobSucceeded)
      \<and> (\<forall>q \<in> set js. j_ID q \<in> set (j_DependsOn r) \<longrightarrow> \<not> failed_state (j_State q)))"

definition dep_inv :: "DB \<Rightarrow> bool" where
  "dep_inv s \<longleftrightarrow> distinct (map j_ID (db_jobs s)) \<and> dep_shape (db_jobs s) \<and> dep_states (db_jobs s)"

section \<open>Progress\<close>

lemma state_class_simps [simp]:
  "\<not> failed_state JobQueued" "\<not> failed_state JobWaiting" "\<not> failed_state JobLeased" "\<not> failed_state JobRunning"
  "\<not> failed_state JobSucceeded" "failed_state JobFailed" "failed_state JobCanceled" "failed_state JobTimedOut"
  "failed_state JobDependencyFailed" "failed_state JobSessionLost"
  "ready_state JobQueued" "\<not> ready_state JobWaiting" "ready_state JobLeased" "ready_state JobRunning"
  "\<not> ready_state JobSucceeded" "\<not> ready_state JobDependencyFailed"
  by (simp_all add: failed_state_def ready_state_def running_state_def)

lemma deps_earlier_split:
  "deps_earlier seen (us @ (i, ds) # vs) \<Longrightarrow> set ds \<subseteq> set seen \<union> fst ` set us"
  by (induction us arbitrary: seen) fastforce+

lemma state_cases: "ready_state st \<or> st = JobWaiting \<or> st = JobSucceeded \<or> failed_state st"
  by (cases st) (auto simp: ready_state_def running_state_def failed_state_def)

text \<open>The first waiting row waits for a job that is queued, leased or running.\<close>

lemma waiting_progress:
  assumes inv: "dep_inv s" and "r \<in> set (db_jobs s)" and "j_State r = JobWaiting"
  shows "\<exists>q \<in> set (db_jobs s). ready_state (j_State q)"
proof -
  let ?js = "db_jobs s"
  from inv have dist: "distinct (map j_ID ?js)" and shape: "dep_shape ?js" and states: "dep_states ?js"
    by (simp_all add: dep_inv_def)
  have "\<exists>x \<in> set ?js. j_State x = JobWaiting" using assms(2,3) by blast
  from split_list_first_prop [OF this] obtain us w vs where
    js: "?js = us @ w # vs" and w: "j_State w = JobWaiting" and us: "\<forall>x \<in> set us. j_State x \<noteq> JobWaiting" by blast
  then have wj: "w \<in> set ?js" by simp
  with states w obtain q where q: "q \<in> set ?js" "j_ID q \<in> set (j_DependsOn w)" "j_State q \<noteq> JobSucceeded"
    "\<not> failed_state (j_State q)"
    unfolding dep_states_def by blast
  have "deps_earlier [] (map (\<lambda>r. (j_ID r, j_DependsOn r)) us @ (j_ID w, j_DependsOn w) # map (\<lambda>r. (j_ID r, j_DependsOn r)) vs)"
    using shape by (simp add: dep_shape_def js)
  from deps_earlier_split [OF this] obtain d where d: "d \<in> set us" "j_ID d = j_ID q" using q(2) by auto
  then have "d = q" using distinct_key_eq [OF dist _ q(1)] js by simp
  then have "ready_state (j_State q)" using us d(1) q(3,4) state_cases [of "j_State q"] by blast
  with q(1) show ?thesis by blast
qed

lemma dep_inv_waiting:
  assumes "dep_inv s" and "r \<in> set (db_jobs s)" and "j_State r = JobWaiting"
  shows "(\<exists>q \<in> set (db_jobs s). j_ID q \<in> set (j_DependsOn r) \<and> j_State q \<noteq> JobSucceeded)
    \<and> (\<forall>q \<in> set (db_jobs s). j_ID q \<in> set (j_DependsOn r) \<longrightarrow> \<not> failed_state (j_State q))"
  using assms unfolding dep_inv_def dep_states_def by blast

lemma dep_inv_ready:
  assumes "dep_inv s" and "r \<in> set (db_jobs s)" and "ready_state (j_State r)"
    and "q \<in> set (db_jobs s)" and "j_ID q \<in> set (j_DependsOn r)"
  shows "j_State q = JobSucceeded"
  using assms unfolding dep_inv_def dep_states_def by blast

section \<open>Generic preservation\<close>

lemma dep_inv_cong: "db_jobs s' = db_jobs s \<Longrightarrow> dep_inv s' = dep_inv s"
  by (simp add: dep_inv_def)

definition keeps_job :: "JobRow \<Rightarrow> JobRow \<Rightarrow> bool" where
  "keeps_job r r' \<longleftrightarrow> j_ID r' = j_ID r \<and> j_DependsOn r' = j_DependsOn r \<and> j_SessionID r' = j_SessionID r
     \<and> j_RetryPolicy r' = j_RetryPolicy r \<and> j_IdempotencyKey r' = j_IdempotencyKey r \<and> j_Kind r' = j_Kind r
     \<and> j_Payload r' = j_Payload r \<and> j_Constraints r' = j_Constraints r \<and> j_TimeoutAt r' = j_TimeoutAt r
     \<and> j_CreatedAt r' = j_CreatedAt r"

lemma dep_inv_map:
  assumes inv: "dep_inv s" and jobs: "db_jobs s' = map F (db_jobs s)"
    and keep: "\<And>r. keeps_job r (F r)"
    and succ: "\<And>r. r \<in> set (db_jobs s) \<Longrightarrow> j_State r = JobSucceeded \<Longrightarrow> j_State (F r) = JobSucceeded"
    and ready: "\<And>r. r \<in> set (db_jobs s) \<Longrightarrow> ready_state (j_State (F r)) \<Longrightarrow> ready_state (j_State r) \<or>
        (\<forall>q \<in> set (db_jobs s). j_ID q \<in> set (j_DependsOn r) \<longrightarrow> j_State (F q) = JobSucceeded)"
    and wait: "\<And>r. r \<in> set (db_jobs s) \<Longrightarrow> j_State (F r) = JobWaiting \<Longrightarrow>
        (\<exists>q \<in> set (db_jobs s). j_ID q \<in> set (j_DependsOn r) \<and> j_State (F q) \<noteq> JobSucceeded)
      \<and> (\<forall>q \<in> set (db_jobs s). j_ID q \<in> set (j_DependsOn r) \<longrightarrow> \<not> failed_state (j_State (F q)))"
  shows "dep_inv s'"
proof -
  have k: "j_ID (F r) = j_ID r" "j_DependsOn (F r) = j_DependsOn r" "j_SessionID (F r) = j_SessionID r" for r
    using keep [of r] by (simp_all add: keeps_job_def)
  have "dep_shape (db_jobs s')" using inv by (simp add: dep_inv_def dep_shape_def jobs k comp_def)
  moreover have "dep_states (db_jobs s')"
    unfolding dep_states_def jobs
  proof (intro conjI ballI impI)
    fix r' q' assume "r' \<in> set (map F (db_jobs s))" "ready_state (j_State r')" "q' \<in> set (map F (db_jobs s))"
      "j_ID q' \<in> set (j_DependsOn r')"
    then obtain r q where rq: "r \<in> set (db_jobs s)" "ready_state (j_State (F r))" "q \<in> set (db_jobs s)"
      "j_ID q \<in> set (j_DependsOn r)" "q' = F q" by (auto simp: k)
    from ready [OF rq(1,2)] show "j_State q' = JobSucceeded"
    proof
      assume "ready_state (j_State r)"
      then have "j_State q = JobSucceeded" using inv rq(1,3,4) unfolding dep_inv_def dep_states_def by blast
      then show ?thesis unfolding rq(5) by (rule succ [OF rq(3)])
    qed (use rq(3,4,5) in simp)
  next
    fix r' assume "r' \<in> set (map F (db_jobs s))" "j_State r' = JobWaiting"
    then obtain r where r: "r \<in> set (db_jobs s)" "r' = F r" "j_State (F r) = JobWaiting" by auto
    note w = wait [OF r(1,3)]
    then obtain q where q: "q \<in> set (db_jobs s)" "j_ID q \<in> set (j_DependsOn r)" "j_State (F q) \<noteq> JobSucceeded" by blast
    then show "\<exists>q \<in> set (map F (db_jobs s)). j_ID q \<in> set (j_DependsOn r') \<and> j_State q \<noteq> JobSucceeded"
      by (intro bexI [of _ "F q"]) (simp_all add: k r(2))
    fix q' assume "q' \<in> set (map F (db_jobs s))" "j_ID q' \<in> set (j_DependsOn r')"
    then obtain q where "q \<in> set (db_jobs s)" "j_ID q \<in> set (j_DependsOn r)" "q' = F q" by (auto simp: k r(2))
    with w show "\<not> failed_state (j_State q')" by simp
  qed
  ultimately show ?thesis using inv by (simp add: dep_inv_def jobs k comp_def)
qed

text \<open>One job fails and the cascade takes its dependents with it.\<close>

lemma dep_inv_cascade:
  assumes inv: "dep_inv s" and jobs: "db_jobs s' = cascade i tm (upd_where P f (db_jobs s))"
    and P: "\<And>r. r \<in> set (db_jobs s) \<Longrightarrow> P r \<Longrightarrow> j_ID r = i \<and> j_State r \<noteq> JobSucceeded"
    and f: "\<And>r. keeps_job r (f r) \<and> failed_state (j_State (f r))"
  shows "dep_inv s'"
proof -
  define js where "js = upd_where P f (db_jobs s)"
  define M where "M = (\<lambda>r. if P r then f r else r)"
  define D where "D = (\<lambda>r :: JobRow. (i, j_ID r) \<in> (dep_edges js)\<^sup>+ \<and> pending (j_State r))"
  define F where "F = (\<lambda>r. if D (M r) then dep_failed tm (M r) else M r)"
  have js: "js = map M (db_jobs s)" by (simp add: js_def M_def upd_where_map)
  have jobs': "db_jobs s' = map F (db_jobs s)"
    unfolding jobs js_def [symmetric] cascade_def D_def [symmetric] F_def
    by (simp add: upd_where_map js)
  have km: "keeps_job r (M r)" for r using f by (simp add: M_def keeps_job_def)
  have kf: "keeps_job r (F r)" for r using km [of r] by (simp add: F_def keeps_job_def)
  have notsucc: "j_State (F r) \<noteq> JobSucceeded \<or> F r = r" for r
    using f [of r] by (auto simp: F_def M_def failed_state_def)
  have fail: "failed_state (j_State (F r)) \<Longrightarrow> failed_state (j_State r) \<or> P r \<or> D (M r)" for r
    by (auto simp: F_def M_def split: if_splits)
  show ?thesis
  proof (rule dep_inv_map [OF inv jobs' kf])
    fix r assume "r \<in> set (db_jobs s)" "j_State r = JobSucceeded"
    with P [of r] show "j_State (F r) = JobSucceeded" by (auto simp: F_def M_def D_def pending_def)
  next
    fix r assume "r \<in> set (db_jobs s)" "ready_state (j_State (F r))"
    with f [of r] show "ready_state (j_State r) \<or>
        (\<forall>q \<in> set (db_jobs s). j_ID q \<in> set (j_DependsOn r) \<longrightarrow> j_State (F q) = JobSucceeded)"
      by (auto simp: F_def M_def ready_state_def running_state_def failed_state_def split: if_splits)
  next
    fix r assume r: "r \<in> set (db_jobs s)" "j_State (F r) = JobWaiting"
    have "\<not> P r"
    proof
      assume "P r"
      then have "failed_state (j_State (F r))" using f [of r] by (simp add: F_def M_def)
      with r(2) show False by simp
    qed
    then have rw: "M r = r" by (simp add: M_def)
    have nD: "\<not> D r" using r(2) rw by (cases "D r") (simp_all add: F_def)
    then have wait: "j_State r = JobWaiting" using r(2) rw by (simp add: F_def)
    then obtain q where "q \<in> set (db_jobs s)" "j_ID q \<in> set (j_DependsOn r)" "j_State q \<noteq> JobSucceeded"
      using dep_inv_waiting [OF inv r(1)] by blast
    moreover have "\<not> failed_state (j_State (F q))" if q: "q \<in> set (db_jobs s)" "j_ID q \<in> set (j_DependsOn r)" for q
    proof
      assume "failed_state (j_State (F q))"
      moreover have "\<not> failed_state (j_State q)" using dep_inv_waiting [OF inv r(1) wait] q by blast
      ultimately have "P q \<or> D (M q)" using fail by blast
      moreover have edge: "(j_ID q, j_ID r) \<in> dep_edges js"
        using imageI [OF r(1), of M] rw q(2) wait by (auto simp: dep_edges_def js pending_def)
      ultimately have "(i, j_ID r) \<in> (dep_edges js)\<^sup>+"
        using P [OF q(1)] km [of q] by (auto simp: D_def keeps_job_def intro: trancl_into_trancl)
      with nD wait show False by (simp add: D_def pending_def)
    qed
    ultimately show "(\<exists>q \<in> set (db_jobs s). j_ID q \<in> set (j_DependsOn r) \<and> j_State (F q) \<noteq> JobSucceeded)
      \<and> (\<forall>q \<in> set (db_jobs s). j_ID q \<in> set (j_DependsOn r) \<longrightarrow> \<not> failed_state (j_State (F q)))"
      using notsucc by metis
  qed
qed

section \<open>Preservation by the operations\<close>

lemma keeps_job_simps [simp]:
  "keeps_job r (moved st nx tm r)" "keeps_job r (stated st tm r)" "keeps_job r (dep_failed tm r)" "keeps_job r r"
  by (simp_all add: keeps_job_def moved_def stated_def)

text \<open>A job that moves between the ready states.\<close>

lemma dep_inv_requeue:
  assumes inv: "dep_inv s" and jobs: "db_jobs s' = upd_where P f (db_jobs s)"
    and P: "\<And>r. r \<in> set (db_jobs s) \<Longrightarrow> P r \<Longrightarrow> ready_state (j_State r)"
    and f: "\<And>r. keeps_job r (f r) \<and> ready_state (j_State (f r))"
  shows "dep_inv s'"
proof -
  define F where "F = (\<lambda>r. if P r then f r else r)"
  have jobs': "db_jobs s' = map F (db_jobs s)" by (simp add: jobs F_def upd_where_map)
  have kf: "keeps_job r (F r)" for r using f by (simp add: F_def)
  have same: "(j_State (F r) = JobSucceeded) = (j_State r = JobSucceeded)" "failed_state (j_State (F r)) = failed_state (j_State r)"
    "ready_state (j_State (F r)) = ready_state (j_State r)" "(j_State (F r) = JobWaiting) = (j_State r = JobWaiting)"
    if "r \<in> set (db_jobs s)" for r
    using P [OF that] f [of r] by (auto simp: F_def ready_state_def running_state_def)
  show ?thesis
    by (rule dep_inv_map [OF inv jobs' kf]) (use same dep_inv_waiting [OF inv] in \<open>blast+\<close>)
qed

lemma dep_inv_CancelJob:
  assumes "dep_inv s" and "CancelJob_tx i tm s = Inr s'"
  shows "dep_inv s'"
proof -
  from CancelJob_Inr [OF assms(2)] have jobs: "db_jobs s' = cascade i tm
      (upd_where (\<lambda>r. j_ID r = i \<and> \<not> JobTerminal (j_State r)) (moved JobCanceled None tm) (db_jobs s))" by blast
  show ?thesis by (rule dep_inv_cascade [OF assms(1) jobs]) auto
qed

lemma dep_inv_unblock:
  assumes inv: "dep_inv s" and jobs: "db_jobs s' = unblocked i tm (upd_where (\<lambda>r. j_ID r = i) (stated JobSucceeded tm) (db_jobs s))"
    and run: "\<And>r. r \<in> set (db_jobs s) \<Longrightarrow> j_ID r = i \<Longrightarrow> running_state (j_State r)"
  shows "dep_inv s'"
proof -
  define M where "M = (\<lambda>r. if j_ID r = i then stated JobSucceeded tm r else r)"
  define U where "U = (\<lambda>r :: JobRow. j_State r = JobWaiting \<and> i \<in> set (j_DependsOn r)
        \<and> (\<forall>q \<in> set (db_jobs s). j_ID q \<in> set (j_DependsOn r) \<longrightarrow> j_State (M q) = JobSucceeded))"
  define F where "F = (\<lambda>r. if U (M r) then stated JobQueued tm (M r) else M r)"
  have km: "keeps_job r (M r)" for r by (simp add: M_def)
  have js: "upd_where (\<lambda>r. j_ID r = i) (stated JobSucceeded tm) (db_jobs s) = map M (db_jobs s)"
    by (simp add: M_def upd_where_map)
  have mid: "j_ID (M q) = j_ID q" for q by (simp add: M_def)
  have U: "U r \<longleftrightarrow> (j_State r = JobWaiting \<and> i \<in> set (j_DependsOn r)
        \<and> \<not> (\<exists>d \<in> set (j_DependsOn r). \<exists>p \<in> set (map M (db_jobs s)). j_ID p = d \<and> j_State p \<noteq> JobSucceeded))" for r
    unfolding U_def set_map bex_simps ball_simps mid by auto
  have jobs': "db_jobs s' = map F (db_jobs s)"
    unfolding jobs unblocked_def js U [symmetric] F_def by (simp add: upd_where_map)
  have kf: "keeps_job r (F r)" for r using km [of r] by (simp add: F_def keeps_job_def)
  have Fs: "(j_State (F q) = JobSucceeded) = (j_State (M q) = JobSucceeded)" for q
    by (simp add: F_def U_def)
  have deps: "j_DependsOn (M r) = j_DependsOn r" for r by (simp add: M_def)
  show ?thesis
  proof (rule dep_inv_map [OF inv jobs' kf])
    fix r assume "r \<in> set (db_jobs s)" "j_State r = JobSucceeded"
    then show "j_State (F r) = JobSucceeded" unfolding Fs by (simp add: M_def)
  next
    fix r assume r: "r \<in> set (db_jobs s)" "ready_state (j_State (F r))"
    show "ready_state (j_State r) \<or>
        (\<forall>q \<in> set (db_jobs s). j_ID q \<in> set (j_DependsOn r) \<longrightarrow> j_State (F q) = JobSucceeded)"
    proof (cases "U (M r)")
      case True
      then show ?thesis unfolding Fs U_def deps by blast
    next
      case False
      with r(2) show ?thesis by (cases "j_ID r = i") (simp_all add: F_def M_def)
    qed
  next
    fix r assume r: "r \<in> set (db_jobs s)" "j_State (F r) = JobWaiting"
    then have nU: "\<not> U (M r)" by (cases "U (M r)") (simp_all add: F_def)
    with r(2) have ri: "j_ID r \<noteq> i" "M r = r" by (cases "j_ID r = i"; simp add: F_def M_def)+
    with nU r(2) have w: "j_State r = JobWaiting" by (simp add: F_def)
    note old = dep_inv_waiting [OF inv r(1) w]
    have "\<exists>q \<in> set (db_jobs s). j_ID q \<in> set (j_DependsOn r) \<and> j_State (M q) \<noteq> JobSucceeded"
    proof (cases "i \<in> set (j_DependsOn r)")
      case True
      with nU ri w show ?thesis by (auto simp: U_def)
    next
      case False
      from old obtain q where "q \<in> set (db_jobs s)" "j_ID q \<in> set (j_DependsOn r)" "j_State q \<noteq> JobSucceeded" by blast
      with False show ?thesis by (intro bexI [of _ q]) (auto simp: M_def)
    qed
    moreover have "\<not> failed_state (j_State (F q))" if "q \<in> set (db_jobs s)" "j_ID q \<in> set (j_DependsOn r)" for q
      using old that by (simp add: F_def M_def)
    ultimately show "(\<exists>q \<in> set (db_jobs s). j_ID q \<in> set (j_DependsOn r) \<and> j_State (F q) \<noteq> JobSucceeded)
      \<and> (\<forall>q \<in> set (db_jobs s). j_ID q \<in> set (j_DependsOn r) \<longrightarrow> \<not> failed_state (j_State (F q)))"
      unfolding Fs by blast
  qed
qed

lemma running_not_succeeded: "running_state st \<Longrightarrow> st \<noteq> JobSucceeded"
  by (auto simp: running_state_def)

lemma dep_inv_settled:
  assumes inv: "dep_inv s" and jobs: "db_jobs s' = settled i st tm (db_jobs s)"
    and run: "\<And>r. r \<in> set (db_jobs s) \<Longrightarrow> j_ID r = i \<Longrightarrow> running_state (j_State r)"
    and st: "JobTerminal st \<or> st = JobQueued"
  shows "dep_inv s'"
proof (cases "st = JobSucceeded")
  case True
  then show ?thesis using dep_inv_unblock [OF inv _ run] jobs by (simp add: settled_def Let_def)
next
  case ns: False
  show ?thesis
  proof (cases "JobTerminal st")
    case True
    then have "db_jobs s' = cascade i tm (upd_where (\<lambda>r. j_ID r = i) (stated st tm) (db_jobs s))"
      using jobs ns by (simp add: settled_def)
    then show ?thesis
      by (rule dep_inv_cascade [OF inv]) (use run running_not_succeeded True ns in \<open>auto simp: failed_state_def\<close>)
  next
    case False
    then have "db_jobs s' = upd_where (\<lambda>r. j_ID r = i) (stated st tm) (db_jobs s)" using jobs ns by (simp add: settled_def)
    then show ?thesis
      by (rule dep_inv_requeue [OF inv]) (use run st False in \<open>auto simp: ready_state_def\<close>)
  qed
qed

lemma attempt_job_running:
  assumes "lease_inv s" and "a \<in> set (db_attempts s)" and "active a" and "r \<in> set (db_jobs s)" and "j_ID r = at_JobID a"
  shows "running_state (j_State r)"
  using assms unfolding lease_inv_def active_inv_def by metis

lemma dep_inv_CompleteAttempt:
  assumes "lease_inv s" and inv: "dep_inv s" and "CompleteAttempt_tx c s = Inr s'"
  shows "dep_inv s'"
  using assms(3)
proof (rule CompleteAttempt_Inr)
  fix a r
  assume a: "owned_attempt (cm_AttemptID c) (cm_WorkerID c) s = Some a"
    and can: "CanAttemptTransition (at_State a) (cm_AttemptState c)"
    and st: "\<And>st. cm_JobState c = Some st \<Longrightarrow> JobTerminal st"
    and jobs: "db_jobs s' = settled (at_JobID a) (completion_job_state c a r) (cm_At c) (db_jobs s)"
  have "JobTerminal (completion_job_state c a r) \<or> completion_job_state c a r = JobQueued"
    using st by (auto simp: completion_job_state_def split: option.splits if_splits)
  then show ?thesis
    using attempt_job_running [OF assms(1)] owned_attemptD [OF a] CanAttemptTransition_active [OF can]
    by (intro dep_inv_settled [OF inv jobs]) auto
qed

lemma expired_states: "expired_job_state a r now = (st, nx) \<Longrightarrow> failed_state st \<or> st = JobQueued"
  by (auto simp: expired_job_state_def split: if_splits)

lemma dep_inv_expire_lease:
  assumes inv: "dep_inv s" and "expire_lease now i s = Inr s'"
  shows "dep_inv s'"
  using assms(2)
proof (cases rule: expire_lease_cases)
  case skip
  with inv show ?thesis by simp
next
  case (expire a r)
  obtain st nx where st: "expired_job_state a r now = (st, nx)" by (cases "expired_job_state a r now")
  let ?js = "upd_where (\<lambda>x. j_ID x = at_JobID a \<and> running_state (j_State x)) (moved st nx now) (db_jobs s)"
  from expire_active_Inr [OF expire(3) st] have
    jobs: "db_jobs s' = (if JobTerminal st then cascade (at_JobID a) now ?js else ?js)" unfolding Let_def by blast
  from expired_states [OF st] show ?thesis
  proof
    assume f: "failed_state st"
    with jobs have "db_jobs s' = cascade (at_JobID a) now ?js" by (simp add: failed_state_def)
    then show ?thesis by (rule dep_inv_cascade [OF inv]) (use f running_not_succeeded in auto)
  next
    assume q: "st = JobQueued"
    with jobs have "db_jobs s' = ?js" by simp
    then show ?thesis by (rule dep_inv_requeue [OF inv]) (simp_all add: q ready_state_def)
  qed
qed

lemma dep_inv_expireLeases:
  assumes "dep_inv s" and "expireLeases_tx P now s = Inr (ids, s')"
  shows "dep_inv s'"
proof -
  from assms(2) obtain xs where "foldM (expire_lease now) xs s = Inr s'" by (auto simp: expireLeases_tx_def Let_def)
  then show ?thesis by (rule foldM_inv) (use assms(1) dep_inv_expire_lease in auto)
qed

text \<open>
  The deadline loop works on identifiers read before it starts: the jobs it still has to visit may
  have been failed by an earlier iteration, but none of them has succeeded.
\<close>

definition none_succeeded :: "JobID list \<Rightarrow> DB \<Rightarrow> bool" where
  "none_succeeded ids s \<longleftrightarrow> (\<forall>r \<in> set (db_jobs s). j_ID r \<in> set ids \<longrightarrow> j_State r \<noteq> JobSucceeded)"

lemma cascade_states:
  assumes "x \<in> set (cascade i tm js)"
  shows "j_State x = JobDependencyFailed \<or> x \<in> set js"
  using assms by (auto simp: cascade_def in_upd_where split: if_splits)

lemma dep_inv_timeout_job:
  assumes inv: "dep_inv s" and ns: "none_succeeded ids s" and i: "i \<in> set ids" and "timeout_job now i s = Inr s'"
  shows "dep_inv s' \<and> none_succeeded ids s'"
proof -
  from timeout_job_Inr [OF assms(4)] have
    jobs: "db_jobs s' = cascade i now (upd_where (\<lambda>r. j_ID r = i) (moved JobTimedOut None now) (db_jobs s))" by blast
  have "dep_inv s'" by (rule dep_inv_cascade [OF inv jobs]) (use ns i in \<open>auto simp: none_succeeded_def\<close>)
  moreover have "none_succeeded ids s'"
    unfolding none_succeeded_def jobs
  proof (intro ballI impI)
    fix x assume x: "x \<in> set (cascade i now (upd_where (\<lambda>r. j_ID r = i) (moved JobTimedOut None now) (db_jobs s)))"
      "j_ID x \<in> set ids"
    from cascade_states [OF x(1)] show "j_State x \<noteq> JobSucceeded"
    proof
      assume "x \<in> set (upd_where (\<lambda>r. j_ID r = i) (moved JobTimedOut None now) (db_jobs s))"
      then obtain r where "r \<in> set (db_jobs s)" "x = (if j_ID r = i then moved JobTimedOut None now r else r)"
        by (auto simp: in_upd_where)
      with ns x(2) show ?thesis by (cases "j_ID r = i") (auto simp: none_succeeded_def)
    qed simp
  qed
  ultimately show ?thesis ..
qed

lemma overdue_none_succeeded:
  assumes "distinct (map j_ID (db_jobs s))"
  shows "none_succeeded (overdue now s) s"
  using distinct_key_eq [OF assms] by (fastforce simp: none_succeeded_def overdue_def)

lemma dep_inv_TimeoutJobs:
  assumes "dep_inv s" and "TimeoutJobs_tx now s = Inr (ids, s')"
  shows "dep_inv s'"
proof -
  from assms(2) have "foldM (timeout_job now) (overdue now s) s = Inr s'" by (auto simp: TimeoutJobs_tx_def)
  then have "dep_inv s' \<and> none_succeeded (overdue now s) s'"
  proof (rule foldM_inv)
    show "dep_inv s \<and> none_succeeded (overdue now s) s"
      using assms(1) overdue_none_succeeded [of s now] by (simp add: dep_inv_def)
  qed (blast dest: dep_inv_timeout_job)
  then show ?thesis ..
qed

lemma unfinished_iff: "unfinished st \<longleftrightarrow> ready_state st \<or> st = JobWaiting"
  by (auto simp: unfinished_def ready_state_def running_state_def)

lemma dep_inv_finishSessionTx:
  assumes inv: "dep_inv s" and "finishSessionTx i state code tm s = Inr s'"
  shows "dep_inv s'"
  using assms(2)
proof (cases rule: finishSessionTx_Inr)
  case 1
  with inv show ?thesis by simp
next
  case (2 v f es)
  define P where "P = (\<lambda>r. of_session i r \<and> unfinished (j_State (r :: JobRow)))"
  define F where "F = (\<lambda>r. if P r then stated (lost_or_canceled state) tm r else r)"
  have jobs: "db_jobs s' = map F (db_jobs s)" using 2(3) by (simp add: F_def P_def upd_where_map)
  have kf: "keeps_job r (F r)" for r by (simp add: F_def)
  have lc: "failed_state (lost_or_canceled state)" by (simp add: lost_or_canceled_def)
  show ?thesis
  proof (rule dep_inv_map [OF inv jobs kf])
    fix r :: JobRow assume "j_State r = JobSucceeded"
    then show "j_State (F r) = JobSucceeded" by (simp add: F_def P_def unfinished_def)
  next
    fix r assume "ready_state (j_State (F r))"
    then show "ready_state (j_State r) \<or>
        (\<forall>q \<in> set (db_jobs s). j_ID q \<in> set (j_DependsOn r) \<longrightarrow> j_State (F q) = JobSucceeded)"
      using lc by (cases "P r") (auto simp: F_def failed_state_def ready_state_def running_state_def)
  next
    fix r assume r: "r \<in> set (db_jobs s)" "j_State (F r) = JobWaiting"
    have nP: "\<not> P r" using r(2) lc by (cases "P r") (auto simp: F_def)
    with r(2) have w: "j_State r = JobWaiting" by (simp add: F_def)
    with nP have no: "\<not> of_session i r" by (simp add: P_def unfinished_def)
    have same: "F q = q" if "q \<in> set (db_jobs s)" "j_ID q \<in> set (j_DependsOn r)" for q
    proof -
      have "j_SessionID q = j_SessionID r" using inv r(1) that by (auto simp: dep_inv_def dep_shape_def)
      with no show ?thesis by (auto simp: F_def P_def of_session_def)
    qed
    then show "(\<exists>q \<in> set (db_jobs s). j_ID q \<in> set (j_DependsOn r) \<and> j_State (F q) \<noteq> JobSucceeded)
      \<and> (\<forall>q \<in> set (db_jobs s). j_ID q \<in> set (j_DependsOn r) \<longrightarrow> \<not> failed_state (j_State (F q)))"
      using dep_inv_waiting [OF inv r(1) w] by auto
  qed
qed

lemma dep_inv_ClaimNextJob:
  assumes inv: "dep_inv s" and "ClaimNextJob_tx r s = Inr (x, s')"
  shows "dep_inv s'"
proof -
  obtain a j' where x: "x = (a, j')" by (cases x)
  show ?thesis
  proof (rule ClaimNextJob_Inr [OF assms(2) [unfolded x]])
    fix r1 j w s0 s1
    assume "same_core s s0" "session_gate r1 j (w_ReservedSessionID w) s0 = Inr (True, s1)"
      and leased: "lease_job r1 j s1 = Inr (Some (a, j'), s')"
    then have "same_core s s1" by (blast intro: same_core_trans session_gate_core)
    then have "dep_inv s1" using inv dep_inv_cong [of s1 s] by (simp add: same_core_def)
    then show ?thesis by (rule dep_inv_requeue [OF _ lease_job_Inr(4) [OF leased]]) simp_all
  qed
qed

text \<open>What submission has checked of a dependency list.\<close>

lemma validate_deps_Inr:
  "validate_deps self sid seen is s = Inr () \<Longrightarrow>
    \<forall>i \<in> set is. i \<noteq> self \<and> (\<exists>r. row_by j_ID i (db_jobs s) = Some r \<and> j_SessionID r = sid)"
  by (induction self sid seen "is" s rule: validate_deps.induct) (auto split: if_splits option.splits)

lemma dependency_states_Inr:
  "dependency_states is ok s = Inr b \<Longrightarrow>
    (\<forall>i \<in> set is. \<exists>r. row_by j_ID i (db_jobs s) = Some r \<and> \<not> failed_state (j_State r))
    \<and> (b \<longleftrightarrow> ok \<and> (\<forall>i \<in> set is. \<forall>r. row_by j_ID i (db_jobs s) = Some r \<longrightarrow> j_State r = JobSucceeded))"
  by (induction "is" ok s rule: dependency_states.induct)
    (auto simp: failed_state_def split: if_splits option.splits)

lemma prepare_job_Inr:
  assumes "prepare_job now j s = Inr j'"
  shows "\<forall>i \<in> set (j_DependsOn j). i \<noteq> j_ID j
        \<and> (\<exists>r. row_by j_ID i (db_jobs s) = Some r \<and> j_SessionID r = j_SessionID j \<and> \<not> failed_state (j_State r))"
    and "j_DependsOn j \<noteq> [] \<Longrightarrow> j_State j' = (if \<forall>i \<in> set (j_DependsOn j). \<forall>r.
          row_by j_ID i (db_jobs s) = Some r \<longrightarrow> j_State r = JobSucceeded then JobQueued else JobWaiting)"
    and "j_DependsOn j = [] \<Longrightarrow> j_State j' = j_State j"
proof -
  obtain j3 where prep: "prepare_job now j s = rbind (validateDependencies j3 s) (\<lambda>_.
      if j_DependsOn j3 \<noteq> [] then rbind (dependency_states (j_DependsOn j3) True s) (\<lambda>allSucceeded.
        Inr (if allSucceeded then j3\<lparr>j_State := JobQueued\<rparr> else j3)) else Inr j3)"
    and j3: "j_DependsOn j3 = j_DependsOn j" "j_ID j3 = j_ID j" "j_SessionID j3 = j_SessionID j"
      "j_State j3 = (if j_DependsOn j \<noteq> [] then JobWaiting else j_State j)"
    by (rule that, unfold prepare_job_def Let_def, rule refl) simp_all
  from assms have v: "validate_deps (j_ID j) (j_SessionID j) [] (j_DependsOn j) s = Inr ()"
    by (simp add: prep validateDependencies_def j3)
  show "j_DependsOn j = [] \<Longrightarrow> j_State j' = j_State j"
    using assms j3(4) by (simp add: prep j3(1))
  have d: "\<exists>b. dependency_states (j_DependsOn j) True s = Inr b \<and> j_State j' = (if b then JobQueued else JobWaiting)"
    if ne: "j_DependsOn j \<noteq> []"
  proof -
    from assms ne obtain b where b: "dependency_states (j_DependsOn j) True s = Inr b"
      "(if b then j3\<lparr>j_State := JobQueued\<rparr> else j3) = j'"
      by (simp add: prep j3(1)) metis
    have "j_State j' = (if b then JobQueued else JobWaiting)" unfolding b(2) [symmetric] using j3(4) ne by (cases b) simp_all
    with b(1) show ?thesis by blast
  qed
  show "j_State j' = (if \<forall>i \<in> set (j_DependsOn j). \<forall>r.
          row_by j_ID i (db_jobs s) = Some r \<longrightarrow> j_State r = JobSucceeded then JobQueued else JobWaiting)"
    if ne: "j_DependsOn j \<noteq> []"
  proof -
    from d [OF ne] obtain b where b: "dependency_states (j_DependsOn j) True s = Inr b"
      "j_State j' = (if b then JobQueued else JobWaiting)" by blast
    have "b \<longleftrightarrow> (\<forall>i \<in> set (j_DependsOn j). \<forall>r. row_by j_ID i (db_jobs s) = Some r \<longrightarrow> j_State r = JobSucceeded)"
      using dependency_states_Inr [OF b(1)] by (simp only: simp_thms)
    with b(2) show ?thesis by (simp only:)
  qed
  show "\<forall>i \<in> set (j_DependsOn j). i \<noteq> j_ID j
        \<and> (\<exists>r. row_by j_ID i (db_jobs s) = Some r \<and> j_SessionID r = j_SessionID j \<and> \<not> failed_state (j_State r))"
  proof
    fix i assume i: "i \<in> set (j_DependsOn j)"
    then have "j_DependsOn j \<noteq> []" by auto
    with d i obtain r where "row_by j_ID i (db_jobs s) = Some r" "\<not> failed_state (j_State r)"
      using dependency_states_Inr [of "j_DependsOn j" True s] by blast
    with validate_deps_Inr [OF v] i show "i \<noteq> j_ID j
        \<and> (\<exists>r. row_by j_ID i (db_jobs s) = Some r \<and> j_SessionID r = j_SessionID j \<and> \<not> failed_state (j_State r))"
      by fastforce
  qed
qed

lemma deps_earlier_append:
  "deps_earlier seen (js @ [(i, ds)]) \<longleftrightarrow> deps_earlier seen js \<and> set ds \<subseteq> set seen \<union> fst ` set js"
  by (induction seen js rule: deps_earlier.induct) auto

lemma deps_known:
  "deps_earlier seen js \<Longrightarrow> (i, ds) \<in> set js \<Longrightarrow> set ds \<subseteq> set seen \<union> fst ` set js"
  by (induction seen js rule: deps_earlier.induct) fastforce+

lemma dep_inv_append:
  assumes inv: "dep_inv s" and jobs: "db_jobs s' = db_jobs s @ [n]" and new: "j_ID n \<notin> j_ID ` set (db_jobs s)"
    and deps: "\<forall>i \<in> set (j_DependsOn n). \<exists>r. row_by j_ID i (db_jobs s) = Some r \<and> j_SessionID r = j_SessionID n
        \<and> \<not> failed_state (j_State r)"
    and st: "j_State n = (if \<forall>i \<in> set (j_DependsOn n). \<forall>r.
          row_by j_ID i (db_jobs s) = Some r \<longrightarrow> j_State r = JobSucceeded then JobQueued else JobWaiting)"
  shows "dep_inv s'"
proof -
  let ?js = "db_jobs s"
  from inv have dist: "distinct (map j_ID ?js)" and shape: "dep_shape ?js" by (simp_all add: dep_inv_def)
  have row: "row_by j_ID (j_ID q) ?js = Some q" if "q \<in> set ?js" for q using row_by_Some [OF dist that] .
  have known: "set (j_DependsOn n) \<subseteq> j_ID ` set ?js" using deps by (auto dest: row_by_in)
  have self: "j_ID n \<notin> set (j_DependsOn n)" using known new by auto
  have old: "j_ID n \<notin> set (j_DependsOn r)" if "r \<in> set ?js" for r
  proof -
    have "(j_ID r, j_DependsOn r) \<in> set (map (\<lambda>r. (j_ID r, j_DependsOn r)) ?js)" using that by simp
    moreover have "deps_earlier [] (map (\<lambda>r. (j_ID r, j_DependsOn r)) ?js)" using shape by (simp add: dep_shape_def)
    ultimately have "set (j_DependsOn r) \<subseteq> j_ID ` set ?js" using deps_known by (fastforce simp: image_image)
    with new show ?thesis by auto
  qed
  have sess: "j_SessionID q = j_SessionID n \<and> \<not> failed_state (j_State q)" if "q \<in> set ?js" "j_ID q \<in> set (j_DependsOn n)" for q
    using deps that row [OF that(1)] by fastforce
  have "dep_shape (?js @ [n])"
    using shape known old self sess by (auto simp: dep_shape_def deps_earlier_append image_image)
  moreover have "dep_states (?js @ [n])"
    unfolding dep_states_def
  proof (intro conjI ballI impI)
    fix r q assume "r \<in> set (?js @ [n])" "ready_state (j_State r)" "q \<in> set (?js @ [n])" "j_ID q \<in> set (j_DependsOn r)"
    then show "j_State q = JobSucceeded"
      using dep_inv_ready [OF inv] old self st row [of q] by (auto split: if_splits)
  next
    fix r assume r: "r \<in> set (?js @ [n])" "j_State r = JobWaiting"
    show "\<exists>q \<in> set (?js @ [n]). j_ID q \<in> set (j_DependsOn r) \<and> j_State q \<noteq> JobSucceeded"
    proof (cases "r \<in> set ?js")
      case True
      with dep_inv_waiting [OF inv True r(2)] show ?thesis by auto
    next
      case False
      with r have "r = n" by simp
      with r(2) st obtain i q where "i \<in> set (j_DependsOn n)" "row_by j_ID i ?js = Some q" "j_State q \<noteq> JobSucceeded"
        by (auto split: if_splits)
      with \<open>r = n\<close> show ?thesis by (intro bexI [of _ q]) (auto dest: row_byD)
    qed
    fix q assume "q \<in> set (?js @ [n])" "j_ID q \<in> set (j_DependsOn r)"
    then show "\<not> failed_state (j_State q)"
      using r dep_inv_waiting [OF inv _ r(2)] sess old self by auto
  qed
  ultimately show ?thesis using dist new by (simp add: dep_inv_def jobs)
qed

lemma dep_inv_CreateJob:
  assumes inv: "dep_inv s" and "j_State j = JobQueued"
  shows "dep_inv (snd (CreateJob now j s))"
proof (cases "CreateJob now j s")
  case (Pair res s')
  show ?thesis
  proof (cases res)
    case (Inl e)
    with Pair inv show ?thesis using CreateJob_error [of now j s e s'] by simp
  next
    case (Inr j')
    with Pair have "CreateJob now j s = (Inr j', s')" by simp
    then show ?thesis
    proof (cases rule: CreateJob_cases)
      case existing
      with inv Pair show ?thesis by simp
    next
      case fresh
      note ins = insert_job_Inr [OF fresh(2)] and keeps = prepare_job_keeps [OF fresh(1)] and prep = prepare_job_Inr [OF fresh(1)]
      have "dep_inv s'"
      proof (rule dep_inv_append [OF inv, of s' "row_of_job j'"])
        show "j_State (row_of_job j') = (if \<forall>i \<in> set (j_DependsOn (row_of_job j')). \<forall>r.
            row_by j_ID i (db_jobs s) = Some r \<longrightarrow> j_State r = JobSucceeded then JobQueued else JobWaiting)"
          using prep(2,3) keeps assms(2) by (cases "j_DependsOn j = []") simp_all
        show "db_jobs s' = db_jobs s @ [row_of_job j']" using ins by simp
        show "j_ID (row_of_job j') \<notin> j_ID ` set (db_jobs s)" using ins by blast
        show "\<forall>i \<in> set (j_DependsOn (row_of_job j')). \<exists>r. row_by j_ID i (db_jobs s) = Some r
            \<and> j_SessionID r = j_SessionID (row_of_job j') \<and> \<not> failed_state (j_State r)"
          using prep(1) keeps by simp
      qed
      with Pair show ?thesis by simp
    qed
  qed
qed

end
