(* ===== verification/SR_Effects.thy ===== *)
theory SR_Effects
  imports SR_DepInv
begin

text \<open>
  What each operation may do to the rows that exist before it: how job states move, which attempts
  may change, that the event log only grows, and the bound on the number of attempts that follows.
\<close>

section \<open>Effects\<close>

text \<open>
  The moves the domain state machine allows in one or more steps: out of a terminal state there is
  none, and nothing enters \<^const>\<open>JobWaiting\<close>.
\<close>

definition moves :: "JobState \<Rightarrow> JobState \<Rightarrow> bool" where
  "moves a b \<longleftrightarrow> a = b \<or> (\<not> JobTerminal a \<and> b \<noteq> JobWaiting)"

definition retryable :: "DB \<Rightarrow> JobRow \<Rightarrow> bool" where
  "retryable s r \<longleftrightarrow> running_state (j_State r)
     \<and> (\<forall>a \<in> set (db_attempts s). at_JobID a = j_ID r \<and> active a \<longrightarrow>
          int (at_Number a) < rp_MaxAttempts (j_RetryPolicy r))"

text \<open>
  The deadline pass may in addition turn \<^const>\<open>JobDependencyFailed\<close> into \<^const>\<open>JobTimedOut\<close>, which the
  domain state machine does not allow.
\<close>

definition late_moves :: "JobState \<Rightarrow> JobState \<Rightarrow> bool" where
  "late_moves a b \<longleftrightarrow> moves a b \<or> (a = JobDependencyFailed \<and> b = JobTimedOut)"

definition job_effect :: "(JobState \<Rightarrow> JobState \<Rightarrow> bool) \<Rightarrow> DB \<Rightarrow> JobRow \<Rightarrow> JobRow \<Rightarrow> bool" where
  "job_effect mv s r r' \<longleftrightarrow> keeps_job r r' \<and> mv (j_State r) (j_State r')
     \<and> (pending (j_State r') \<longrightarrow> pending (j_State r) \<or> retryable s r)"

definition attempt_effect :: "AttemptCore \<Rightarrow> AttemptCore \<Rightarrow> bool" where
  "attempt_effect a a' \<longleftrightarrow> at_ID a' = at_ID a \<and> at_JobID a' = at_JobID a \<and> at_Number a' = at_Number a
     \<and> at_WorkerID a' = at_WorkerID a \<and> (a' = a \<or> active a \<and> \<not> active a')"

definition evolves :: "(JobState \<Rightarrow> JobState \<Rightarrow> bool) \<Rightarrow> DB \<Rightarrow> DB \<Rightarrow> bool" where
  "evolves mv s s' \<longleftrightarrow>
     (\<exists>F G. db_jobs s' = map F (db_jobs s) \<and> (\<forall>r \<in> set (db_jobs s). job_effect mv s r (F r))
        \<and> db_attempts s' = map G (db_attempts s) \<and> (\<forall>a \<in> set (db_attempts s). attempt_effect a (G a)))
   \<and> (\<exists>es. db_events s' = db_events s @ es)"

lemma moves_refl [simp]: "moves a a"
  by (simp add: moves_def)

lemma late_moves_refl [simp]: "late_moves a a"
  by (simp add: late_moves_def)

lemma job_effect_refl: "mv (j_State r) (j_State r) \<Longrightarrow> job_effect mv s r r"
  by (simp add: job_effect_def)

lemma attempt_effect_refl [simp]: "attempt_effect a a"
  by (simp add: attempt_effect_def)

lemma evolves_quiet:
  "db_jobs s' = db_jobs s \<Longrightarrow> db_attempts s' = db_attempts s \<Longrightarrow> \<exists>es. db_events s' = db_events s @ es \<Longrightarrow> evolves moves s s'"
  unfolding evolves_def by (intro conjI exI [of _ id]) (simp_all add: job_effect_refl)

lemma evolvesI:
  "db_jobs s' = map F (db_jobs s) \<Longrightarrow> (\<And>r. r \<in> set (db_jobs s) \<Longrightarrow> job_effect mv s r (F r)) \<Longrightarrow>
   db_attempts s' = map G (db_attempts s) \<Longrightarrow> (\<And>a. a \<in> set (db_attempts s) \<Longrightarrow> attempt_effect a (G a)) \<Longrightarrow>
   db_events s' = db_events s @ es \<Longrightarrow> evolves mv s s'"
  unfolding evolves_def by blast

lemma moves_closure: "moves a b \<longleftrightarrow> (a, b) \<in> {(x, y). CanTransition x y}\<^sup>*"
proof
  let ?R = "{(x, y). CanTransition x y}\<^sup>*"
  have s: "CanTransition x y \<Longrightarrow> (x, y) \<in> ?R" for x y by (rule r_into_rtrancl) simp
  have q: "(a, JobQueued) \<in> ?R" if "\<not> JobTerminal a" for a
    using that s [of a JobQueued] by (cases a) (auto simp: CanTransition_def)
  have l: "(JobQueued, JobLeased) \<in> ?R" "(JobLeased, JobRunning) \<in> ?R" by (auto intro!: s simp: CanTransition_def)
  have r: "(JobRunning, b) \<in> ?R" if "b \<notin> {JobWaiting, JobLeased, JobDependencyFailed}" for b
    using that s [of JobRunning b] by (cases b) (auto simp: CanTransition_def)
  have d: "(JobQueued, JobDependencyFailed) \<in> ?R" by (auto intro!: s simp: CanTransition_def)
  have qb: "(JobQueued, b) \<in> ?R" if "b \<noteq> JobWaiting" for b
  proof (cases "b = JobLeased \<or> b = JobDependencyFailed")
    case True
    with l d show ?thesis by auto
  next
    case False
    with that r [of b] l show ?thesis by (blast intro: rtrancl_trans)
  qed
  show "moves a b \<Longrightarrow> (a, b) \<in> ?R"
    using q qb by (auto simp: moves_def intro: rtrancl_trans)
  show "(a, b) \<in> ?R \<Longrightarrow> moves a b"
    by (induction rule: rtrancl_induct) (auto simp: moves_def CanTransition_def split: if_splits JobState.splits)
qed

section \<open>The operations\<close>

lemma pending_simps [simp]: "pending JobWaiting" "pending JobQueued" "\<not> pending JobLeased" "\<not> pending JobRunning"
  "\<not> pending JobDependencyFailed"
  by (simp_all add: pending_def)

lemma failed_not_pending: "failed_state st \<Longrightarrow> \<not> pending st"
  by (auto simp: pending_def)

lemma pending_not_terminal: "pending st \<Longrightarrow> \<not> JobTerminal st"
  by (auto simp: pending_def)

lemma job_effect_fail:
  "\<not> JobTerminal (j_State r) \<Longrightarrow> keeps_job r r' \<Longrightarrow> failed_state (j_State r') \<Longrightarrow> job_effect moves s r r'"
  using failed_not_pending [of "j_State r'"] by (auto simp: job_effect_def moves_def)

lemma job_effect_late: "job_effect moves s r r' \<Longrightarrow> job_effect late_moves s r r'"
  by (simp add: job_effect_def late_moves_def)

lemma job_effect_cascade:
  assumes P: "\<And>r. r \<in> set (db_jobs s) \<Longrightarrow> P r \<Longrightarrow> job_effect mv s r (f r)"
    and f: "\<And>r. keeps_job r (f r) \<and> failed_state (j_State (f r))"
    and mv: "\<And>a b. moves a b \<Longrightarrow> mv a b"
  obtains F where "cascade i tm (upd_where P f (db_jobs s)) = map F (db_jobs s)"
    and "\<And>r. r \<in> set (db_jobs s) \<Longrightarrow> job_effect mv s r (F r)"
proof -
  let ?js = "upd_where P f (db_jobs s)"
  let ?M = "\<lambda>r. if P r then f r else r"
  let ?C = "\<lambda>r. if (i, j_ID r) \<in> (dep_edges ?js)\<^sup>+ \<and> pending (j_State r) then dep_failed tm r else r"
  have "cascade i tm ?js = map ?C ?js" unfolding cascade_def by (rule upd_where_map)
  also have "\<dots> = map (\<lambda>r. ?C (?M r)) (db_jobs s)" unfolding upd_where_map [of P f "db_jobs s"] by (simp only: map_map comp_def)
  finally show thesis
  proof (rule that)
    fix r assume r: "r \<in> set (db_jobs s)"
    show "job_effect mv s r (?C (?M r))"
    proof (cases "P r")
      case True
      with f [of r] have "\<not> pending (j_State (?M r))" by (simp add: failed_not_pending)
      with True show ?thesis using P [OF r True] by simp
    next
      case False
      have "job_effect mv s r (dep_failed tm r)" if "pending (j_State r)"
        using job_effect_fail [of r "dep_failed tm r" s] pending_not_terminal [OF that] mv by (simp add: job_effect_def)
      moreover have "job_effect mv s r r" using mv by (simp add: job_effect_refl)
      ultimately show ?thesis using False by (simp split: if_split)
    qed
  qed
qed

text \<open>Ending one attempt by its identifier changes no other attempt.\<close>

lemma evolves_end_one:
  assumes inv: "lease_inv s" and a: "a \<in> set (db_attempts s)" "active a" and st: "\<not> AttemptActive st"
    and jobs: "db_jobs s' = map F (db_jobs s)" "\<And>r. r \<in> set (db_jobs s) \<Longrightarrow> job_effect mv s r (F r)"
    and att: "db_attempts s' = upd_where (\<lambda>x. at_ID x = at_ID a) (ended st f tm) (db_attempts s)"
    and ev: "db_events s' = db_events s @ es"
  shows "evolves mv s s'"
proof (rule evolvesI [OF jobs _ _ ev])
  show "db_attempts s' = map (\<lambda>x. if at_ID x = at_ID a then ended st f tm x else x) (db_attempts s)"
    by (simp add: att upd_where_map)
  fix x assume "x \<in> set (db_attempts s)"
  then show "attempt_effect x (if at_ID x = at_ID a then ended st f tm x else x)"
    using attempts_same_id [OF inv _ a(1)] a(2) st by (auto simp: attempt_effect_def)
qed

lemma ended_states [simp]:
  "\<not> AttemptActive AttemptCanceled" "\<not> AttemptActive AttemptExpired" "\<not> AttemptActive AttemptLost"
  by (simp_all add: AttemptActive.simps)

lemma evolves_CancelJob:
  assumes inv: "lease_inv s" and "CancelJob_tx i tm s = Inr s'"
  shows "evolves moves s s'"
proof -
  let ?P = "\<lambda>r. j_ID r = i \<and> \<not> JobTerminal (j_State r)"
  from CancelJob_Inr [OF assms(2)] obtain f es where
    jobs: "db_jobs s' = cascade i tm (upd_where ?P (moved JobCanceled None tm) (db_jobs s))"
    and att: "case active_attempt i s of
          None \<Rightarrow> db_attempts s' = db_attempts s \<and> db_leases s' = db_leases s
        | Some a \<Rightarrow> db_attempts s' = upd_where (\<lambda>x. at_ID x = at_ID a) (ended AttemptCanceled (Some f) tm) (db_attempts s)
            \<and> db_leases s' = del_where (\<lambda>l. l_AttemptID l = at_ID a) (db_leases s)"
    and ev: "db_events s' = db_events s @ es" by blast
  obtain F where F: "cascade i tm (upd_where ?P (moved JobCanceled None tm) (db_jobs s)) = map F (db_jobs s)"
    "\<And>r. r \<in> set (db_jobs s) \<Longrightarrow> job_effect moves s r (F r)"
    by (rule job_effect_cascade [of s ?P moves "moved JobCanceled None tm" i tm]) (auto intro: job_effect_fail that)
  show ?thesis
  proof (cases "active_attempt i s")
    case None
    show ?thesis by (rule evolvesI [of s' F s moves id es]) (use jobs F att None ev in auto)
  next
    case (Some a)
    note a = active_attemptD [OF Some]
    show ?thesis
      by (rule evolves_end_one [OF inv, of a AttemptCanceled s' F moves "Some f" tm es])
        (use jobs F att Some ev a in simp_all)
  qed
qed

lemma evolves_timeout_job:
  assumes inv: "lease_inv s" and "timeout_job now i s = Inr s'"
    and st: "\<And>r. r \<in> set (db_jobs s) \<Longrightarrow> j_ID r = i \<Longrightarrow> \<not> JobTerminal (j_State r) \<or> j_State r = JobDependencyFailed \<or> j_State r = JobTimedOut"
  shows "evolves late_moves s s'"
proof -
  from timeout_job_Inr [OF assms(2)] obtain es where
    jobs: "db_jobs s' = cascade i now (upd_where (\<lambda>r. j_ID r = i) (moved JobTimedOut None now) (db_jobs s))"
    and att: "case active_attempt i s of
          None \<Rightarrow> db_attempts s' = db_attempts s \<and> db_leases s' = db_leases s \<and> db_workers s' = db_workers s
        | Some a \<Rightarrow> db_attempts s' = upd_where (\<lambda>x. at_ID x = at_ID a) (ended AttemptCanceled (Some job_timeout_failure) now) (db_attempts s)
            \<and> db_leases s' = del_where (\<lambda>l. l_AttemptID l = at_ID a) (db_leases s)
            \<and> db_workers s' = db_workers (release_slot (at_WorkerID a) s)"
    and ev: "db_events s' = db_events s @ es" by blast
  have P: "job_effect late_moves s r (moved JobTimedOut None now r)" if "r \<in> set (db_jobs s)" "j_ID r = i" for r
    using st [OF that] by (auto simp: job_effect_def late_moves_def moves_def pending_def)
  obtain F where F: "cascade i now (upd_where (\<lambda>r. j_ID r = i) (moved JobTimedOut None now) (db_jobs s)) = map F (db_jobs s)"
    "\<And>r. r \<in> set (db_jobs s) \<Longrightarrow> job_effect late_moves s r (F r)"
    by (rule job_effect_cascade [of s "\<lambda>r. j_ID r = i" late_moves "moved JobTimedOut None now" i now])
      (auto intro: P that simp: late_moves_def)
  show ?thesis
  proof (cases "active_attempt i s")
    case None
    show ?thesis by (rule evolvesI [of s' F s late_moves id es]) (use jobs F att None ev in auto)
  next
    case (Some a)
    note a = active_attemptD [OF Some]
    show ?thesis
      by (rule evolves_end_one [OF inv, of a AttemptCanceled s' F late_moves "Some job_timeout_failure" now es])
        (use jobs F att Some ev a in simp_all)
  qed
qed

lemma evolves_expire_lease:
  assumes inv: "lease_inv s" and "expire_lease now i s = Inr s'"
  shows "evolves moves s s'"
  using assms(2)
proof (cases rule: expire_lease_cases)
  case skip
  then show ?thesis by (auto intro: evolves_quiet)
next
  case (expire a r)
  obtain st nx where st: "expired_job_state a r now = (st, nx)" by (cases "expired_job_state a r now")
  from expire(1) have a: "a \<in> set (db_attempts s)" "at_ID a = i" "active a" by (auto simp: find_Some_iff)
  let ?P = "\<lambda>x. j_ID x = at_JobID a \<and> running_state (j_State x)"
  let ?js = "upd_where ?P (moved st nx now) (db_jobs s)"
  from expire_active_Inr [OF expire(3) st] obtain es where
    att: "db_attempts s' = upd_where (\<lambda>x. at_ID x = i \<and> active x) (ended AttemptExpired (Some lease_expired_failure) now) (db_attempts s)"
    and jobs: "db_jobs s' = (if JobTerminal st then cascade (at_JobID a) now ?js else ?js)"
    and ev: "db_events s' = db_events s @ es" unfolding Let_def by blast
  have row: "x = r" if "x \<in> set (db_jobs s)" "j_ID x = at_JobID a" for x
    using jobs_same_id [OF inv that(1)] row_byD [OF expire(2)] that(2) by simp
  have P: "job_effect moves s x (moved st nx now x)" if x: "x \<in> set (db_jobs s)" "?P x" for x
  proof -
    have "\<not> JobTerminal (j_State x)" "st \<noteq> JobWaiting"
      using x st by (auto simp: running_state_def expired_job_state_def split: if_splits)
    moreover have "retryable s x" if "pending st"
    proof -
      have "retry_allowed a r now" using that st by (auto simp: expired_job_state_def pending_def split: if_splits)
      then have "int (at_Number a) < rp_MaxAttempts (j_RetryPolicy r)" by (simp add: retry_allowed_def)
      moreover have "b = a" if "b \<in> set (db_attempts s)" "active b" "at_JobID b = at_JobID a" for b
        using inv a that by (auto simp: lease_inv_def active_inv_def)
      ultimately show ?thesis using x row [OF x(1)] by (auto simp: retryable_def)
    qed
    ultimately show ?thesis by (auto simp: job_effect_def moves_def)
  qed
  have "\<exists>F. db_jobs s' = map F (db_jobs s) \<and> (\<forall>x \<in> set (db_jobs s). job_effect moves s x (F x))"
  proof (cases "JobTerminal st")
    case True
    then have f: "failed_state st" using expired_states [OF st] by auto
    show ?thesis
      by (rule job_effect_cascade [of s ?P moves "moved st nx now" "at_JobID a" now])
        (use P f True jobs in \<open>auto intro: exI\<close>)
  next
    case False
    then show ?thesis
      by (intro exI [of _ "\<lambda>x. if ?P x then moved st nx now x else x"])
        (use P jobs in \<open>auto simp: upd_where_map job_effect_refl\<close>)
  qed
  then obtain F where F: "db_jobs s' = map F (db_jobs s)" "\<And>x. x \<in> set (db_jobs s) \<Longrightarrow> job_effect moves s x (F x)" by blast
  show ?thesis
    by (rule evolvesI [OF F, of "\<lambda>x. if at_ID x = i \<and> active x then ended AttemptExpired (Some lease_expired_failure) now x else x" es])
      (simp_all add: att upd_where_map ev attempt_effect_def)
qed

lemma job_effect_settled:
  assumes run: "\<And>r. r \<in> set (db_jobs s) \<Longrightarrow> j_ID r = i \<Longrightarrow> running_state (j_State r)"
    and st: "JobTerminal st \<or> st = JobQueued"
    and retry: "\<And>r. r \<in> set (db_jobs s) \<Longrightarrow> j_ID r = i \<Longrightarrow> st = JobQueued \<Longrightarrow> retryable s r"
  shows "\<exists>F. settled i st tm (db_jobs s) = map F (db_jobs s) \<and> (\<forall>r \<in> set (db_jobs s). job_effect moves s r (F r))"
proof -
  let ?M = "\<lambda>r. if j_ID r = i then stated st tm r else r"
  let ?js = "upd_where (\<lambda>r. j_ID r = i) (stated st tm) (db_jobs s)"
  have js: "?js = map ?M (db_jobs s)" by (rule upd_where_map)
  have P: "job_effect moves s r (stated st tm r)" if r: "r \<in> set (db_jobs s)" "j_ID r = i" for r
  proof -
    have "\<not> JobTerminal (j_State r)" using run [OF r] by (auto simp: running_state_def)
    moreover have "st \<noteq> JobWaiting" "pending st \<longrightarrow> retryable s r" using st retry [OF r] by (auto simp: pending_def)
    ultimately show ?thesis by (auto simp: job_effect_def moves_def)
  qed
  have M: "job_effect moves s r (?M r)" if "r \<in> set (db_jobs s)" for r using P that by (simp add: job_effect_refl)
  consider "st = JobSucceeded" | "failed_state st" | "st = JobQueued" using st by (auto simp: failed_state_def)
  then show ?thesis
  proof cases
    case 1
    let ?Q = "\<lambda>r. j_State r = JobWaiting \<and> i \<in> set (j_DependsOn r)
      \<and> \<not> (\<exists>d \<in> set (j_DependsOn r). \<exists>p \<in> set ?js. j_ID p = d \<and> j_State p \<noteq> JobSucceeded)"
    let ?U = "\<lambda>r. if ?Q r then stated JobQueued tm r else r"
    have "settled i st tm (db_jobs s) = unblocked i tm ?js" using 1 by (simp add: settled_def Let_def)
    also have "\<dots> = map ?U ?js" unfolding unblocked_def by (rule upd_where_map)
    also have "\<dots> = map (\<lambda>r. ?U (?M r)) (db_jobs s)" unfolding js by (simp only: map_map comp_def)
    finally have eq: "settled i st tm (db_jobs s) = map (\<lambda>r. ?U (?M r)) (db_jobs s)" .
    have "job_effect moves s r (?U (?M r))" if r: "r \<in> set (db_jobs s)" for r
    proof (cases "?Q (?M r)")
      case True
      with 1 have "?M r = r" "j_State r = JobWaiting" by (auto split: if_splits)
      with True show ?thesis by (simp add: job_effect_def moves_def)
    next
      case False
      then have "?U (?M r) = ?M r" by (simp only: if_False)
      with M [OF r] show ?thesis by simp
    qed
    with eq show ?thesis by blast
  next
    case 2
    then have eq: "settled i st tm (db_jobs s) = cascade i tm ?js" by (auto simp: settled_def failed_state_def)
    show ?thesis
      by (rule job_effect_cascade [of s "\<lambda>r. j_ID r = i" moves "stated st tm" i tm])
        (use P 2 eq in \<open>auto intro: exI\<close>)
  next
    case 3
    then have "settled i st tm (db_jobs s) = ?js" by (simp add: settled_def)
    then have "settled i st tm (db_jobs s) = map ?M (db_jobs s)" unfolding js .
    with M show ?thesis by blast
  qed
qed

lemma evolves_CompleteAttempt:
  assumes inv: "lease_inv s" and "CompleteAttempt_tx c s = Inr s'"
  shows "evolves moves s s'"
  using assms(2)
proof (rule CompleteAttempt_Inr)
  fix a r es
  assume own: "owned_attempt (cm_AttemptID c) (cm_WorkerID c) s = Some a"
    and row: "row_by j_ID (at_JobID a) (db_jobs s) = Some r"
    and can: "CanAttemptTransition (at_State a) (cm_AttemptState c)" "AttemptTerminal (cm_AttemptState c)"
    and st: "\<And>st. cm_JobState c = Some st \<Longrightarrow> JobTerminal st"
    and jobs: "db_jobs s' = settled (at_JobID a) (completion_job_state c a r) (cm_At c) (db_jobs s)"
    and att: "db_attempts s' = upd_where (\<lambda>x. at_ID x = cm_AttemptID c)
       (ended (cm_AttemptState c) (cm_Failure c) (cm_At c)) (db_attempts s)"
    and ev: "db_events s' = db_events s @ es"
  note a = owned_attemptD [OF own] CanAttemptTransition_active [OF can(1)]
  let ?st = "completion_job_state c a r"
  have "JobTerminal ?st \<or> ?st = JobQueued"
    using st by (auto simp: completion_job_state_def split: option.splits if_splits)
  moreover have "running_state (j_State x)" if "x \<in> set (db_jobs s)" "j_ID x = at_JobID a" for x
    using attempt_job_running [OF inv _ _ that] a by blast
  moreover have "retryable s x" if x: "x \<in> set (db_jobs s)" "j_ID x = at_JobID a" and q: "?st = JobQueued" for x
  proof -
    have "x = r" using jobs_same_id [OF inv x(1)] row_byD [OF row] x(2) by simp
    moreover have "int (at_Number a) < rp_MaxAttempts (j_RetryPolicy r)"
      using q st by (fastforce simp: completion_job_state_def split: option.splits if_splits)
    moreover have "b = a" if "b \<in> set (db_attempts s)" "active b" "at_JobID b = at_JobID a" for b
      using inv a that by (auto simp: lease_inv_def active_inv_def)
    moreover have "running_state (j_State x)" using attempt_job_running [OF inv _ _ x] a by blast
    ultimately show ?thesis using x by (auto simp: retryable_def)
  qed
  ultimately obtain F where F: "db_jobs s' = map F (db_jobs s)" "\<forall>x \<in> set (db_jobs s). job_effect moves s x (F x)"
    using job_effect_settled [of s "at_JobID a" ?st "cm_At c"] jobs by metis
  show ?thesis
    by (rule evolves_end_one [OF inv _ _ _ F(1), of a "cm_AttemptState c" moves "cm_Failure c" "cm_At c" es])
      (use F(2) att ev a can(2) in \<open>auto simp: terminal_not_active\<close>)
qed

lemma evolves_finishSessionTx:
  assumes "finishSessionTx i state code tm s = Inr s'"
  shows "evolves moves s s'"
  using assms
proof (cases rule: finishSessionTx_Inr)
  case 1
  then show ?thesis by (auto intro: evolves_quiet)
next
  case (2 v f es)
  let ?P = "\<lambda>r. of_session i r \<and> unfinished (j_State r)"
  have fail: "job_effect moves s r (stated (lost_or_canceled state) tm r)" if "?P r" for r
    using that by (intro job_effect_fail) (auto simp: unfinished_def lost_or_canceled_def)
  show ?thesis
    by (rule evolvesI [of s' "\<lambda>r. if ?P r then stated (lost_or_canceled state) tm r else r" s moves
          "\<lambda>a. if session_attempt i s a \<and> active a then ended (if state = SessionLost then AttemptLost else AttemptCanceled) (Some f) tm a else a" es])
      (use 2 fail in \<open>auto simp: upd_where_map job_effect_refl attempt_effect_def\<close>)
qed

section \<open>The bound on attempts\<close>

definition retry_inv :: "DB \<Rightarrow> bool" where
  "retry_inv s \<longleftrightarrow> (\<forall>r \<in> set (db_jobs s). \<forall>a \<in> set (db_attempts s). at_JobID a = j_ID r \<longrightarrow>
     int (at_Number a) \<le> max 1 (rp_MaxAttempts (j_RetryPolicy r))
   \<and> (pending (j_State r) \<longrightarrow> int (at_Number a) < rp_MaxAttempts (j_RetryPolicy r))
   \<and> (active a \<longrightarrow> (\<forall>b \<in> set (db_attempts s). at_JobID b = j_ID r \<longrightarrow> at_Number b \<le> at_Number a)))"

lemma retry_inv_cong: "db_jobs s' = db_jobs s \<Longrightarrow> db_attempts s' = db_attempts s \<Longrightarrow> retry_inv s' = retry_inv s"
  by (simp add: retry_inv_def)

lemma retry_inv_evolves:
  assumes inv: "lease_inv s" and re: "retry_inv s" and "evolves mv s s'"
  shows "retry_inv s'"
proof -
  from assms(3) obtain F G where
    F: "db_jobs s' = map F (db_jobs s)" "\<And>r. r \<in> set (db_jobs s) \<Longrightarrow> job_effect mv s r (F r)"
    and G: "db_attempts s' = map G (db_attempts s)" "\<And>a. a \<in> set (db_attempts s) \<Longrightarrow> attempt_effect a (G a)"
    unfolding evolves_def by blast
  show ?thesis
    unfolding retry_inv_def
  proof (intro ballI impI)
    fix r' a' assume "r' \<in> set (db_jobs s')" "a' \<in> set (db_attempts s')" and ja: "at_JobID a' = j_ID r'"
    then obtain r a where r: "r \<in> set (db_jobs s)" "r' = F r" and a: "a \<in> set (db_attempts s)" "a' = G a"
      by (auto simp: F(1) G(1))
    note eff = F(2) [OF r(1)] G(2) [OF a(1)]
    have k: "j_ID r' = j_ID r" "j_RetryPolicy r' = j_RetryPolicy r" "at_Number a' = at_Number a" "at_JobID a = j_ID r"
      using eff ja r(2) a(2) by (auto simp: job_effect_def keeps_job_def attempt_effect_def)
    note old = re [unfolded retry_inv_def, rule_format, OF r(1) a(1) k(4)]
    have "int (at_Number a) < rp_MaxAttempts (j_RetryPolicy r)" if "pending (j_State r')"
    proof (cases "pending (j_State r)")
      case True
      with old show ?thesis by blast
    next
      case False
      with that eff(1) r(2) have run: "retryable s r" by (simp add: job_effect_def)
      then obtain b where b: "b \<in> set (db_attempts s)" "at_JobID b = j_ID r" "active b"
        using inv r(1) by (auto simp: retryable_def lease_inv_def active_inv_def)
      then have "int (at_Number b) < rp_MaxAttempts (j_RetryPolicy r)" using run by (simp add: retryable_def)
      moreover have "at_Number a \<le> at_Number b"
        using re [unfolded retry_inv_def, rule_format, OF r(1) b(1,2)] b(3) a(1) k(4) by blast
      ultimately show ?thesis by linarith
    qed
    moreover have "at_Number b' \<le> at_Number a'" if "active a'" "b' \<in> set (db_attempts s')" "at_JobID b' = j_ID r'" for b'
    proof -
      from that(2) obtain b where b: "b \<in> set (db_attempts s)" "b' = G b" by (auto simp: G(1))
      with G(2) [OF b(1)] that(3) k(1) have "at_JobID b = j_ID r" "at_Number b' = at_Number b" by (auto simp: attempt_effect_def)
      moreover have "active a" using that(1) eff(2) a(2) by (auto simp: attempt_effect_def)
      ultimately show ?thesis using old b(1) k(3) by simp
    qed
    ultimately show "int (at_Number a') \<le> max 1 (rp_MaxAttempts (j_RetryPolicy r'))
      \<and> (pending (j_State r') \<longrightarrow> int (at_Number a') < rp_MaxAttempts (j_RetryPolicy r'))
      \<and> (active a' \<longrightarrow> (\<forall>b \<in> set (db_attempts s'). at_JobID b = j_ID r' \<longrightarrow> at_Number b \<le> at_Number a'))"
      using old k by simp
  qed
qed

lemma retry_inv_append_job:
  assumes inv: "lease_inv s" and "retry_inv s" and jobs: "db_jobs s' = db_jobs s @ [n]" and att: "db_attempts s' = db_attempts s"
    and new: "j_ID n \<notin> j_ID ` set (db_jobs s)"
  shows "retry_inv s'"
proof -
  have "at_JobID a \<noteq> j_ID n" if "a \<in> set (db_attempts s)" for a
  proof -
    have "at_JobID a \<in> j_ID ` set (db_jobs s)" using inv that by (simp add: lease_inv_def keys_inv_def)
    with new show ?thesis by metis
  qed
  with assms(2) show ?thesis by (simp add: retry_inv_def jobs att)
qed

lemma retry_inv_lease_job:
  assumes inv: "lease_inv s" and re: "retry_inv s" and leased: "lease_job q j s = Inr (Some (a, j'), s')"
  shows "retry_inv s'"
proof -
  define n where "n = next_number (\<lambda>a. at_JobID a = j_ID j) at_Number (db_attempts s)"
  note eff = lease_job_Inr [OF leased, folded n_def]
  let ?P = "\<lambda>x. j_ID x = j_ID j \<and> j_State x = JobQueued"
  from eff(3) obtain x0 where x0: "x0 \<in> set (db_jobs s)" "?P x0" by blast
  have fresh: "at_Number b < n" if "b \<in> set (db_attempts s)" "at_JobID b = j_ID j" for b
    using next_number_fresh [OF that(1), of "\<lambda>a. at_JobID a = j_ID j" at_Number] that(2) by (simp add: n_def)
  have nbound: "int n \<le> max 1 (rp_MaxAttempts (j_RetryPolicy x0))"
  proof (cases "filter (\<lambda>a. at_JobID a = j_ID j) (db_attempts s) = []")
    case True
    then show ?thesis by (simp add: n_def next_number_def)
  next
    case False
    then have "foldr max (map at_Number (filter (\<lambda>a. at_JobID a = j_ID j) (db_attempts s))) 0
        \<in> set (map at_Number (filter (\<lambda>a. at_JobID a = j_ID j) (db_attempts s)))"
      by (intro foldr_max_in) simp
    then obtain b where b: "b \<in> set (db_attempts s)" "at_JobID b = j_ID j" "n = Suc (at_Number b)"
      by (auto simp: n_def next_number_def)
    then have "int (at_Number b) < rp_MaxAttempts (j_RetryPolicy x0)"
      using re [unfolded retry_inv_def, rule_format, OF x0(1) b(1)] x0(2) by simp
    with b(3) show ?thesis by simp
  qed
  have new: "at_JobID (attempt_row q (j_ID j) n) = j_ID j" "at_Number (attempt_row q (j_ID j) n) = n"
    by (simp_all add: attempt_row_def)
  show ?thesis
    unfolding retry_inv_def
  proof (intro ballI impI)
    fix r' b assume r': "r' \<in> set (db_jobs s')" and b: "b \<in> set (db_attempts s')" and jb: "at_JobID b = j_ID r'"
    from r' obtain r where r: "r \<in> set (db_jobs s)" "r' = (if ?P r then stated JobLeased (cr_Now q) r else r)"
      by (auto simp: eff(4) in_upd_where)
    then have k: "j_ID r' = j_ID r" "j_RetryPolicy r' = j_RetryPolicy r" by simp_all
    have rx: "r = x0" if "j_ID r = j_ID j" using jobs_same_id [OF inv r(1) x0(1)] x0(2) that by simp
    have np: "\<not> pending (j_State r')" if "j_ID r = j_ID j" using r(2) rx [OF that] x0(2) that by simp
    show "int (at_Number b) \<le> max 1 (rp_MaxAttempts (j_RetryPolicy r'))
      \<and> (pending (j_State r') \<longrightarrow> int (at_Number b) < rp_MaxAttempts (j_RetryPolicy r'))
      \<and> (active b \<longrightarrow> (\<forall>c \<in> set (db_attempts s'). at_JobID c = j_ID r' \<longrightarrow> at_Number c \<le> at_Number b))"
    proof (cases "b \<in> set (db_attempts s)")
      case True
      note old = re [unfolded retry_inv_def, rule_format, OF r(1) True]
      show ?thesis
      proof (cases "j_ID r = j_ID j")
        case same: True
        have "\<not> active b" using inv r(1) rx [OF same] x0(2) True jb k(1) same
          unfolding lease_inv_def active_inv_def by (metis JobState.distinct(3,5) running_state_def)
        with old jb k np [OF same] show ?thesis by simp
      next
        case False
        then have "r' = r" using r(2) by simp
        with old jb False new(1) show ?thesis by (auto simp: eff(5))
      qed
    next
      case False
      with b have bn: "b = attempt_row q (j_ID j) n" by (simp add: eff(5))
      with jb new k have "j_ID r = j_ID j" by simp
      with bn new nbound rx np k fresh show ?thesis by (auto simp: eff(5) less_imp_le)
    qed
  qed
qed

end
