(* ===== verification/SR_System.thy ===== *)
theory SR_System
  imports SR_Effects
begin

text \<open>
  The store as a transition system: one step is one call of a store operation, successful or not,
  with any arguments. The invariant of the store holds in every reachable database, and along every
  run job states follow the domain state machine, finished attempts do not change and the event log
  only grows.

  The one condition on a caller is that a submitted job is queued, which is what the HTTP handlers
  and the rebuild of a recovered session submit.
\<close>

section \<open>Steps\<close>

inductive store_step :: "DB \<Rightarrow> DB \<Rightarrow> bool" where
  CreateJob: "j_State j = JobQueued \<Longrightarrow> store_step s (snd (CreateJob now j s))"
| CancelJob: "store_step s (snd (CancelJob i tm s))"
| AppendEvent: "store_step s (snd (AppendEvent_store v s))"
| AppendAttemptEvent: "store_step s (snd (AppendAttemptEvent now a w v s))"
| SaveResult: "store_step s (snd (SaveResult a w res s))"
| ClaimNextJob: "store_step s (snd (ClaimNextJob r s))"
| RenewLease: "store_step s (snd (RenewLease now a w until s))"
| CompleteAttempt: "store_step s (snd (CompleteAttempt c s))"
| ExpireLeases: "store_step s (snd (ExpireLeases now s))"
| ExpireWorkerLeases: "store_step s (snd (ExpireWorkerLeases w now s))"
| TimeoutJobs: "store_step s (snd (TimeoutJobs now s))"
| CreateSession: "store_step s (snd (CreateSession now v0 s))"
| BindSession: "store_step s (snd (BindSession i w b tm s))"
| CloseSession: "store_step s (snd (CloseSession i tm s))"
| ExpireSessions: "store_step s (snd (ExpireSessions tm s))"
| RequestRecovery: "store_step s (snd (RequestRecovery i tm s))"
| ClaimRecovery: "store_step s (snd (ClaimRecovery i tm s))"
| CompleteRecovery: "store_step s (snd (CompleteRecovery i epoch w b tm s))"
| FailRecovery: "store_step s (snd (FailRecovery i epoch msg retry now s))"
| AcknowledgeRecovery: "store_step s (snd (AcknowledgeRecovery i epoch w tm s))"
| TerminalRecovery: "store_step s (snd (TerminalRecovery i epoch msg tm s))"
| AppendRecoveryEvent: "store_step s (snd (AppendRecoveryEvent e s))"
| CreateCheckpoint: "store_step s (snd (CreateCheckpoint c s))"
| CompleteCheckpoint: "store_step s (snd (CompleteCheckpoint i sid epoch loc checksum bytes s))"
| MarkCheckpoint: "store_step s (snd (MarkCheckpoint i state msg s))"
| GarbageCollectCheckpoints: "store_step s (snd (GarbageCollectCheckpoints tm retain onClose s))"
| UpsertWorker: "store_step s (snd (UpsertWorker now w0 s))"
| SetWorkerHealth: "store_step s (snd (SetWorkerHealth i health tm s))"
| CreateBootstrapToken: "store_step s (snd (CreateBootstrapToken t s))"
| ConsumeBootstrapToken: "store_step s (snd (ConsumeBootstrapToken hash b provider pool caps now s))"
| RevokeSandboxCredentials: "store_step s (snd (RevokeSandboxCredentials now b s))"
| UpsertSandbox: "store_step s (snd (UpsertSandbox now v s))"
| SetSandboxState: "store_step s (snd (SetSandboxState now i state tm s))"
| DeleteSandbox: "store_step s (snd (DeleteSandbox i s))"

inductive reachable :: "DB \<Rightarrow> bool" where
  start: "reachable empty_db"
| step: "reachable s \<Longrightarrow> store_step s s' \<Longrightarrow> reachable s'"

definition store_inv :: "DB \<Rightarrow> bool" where
  "store_inv s \<longleftrightarrow> lease_inv s \<and> dep_inv s \<and> retry_inv s"

section \<open>Quiet operations\<close>

text \<open>Operations that leave jobs, attempts and leases alone.\<close>

definition quiet :: "DB \<Rightarrow> DB \<Rightarrow> bool" where
  "quiet s s' \<longleftrightarrow> db_jobs s' = db_jobs s \<and> db_attempts s' = db_attempts s \<and> db_leases s' = db_leases s
     \<and> (\<exists>es. db_events s' = db_events s @ es)"

lemma quiet_refl [simp]: "quiet s s"
  by (simp add: quiet_def)

lemma quiet_trans: "quiet s s1 \<Longrightarrow> quiet s1 s2 \<Longrightarrow> quiet s s2"
  by (auto simp: quiet_def)

lemma quiet_updates [simp]:
  "quiet s (update_workers Pw f s)" "quiet s (update_sandboxes Pb g s)" "quiet s (update_sessions Ps h s)"
  "quiet s (update_checkpoints Pc k s)" "quiet s (update_tokens Pt m s)"
  by (simp_all add: quiet_def stmt_defs)

lemma quiet_left [simp]:
  "quiet (update_workers Pw f s) s' = quiet s s'" "quiet (update_sandboxes Pb g s) s' = quiet s s'"
  "quiet (update_sessions Ps h s) s' = quiet s s'"
  by (simp_all add: quiet_def stmt_defs)

lemma commit0_cases: "snd (commit0 f s) = s \<or> f s = Inr (snd (commit0 f s))"
  by (cases "f s") (simp_all add: commit0_def commit_def)

lemma commit_cases: "snd (commit f s) = s \<or> (\<exists>x. f s = Inr (x, snd (commit f s)))"
  by (cases "f s") (auto simp: commit_def)

lemma commit0_rel: "R s s \<Longrightarrow> (\<And>s'. f s = Inr s' \<Longrightarrow> R s s') \<Longrightarrow> R s (snd (commit0 f s))"
  using commit0_cases [of f s] by metis

lemma commit_rel: "R s s \<Longrightarrow> (\<And>x s'. f s = Inr (x, s') \<Longrightarrow> R s s') \<Longrightarrow> R s (snd (commit f s))"
  using commit_cases [of f s] by metis

lemma quiet_log_recovery: "log_recovery e s = Inr s' \<Longrightarrow> quiet s s'"
  by (auto simp: log_recovery_def quiet_def dest!: insert_or_ignore_recovery_Inr)

lemma quiet_insert_event: "insert_event e s = Inr s' \<Longrightarrow> quiet s s'"
  by (auto simp: quiet_def dest!: insert_event_Inr)

lemma quiet_AppendEvent_tx: "mapped (insert_event e s) = Inr s' \<Longrightarrow> quiet s s'"
  by (simp add: quiet_insert_event)

lemma quiet_AppendAttemptEvent_tx: "AppendAttemptEvent_tx now a w v s = Inr (x, s') \<Longrightarrow> quiet s s'"
  by (auto simp: AppendAttemptEvent_tx_def Let_def split: if_splits option.splits dest!: quiet_insert_event)

lemma quiet_SaveResult_tx: "SaveResult_tx a w res s = Inr s' \<Longrightarrow> quiet s s'"
  by (auto simp: SaveResult_tx_def quiet_def upsert_result_def split: if_splits)

lemma quiet_CreateSession: "quiet s (snd (CreateSession now v s))"
  by (auto simp: CreateSession_def insert_session_def quiet_def mapped_def Let_def split: sum.splits if_splits)

lemma quiet_BindSession_tx: "BindSession_tx i w b tm s = Inr s' \<Longrightarrow> quiet s s'"
  by (auto simp: BindSession_tx_def Let_def stmt_defs quiet_def split: if_splits)

lemma quiet_RequestRecovery_tx: "RequestRecovery_tx i tm s = Inr s' \<Longrightarrow> quiet s s'"
  by (auto simp: RequestRecovery_tx_def Let_def split: if_splits dest!: quiet_log_recovery)

lemma quiet_ClaimRecovery_tx: "ClaimRecovery_tx i tm s = Inr (x, s') \<Longrightarrow> quiet s s'"
  by (auto simp: ClaimRecovery_tx_def Let_def split: if_splits dest!: quiet_log_recovery)

lemma quiet_CompleteRecovery_tx: "CompleteRecovery_tx i epoch w b tm s = Inr s' \<Longrightarrow> quiet s s'"
  by (auto simp: CompleteRecovery_tx_def Let_def split: if_splits dest!: quiet_log_recovery)

lemma quiet_FailRecovery_tx: "FailRecovery_tx i epoch msg retry now s = Inr s' \<Longrightarrow> quiet s s'"
  by (auto simp: FailRecovery_tx_def drop_reservation_def Let_def split: if_splits dest!: quiet_log_recovery)

lemma quiet_AcknowledgeRecovery_tx: "AcknowledgeRecovery_tx i epoch w tm s = Inr s' \<Longrightarrow> quiet s s'"
  by (auto simp: AcknowledgeRecovery_tx_def Let_def split: if_splits dest!: quiet_log_recovery)

lemma quiet_CreateCheckpoint_tx: "CreateCheckpoint_tx c s = Inr s' \<Longrightarrow> quiet s s'"
  by (auto simp: CreateCheckpoint_tx_def Let_def insert_checkpoint_def quiet_def split: if_splits)

lemma quiet_CompleteCheckpoint_tx: "CompleteCheckpoint_tx i sid epoch loc checksum bytes s = Inr s' \<Longrightarrow> quiet s s'"
  by (auto simp: CompleteCheckpoint_tx_def Let_def stmt_defs quiet_def split: if_splits)

lemma quiet_MarkCheckpoint: "quiet s (snd (MarkCheckpoint i state msg s))"
  by (simp add: MarkCheckpoint_def Let_def)

lemma quiet_GC_tx: "GarbageCollectCheckpoints_tx tm retain onClose s = Inr (x, s') \<Longrightarrow> quiet s s'"
  by (auto simp: GarbageCollectCheckpoints_tx_def Let_def stmt_defs quiet_def)

lemma quiet_UpsertWorker: "quiet s (snd (UpsertWorker now w s))"
  by (simp add: UpsertWorker_def Let_def stmt_defs quiet_def)

lemma quiet_CreateBootstrapToken_tx: "mapped (insert_token t s) = Inr s' \<Longrightarrow> quiet s s'"
  by (auto simp: insert_token_def quiet_def split: if_splits)

lemma quiet_ConsumeBootstrapToken: "quiet s (snd (ConsumeBootstrapToken hash b provider pool caps now s))"
  by (simp add: ConsumeBootstrapToken_def Let_def)

lemma quiet_Revoke: "quiet s (snd (RevokeSandboxCredentials now b s))"
  by (simp add: RevokeSandboxCredentials_def stmt_defs quiet_def)

lemma quiet_UpsertSandbox: "quiet s (snd (UpsertSandbox now v s))"
  by (simp add: UpsertSandbox_def Let_def stmt_defs quiet_def)

lemma quiet_SetSandboxState: "quiet s (snd (SetSandboxState now i state tm s))"
  by (simp add: SetSandboxState_def RevokeSandboxCredentials_def Let_def stmt_defs quiet_def)

lemma quiet_DeleteSandbox: "quiet s (snd (DeleteSandbox i s))"
  by (simp add: DeleteSandbox_def quiet_def)

section \<open>Histories\<close>

definition history :: "(JobState \<Rightarrow> JobState \<Rightarrow> bool) \<Rightarrow> DB \<Rightarrow> DB \<Rightarrow> bool" where
  "history mv s s' \<longleftrightarrow>
     (\<exists>F N. db_jobs s' = map F (db_jobs s) @ N
        \<and> (\<forall>r \<in> set (db_jobs s). keeps_job r (F r) \<and> mv (j_State r) (j_State (F r))))
   \<and> (\<exists>G M. db_attempts s' = map G (db_attempts s) @ M \<and> (\<forall>a \<in> set (db_attempts s). attempt_effect a (G a)))
   \<and> (\<exists>es. db_events s' = db_events s @ es)"

lemma historyI:
  "db_jobs s' = map F (db_jobs s) @ N \<Longrightarrow> (\<And>r. r \<in> set (db_jobs s) \<Longrightarrow> keeps_job r (F r) \<and> mv (j_State r) (j_State (F r))) \<Longrightarrow>
   db_attempts s' = map G (db_attempts s) @ M \<Longrightarrow> (\<And>a. a \<in> set (db_attempts s) \<Longrightarrow> attempt_effect a (G a)) \<Longrightarrow>
   db_events s' = db_events s @ es \<Longrightarrow> history mv s s'"
  unfolding history_def by blast

lemma history_evolves: "evolves mv s s' \<Longrightarrow> history mv s s'"
proof -
  assume "evolves mv s s'"
  then obtain F G es where "db_jobs s' = map F (db_jobs s)" "\<forall>r \<in> set (db_jobs s). job_effect mv s r (F r)"
    "db_attempts s' = map G (db_attempts s)" "\<forall>a \<in> set (db_attempts s). attempt_effect a (G a)"
    "db_events s' = db_events s @ es" unfolding evolves_def by blast
  then show ?thesis by (intro historyI [of s' F s "[]" mv G "[]" es]) (auto simp: job_effect_def)
qed

lemma history_quiet: "quiet s s' \<Longrightarrow> (\<And>a. mv a a) \<Longrightarrow> history mv s s'"
  unfolding quiet_def by (elim conjE exE) (rule historyI [of s' id s "[]" mv id "[]"]; simp)

lemma attempt_effect_trans: "attempt_effect a b \<Longrightarrow> attempt_effect b c \<Longrightarrow> attempt_effect a c"
  by (auto simp: attempt_effect_def)

lemma history_trans:
  assumes "history mv s s1" and "history mv s1 s2" and mv: "\<And>a b c. mv a b \<Longrightarrow> mv b c \<Longrightarrow> mv a c"
  shows "history mv s s2"
proof -
  from assms(1) obtain F N G M es where 1: "db_jobs s1 = map F (db_jobs s) @ N"
    "\<forall>r \<in> set (db_jobs s). keeps_job r (F r) \<and> mv (j_State r) (j_State (F r))"
    "db_attempts s1 = map G (db_attempts s) @ M" "\<forall>a \<in> set (db_attempts s). attempt_effect a (G a)"
    "db_events s1 = db_events s @ es" unfolding history_def by blast
  from assms(2) obtain F' N' G' M' es' where 2: "db_jobs s2 = map F' (db_jobs s1) @ N'"
    "\<forall>r \<in> set (db_jobs s1). keeps_job r (F' r) \<and> mv (j_State r) (j_State (F' r))"
    "db_attempts s2 = map G' (db_attempts s1) @ M'" "\<forall>a \<in> set (db_attempts s1). attempt_effect a (G' a)"
    "db_events s2 = db_events s1 @ es'" unfolding history_def by blast
  show ?thesis
  proof (rule historyI [of s2 "F' \<circ> F" s "map F' N @ N'" mv "G' \<circ> G" "map G' M @ M'" "es @ es'"])
    fix r assume r: "r \<in> set (db_jobs s)"
    then have "F r \<in> set (db_jobs s1)" by (simp add: 1(1))
    with 1(2) 2(2) r mv show "keeps_job r ((F' \<circ> F) r) \<and> mv (j_State r) (j_State ((F' \<circ> F) r))"
      by (fastforce simp: keeps_job_def)
  next
    fix a assume a: "a \<in> set (db_attempts s)"
    then have "G a \<in> set (db_attempts s1)" by (simp add: 1(3))
    with 1(4) 2(4) a show "attempt_effect a ((G' \<circ> G) a)" by (auto intro: attempt_effect_trans)
  qed (simp_all add: 1(1,3,5) 2(1,3,5))
qed

lemma moves_trans: "moves a b \<Longrightarrow> moves b c \<Longrightarrow> moves a c"
  by (auto simp: moves_def)

lemma late_moves_trans: "late_moves a b \<Longrightarrow> late_moves b c \<Longrightarrow> late_moves a c"
  by (auto simp: late_moves_def moves_def)

lemma history_late: "history moves s s' \<Longrightarrow> history late_moves s s'"
  unfolding history_def late_moves_def by blast

text \<open>A good step keeps the invariant and the history.\<close>

definition good :: "DB \<Rightarrow> DB \<Rightarrow> bool" where
  "good s s' \<longleftrightarrow> (store_inv s \<longrightarrow> store_inv s' \<and> history moves s s')"

lemma good_refl [simp]: "good s s"
  by (simp add: good_def history_quiet)

lemma good_trans: "good s s1 \<Longrightarrow> good s1 s2 \<Longrightarrow> good s s2"
  by (auto simp: good_def intro: history_trans moves_trans)

lemma store_inv_quiet: "quiet s s' \<Longrightarrow> store_inv s' = store_inv s"
  using lease_inv_cong [of s' s] dep_inv_cong [of s' s] retry_inv_cong [of s' s]
  by (simp add: quiet_def store_inv_def)

lemma good_quiet: "quiet s s' \<Longrightarrow> good s s'"
  by (simp add: good_def store_inv_quiet history_quiet)

lemma good_evolves:
  "(lease_inv s \<Longrightarrow> lease_inv s') \<Longrightarrow> (lease_inv s \<Longrightarrow> dep_inv s \<Longrightarrow> dep_inv s') \<Longrightarrow> (lease_inv s \<Longrightarrow> evolves moves s s') \<Longrightarrow> good s s'"
  using retry_inv_evolves [of s moves s'] history_evolves [of moves s s'] by (simp add: good_def store_inv_def)

lemma good_CancelJob_tx: "CancelJob_tx i tm s = Inr s' \<Longrightarrow> good s s'"
  by (rule good_evolves) (auto intro: lease_inv_CancelJob dep_inv_CancelJob evolves_CancelJob)

lemma good_CompleteAttempt_tx: "CompleteAttempt_tx c s = Inr s' \<Longrightarrow> good s s'"
  by (rule good_evolves) (auto intro: lease_inv_CompleteAttempt dep_inv_CompleteAttempt evolves_CompleteAttempt)

lemma good_expire_lease: "expire_lease now i s = Inr s' \<Longrightarrow> good s s'"
  by (rule good_evolves) (auto intro: lease_inv_expire_lease dep_inv_expire_lease evolves_expire_lease)

lemma good_finishSessionTx: "finishSessionTx i state code tm s = Inr s' \<Longrightarrow> good s s'"
  by (rule good_evolves) (auto intro: lease_inv_finishSessionTx dep_inv_finishSessionTx evolves_finishSessionTx)

lemma good_RenewLease_tx: "RenewLease_tx now a w until s = Inr s' \<Longrightarrow> good s s'"
proof (rule good_evolves)
  assume *: "RenewLease_tx now a w until s = Inr s'"
  from RenewLease_Inr [OF *] obtain P where s': "s' = update_leases P (\<lambda>l. l\<lparr>l_ExpiresAt := until\<rparr>) s" by blast
  then show "evolves moves s s'" by (intro evolves_quiet) (auto simp: update_leases_def)
  show "lease_inv s \<Longrightarrow> lease_inv s'" using * lease_inv_RenewLease by blast
  show "dep_inv s \<Longrightarrow> dep_inv s'" using s' by (simp add: dep_inv_def update_leases_def)
qed

lemma good_expireLeases_tx: "expireLeases_tx P now s = Inr (x, s') \<Longrightarrow> good s s'"
proof -
  assume "expireLeases_tx P now s = Inr (x, s')"
  then obtain xs where "foldM (expire_lease now) xs s = Inr s'" by (auto simp: expireLeases_tx_def Let_def)
  then show ?thesis by (rule foldM_inv) (auto intro: good_trans good_expire_lease)
qed

lemma good_lease_job:
  assumes leased: "lease_job q j s = Inr (Some (a, j'), s')"
  shows "good s s'"
  unfolding good_def store_inv_def
proof (intro impI conjI; elim conjE)
  assume inv: "lease_inv s" "dep_inv s" "retry_inv s"
  note eff = lease_job_Inr [OF leased]
  show "lease_inv s'" using inv(1) leased by (rule lease_inv_lease_job)
  show "dep_inv s'" by (rule dep_inv_requeue [OF inv(2) eff(4)]) simp_all
  show "retry_inv s'" using inv(1,3) leased by (rule retry_inv_lease_job)
  show "history moves s s'"
    by (rule historyI [of s' "\<lambda>x. if j_ID x = j_ID j \<and> j_State x = JobQueued then stated JobLeased (cr_Now q) x else x"
          s "[]" moves id _ "[]"])
      (use eff(4,5,9) in \<open>auto simp: upd_where_map moves_def\<close>)
qed

lemma good_ClaimNextJob_tx: "ClaimNextJob_tx r s = Inr (x, s') \<Longrightarrow> good s s'"
proof -
  assume claim: "ClaimNextJob_tx r s = Inr (x, s')"
  obtain a j' where x: "x = (a, j')" by (cases x)
  show ?thesis
  proof (rule ClaimNextJob_Inr [OF claim [unfolded x]])
    fix r1 j w s0 s1
    assume "same_core s s0" "session_gate r1 j (w_ReservedSessionID w) s0 = Inr (True, s1)"
      and leased: "lease_job r1 j s1 = Inr (Some (a, j'), s')"
    then have "same_core s s1" by (blast intro: same_core_trans session_gate_core)
    then have "good s s1" by (intro good_quiet) (simp add: same_core_def quiet_def)
    then show ?thesis using good_lease_job [OF leased] by (rule good_trans)
  qed
qed

lemma good_CreateJob:
  assumes q: "j_State j = JobQueued"
  shows "good s (snd (CreateJob now j s))"
proof (cases "\<exists>j' s'. CreateJob now j s = (Inr j', s') \<and> s' \<noteq> s")
  case False
  then have "snd (CreateJob now j s) = s"
    using CreateJob_error [of now j s] by (cases "CreateJob now j s") (metis Inl_Inr_False old.sum.exhaust snd_conv)
  then show ?thesis by simp
next
  case True
  then obtain j' s' where c: "CreateJob now j s = (Inr j', s')" "s' \<noteq> s" by blast
  then have "insert_job (row_of_job j') s = Inr s'" using CreateJob_cases [OF c(1)] by metis
  note ins = insert_job_Inr [OF this]
  show ?thesis
    unfolding good_def store_inv_def
  proof (intro impI conjI; elim conjE)
    assume inv: "lease_inv s" "dep_inv s" "retry_inv s"
    show "lease_inv (snd (CreateJob now j s))" using inv(1) q by (rule lease_inv_CreateJob)
    show "dep_inv (snd (CreateJob now j s))" using inv(2) q by (rule dep_inv_CreateJob)
    show "retry_inv (snd (CreateJob now j s))"
      using retry_inv_append_job [OF inv(1,3), of s' "row_of_job j'"] ins c(1) by simp
    show "history moves s (snd (CreateJob now j s))"
      by (rule historyI [of _ id s "[row_of_job j']" moves id "[]" "[]"]) (use ins c(1) in auto)
  qed
qed

section \<open>The deadline pass\<close>

definition still_open :: "JobID list \<Rightarrow> DB \<Rightarrow> bool" where
  "still_open ids s \<longleftrightarrow> (\<forall>r \<in> set (db_jobs s). j_ID r \<in> set ids \<longrightarrow>
     \<not> JobTerminal (j_State r) \<or> j_State r = JobDependencyFailed \<or> j_State r = JobTimedOut)"

lemma still_open_none_succeeded: "still_open ids s \<Longrightarrow> none_succeeded ids s"
  unfolding still_open_def none_succeeded_def by (metis JobState.distinct JobTerminal.simps(1))

lemma timeout_job_still_open:
  assumes "still_open ids s" and "timeout_job now i s = Inr s'"
  shows "still_open ids s'"
  unfolding still_open_def
proof (intro ballI impI)
  from timeout_job_Inr [OF assms(2)] have
    jobs: "db_jobs s' = cascade i now (upd_where (\<lambda>r. j_ID r = i) (moved JobTimedOut None now) (db_jobs s))" by blast
  fix x assume x: "x \<in> set (db_jobs s')" "j_ID x \<in> set ids"
  from cascade_states [OF x(1) [unfolded jobs]]
  show "\<not> JobTerminal (j_State x) \<or> j_State x = JobDependencyFailed \<or> j_State x = JobTimedOut"
  proof
    assume "x \<in> set (upd_where (\<lambda>r. j_ID r = i) (moved JobTimedOut None now) (db_jobs s))"
    then obtain r where r: "r \<in> set (db_jobs s)" "x = (if j_ID r = i then moved JobTimedOut None now r else r)"
      by (auto simp: in_upd_where)
    with x(2) assms(1) show ?thesis by (cases "j_ID r = i") (simp_all add: still_open_def)
  qed simp
qed

lemma overdue_still_open:
  assumes "distinct (map j_ID (db_jobs s))"
  shows "still_open (overdue now s) s"
  unfolding still_open_def
proof (intro ballI impI)
  fix r assume r: "r \<in> set (db_jobs s)" "j_ID r \<in> set (overdue now s)"
  then obtain q where "q \<in> set (db_jobs s)" "j_ID q = j_ID r" "\<not> JobTerminal (j_State q)" by (auto simp: overdue_def)
  with distinct_key_eq [OF assms r(1)] show "\<not> JobTerminal (j_State r) \<or> j_State r = JobDependencyFailed \<or> j_State r = JobTimedOut"
    by metis
qed

lemma TimeoutJobs_tx_good:
  assumes inv: "store_inv s" and "TimeoutJobs_tx now s = Inr (ids, s')"
  shows "store_inv s' \<and> history late_moves s s'"
proof -
  from assms(2) have "foldM (timeout_job now) (overdue now s) s = Inr s'" by (auto simp: TimeoutJobs_tx_def)
  then have "store_inv s' \<and> history late_moves s s' \<and> still_open (overdue now s) s'"
  proof (rule foldM_inv)
    show "store_inv s \<and> history late_moves s s \<and> still_open (overdue now s) s"
      using inv overdue_still_open [of s now] by (simp add: history_quiet store_inv_def dep_inv_def)
  next
    fix i x x' assume i: "i \<in> set (overdue now s)" and x: "store_inv x \<and> history late_moves s x \<and> still_open (overdue now s) x"
      and step: "timeout_job now i x = Inr x'"
    from x have inv: "lease_inv x" "dep_inv x" "retry_inv x" by (simp_all add: store_inv_def)
    have ev: "evolves late_moves x x'"
      by (rule evolves_timeout_job [OF inv(1) step]) (use x i in \<open>auto simp: still_open_def\<close>)
    have "lease_inv x'" using inv(1) step by (rule lease_inv_timeout_job)
    moreover have "dep_inv x'" using dep_inv_timeout_job [OF inv(2) _ i step] x still_open_none_succeeded by blast
    moreover have "retry_inv x'" using inv(1,3) ev by (rule retry_inv_evolves)
    moreover have "history late_moves s x'"
      using x history_evolves [OF ev] by (blast intro: history_trans late_moves_trans)
    ultimately show "store_inv x' \<and> history late_moves s x' \<and> still_open (overdue now s) x'"
      using x timeout_job_still_open [OF _ step] by (simp add: store_inv_def)
  qed
  then show ?thesis by blast
qed

section \<open>Composite operations\<close>

text \<open>
  A relation between databases that is a preorder and holds across every transaction holds across
  every operation of the store but the deadline pass, which is not a sequence of the others.
\<close>

locale store_relation =
  fixes R :: "DB \<Rightarrow> DB \<Rightarrow> bool"
  assumes R_refl: "R s s"
    and R_trans: "R s t \<Longrightarrow> R t u \<Longrightarrow> R s u"
    and create_job: "j_State j = JobQueued \<Longrightarrow> R s (snd (CreateJob tm j s))"
    and cancel: "CancelJob_tx i tm s = Inr s' \<Longrightarrow> R s s'"
    and event: "mapped (insert_event e s) = Inr s' \<Longrightarrow> R s s'"
    and attempt_event: "AppendAttemptEvent_tx tm i w e s = Inr (e', s') \<Longrightarrow> R s s'"
    and result: "SaveResult_tx i w res s = Inr s' \<Longrightarrow> R s s'"
    and claim: "ClaimNextJob_tx r s = Inr (x, s') \<Longrightarrow> R s s'"
    and renew: "RenewLease_tx tm i w until s = Inr s' \<Longrightarrow> R s s'"
    and complete: "CompleteAttempt_tx c s = Inr s' \<Longrightarrow> R s s'"
    and expire: "expireLeases_tx Q tm s = Inr (ids, s') \<Longrightarrow> R s s'"
    and create_session: "R s (snd (CreateSession tm v s))"
    and bind: "BindSession_tx i w b tm s = Inr s' \<Longrightarrow> R s s'"
    and finish: "finishSessionTx i state code tm s = Inr s' \<Longrightarrow> SessionTerminal state \<Longrightarrow> R s s'"
    and request: "RequestRecovery_tx i tm s = Inr s' \<Longrightarrow> R s s'"
    and claim_recovery: "ClaimRecovery_tx i tm s = Inr (v, s') \<Longrightarrow> R s s'"
    and complete_recovery: "CompleteRecovery_tx i epoch w b tm s = Inr s' \<Longrightarrow> R s s'"
    and fail_recovery: "FailRecovery_tx i epoch msg retry tm s = Inr s' \<Longrightarrow> R s s'"
    and acknowledge: "AcknowledgeRecovery_tx i epoch w tm s = Inr s' \<Longrightarrow> R s s'"
    and terminal: "TerminalRecovery_tx i epoch msg tm s = Inr s' \<Longrightarrow> R s s'"
    and recovery_event: "log_recovery re s = Inr s' \<Longrightarrow> R s s'"
    and create_checkpoint: "CreateCheckpoint_tx k s = Inr s' \<Longrightarrow> R s s'"
    and complete_checkpoint: "CompleteCheckpoint_tx i sid epoch loc checksum bytes s = Inr s' \<Longrightarrow> R s s'"
    and mark: "R s (snd (MarkCheckpoint i st msg s))"
    and collect: "GarbageCollectCheckpoints_tx tm n onClose s = Inr (ks, s') \<Longrightarrow> R s s'"
    and upsert_worker: "R s (snd (UpsertWorker tm wk s))"
    and workers: "(\<And>w. w_ID (f w) = w_ID w) \<Longrightarrow> R s (update_workers P f s)"
    and token: "mapped (insert_token tok s) = Inr s' \<Longrightarrow> R s s'"
    and consume: "R s (snd (ConsumeBootstrapToken hash b provider pool caps tm s))"
    and revoke: "R s (snd (RevokeSandboxCredentials tm b s))"
    and upsert_sandbox: "R s (snd (UpsertSandbox tm bx s))"
    and sandbox_state: "R s (snd (SetSandboxState now b st tm s))"
    and delete_sandbox: "R s (snd (DeleteSandbox b s))"
begin

lemma across_commit0: "(\<And>s'. f s = Inr s' \<Longrightarrow> R s s') \<Longrightarrow> R s (snd (commit0 f s))"
  by (rule commit0_rel) (auto intro: R_refl)

lemma across_commit: "(\<And>x s'. f s = Inr (x, s') \<Longrightarrow> R s s') \<Longrightarrow> R s (snd (commit f s))"
  by (rule commit_rel) (auto intro: R_refl)

lemma across_finishSession: "SessionTerminal state \<Longrightarrow> R s (snd (finishSession i state code tm s))"
  unfolding finishSession_def by (rule across_commit0) (rule finish)

lemma across_RequestRecovery: "R s (snd (RequestRecovery i tm s))"
  unfolding RequestRecovery_def by (rule across_commit0) (rule request)

lemma across_CloseSession: "R s (snd (CloseSession i tm s))"
  unfolding CloseSession_def by (rule across_finishSession) simp

lemma across_close_all: "R s (snd (close_all tm ids s))"
proof (induction ids arbitrary: s)
  case (Cons i ids)
  have c: "R s (snd (CloseSession i tm s))" by (rule across_CloseSession)
  show ?case
  proof (cases "CloseSession i tm s")
    case (Pair res s1)
    with c Cons.IH [of s1] show ?thesis by (cases res) (auto intro: R_trans)
  qed
qed (simp add: R_refl)

lemma across_ExpireSessions: "R s (snd (ExpireSessions tm s))"
  using across_close_all [of s tm "map s_ID (filter (session_due tm s) (ListSessions [SessionPending, SessionActive] s))"]
  by (auto simp: ExpireSessions_def Let_def split: prod.splits sum.splits)

lemma across_SetWorkerHealth: "R s (snd (SetWorkerHealth i health tm s))"
proof (cases "GetWorker i s")
  case (Inr w)
  let ?h = "AList.update ''status'' (show_WorkerHealth health) (w_Health w)"
  define s1 where "s1 = update_workers (\<lambda>x. w_ID x = i) (\<lambda>x. x\<lparr>w_Health := ?h,
      w_SessionTokenHash := (if health = WorkerDead then '''' else w_SessionTokenHash x),
      w_SessionExpiresAt := (if health = WorkerDead then 0 else w_SessionExpiresAt x)\<rparr>) s"
  have s1: "R s s1" unfolding s1_def by (rule workers) simp
  have "snd (SetWorkerHealth i health tm s) \<in> {s1} \<union> range (\<lambda>k. snd (RequestRecovery k tm s1))
      \<union> range (\<lambda>k. snd (finishSession k SessionLost ''session_lost'' tm s1))"
    unfolding SetWorkerHealth_def Inr sum.case Let_def s1_def [symmetric] by (auto split: sum.splits)
  then show ?thesis using s1 R_trans [OF s1 across_RequestRecovery] R_trans [OF s1 across_finishSession] by (elim UnE rangeE singletonE) simp_all
qed (simp add: SetWorkerHealth_def R_refl)

lemma across_transactions:
  "R s (snd (CancelJob i tm s))" "R s (snd (AppendEvent_store e s))" "R s (snd (AppendAttemptEvent tm i w e s))"
  "R s (snd (SaveResult i w res s))" "R s (snd (ClaimNextJob r s))" "R s (snd (RenewLease tm i w until s))"
  "R s (snd (CompleteAttempt c s))" "R s (snd (ExpireLeases tm s))" "R s (snd (ExpireWorkerLeases w tm s))"
  "R s (snd (BindSession i w b tm s))" "R s (snd (ClaimRecovery i tm s))" "R s (snd (CompleteRecovery i epoch w b tm s))"
  "R s (snd (FailRecovery i epoch msg retry tm s))" "R s (snd (AcknowledgeRecovery i epoch w tm s))"
  "R s (snd (TerminalRecovery i epoch msg tm s))" "R s (snd (AppendRecoveryEvent re s))" "R s (snd (CreateCheckpoint k s))"
  "R s (snd (CompleteCheckpoint i sid epoch loc checksum bytes s))" "R s (snd (GarbageCollectCheckpoints tm n onClose s))"
  "R s (snd (CreateBootstrapToken tok s))"
  unfolding CancelJob_def AppendEvent_store_def AppendAttemptEvent_def SaveResult_def ClaimNextJob_def RenewLease_def
    CompleteAttempt_def ExpireLeases_def ExpireWorkerLeases_def BindSession_def ClaimRecovery_def CompleteRecovery_def
    FailRecovery_def AcknowledgeRecovery_def TerminalRecovery_def AppendRecoveryEvent_def CreateCheckpoint_def
    CompleteCheckpoint_def GarbageCollectCheckpoints_def CreateBootstrapToken_def
  by (rule across_commit0 across_commit, erule cancel event attempt_event result claim renew complete expire bind
      claim_recovery complete_recovery fail_recovery acknowledge terminal recovery_event create_checkpoint
      complete_checkpoint collect token)+

lemmas across_all = across_transactions create_job create_session across_CloseSession across_ExpireSessions
  across_RequestRecovery mark upsert_worker across_SetWorkerHealth consume revoke upsert_sandbox sandbox_state delete_sandbox

lemma across_step:
  assumes "store_step s s'"
  shows "R s s' \<or> (\<exists>now. s' = snd (TimeoutJobs now s))"
  using assms by cases (blast intro: across_all)+

end

lemma good_TerminalRecovery_tx: "TerminalRecovery_tx i epoch msg tm s = Inr s' \<Longrightarrow> good s s'"
proof -
  assume "TerminalRecovery_tx i epoch msg tm s = Inr s'"
  then obtain s1 where "finishSessionTx i SessionLost ''recovery_failed'' tm s = Inr s1" "quiet s1 s'"
    by (auto simp: TerminalRecovery_tx_def Let_def drop_reservation_def split: if_splits dest!: quiet_log_recovery)
  then show ?thesis by (blast intro: good_trans good_finishSessionTx good_quiet)
qed

lemmas good_intros = good_CreateJob good_CancelJob_tx good_ClaimNextJob_tx good_RenewLease_tx good_CompleteAttempt_tx
  good_expireLeases_tx good_finishSessionTx good_TerminalRecovery_tx
  quiet_AppendEvent_tx [THEN good_quiet] quiet_AppendAttemptEvent_tx [THEN good_quiet] quiet_SaveResult_tx [THEN good_quiet]
  quiet_CreateSession [THEN good_quiet] quiet_BindSession_tx [THEN good_quiet] quiet_RequestRecovery_tx [THEN good_quiet]
  quiet_ClaimRecovery_tx [THEN good_quiet] quiet_CompleteRecovery_tx [THEN good_quiet] quiet_FailRecovery_tx [THEN good_quiet]
  quiet_AcknowledgeRecovery_tx [THEN good_quiet] quiet_log_recovery [THEN good_quiet] quiet_CreateCheckpoint_tx [THEN good_quiet]
  quiet_CompleteCheckpoint_tx [THEN good_quiet] quiet_MarkCheckpoint [THEN good_quiet] quiet_GC_tx [THEN good_quiet]
  quiet_UpsertWorker [THEN good_quiet] quiet_updates(1) [THEN good_quiet] quiet_CreateBootstrapToken_tx [THEN good_quiet]
  quiet_ConsumeBootstrapToken [THEN good_quiet] quiet_Revoke [THEN good_quiet] quiet_UpsertSandbox [THEN good_quiet]
  quiet_SetSandboxState [THEN good_quiet] quiet_DeleteSandbox [THEN good_quiet]

interpretation good: store_relation good
proof
  show "good s s" for s by simp
qed (fact good_trans, (erule good_intros | rule good_intros)+)

text \<open>Every operation but the deadline pass is good.\<close>

lemma store_step_good:
  assumes "store_step s s'"
  shows "good s s' \<or> (\<exists>now. s' = snd (TimeoutJobs now s))"
  using assms by (rule good.across_step)

lemma TimeoutJobs_good:
  "store_inv s \<Longrightarrow> store_inv (snd (TimeoutJobs now s)) \<and> history late_moves s (snd (TimeoutJobs now s))"
  using TimeoutJobs_tx_good [of s now] commit_cases [of "TimeoutJobs_tx now" s]
  by (auto simp: TimeoutJobs_def history_quiet)

lemma store_inv_step: "store_inv s \<Longrightarrow> store_step s s' \<Longrightarrow> store_inv s'"
  using store_step_good [of s s'] TimeoutJobs_good [of s] by (auto simp: good_def)

lemma store_inv_empty: "store_inv empty_db"
  by (simp add: store_inv_def lease_inv_def keys_inv_def active_inv_def lease_rows_inv_def dep_inv_def dep_shape_def
      dep_states_def retry_inv_def empty_db_def)

lemma reachable_inv: "reachable s \<Longrightarrow> store_inv s"
  by (induction rule: reachable.induct) (auto intro: store_inv_empty store_inv_step)

section \<open>A concrete run\<close>

definition demo_epoch :: time where
  "demo_epoch = 62135596800000000000"

definition demo_submit :: "JobID \<Rightarrow> JobID list \<Rightarrow> time \<Rightarrow> Job" where
  "demo_submit i deps timeout = zero_Job\<lparr>j_ID := i, j_State := JobQueued, j_DependsOn := deps, j_TimeoutAt := timeout,
     j_RetryPolicy := zero_RetryPolicy\<lparr>rp_MaxAttempts := 2\<rparr>\<rparr>"

text \<open>Two jobs, the second depending on the first.\<close>

definition demo_two_jobs :: DB where
  "demo_two_jobs = snd (CreateJob demo_epoch (demo_submit ''b'' [''a''] (demo_epoch + 5))
     (snd (CreateJob demo_epoch (demo_submit ''a'' [] (demo_epoch + 5)) empty_db)))"

definition demo_claim :: ClaimRequest where
  "demo_claim = \<lparr>cr_Worker = demo_worker, cr_SandboxID = ''b'', cr_Now = demo_epoch + 1, cr_LeaseDuration = 2,
     cr_Capacity = 2, cr_Scheduler = Some rq_Jobs\<rparr>"

text \<open>A worker registers with its sandbox and claims the first job.\<close>

definition demo_leased :: DB where
  "demo_leased = snd (ClaimNextJob demo_claim (snd (UpsertSandbox demo_epoch demo_sandbox
     (snd (UpsertWorker demo_epoch demo_worker demo_two_jobs)))))"

lemma demo_two_jobs_reachable: "reachable demo_two_jobs"
  unfolding demo_two_jobs_def
  by (intro reachable.step [OF reachable.step [OF reachable.start store_step.CreateJob] store_step.CreateJob])
    (simp_all add: demo_submit_def)

lemma demo_leased_reachable: "reachable demo_leased"
  unfolding demo_leased_def
  by (rule reachable.step [OF reachable.step [OF reachable.step [OF demo_two_jobs_reachable
        store_step.UpsertWorker] store_step.UpsertSandbox] store_step.ClaimNextJob])

lemma demo_leased_rows:
  "map at_ID (db_attempts demo_leased) = [''a-1'']" "map l_AttemptID (db_leases demo_leased) = [''a-1'']"
  "map j_State (db_jobs demo_leased) = [JobLeased, JobWaiting]"
  by code_simp+

lemma run_history:
  assumes "store_step\<^sup>*\<^sup>* s s'" and "reachable s"
  shows "reachable s' \<and> history late_moves s s'"
  using assms
proof (induction rule: rtranclp_induct)
  case base
  then show ?case by (simp add: history_quiet)
next
  case (step y z)
  then have y: "reachable y" "history late_moves s y" by simp_all
  have "history late_moves y z"
    using store_step_good [OF step.hyps(2)] reachable_inv [OF y(1)] TimeoutJobs_good [of y] by (auto simp: good_def history_late)
  with y step.hyps(2) show ?case by (blast intro: reachable.step history_trans late_moves_trans)
qed

section \<open>Properties\<close>

lemma reachable_leases:
  assumes "reachable s"
  shows "\<forall>a \<in> set (db_attempts s). \<forall>b \<in> set (db_attempts s).
      AttemptActive (at_State a) \<and> AttemptActive (at_State b) \<and> at_JobID a = at_JobID b \<longrightarrow> a = b"
    and "\<forall>r \<in> set (db_jobs s). (j_State r = JobLeased \<or> j_State r = JobRunning) \<longleftrightarrow>
      (\<exists>a \<in> set (db_attempts s). at_JobID a = j_ID r \<and> AttemptActive (at_State a))"
    and "\<forall>l \<in> set (db_leases s). \<exists>a \<in> set (db_attempts s). at_ID a = l_AttemptID l
      \<and> AttemptActive (at_State a) \<and> at_WorkerID a = l_WorkerID l"
    and "\<forall>a \<in> set (db_attempts s). AttemptActive (at_State a) \<longrightarrow> (\<exists>l \<in> set (db_leases s). l_AttemptID l = at_ID a)"
    and "distinct (map l_AttemptID (db_leases s)) \<and> distinct (map at_ID (db_attempts s)) \<and> distinct (map j_ID (db_jobs s))"
proof -
  from reachable_inv [OF assms] have inv: "keys_inv s" "active_inv s" "lease_rows_inv s"
    by (simp_all add: store_inv_def lease_inv_def)
  show "\<forall>a \<in> set (db_attempts s). \<forall>b \<in> set (db_attempts s).
      AttemptActive (at_State a) \<and> AttemptActive (at_State b) \<and> at_JobID a = at_JobID b \<longrightarrow> a = b"
    and "\<forall>r \<in> set (db_jobs s). (j_State r = JobLeased \<or> j_State r = JobRunning) \<longleftrightarrow>
      (\<exists>a \<in> set (db_attempts s). at_JobID a = j_ID r \<and> AttemptActive (at_State a))"
    using inv(2) unfolding active_inv_def running_state_def by blast+
  show "\<forall>l \<in> set (db_leases s). \<exists>a \<in> set (db_attempts s). at_ID a = l_AttemptID l
      \<and> AttemptActive (at_State a) \<and> at_WorkerID a = l_WorkerID l"
    using inv(3) unfolding lease_rows_inv_def by blast
  show "\<forall>a \<in> set (db_attempts s). AttemptActive (at_State a) \<longrightarrow> (\<exists>l \<in> set (db_leases s). l_AttemptID l = at_ID a)"
    using inv(3) unfolding lease_rows_inv_def by (metis imageE)
  show "distinct (map l_AttemptID (db_leases s)) \<and> distinct (map at_ID (db_attempts s)) \<and> distinct (map j_ID (db_jobs s))"
    using inv(1) by (simp add: keys_inv_def)
qed

text \<open>
  C4: in every reachable database a job is leased or running exactly while it has an active attempt,
  it never has two, and the leases are exactly the active attempts, one lease each, held by the
  worker of the attempt: no two workers ever own the same job.
\<close>

theorem lease_exclusive:
  assumes "reachable s"
  shows "(\<forall>a \<in> set (db_attempts s). \<forall>b \<in> set (db_attempts s).
      AttemptActive (at_State a) \<and> AttemptActive (at_State b) \<and> at_JobID a = at_JobID b \<longrightarrow> a = b)
    \<and> (\<forall>r \<in> set (db_jobs s). (j_State r = JobLeased \<or> j_State r = JobRunning) \<longleftrightarrow>
      (\<exists>a \<in> set (db_attempts s). at_JobID a = j_ID r \<and> AttemptActive (at_State a)))
    \<and> (\<forall>l \<in> set (db_leases s). \<exists>a \<in> set (db_attempts s). at_ID a = l_AttemptID l
      \<and> AttemptActive (at_State a) \<and> at_WorkerID a = l_WorkerID l)
    \<and> (\<forall>a \<in> set (db_attempts s). AttemptActive (at_State a) \<longrightarrow> (\<exists>l \<in> set (db_leases s). l_AttemptID l = at_ID a))
    \<and> distinct (map l_AttemptID (db_leases s)) \<and> distinct (map at_ID (db_attempts s)) \<and> distinct (map j_ID (db_jobs s))"
  using reachable_leases [OF assms] by (intro conjI; blast)

theorem lease_exclusive_witness:
  "reachable demo_leased \<and> (\<exists>l \<in> set (db_leases demo_leased). l_AttemptID l = ''a-1'' \<and>
     (\<exists>a \<in> set (db_attempts demo_leased). at_ID a = l_AttemptID l \<and> AttemptActive (at_State a) \<and> at_WorkerID a = l_WorkerID l))"
proof -
  obtain l where "l \<in> set (db_leases demo_leased)" "l_AttemptID l = ''a-1''"
    using demo_leased_rows(2) by (metis list.set_intros(1) image_iff list.set_map)
  with lease_exclusive [OF demo_leased_reachable] demo_leased_reachable show ?thesis by blast
qed





text \<open>
  C7: the retry policy is a bound: no job ever has an attempt numbered above its maximum (or above
  one, where the policy allows none), and a job back in the queue has attempts left.
\<close>

theorem attempts_bounded:
  assumes "reachable s" and "r \<in> set (db_jobs s)" and "a \<in> set (db_attempts s)" and "at_JobID a = j_ID r"
  shows "int (at_Number a) \<le> max 1 (rp_MaxAttempts (j_RetryPolicy r))
    \<and> (j_State r = JobQueued \<longrightarrow> int (at_Number a) < rp_MaxAttempts (j_RetryPolicy r))"
  using reachable_inv [OF assms(1)] assms(2-) unfolding store_inv_def retry_inv_def by (auto simp: pending_def)

theorem attempts_bounded_witness:
  "\<exists>r a. r \<in> set (db_jobs demo_leased) \<and> a \<in> set (db_attempts demo_leased) \<and> at_JobID a = j_ID r
    \<and> int (at_Number a) \<le> max 1 (rp_MaxAttempts (j_RetryPolicy r))"
proof -
  have "\<exists>a. a \<in> set (db_attempts demo_leased)" using demo_leased_rows(1) by (metis list.set_intros(1) image_iff list.set_map)
  then obtain a where a: "a \<in> set (db_attempts demo_leased)" ..
  then have "at_JobID a \<in> j_ID ` set (db_jobs demo_leased)"
    using reachable_inv [OF demo_leased_reachable] by (simp add: store_inv_def lease_inv_def keys_inv_def)
  then obtain r where "r \<in> set (db_jobs demo_leased)" "at_JobID a = j_ID r" by blast
  with a attempts_bounded [OF demo_leased_reachable this(1) a this(2)] show ?thesis by blast
qed

text \<open>
  C8: the store implements the state machine of the domain: across any store operation, each job
  moves along a chain of transitions that \<^verbatim>\<open>CanTransition\<close> allows, so terminal states are final,
  except that the deadline pass may overwrite \<open>dependency_failed\<close> with \<open>timed_out\<close>.
\<close>

theorem store_refines_job_machine:
  assumes "reachable s" and "store_step s s'" and "r \<in> set (db_jobs s)"
  shows "\<exists>r' \<in> set (db_jobs s'). j_ID r' = j_ID r \<and> j_DependsOn r' = j_DependsOn r \<and>
    ((j_State r, j_State r') \<in> {(x, y). CanTransition x y}\<^sup>*
     \<or> (\<exists>now. s' = snd (TimeoutJobs now s)) \<and> j_State r = JobDependencyFailed \<and> j_State r' = JobTimedOut)"
proof -
  note inv = reachable_inv [OF assms(1)]
  have "history moves s s' \<or> (\<exists>now. s' = snd (TimeoutJobs now s)) \<and> history late_moves s s'"
    using store_step_good [OF assms(2)] inv TimeoutJobs_good [OF inv] by (auto simp: good_def)
  then show ?thesis
  proof
    assume "history moves s s'"
    then obtain F N where "db_jobs s' = map F (db_jobs s) @ N" "keeps_job r (F r)" "moves (j_State r) (j_State (F r))"
      using assms(3) unfolding history_def by blast
    then show ?thesis using assms(3) moves_closure by (intro bexI [of _ "F r"]) (auto simp: keeps_job_def)
  next
    assume late: "(\<exists>now. s' = snd (TimeoutJobs now s)) \<and> history late_moves s s'"
    then obtain F N where "db_jobs s' = map F (db_jobs s) @ N" "keeps_job r (F r)" "late_moves (j_State r) (j_State (F r))"
      using assms(3) unfolding history_def by blast
    then show ?thesis using assms(3) moves_closure late
      by (intro bexI [of _ "F r"]) (auto simp: keeps_job_def late_moves_def)
  qed
qed

theorem store_refines_job_machine_witness:
  "\<exists>r \<in> set (db_jobs demo_leased). \<exists>r' \<in> set (db_jobs (snd (CancelJob ''a'' 9 demo_leased))). j_ID r' = j_ID r"
proof -
  obtain r where r: "r \<in> set (db_jobs demo_leased)"
    using demo_leased_rows(3) by (metis list.set_intros(1) image_iff list.set_map)
  from store_refines_job_machine [OF demo_leased_reachable store_step.CancelJob r, of "''a''" 9] r show ?thesis by blast
qed

text \<open>
  C9: along every run of store operations the event log is append-only and the row of an attempt
  that has ended never changes again.
\<close>

theorem history_append_only:
  assumes "reachable s" and "store_step\<^sup>*\<^sup>* s s'"
  shows "(\<exists>es. db_events s' = db_events s @ es)
    \<and> (\<forall>a \<in> set (db_attempts s). \<not> AttemptActive (at_State a) \<longrightarrow> a \<in> set (db_attempts s'))"
proof -
  have h: "history late_moves s s'" using run_history [OF assms(2,1)] by blast
  then obtain G M where G: "db_attempts s' = map G (db_attempts s) @ M" "\<forall>a \<in> set (db_attempts s). attempt_effect a (G a)"
    unfolding history_def by blast
  have "a \<in> set (db_attempts s')" if a: "a \<in> set (db_attempts s)" "\<not> AttemptActive (at_State a)" for a
  proof -
    have "G a = a" using G(2) a by (auto simp: attempt_effect_def)
    with a(1) G(1) show ?thesis by force
  qed
  with h show ?thesis unfolding history_def by blast
qed

theorem history_append_only_witness:
  "\<exists>es. db_events (snd (CancelJob ''a'' 9 demo_leased)) = db_events demo_leased @ es"
  using history_append_only [OF demo_leased_reachable, of "snd (CancelJob ''a'' 9 demo_leased)"] store_step.CancelJob
  by (meson r_into_rtranclp)

text \<open>
  The exception is real: in one deadline pass over two overdue jobs, the second depending on
  the first, the second job is first failed by the propagation and then timed out, and its log gets
  two terminal transitions.
\<close>

theorem timeout_overwrites_dependency_failure:
  "reachable demo_two_jobs
   \<and> map (\<lambda>r. (j_ID r, j_State r)) (db_jobs (snd (TimeoutJobs (demo_epoch + 7) demo_two_jobs)))
       = [(''a'', JobTimedOut), (''b'', JobTimedOut)]
   \<and> map (\<lambda>e. get_str (e_Data e) ''job_state'')
        (ListEvents ''b'' 0 100 (snd (TimeoutJobs (demo_epoch + 7) demo_two_jobs)))
       = [''dependency_failed'', ''timed_out'']"
proof (intro conjI)
  show "reachable demo_two_jobs" by (rule demo_two_jobs_reachable)
  show "map (\<lambda>r. (j_ID r, j_State r)) (db_jobs (snd (TimeoutJobs (demo_epoch + 7) demo_two_jobs)))
       = [(''a'', JobTimedOut), (''b'', JobTimedOut)]" by code_simp
  show "map (\<lambda>e. get_str (e_Data e) ''job_state'')
        (ListEvents ''b'' 0 100 (snd (TimeoutJobs (demo_epoch + 7) demo_two_jobs)))
       = [''dependency_failed'', ''timed_out'']" by code_simp
qed

end
