(* ===== verification/SR_SessionInv.thy ===== *)
theory SR_SessionInv
  imports SR_System
begin

text \<open>
  Sessions, workers, sandboxes and credentials along a run: their keys stay unique, a closed or lost
  session stays as it ended, a session's epoch never decreases and a consumed token stays consumed.
\<close>

section \<open>Effects on rows\<close>

definition session_effect :: "Session \<Rightarrow> Session \<Rightarrow> bool" where
  "session_effect v v' \<longleftrightarrow> s_ID v' = s_ID v \<and> s_Epoch v \<le> s_Epoch v' \<and> s_RecoveryPolicy v' = s_RecoveryPolicy v
     \<and> s_Capabilities v' = s_Capabilities v \<and> s_Labels v' = s_Labels v \<and> s_PreferredProvider v' = s_PreferredProvider v
     \<and> (SessionTerminal (s_State v) \<longrightarrow> s_State v' = s_State v \<and> s_Epoch v' = s_Epoch v)
     \<and> (s_State v' = SessionPending \<longrightarrow> s_State v = SessionPending \<and> s_Epoch v' = s_Epoch v)"

definition token_effect :: "TokenRow \<Rightarrow> TokenRow \<Rightarrow> bool" where
  "token_effect t t' \<longleftrightarrow> t_TokenHash t' = t_TokenHash t \<and> (t_ConsumedAt t \<noteq> None \<longrightarrow> t' = t)"

definition infra_keys :: "DB \<Rightarrow> bool" where
  "infra_keys s \<longleftrightarrow> distinct (map s_ID (db_sessions s)) \<and> distinct (map w_ID (db_workers s))
     \<and> distinct (map b_ID (db_sandboxes s)) \<and> distinct (map t_TokenHash (db_tokens s))
     \<and> distinct (map c_ID (db_checkpoints s))
     \<and> distinct (map (\<lambda>c. (c_SessionID c, c_Sequence c)) (db_checkpoints s))"

definition rows_evolve :: "('r \<Rightarrow> 'r \<Rightarrow> bool) \<Rightarrow> 'r list \<Rightarrow> 'r list \<Rightarrow> bool" where
  "rows_evolve R t t' \<longleftrightarrow> (\<exists>F N. t' = map F t @ N \<and> (\<forall>r \<in> set t. R r (F r)))"

definition infra :: "DB \<Rightarrow> DB \<Rightarrow> bool" where
  "infra s s' \<longleftrightarrow> (infra_keys s \<longrightarrow> infra_keys s' \<and> rows_evolve session_effect (db_sessions s) (db_sessions s')
     \<and> rows_evolve token_effect (db_tokens s) (db_tokens s'))"

lemma session_effect_refl [simp]: "session_effect v v"
  by (simp add: session_effect_def)

lemma session_effect_trans: "session_effect u v \<Longrightarrow> session_effect v w \<Longrightarrow> session_effect u w"
  unfolding session_effect_def by (metis le_trans)

lemma token_effect_refl [simp]: "token_effect t t"
  by (simp add: token_effect_def)

lemma token_effect_trans: "token_effect t u \<Longrightarrow> token_effect u v \<Longrightarrow> token_effect t v"
  by (auto simp: token_effect_def)

lemma rows_evolve_refl: "(\<And>r. R r r) \<Longrightarrow> rows_evolve R t t"
  unfolding rows_evolve_def by (intro exI [of _ id] exI [of _ "[]"]) simp

lemma rows_evolve_append: "(\<And>r. R r r) \<Longrightarrow> rows_evolve R t (t @ N)"
  unfolding rows_evolve_def by (intro exI [of _ id] exI [of _ N]) simp

lemma rows_evolve_upd: "(\<And>r. R r r) \<Longrightarrow> (\<And>r. r \<in> set t \<Longrightarrow> P r \<Longrightarrow> R r (f r)) \<Longrightarrow> rows_evolve R t (upd_where P f t)"
  unfolding rows_evolve_def upd_where_def by (intro exI [of _ "\<lambda>r. if P r then f r else r"] exI [of _ "[]"]) simp

lemma rows_evolve_trans:
  assumes "rows_evolve R t u" and "rows_evolve R u v" and "\<And>a b c. R a b \<Longrightarrow> R b c \<Longrightarrow> R a c"
  shows "rows_evolve R t v"
proof -
  from assms(1) obtain F N where 1: "u = map F t @ N" "\<forall>r \<in> set t. R r (F r)" unfolding rows_evolve_def by blast
  from assms(2) obtain G M where 2: "v = map G u @ M" "\<forall>r \<in> set u. R r (G r)" unfolding rows_evolve_def by blast
  show ?thesis unfolding rows_evolve_def
    by (intro exI [of _ "G \<circ> F"] exI [of _ "map G N @ M"]) (use 1 2 assms(3) in fastforce)
qed

lemmas sessions_refl [simp] = rows_evolve_refl [of session_effect, OF session_effect_refl]
lemmas tokens_refl [simp] = rows_evolve_refl [of token_effect, OF token_effect_refl]

lemma infra_refl [simp]: "infra s s"
  by (simp add: infra_def)

lemma infra_trans: "infra s t \<Longrightarrow> infra t u \<Longrightarrow> infra s u"
  unfolding infra_def by (blast intro: rows_evolve_trans session_effect_trans token_effect_trans)

section \<open>Statements\<close>

text \<open>Operations that leave these tables alone, up to columns that are not keys.\<close>

definition same_keys :: "DB \<Rightarrow> DB \<Rightarrow> bool" where
  "same_keys s s' \<longleftrightarrow> db_sessions s' = db_sessions s \<and> map w_ID (db_workers s') = map w_ID (db_workers s)
     \<and> map b_ID (db_sandboxes s') = map b_ID (db_sandboxes s) \<and> db_tokens s' = db_tokens s
     \<and> map (\<lambda>c. (c_ID c, c_SessionID c, c_Sequence c)) (db_checkpoints s')
       = map (\<lambda>c. (c_ID c, c_SessionID c, c_Sequence c)) (db_checkpoints s)"

lemma checkpoint_keys:
  assumes "map (\<lambda>c. (c_ID c, c_SessionID c, c_Sequence c)) t = map (\<lambda>c. (c_ID c, c_SessionID c, c_Sequence c)) u"
  shows "map c_ID t = map c_ID u" and "map (\<lambda>c. (c_SessionID c, c_Sequence c)) t = map (\<lambda>c. (c_SessionID c, c_Sequence c)) u"
  using arg_cong [OF assms, of "map fst"] arg_cong [OF assms, of "map snd"] by (simp_all add: comp_def)

lemma infra_same_keys: "same_keys s s' \<Longrightarrow> infra s s'"
  unfolding same_keys_def infra_def infra_keys_def by (auto dest: checkpoint_keys)

lemma infra_sessions:
  "infra s t \<Longrightarrow> (\<And>v. P v \<Longrightarrow> session_effect v (f v)) \<Longrightarrow> infra s (update_sessions P f t)"
proof (rule infra_trans)
  assume *: "\<And>v. P v \<Longrightarrow> session_effect v (f v)"
  then have "map s_ID (upd_where P f (db_sessions t)) = map s_ID (db_sessions t)"
    by (auto simp: upd_where_def session_effect_def)
  with * show "infra t (update_sessions P f t)"
    by (auto simp: infra_def infra_keys_def update_sessions_def intro!: rows_evolve_upd)
qed

lemma infra_workers: "infra s t \<Longrightarrow> (\<And>v. P v \<Longrightarrow> w_ID (f v) = w_ID v) \<Longrightarrow> infra s (update_workers P f t)"
  by (rule infra_trans, assumption, rule infra_same_keys) (auto simp: same_keys_def update_workers_def upd_where_def)

lemma infra_sandboxes: "infra s t \<Longrightarrow> (\<And>v. P v \<Longrightarrow> b_ID (f v) = b_ID v) \<Longrightarrow> infra s (update_sandboxes P f t)"
  by (rule infra_trans, assumption, rule infra_same_keys) (auto simp: same_keys_def update_sandboxes_def upd_where_def)

lemma infra_checkpoints:
  "infra s t \<Longrightarrow> (\<And>v. P v \<Longrightarrow> c_ID (f v) = c_ID v \<and> c_SessionID (f v) = c_SessionID v \<and> c_Sequence (f v) = c_Sequence v)
    \<Longrightarrow> infra s (update_checkpoints P f t)"
  by (rule infra_trans, assumption, rule infra_same_keys) (auto simp: same_keys_def update_checkpoints_def upd_where_def)

lemma infra_tokens:
  "infra s t \<Longrightarrow> (\<And>v. P v \<Longrightarrow> token_effect v (f v)) \<Longrightarrow> infra s (update_tokens P f t)"
proof (rule infra_trans)
  assume *: "\<And>v. P v \<Longrightarrow> token_effect v (f v)"
  then have "map t_TokenHash (upd_where P f (db_tokens t)) = map t_TokenHash (db_tokens t)"
    by (auto simp: upd_where_def token_effect_def)
  with * show "infra t (update_tokens P f t)"
    by (auto simp: infra_def infra_keys_def update_tokens_def intro!: rows_evolve_upd)
qed

lemma infra_log_recovery: "log_recovery e t = Inr s' \<Longrightarrow> infra s t \<Longrightarrow> infra s s'"
  by (rule infra_trans, assumption, rule infra_same_keys)
    (auto simp: log_recovery_def same_keys_def dest!: insert_or_ignore_recovery_Inr)

lemmas infra_intros = infra_sessions infra_workers infra_sandboxes infra_checkpoints infra_tokens infra_refl

section \<open>Operations\<close>

lemma infra_touch: "infra s (touch_session i tm idle s)"
  unfolding touch_session_def by (auto intro!: infra_intros simp: session_effect_def)

lemma infra_release_slot: "infra s t \<Longrightarrow> infra s (release_slot w t)"
  unfolding release_slot_def by (auto intro!: infra_intros)

lemma infra_BindSession_tx: "BindSession_tx i w b tm s = Inr s' \<Longrightarrow> infra s s'"
  by (auto simp: BindSession_tx_def Let_def session_effect_def split: if_splits intro!: infra_intros)

lemma infra_RequestRecovery_tx: "RequestRecovery_tx i tm s = Inr s' \<Longrightarrow> infra s s'"
  by (auto simp: RequestRecovery_tx_def Let_def session_effect_def split: if_splits elim!: infra_log_recovery intro!: infra_intros)

lemma infra_ClaimRecovery_tx: "ClaimRecovery_tx i tm s = Inr (x, s') \<Longrightarrow> infra s s'"
  by (auto simp: ClaimRecovery_tx_def Let_def session_effect_def split: if_splits elim!: infra_log_recovery intro!: infra_intros)

lemma infra_CompleteRecovery_tx: "CompleteRecovery_tx i epoch w b tm s = Inr s' \<Longrightarrow> infra s s'"
  by (auto simp: CompleteRecovery_tx_def Let_def session_effect_def split: if_splits elim!: infra_log_recovery intro!: infra_intros)

lemma infra_FailRecovery_tx: "FailRecovery_tx i epoch msg retry now s = Inr s' \<Longrightarrow> infra s s'"
  by (auto simp: FailRecovery_tx_def drop_reservation_def Let_def session_effect_def split: if_splits
      elim!: infra_log_recovery intro!: infra_intros)

lemma infra_AcknowledgeRecovery_tx: "AcknowledgeRecovery_tx i epoch w tm s = Inr s' \<Longrightarrow> infra s s'"
  by (auto simp: AcknowledgeRecovery_tx_def Let_def session_effect_def split: if_splits elim!: infra_log_recovery intro!: infra_intros)

lemma infra_CompleteCheckpoint_tx: "CompleteCheckpoint_tx i sid epoch loc checksum bytes s = Inr s' \<Longrightarrow> infra s s'"
  by (auto simp: CompleteCheckpoint_tx_def Let_def session_effect_def split: if_splits intro!: infra_intros)

lemma infra_MarkCheckpoint: "infra s (snd (MarkCheckpoint i state msg s))"
  by (auto simp: MarkCheckpoint_def Let_def intro!: infra_intros)

lemma infra_Revoke_after: "infra s t \<Longrightarrow> infra s (snd (RevokeSandboxCredentials now b t))"
  by (auto simp: RevokeSandboxCredentials_def token_effect_def intro!: infra_intros)

lemma infra_ConsumeBootstrapToken: "infra s (snd (ConsumeBootstrapToken hash b provider pool caps now s))"
  by (auto simp: ConsumeBootstrapToken_def Let_def token_effect_def intro!: infra_intros)

lemma infra_SetSandboxState: "infra s (snd (SetSandboxState now i state tm s))"
  by (auto simp: SetSandboxState_def Let_def intro!: infra_intros infra_Revoke_after)

lemma infra_UpsertWorker: "infra s (snd (UpsertWorker now w s))"
proof -
  have "infra s (s\<lparr>db_workers := db_workers s @ [x]\<rparr>)" if "w_ID x \<notin> w_ID ` set (db_workers s)" for x
    using that by (simp add: infra_def infra_keys_def)
  then show ?thesis by (auto simp: UpsertWorker_def Let_def intro!: infra_intros)
qed

lemma infra_UpsertSandbox: "infra s (snd (UpsertSandbox now v s))"
proof -
  have "infra s (s\<lparr>db_sandboxes := db_sandboxes s @ [x]\<rparr>)" if "b_ID x \<notin> b_ID ` set (db_sandboxes s)" for x
    using that by (simp add: infra_def infra_keys_def)
  then show ?thesis by (auto simp: UpsertSandbox_def Let_def intro!: infra_intros)
qed

lemma infra_DeleteSandbox: "infra s (snd (DeleteSandbox i s))"
  by (simp add: DeleteSandbox_def infra_def infra_keys_def distinct_map_del_where)

lemma infra_CreateBootstrapToken_tx: "mapped (insert_token t s) = Inr s' \<Longrightarrow> infra s s'"
  by (auto simp: insert_token_def infra_def infra_keys_def intro!: rows_evolve_append split: if_splits)

lemma infra_CreateSession: "infra s (snd (CreateSession now v s))"
  by (auto simp: CreateSession_def insert_session_def mapped_def Let_def infra_def infra_keys_def
      intro!: rows_evolve_append split: sum.splits if_splits)

lemma infra_CreateCheckpoint_tx: "CreateCheckpoint_tx c s = Inr s' \<Longrightarrow> infra s s'"
  by (auto simp: CreateCheckpoint_tx_def Let_def insert_checkpoint_def infra_def infra_keys_def split: if_splits)

lemma infra_GC_tx: "GarbageCollectCheckpoints_tx tm retain onClose s = Inr (x, s') \<Longrightarrow> infra s s'"
proof -
  have "infra s (s\<lparr>db_checkpoints := del_where P (db_checkpoints s)\<rparr>)" for P
    by (simp add: infra_def infra_keys_def distinct_map_del_where)
  then show "GarbageCollectCheckpoints_tx tm retain onClose s = Inr (x, s') \<Longrightarrow> infra s s'"
    by (auto simp: GarbageCollectCheckpoints_tx_def Let_def session_effect_def intro!: infra_intros)
qed

lemma infra_finishSessionTx:
  assumes "finishSessionTx i state code tm s = Inr s'" and "SessionTerminal state"
  shows "infra s s'"
proof (rule finishSessionTx_Inr [OF assms(1)])
  fix v f es
  assume v: "row_by s_ID i (db_sessions s) = Some v" "\<not> SessionTerminal (s_State v)"
    and sess: "db_sessions s' = upd_where (\<lambda>x. s_ID x = i) (\<lambda>x. x\<lparr>s_State := state, s_ClosedAt := tm,
        s_Failure := (if state = SessionLost then Some f else None)\<rparr>) (db_sessions s)"
    and rest: "db_checkpoints s' = db_checkpoints s" "db_tokens s' = db_tokens s"
    and w: "db_workers s' = (if s_WorkerID v \<noteq> '''' then upd_where (\<lambda>w. w_ID w = s_WorkerID v \<and> w_ReservedSessionID w = i)
               (\<lambda>w. w\<lparr>w_ReservedSessionID := ''''\<rparr>) (db_workers s) else db_workers s)"
    and b: "db_sandboxes s' = (if s_SandboxID v \<noteq> '''' then
          upd_where (\<lambda>b. b_ID b = s_SandboxID v \<and> b_ReservedSessionID b = i) (drain_sandbox tm) (db_sandboxes s) else db_sandboxes s)"
  have "map w_ID (db_workers s') = map w_ID (db_workers s)" unfolding w by (simp add: map_upd_where)
  moreover have "map b_ID (db_sandboxes s') = map b_ID (db_sandboxes s)" unfolding b by (simp add: map_upd_where drain_sandbox_def)
  moreover have "map s_ID (db_sessions s') = map s_ID (db_sessions s)" unfolding sess by (simp add: map_upd_where)
  moreover have "rows_evolve session_effect (db_sessions s) (db_sessions s')" if "distinct (map s_ID (db_sessions s))"
    unfolding sess
  proof (rule rows_evolve_upd)
    fix x assume "x \<in> set (db_sessions s)" "s_ID x = i"
    with row_by_eq_iff [OF that, of i v] v(1) distinct_key_eq [OF that] have "x = v" by simp
    with v(2) assms(2) show "session_effect x (x\<lparr>s_State := state, s_ClosedAt := tm,
        s_Failure := (if state = SessionLost then Some f else None)\<rparr>)" by (auto simp: session_effect_def)
  qed simp
  ultimately show ?thesis unfolding infra_def infra_keys_def rest by simp
qed simp

lemma infra_TerminalRecovery_tx: "TerminalRecovery_tx i epoch msg tm s = Inr s' \<Longrightarrow> infra s s'"
proof -
  assume "TerminalRecovery_tx i epoch msg tm s = Inr s'"
  then obtain s1 where s1: "finishSessionTx i SessionLost ''recovery_failed'' tm s = Inr s1"
    and rest: "\<exists>e f. log_recovery e (update_sandboxes (\<lambda>b. b_ReservedSessionID b = i) (drain_sandbox tm)
      (drop_reservation i epoch (update_sessions (\<lambda>x. s_ID x = i) (\<lambda>x. x\<lparr>s_RecoveryState := RecoveryFailed,
        s_RecoveryError := msg, s_Failure := f\<rparr>) s1))) = Inr s'"
    unfolding TerminalRecovery_tx_def Let_def by (auto simp del: SessionTerminal.simps split: if_splits)
  from rest have "infra s1 s'"
    by (auto simp: drop_reservation_def drain_sandbox_def session_effect_def elim!: infra_log_recovery intro!: infra_intros)
  with infra_finishSessionTx [OF s1] show ?thesis by (auto intro: infra_trans)
qed

lemma infra_session_gate: "session_gate r j reserved s = Inr (ok, s') \<Longrightarrow> infra s s'"
  by (auto simp: session_gate_def bind_pending_def Let_def session_effect_def split: if_splits intro!: infra_intros)

lemma infra_take_slot: "take_slot r s = Inr s' \<Longrightarrow> infra s s'"
  by (auto simp: take_slot_def Let_def split: if_splits intro!: infra_intros)

text \<open>Operations that write jobs, attempts, leases, events or results only, besides worker slots.\<close>

lemma infra_tables:
  "db_sessions s' = db_sessions s \<Longrightarrow> db_workers s' = db_workers t \<Longrightarrow> db_sandboxes s' = db_sandboxes s \<Longrightarrow>
   db_checkpoints s' = db_checkpoints s \<Longrightarrow> db_tokens s' = db_tokens s \<Longrightarrow> map w_ID (db_workers t) = map w_ID (db_workers s) \<Longrightarrow> infra s s'"
  by (rule infra_same_keys) (simp add: same_keys_def)

lemma release_slot_ids: "map w_ID (db_workers (release_slot w s)) = map w_ID (db_workers s)"
  by (simp add: release_slot_def update_workers_def map_upd_where)

lemma infra_lease_job:
  assumes "lease_job r j s = Inr (Some (a, j'), s')"
  shows "infra s s'"
proof -
  note eff = lease_job_Inr [OF assms]
  from eff(15) obtain s2 where s2: "take_slot r s = Inr s2" "db_workers s' = db_workers s2" by blast
  then have ids: "map w_ID (db_workers s') = map w_ID (db_workers s)"
    by (auto simp: take_slot_def Let_def update_workers_def map_upd_where split: if_splits)
  from eff(16) show ?thesis
  proof
    assume "db_sessions s' = db_sessions s"
    with ids eff show ?thesis by (intro infra_same_keys) (simp add: same_keys_def)
  next
    assume "\<exists>idle. db_sessions s' = db_sessions (touch_session (j_SessionID j) (cr_Now r) idle s)"
    then obtain idle where sess: "db_sessions s' = db_sessions (touch_session (j_SessionID j) (cr_Now r) idle s)" ..
    have "infra (touch_session (j_SessionID j) (cr_Now r) idle s) s'"
      by (intro infra_same_keys) (use sess ids eff in \<open>simp add: same_keys_def touch_session_def update_sessions_def\<close>)
    with infra_touch show ?thesis by (rule infra_trans)
  qed
qed

lemma infra_claim_loop: "claim_loop r js s = Inr (x, s') \<Longrightarrow> infra s s'"
proof (induction js arbitrary: s)
  case (Cons j js)
  then obtain w pass s1 where gate: "session_gate r j w s = Inr (pass, s1)" and rest: "(if \<not> pass then claim_loop r js s1
      else rbind (lease_job r j s1) (\<lambda>(res, s2). case res of None \<Rightarrow> claim_loop r js s2 | Some x \<Rightarrow> Inr (x, s2))) = Inr (x, s')"
    by (simp only: claim_loop.simps rbind_eq_Inr) (auto simp del: rbind_eq_Inr)
  have "infra s1 s'"
  proof (cases pass)
    case False
    with rest Cons.IH show ?thesis by simp
  next
    case True
    with rest obtain res s2 where res: "lease_job r j s1 = Inr (res, s2)"
      "(case res of None \<Rightarrow> claim_loop r js s2 | Some x \<Rightarrow> Inr (x, s2)) = Inr (x, s')" by auto
    show ?thesis
    proof (cases res)
      case None
      with res lease_job_None [of r j s1 s2] Cons.IH show ?thesis by simp
    next
      case (Some y)
      with res infra_lease_job [of r j s1 "fst y" "snd y" s'] show ?thesis by simp
    qed
  qed
  with infra_session_gate [OF gate] show ?case by (rule infra_trans)
qed simp

lemma infra_ClaimNextJob_tx: "ClaimNextJob_tx r s = Inr (x, s') \<Longrightarrow> infra s s'"
  by (auto simp: ClaimNextJob_tx_def intro: infra_claim_loop)

lemma infra_expire_lease: "expire_lease now i s = Inr s' \<Longrightarrow> infra s s'"
proof (erule expire_lease_cases)
  fix a r assume "expire_active now i a r s = Inr s'"
  moreover obtain st nx where "expired_job_state a r now = (st, nx)" by (cases "expired_job_state a r now")
  ultimately show "infra s s'" using expire_active_Inr [of now i a r s s' st nx]
    by (intro infra_same_keys) (auto simp: same_keys_def release_slot_ids)
qed simp

lemma infra_foldM:
  assumes "foldM f xs s = Inr s'" and "\<And>x t t'. f x t = Inr t' \<Longrightarrow> infra t t'"
  shows "infra s s'"
  using assms(1) infra_refl by (rule foldM_inv) (blast intro: infra_trans assms(2))

lemma infra_expireLeases_tx: "expireLeases_tx P now s = Inr (ids, s') \<Longrightarrow> infra s s'"
  by (auto simp: expireLeases_tx_def Let_def elim!: infra_foldM intro: infra_expire_lease)

lemma infra_timeout_job: "timeout_job now i s = Inr s' \<Longrightarrow> infra s s'"
  by (rule infra_same_keys, drule timeout_job_Inr)
    (auto simp: same_keys_def release_slot_ids split: option.splits)

lemma infra_TimeoutJobs: "infra s (snd (TimeoutJobs now s))"
proof -
  have "infra s s'" if "TimeoutJobs_tx now s = Inr (ids, s')" for ids s'
    using that by (auto simp: TimeoutJobs_tx_def elim!: infra_foldM intro: infra_timeout_job)
  then show ?thesis using commit_cases [of "TimeoutJobs_tx now" s] by (auto simp: TimeoutJobs_def)
qed

lemma infra_CreateJob: "infra s (snd (CreateJob now j s))"
  by (intro infra_same_keys)
    (auto simp: CreateJob_def insert_job_def same_keys_def Let_def mapped_def split: sum.splits if_splits option.splits)

lemma infra_CancelJob_tx: "CancelJob_tx i tm s = Inr s' \<Longrightarrow> infra s s'"
  by (rule infra_same_keys, drule CancelJob_Inr) (auto simp: same_keys_def same_infra_def)

lemma infra_event: "mapped (insert_event e s) = Inr s' \<Longrightarrow> infra s s'"
  by (rule infra_same_keys) (auto simp: same_keys_def dest!: insert_event_Inr)

lemma infra_AppendAttemptEvent_tx: "AppendAttemptEvent_tx now a w v s = Inr (x, s') \<Longrightarrow> infra s s'"
  by (rule infra_same_keys)
    (auto simp: AppendAttemptEvent_tx_def Let_def same_keys_def split: if_splits option.splits dest!: insert_event_Inr)

lemma infra_SaveResult_tx: "SaveResult_tx a w res s = Inr s' \<Longrightarrow> infra s s'"
  by (rule infra_same_keys) (auto simp: SaveResult_tx_def same_keys_def upsert_result_def split: if_splits)

lemma infra_RenewLease_tx: "RenewLease_tx now a w until s = Inr s' \<Longrightarrow> infra s s'"
  by (rule infra_same_keys, drule RenewLease_Inr) (auto simp: same_keys_def update_leases_def)

lemma infra_CompleteAttempt_tx:
  assumes "CompleteAttempt_tx c s = Inr s'"
  shows "infra s s'"
proof (rule CompleteAttempt_Inr [OF assms])
  fix r
  assume sess: "db_sessions s' = db_sessions s \<or> (\<exists>idle. db_sessions s' = db_sessions (touch_session (j_SessionID r) (cm_At c) idle s))"
    and rest: "db_workers s' = db_workers (release_slot (cm_WorkerID c) s)" "db_sandboxes s' = db_sandboxes s"
      "db_checkpoints s' = db_checkpoints s" "db_tokens s' = db_tokens s"
  from sess show ?thesis
  proof
    assume "db_sessions s' = db_sessions s"
    with rest show ?thesis by (intro infra_same_keys) (simp add: same_keys_def release_slot_ids)
  next
    assume "\<exists>idle. db_sessions s' = db_sessions (touch_session (j_SessionID r) (cm_At c) idle s)"
    then obtain idle where sess: "db_sessions s' = db_sessions (touch_session (j_SessionID r) (cm_At c) idle s)" ..
    have "infra (touch_session (j_SessionID r) (cm_At c) idle s) s'"
      by (intro infra_same_keys)
        (use sess rest in \<open>simp add: same_keys_def release_slot_ids, simp add: touch_session_def update_sessions_def\<close>)
    with infra_touch show ?thesis by (rule infra_trans)
  qed
qed

lemma infra_Revoke: "infra s (snd (RevokeSandboxCredentials now b s))"
  by (simp add: infra_Revoke_after)

lemma infra_workers_here: "(\<And>w. w_ID (f w) = w_ID w) \<Longrightarrow> infra s (update_workers P f s)"
  by (simp add: infra_workers)

lemma infra_log_here: "log_recovery e s = Inr s' \<Longrightarrow> infra s s'"
  by (erule infra_log_recovery) simp

interpretation infra: store_relation infra
proof
  show "infra s s" for s by simp
qed (fact infra_trans, rule infra_CreateJob, (fact infra_CancelJob_tx infra_event infra_AppendAttemptEvent_tx infra_SaveResult_tx
    infra_ClaimNextJob_tx infra_RenewLease_tx infra_CompleteAttempt_tx infra_expireLeases_tx infra_CreateSession
    infra_BindSession_tx infra_finishSessionTx infra_RequestRecovery_tx infra_ClaimRecovery_tx infra_CompleteRecovery_tx
    infra_FailRecovery_tx infra_AcknowledgeRecovery_tx infra_TerminalRecovery_tx infra_log_here infra_CreateCheckpoint_tx
    infra_CompleteCheckpoint_tx infra_MarkCheckpoint infra_GC_tx infra_UpsertWorker infra_workers_here
    infra_CreateBootstrapToken_tx infra_ConsumeBootstrapToken infra_Revoke infra_UpsertSandbox infra_SetSandboxState
    infra_DeleteSandbox)+)

lemma infra_step: "store_step s s' \<Longrightarrow> infra s s'"
  using infra.across_step infra_TimeoutJobs by blast

lemma infra_run: "store_step\<^sup>*\<^sup>* s s' \<Longrightarrow> infra s s'"
  by (induction rule: rtranclp_induct) (auto intro: infra_step infra_trans)

lemma reachable_infra_keys: "reachable s \<Longrightarrow> infra_keys s"
proof (induction rule: reachable.induct)
  case (step s s')
  then show ?case using infra_step [of s s'] by (simp add: infra_def)
qed (simp add: infra_keys_def empty_db_def)

section \<open>Lookups along a run\<close>

lemma run_session:
  assumes "reachable s" and "store_step\<^sup>*\<^sup>* s s'" and "v \<in> set (db_sessions s)"
  shows "\<exists>v' \<in> set (db_sessions s'). session_effect v v'"
proof -
  have "rows_evolve session_effect (db_sessions s) (db_sessions s')"
    using infra_run [OF assms(2)] reachable_infra_keys [OF assms(1)] by (simp add: infra_def)
  with assms(3) show ?thesis unfolding rows_evolve_def by fastforce
qed

lemma run_token:
  assumes "reachable s" and "store_step\<^sup>*\<^sup>* s s'" and "t \<in> set (db_tokens s)"
  shows "\<exists>t' \<in> set (db_tokens s'). token_effect t t'"
proof -
  have "rows_evolve token_effect (db_tokens s) (db_tokens s')"
    using infra_run [OF assms(2)] reachable_infra_keys [OF assms(1)] by (simp add: infra_def)
  with assms(3) show ?thesis unfolding rows_evolve_def by fastforce
qed

lemma run_reachable: "store_step\<^sup>*\<^sup>* s s' \<Longrightarrow> reachable s \<Longrightarrow> reachable s'"
  by (induction rule: rtranclp_induct) (auto intro: reachable.step)

lemma commit0_fails: "(\<And>s'. f s \<noteq> Inr s') \<Longrightarrow> \<exists>e. commit0 f s = (Inl e, s)"
  by (cases "f s") (auto simp: commit0_def commit_def)

lemma rows_affected_unique:
  "distinct (map key t) \<Longrightarrow> r \<in> set t \<Longrightarrow> (\<And>x. x \<in> set t \<Longrightarrow> P x \<longleftrightarrow> key x = key r) \<Longrightarrow> rows_affected P t = Suc 0"
proof (induction t)
  case (Cons x t)
  show ?case
  proof (cases "x = r")
    case True
    have "\<not> P y" if "y \<in> set t" for y
    proof -
      have "key y \<noteq> key r" using Cons.prems(1) True that by (metis distinct.simps(2) image_eqI list.set_map list.simps(9))
      with Cons.prems(3) [of y] that show ?thesis by simp
    qed
    then have "filter P t = []" by (simp add: filter_empty_conv)
    with True Cons.prems(3) show ?thesis by (simp add: rows_affected_def)
  next
    case False
    with Cons.prems have "r \<in> set t" "\<not> P x" by auto
    with Cons show ?thesis by (simp add: rows_affected_def)
  qed
qed simp

lemma rows_affected_one: "rows_affected P t = Suc 0 \<Longrightarrow> \<exists>r \<in> set t. P r"
  using rows_affected_ex [of P t] by simp

section \<open>Epoch checks\<close>

text \<open>Every recovery and checkpoint write names the epoch it believes in, and fails on another one.\<close>

definition fenced :: "SessionID \<Rightarrow> nat \<Rightarrow> DB \<Rightarrow> bool" where
  "fenced i epoch s \<longleftrightarrow>
     (\<forall>w tm. \<exists>e. AcknowledgeRecovery i epoch w tm s = (Inl e, s))
   \<and> (\<forall>w b tm. \<exists>e. CompleteRecovery i epoch w b tm s = (Inl e, s))
   \<and> (\<forall>msg retry now. \<exists>e. FailRecovery i epoch msg retry now s = (Inl e, s))
   \<and> (\<forall>msg tm. \<exists>e. TerminalRecovery i epoch msg tm s = (Inl e, s))
   \<and> (\<forall>c. c_SessionID c = i \<and> c_Epoch c = epoch \<longrightarrow> (\<exists>e. CreateCheckpoint c s = (Inl e, s)))
   \<and> (\<forall>k loc checksum bytes. \<exists>e. CompleteCheckpoint k i epoch loc checksum bytes s = (Inl e, s))"

lemma fencedI:
  assumes "\<And>v. v \<in> set (db_sessions s) \<Longrightarrow> s_ID v = i \<Longrightarrow> s_Epoch v \<noteq> epoch"
  shows "fenced i epoch s"
  unfolding fenced_def AcknowledgeRecovery_def CompleteRecovery_def FailRecovery_def TerminalRecovery_def
    CreateCheckpoint_def CompleteCheckpoint_def
proof (intro conjI allI impI commit0_fails notI)
  fix w tm s' assume "AcknowledgeRecovery_tx i epoch w tm s = Inr s'"
  then show False using assms by (auto simp: AcknowledgeRecovery_tx_def Let_def split: if_splits dest!: rows_affected_one)
next
  fix w b tm s' assume "CompleteRecovery_tx i epoch w b tm s = Inr s'"
  then show False using assms by (auto simp: CompleteRecovery_tx_def Let_def split: if_splits dest!: rows_affected_one)
next
  fix msg retry now s' assume "FailRecovery_tx i epoch msg retry now s = Inr s'"
  then show False using assms by (auto simp: FailRecovery_tx_def Let_def split: if_splits dest!: rows_affected_one)
next
  fix msg tm s' assume "TerminalRecovery_tx i epoch msg tm s = Inr s'"
  then obtain v where "row_by s_ID i (db_sessions s) = Some v" "s_Epoch v = epoch"
    unfolding TerminalRecovery_tx_def by (auto split: if_splits)
  then show False using assms row_byD by metis
next
  fix c s' assume "c_SessionID c = i \<and> c_Epoch c = epoch" "CreateCheckpoint_tx c s = Inr s'"
  then obtain v where "row_by s_ID i (db_sessions s) = Some v" "s_Epoch v = epoch"
    unfolding CreateCheckpoint_tx_def by (auto split: if_splits)
  then show False using assms row_byD by metis
next
  fix k loc checksum bytes s' assume "CompleteCheckpoint_tx k i epoch loc checksum bytes s = Inr s'"
  then have "rows_affected (\<lambda>v. s_ID v = i \<and> s_Epoch v = epoch) (db_sessions s) = Suc 0"
    unfolding CompleteCheckpoint_tx_def Let_def by (auto split: if_splits)
  from rows_affected_one [OF this] assms show False by auto
qed

lemma RequestRecovery_bumps:
  assumes "reachable s" and "RequestRecovery i tm s = (Inr (), s')" and "v \<in> set (db_sessions s)" and "s_ID v = i"
  shows "\<exists>v' \<in> set (db_sessions s'). s_ID v' = i \<and> s_Epoch v' = s_Epoch v + 1 \<and> s_State v' = SessionRecovering"
proof -
  let ?P = "\<lambda>v. s_ID v = i \<and> (s_State v = SessionActive \<or> s_State v = SessionRecovering) \<and> s_RecoveryPolicy v \<noteq> RecoveryNone"
  from assms(2) have tx: "RequestRecovery_tx i tm s = Inr s'"
    by (auto simp: RequestRecovery_def commit0_def commit_def split: sum.splits)
  then have "rows_affected ?P (db_sessions s) = Suc 0" by (auto simp: RequestRecovery_tx_def Let_def split: if_splits)
  from rows_affected_one [OF this] obtain u where "u \<in> set (db_sessions s)" "?P u" by blast
  moreover have "distinct (map s_ID (db_sessions s))" using reachable_infra_keys [OF assms(1)] by (simp add: infra_keys_def)
  ultimately have P: "?P v" using assms(3,4) distinct_key_eq by metis
  define f where "f = (\<lambda>v :: Session. v\<lparr>s_State := SessionRecovering, s_RecoveryState := RecoveryPending,
           s_Epoch := s_Epoch v + 1, s_WorkerID := '''', s_SandboxID := '''', s_RestoreAcknowledged := False,
           s_RecoveryAfter := tm, s_RecoveryError := ''''\<rparr>)"
  have f: "s_ID (f v) = s_ID v \<and> s_Epoch (f v) = s_Epoch v + 1 \<and> s_State (f v) = SessionRecovering" for v by (simp add: f_def)
  from tx obtain e where log: "log_recovery e (update_sessions ?P f s) = Inr s'"
    unfolding RequestRecovery_tx_def Let_def f_def by (auto split: if_splits)
  from log have "db_sessions s' = upd_where ?P f (db_sessions s)"
    by (auto simp: log_recovery_def update_sessions_def dest!: insert_or_ignore_recovery_Inr)
  then show ?thesis using P assms(3) f [of v] by (intro bexI [of _ "f v"]) (auto simp: in_upd_where)
qed

section \<open>The checkpoint collection\<close>

abbreviation is_ready :: "Checkpoint \<Rightarrow> bool" where
  "is_ready c \<equiv> c_State c = ''ready''"

definition newer_ready :: "Checkpoint \<Rightarrow> DB \<Rightarrow> Checkpoint set" where
  "newer_ready c s = {d \<in> set (db_checkpoints s). c_SessionID d = c_SessionID c \<and> is_ready d \<and> c_Sequence c < c_Sequence d}"

text \<open>Why the scan selects a row: its session has ended, it is broken, or it is past its expiry and outranked.\<close>

lemma gc_scan_reason:
  assumes "c \<in> set (gc_scan tm n onClose rows rank)"
  shows "\<exists>pre st post. rows = pre @ (c, st) # post \<and> (onClose \<and> SessionTerminal st
      \<or> c_State c = ''corrupt'' \<or> c_State c = ''partial''
      \<or> past_expiry tm c \<and> (is_ready c \<longrightarrow> n < rank (c_SessionID c) + 1
          + int (length (filter (\<lambda>(x, _). is_ready x \<and> c_SessionID x = c_SessionID c) pre))))"
  using assms
proof (induction rows arbitrary: rank)
  case (Cons row rows)
  obtain x st where row: "row = (x, st)" by (cases row)
  define rank' where "rank' = (if (onClose \<and> SessionTerminal st) \<or> \<not> is_ready x then rank
    else rank(c_SessionID x := rank (c_SessionID x) + 1))"
  define chosen where "chosen = (if onClose \<and> SessionTerminal st then True
    else if is_ready x then rank' (c_SessionID x) > n \<and> past_expiry tm x
    else past_expiry tm x \<or> c_State x = ''corrupt'' \<or> c_State x = ''partial'')"
  have scan: "gc_scan tm n onClose (row # rows) rank = (if chosen then [x] else []) @ gc_scan tm n onClose rows rank'"
    by (auto simp: row chosen_def rank'_def Let_def simp del: SessionTerminal.simps)
  show ?case
  proof (cases "c \<in> set (gc_scan tm n onClose rows rank')")
    case True
    from Cons.IH [OF this] obtain pre st' post where pre: "rows = pre @ (c, st') # post"
      "onClose \<and> SessionTerminal st' \<or> c_State c = ''corrupt'' \<or> c_State c = ''partial''
      \<or> past_expiry tm c \<and> (is_ready c \<longrightarrow> n < rank' (c_SessionID c) + 1
          + int (length (filter (\<lambda>(x, _). is_ready x \<and> c_SessionID x = c_SessionID c) pre)))" by blast
    have "rank' (c_SessionID c) \<le> rank (c_SessionID c) + (if is_ready x \<and> c_SessionID x = c_SessionID c then 1 else 0)"
      by (simp add: rank'_def)
    with pre show ?thesis by (intro exI [of _ "(x, st) # pre"] exI [of _ st'] exI [of _ post])
      (auto simp: row simp del: SessionTerminal.simps split: if_splits)
  next
    case False
    with Cons.prems scan have "c = x" and chosen by (auto split: if_splits)
    then show ?thesis by (intro exI [of _ "[]"] exI [of _ st] exI [of _ rows])
      (auto simp: row chosen_def rank'_def simp del: SessionTerminal.simps split: if_splits)
  qed
qed simp

abbreviation gc_key :: "Checkpoint \<Rightarrow> string \<times> int \<times> int \<times> string" where
  "gc_key c \<equiv> (c_SessionID c, - int (c_Sequence c), - c_CreatedAt c, c_ID c)"

lemma gc_rows_fst:
  "map fst (gc_rows s) = filter (\<lambda>c. c_SessionID c \<in> s_ID ` set (db_sessions s)) (sort_key gc_key (db_checkpoints s))"
proof -
  have "map fst (concat (map (\<lambda>c. case row_by s_ID (c_SessionID c) (db_sessions s) of None \<Rightarrow> [] | Some v \<Rightarrow> [(c, s_State v)]) cs))
      = filter (\<lambda>c. c_SessionID c \<in> s_ID ` set (db_sessions s)) cs" for cs
  proof (induction cs)
    case (Cons c cs)
    have "c_SessionID c \<in> s_ID ` set (db_sessions s) \<longleftrightarrow> row_by s_ID (c_SessionID c) (db_sessions s) \<noteq> None" by simp
    with Cons show ?case by (auto simp del: row_by_None split: option.split)
  qed simp
  then show ?thesis by (simp add: gc_rows_def)
qed

lemma gc_rows_state: "(c, st) \<in> set (gc_rows s) \<Longrightarrow> \<exists>v \<in> set (db_sessions s). s_ID v = c_SessionID c \<and> st = s_State v"
  by (auto simp: gc_rows_def split: option.splits) (metis row_byD)

lemma gc_rank_bound:
  assumes keys: "infra_keys s" and rows: "gc_rows s = pre @ (c, st) # post"
  shows "length (filter (\<lambda>(x, _). is_ready x \<and> c_SessionID x = c_SessionID c) pre) \<le> card (newer_ready c s)"
proof -
  let ?Q = "\<lambda>x. is_ready x \<and> c_SessionID x = c_SessionID c"
  let ?L = "sort_key gc_key (db_checkpoints s)"
  have L: "map fst pre @ c # map fst post = filter (\<lambda>c. c_SessionID c \<in> s_ID ` set (db_sessions s)) ?L"
    using gc_rows_fst [of s] by (simp add: rows)
  have "sorted (map gc_key (map fst pre @ c # map fst post))" unfolding L by (rule sorted_filter) simp
  then have le: "gc_key x \<le> gc_key c" if "x \<in> set (map fst pre)" for x using that by (auto simp: sorted_append)
  have "distinct (db_checkpoints s)" using keys by (auto simp: infra_keys_def distinct_map)
  then have dist: "distinct (map fst pre @ c # map fst post)" unfolding L by simp
  have sub: "set (map fst pre @ c # map fst post) \<subseteq> set (db_checkpoints s)" unfolding L by auto
  have "set (filter ?Q (map fst pre)) \<subseteq> newer_ready c s"
  proof
    fix x assume x: "x \<in> set (filter ?Q (map fst pre))"
    have "c_Sequence c \<le> c_Sequence x" using le [of x] x by (auto simp: less_eq_prod_def)
    moreover have "c_Sequence x \<noteq> c_Sequence c"
    proof
      assume "c_Sequence x = c_Sequence c"
      moreover have "distinct (map (\<lambda>c. (c_SessionID c, c_Sequence c)) (db_checkpoints s))" using keys by (simp add: infra_keys_def)
      moreover have "x \<in> set (db_checkpoints s)" "c \<in> set (db_checkpoints s)" using x sub by auto
      ultimately have "x = c" using x distinct_key_eq [of "\<lambda>c. (c_SessionID c, c_Sequence c)" "db_checkpoints s" x c] by simp
      with dist x show False by auto
    qed
    ultimately show "x \<in> newer_ready c s" using x sub by (auto simp: newer_ready_def)
  qed
  then have "card (set (filter ?Q (map fst pre))) \<le> card (newer_ready c s)"
    by (rule card_mono [rotated]) (simp add: newer_ready_def)
  moreover have "distinct (filter ?Q (map fst pre))" using dist by simp
  ultimately have "length (filter ?Q (map fst pre)) \<le> card (newer_ready c s)" by (simp only: distinct_card)
  moreover have "length (filter ?Q (map fst pre)) = length (filter (\<lambda>(x, _). ?Q x) pre)"
    by (induction pre) auto
  ultimately show ?thesis by simp
qed

section \<open>Concrete runs\<close>

definition demo_bound :: DB where
  "demo_bound = snd (BindSession ''s'' ''w'' ''b'' (demo_epoch + 1) (snd (CreateSession demo_epoch
     (zero_Session\<lparr>s_ID := ''s'', s_Pool := ''p'', s_RecoveryPolicy := RecoveryCheckpoint\<rparr>) empty_db)))"

definition demo_checkpoint :: "string \<Rightarrow> DB \<Rightarrow> DB" where
  "demo_checkpoint k s = snd (CompleteCheckpoint k ''s'' 1 ''loc'' ''sum'' 1 (snd (CreateCheckpoint
     (zero_Checkpoint\<lparr>c_ID := k, c_SessionID := ''s'', c_Epoch := 1, c_Adapter := ''filesystem'', c_ExpiresAt := demo_epoch + 5\<rparr>) s)))"

definition demo_token :: DB where
  "demo_token = snd (CreateBootstrapToken \<lparr>t_TokenHash = ''h'', t_SandboxID = ''b'', t_SandboxProvider = ''fake'', t_Pool = ''p'',
     t_CapabilityHash = ''c'', t_ExpiresAt = demo_epoch + 5, t_ConsumedAt = None\<rparr> empty_db)"

lemma demo_bound_reachable: "reachable demo_bound"
  unfolding demo_bound_def by (rule reachable.step [OF reachable.step [OF reachable.start store_step.CreateSession] store_step.BindSession])

lemma demo_checkpoint_reachable: "reachable s \<Longrightarrow> reachable (demo_checkpoint k s)"
  unfolding demo_checkpoint_def by (rule reachable.step [OF reachable.step [OF _ store_step.CreateCheckpoint] store_step.CompleteCheckpoint])

lemma demo_token_reachable: "reachable demo_token"
  unfolding demo_token_def by (rule reachable.step [OF reachable.start store_step.CreateBootstrapToken])

lemma demo_bound_session: "\<exists>v \<in> set (db_sessions demo_bound). s_ID v = ''s'' \<and> s_Epoch v = 1 \<and> s_State v = SessionActive"
proof -
  have "map (\<lambda>v. (s_ID v, s_Epoch v, s_State v)) (db_sessions demo_bound) = [(''s'', 1, SessionActive)]" by code_simp
  then show ?thesis by (cases "db_sessions demo_bound") auto
qed

section \<open>Properties\<close>

text \<open>
  C16: along every run of store operations a session keeps its identifier and its recovery policy, its
  epoch never decreases, a closed or lost session keeps its state and its epoch for good, and no session
  returns to pending.
\<close>

theorem session_lifecycle_monotone:
  assumes "reachable s" and "store_step\<^sup>*\<^sup>* s s'" and "v \<in> set (db_sessions s)"
  shows "\<exists>v' \<in> set (db_sessions s'). s_ID v' = s_ID v \<and> s_RecoveryPolicy v' = s_RecoveryPolicy v \<and> s_Epoch v \<le> s_Epoch v'
    \<and> (SessionTerminal (s_State v) \<longrightarrow> s_State v' = s_State v \<and> s_Epoch v' = s_Epoch v)
    \<and> (s_State v' = SessionPending \<longrightarrow> s_State v = SessionPending)"
  using run_session [OF assms] unfolding session_effect_def by blast

theorem session_lifecycle_monotone_witness:
  "\<exists>v \<in> set (db_sessions demo_bound). \<exists>v' \<in> set (db_sessions (snd (CloseSession ''s'' 9 demo_bound))).
     s_ID v' = s_ID v \<and> s_Epoch v \<le> s_Epoch v'"
proof -
  obtain v where v: "v \<in> set (db_sessions demo_bound)" using demo_bound_session by blast
  have "store_step\<^sup>*\<^sup>* demo_bound (snd (CloseSession ''s'' 9 demo_bound))" by (rule r_into_rtranclp) (rule store_step.CloseSession)
  from session_lifecycle_monotone [OF demo_bound_reachable this v] v show ?thesis by blast
qed

text \<open>
  C15: a recovery request fences the old epoch off: from then on, whatever else happens, every
  acknowledgement, completion, failure report, terminal report, checkpoint record and checkpoint
  completion under the old epoch or an earlier one is rejected and writes nothing.
\<close>

theorem recovery_fences_old_epoch:
  assumes "reachable s" and "v \<in> set (db_sessions s)" and "RequestRecovery (s_ID v) tm s = (Inr (), s')"
    and "store_step\<^sup>*\<^sup>* s' s''" and "epoch \<le> s_Epoch v"
  shows "fenced (s_ID v) epoch s''"
proof (rule fencedI)
  fix u assume u: "u \<in> set (db_sessions s'')" "s_ID u = s_ID v"
  from RequestRecovery_bumps [OF assms(1,3,2) HOL.refl] obtain v' where
    v': "v' \<in> set (db_sessions s')" "s_ID v' = s_ID v" "s_Epoch v' = s_Epoch v + 1" by blast
  have r: "reachable s'" using assms(1,3) reachable.step [OF assms(1) store_step.RequestRecovery] by (metis snd_conv)
  from run_session [OF r assms(4) v'(1)] obtain v'' where
    v'': "v'' \<in> set (db_sessions s'')" "s_ID v'' = s_ID v" "s_Epoch v < s_Epoch v''" using v' by (auto simp: session_effect_def)
  have "distinct (map s_ID (db_sessions s''))"
    using reachable_infra_keys [OF run_reachable [OF assms(4) r]] by (simp add: infra_keys_def)
  with u v'' have "u = v''" using distinct_key_eq by metis
  with v'' assms(5) show "s_Epoch u \<noteq> epoch" by simp
qed

theorem recovery_fences_old_epoch_witness:
  "fst (RequestRecovery ''s'' 7 demo_bound) = Inr () \<and> fenced ''s'' 1 (snd (RequestRecovery ''s'' 7 demo_bound))"
proof -
  obtain v where v: "v \<in> set (db_sessions demo_bound)" "s_ID v = ''s''" "s_Epoch v = 1" using demo_bound_session by blast
  have ok: "fst (RequestRecovery ''s'' 7 demo_bound) = Inr ()" by code_simp
  then have "RequestRecovery (s_ID v) 7 demo_bound = (Inr (), snd (RequestRecovery ''s'' 7 demo_bound))"
    using v(2) by (metis prod.collapse)
  from recovery_fences_old_epoch [OF demo_bound_reachable v(1) this rtranclp.rtrancl_refl, of 1] ok v show ?thesis by simp
qed

text \<open>
  C18: a bootstrap token works once: after a worker registered with it, every later attempt to consume
  it fails, whoever makes it and whatever happened in between, and changes nothing.
\<close>

theorem bootstrap_token_single_use:
  assumes "reachable s" and "ConsumeBootstrapToken hash b provider pool caps now s = (Inr (), s')" and "store_step\<^sup>*\<^sup>* s' s''"
  shows "ConsumeBootstrapToken hash b' provider' pool' caps' now' s'' = (Inl ErrNotFound, s'')"
proof -
  let ?P = "\<lambda>t. t_TokenHash t = hash \<and> t_SandboxID t = b \<and> t_SandboxProvider t = provider \<and> t_Pool t = pool
     \<and> t_CapabilityHash t = caps \<and> t_ConsumedAt t = None \<and> t_ExpiresAt t > now"
  let ?Q = "\<lambda>t. t_TokenHash t = hash \<and> t_SandboxID t = b' \<and> t_SandboxProvider t = provider' \<and> t_Pool t = pool'
     \<and> t_CapabilityHash t = caps' \<and> t_ConsumedAt t = None \<and> t_ExpiresAt t > now'"
  from assms(2) have "rows_affected ?P (db_tokens s) = Suc 0" and s': "s' = update_tokens ?P (\<lambda>t. t\<lparr>t_ConsumedAt := Some now\<rparr>) s"
    by (auto simp: ConsumeBootstrapToken_def Let_def split: if_splits)
  from rows_affected_one [OF this(1)] obtain t where t: "t \<in> set (db_tokens s)" "?P t" by blast
  then have t': "t\<lparr>t_ConsumedAt := Some now\<rparr> \<in> set (db_tokens s')"
    unfolding s' by (auto simp: update_tokens_def in_upd_where intro!: bexI [of _ t])
  have r: "reachable s'" using reachable.step [OF assms(1) store_step.ConsumeBootstrapToken] assms(2) by (metis snd_conv)
  from run_token [OF r assms(3) t'] have t'': "t\<lparr>t_ConsumedAt := Some now\<rparr> \<in> set (db_tokens s'')"
    by (auto simp: token_effect_def)
  have "distinct (map t_TokenHash (db_tokens s''))"
    using reachable_infra_keys [OF run_reachable [OF assms(3) r]] by (simp add: infra_keys_def)
  with t'' t(2) have none: "\<forall>u \<in> set (db_tokens s''). \<not> ?Q u"
    using distinct_key_eq [of t_TokenHash "db_tokens s''" "t\<lparr>t_ConsumedAt := Some now\<rparr>"] by fastforce
  then have "rows_affected ?Q (db_tokens s'') = 0" using rows_affected_ex [of ?Q "db_tokens s''"] by (metis (no_types, lifting))
  moreover from none have "update_tokens ?Q f s'' = s''" for f by (simp add: update_tokens_def upd_where_none)
  ultimately show ?thesis by (simp add: ConsumeBootstrapToken_def Let_def)
qed

theorem bootstrap_token_single_use_witness:
  "\<exists>s'. ConsumeBootstrapToken ''h'' ''b'' ''fake'' ''p'' ''c'' demo_epoch demo_token = (Inr (), s')
     \<and> ConsumeBootstrapToken ''h'' ''b'' ''fake'' ''p'' ''c'' demo_epoch s' = (Inl ErrNotFound, s')"
proof -
  let ?r = "ConsumeBootstrapToken ''h'' ''b'' ''fake'' ''p'' ''c'' demo_epoch demo_token"
  have "fst ?r = Inr ()" by code_simp
  then have ok: "?r = (Inr (), snd ?r)" by (metis prod.collapse)
  from ok bootstrap_token_single_use [OF demo_token_reachable ok rtranclp.rtrancl_refl] show ?thesis by blast
qed



end
