(* ===== verification/SR_Protocol.thy ===== *)
theory SR_Protocol
  imports SR_SessionInv
begin

text \<open>
  The promises of the lease protocol, operation by operation: what expiry leaves behind, who may
  renew or complete, that a claim succeeds when the best candidate is free, that a claimed session
  job runs on its session's worker, and how long a retry is delayed.
\<close>

section \<open>Expiry\<close>

lemma expire_lease_removes:
  assumes inv: "lease_inv s" and "expire_lease now i s = Inr s'"
  shows "set (db_leases s') = {l \<in> set (db_leases s). l_AttemptID l \<noteq> i}"
  using assms(2)
proof (cases rule: expire_lease_cases)
  case skip
  have "l_AttemptID l \<noteq> i" if l: "l \<in> set (db_leases s)" for l
  proof
    assume "l_AttemptID l = i"
    then obtain a where a: "a \<in> set (db_attempts s)" "at_ID a = i" "active a"
      using inv l by (auto simp: lease_inv_def lease_rows_inv_def)
    then have "find (\<lambda>a. at_ID a = i \<and> active a) (db_attempts s) \<noteq> None" by (auto simp: find_None_iff)
    moreover have "\<forall>a \<in> set (db_attempts s). at_JobID a \<in> j_ID ` set (db_jobs s)"
      using inv by (simp add: lease_inv_def keys_inv_def)
    ultimately show False using skip(2) by (metis (no_types, lifting))
  qed
  with skip(1) show ?thesis by auto
next
  case (expire a r)
  obtain st nx where "expired_job_state a r now = (st, nx)" by (cases "expired_job_state a r now")
  from expire_active_Inr [OF expire(3) this] show ?thesis by auto
qed

lemma expire_leases_remove:
  assumes "foldM (expire_lease now) is s = Inr s'" and "lease_inv s"
  shows "set (db_leases s') = {l \<in> set (db_leases s). l_AttemptID l \<notin> set is}"
  using assms
proof (induction "is" arbitrary: s)
  case (Cons i "is")
  then obtain s1 where s1: "expire_lease now i s = Inr s1" "foldM (expire_lease now) is s1 = Inr s'"
    by (auto split: sum.splits)
  from Cons.IH [OF s1(2)] lease_inv_expire_lease [OF Cons.prems(2) s1(1)] expire_lease_removes [OF Cons.prems(2) s1(1)]
  show ?case by auto
qed auto

text \<open>Under the invariant the joined rows exist, so an iteration rewrites exactly the attempt it names.\<close>

lemma expire_lease_attempts:
  assumes inv: "store_inv s" and "expire_lease now i s = Inr s'"
  shows "db_attempts s' = upd_where (\<lambda>x. at_ID x = i \<and> active x) (ended AttemptExpired (Some lease_expired_failure) now) (db_attempts s)"
  using assms(2)
proof (cases rule: expire_lease_cases)
  case skip
  have "\<forall>a \<in> set (db_attempts s). at_JobID a \<in> j_ID ` set (db_jobs s)"
    using inv by (simp add: store_inv_def lease_inv_def keys_inv_def)
  with skip(2) have "\<forall>a \<in> set (db_attempts s). \<not> (at_ID a = i \<and> active a)" by (auto simp: find_None_iff)
  with skip(1) show ?thesis by (simp add: upd_where_none)
next
  case (expire x r)
  obtain st nx where "expired_job_state x r now = (st, nx)" by (cases "expired_job_state x r now")
  from expire_active_Inr [OF expire(3) this] show ?thesis by blast
qed

lemma store_inv_expire_lease: "store_inv s \<Longrightarrow> expire_lease now i s = Inr s' \<Longrightarrow> store_inv s'"
  using good_expire_lease by (simp add: good_def)

lemma expire_leases_attempts:
  assumes "foldM (expire_lease now) is s = Inr s'" and "store_inv s"
  shows "db_attempts s' = upd_where (\<lambda>x. at_ID x \<in> set is \<and> active x) (ended AttemptExpired (Some lease_expired_failure) now) (db_attempts s)"
  using assms
proof (induction "is" arbitrary: s)
  case (Cons i "is")
  then obtain s1 where s1: "expire_lease now i s = Inr s1" "foldM (expire_lease now) is s1 = Inr s'"
    by (auto split: sum.splits)
  have "\<not> active (ended AttemptExpired f now x)" for f x by (simp add: AttemptActive.simps)
  with Cons.IH [OF s1(2) store_inv_expire_lease [OF Cons.prems(2) s1(1)]] expire_lease_attempts [OF Cons.prems(2) s1(1)]
  show ?case by (auto simp: upd_where_def)
qed (simp add: upd_where_none)

lemma history_keeps_ended:
  assumes "history mv s s'" and "b \<in> set (db_attempts s)" and "\<not> active b"
  shows "b \<in> set (db_attempts s')"
proof -
  from assms(1) obtain G M where "db_attempts s' = map G (db_attempts s) @ M" "\<forall>a \<in> set (db_attempts s). attempt_effect a (G a)"
    unfolding history_def by blast
  moreover from this(2) assms(2,3) have "G b = b" by (auto simp: attempt_effect_def)
  ultimately show ?thesis using assms(2) by force
qed

text \<open>
  A successful sweep is complete and precise: afterwards no lease is past its expiry, the leases
  that were not due are untouched, and the attempts it reports are exactly those of the due leases,
  each ended with the state \<open>lease_expired\<close>.
\<close>

theorem expire_leases_complete:
  assumes "reachable s" and "ExpireLeases now s = (Inr is, s')"
  shows "set (db_leases s') = {l \<in> set (db_leases s). now < l_ExpiresAt l}
    \<and> set is = l_AttemptID ` {l \<in> set (db_leases s). l_ExpiresAt l \<le> now}
    \<and> db_attempts s' = upd_where (\<lambda>a. at_ID a \<in> set is)
        (\<lambda>a. a\<lparr>at_State := AttemptExpired, at_Failure := Some lease_expired_failure, at_EndedAt := Some now\<rparr>) (db_attempts s)"
proof -
  note inv = reachable_inv [OF assms(1)]
  then have lease: "lease_inv s" by (simp add: store_inv_def)
  from assms(2) have "is": "is = map l_AttemptID (sort_key l_ExpiresAt (filter (\<lambda>l. l_ExpiresAt l \<le> now) (db_leases s)))"
    and fold: "foldM (expire_lease now) is s = Inr s'"
    by (auto simp: ExpireLeases_def commit_def expireLeases_tx_def Let_def split: sum.splits)
  then have ids: "set is = l_AttemptID ` {l \<in> set (db_leases s). l_ExpiresAt l \<le> now}" by auto
  have act: "active a" if a: "a \<in> set (db_attempts s)" "at_ID a \<in> set is" for a
  proof -
    from a(2) ids obtain l where "l \<in> set (db_leases s)" "l_AttemptID l = at_ID a" by auto
    with lease obtain b where "b \<in> set (db_attempts s)" "at_ID b = at_ID a" "active b"
      by (fastforce simp: lease_inv_def lease_rows_inv_def)
    with attempts_same_id [OF lease] a(1) show ?thesis by metis
  qed
  have "l_AttemptID l \<in> set is \<longleftrightarrow> l_ExpiresAt l \<le> now" if "l \<in> set (db_leases s)" for l
    using ids that lease distinct_key_eq [of l_AttemptID "db_leases s"] by (auto simp: lease_inv_def keys_inv_def)
  with expire_leases_remove [OF fold lease] have leases: "set (db_leases s') = {l \<in> set (db_leases s). now < l_ExpiresAt l}"
    by auto
  from expire_leases_attempts [OF fold inv] act
  have "db_attempts s' = upd_where (\<lambda>a. at_ID a \<in> set is) (ended AttemptExpired (Some lease_expired_failure) now) (db_attempts s)"
    by (auto simp: upd_where_def)
  with ids leases show ?thesis by (simp add: ended_def [abs_def])
qed

theorem expire_leases_complete_witness:
  "fst (ExpireLeases (demo_epoch + 5) demo_leased) = Inr [''a-1'']
   \<and> set (db_leases (snd (ExpireLeases (demo_epoch + 5) demo_leased))) = {l \<in> set (db_leases demo_leased). demo_epoch + 5 < l_ExpiresAt l}"
proof -
  have ok: "fst (ExpireLeases (demo_epoch + 5) demo_leased) = Inr [''a-1'']" by code_simp
  then have "ExpireLeases (demo_epoch + 5) demo_leased = (Inr [''a-1''], snd (ExpireLeases (demo_epoch + 5) demo_leased))"
    by (metis prod.collapse)
  from expire_leases_complete [OF demo_leased_reachable this] ok show ?thesis by simp
qed

section \<open>Renewal and completion\<close>

text \<open>
  C14: a renewal succeeds exactly for the worker that holds the attempt's lease, while it has not
  expired; it then moves the expiry of that lease and changes nothing else, and otherwise it changes nothing.
\<close>

theorem renew_needs_live_lease:
  assumes "reachable s"
  shows "RenewLease now a w until s =
    (if \<exists>l \<in> set (db_leases s). l_AttemptID l = a \<and> l_WorkerID l = w \<and> now < l_ExpiresAt l
     then (Inr (), s\<lparr>db_leases := upd_where (\<lambda>l. l_AttemptID l = a) (\<lambda>l. l\<lparr>l_ExpiresAt := until\<rparr>) (db_leases s)\<rparr>)
     else (Inl ErrNotFound, s))"
proof -
  have inv: "lease_inv s" using reachable_inv [OF assms] by (simp add: store_inv_def)
  then have dist: "distinct (map l_AttemptID (db_leases s))" by (simp add: lease_inv_def keys_inv_def)
  let ?P = "\<lambda>l. l_AttemptID l = a \<and> l_WorkerID l = w \<and> l_ExpiresAt l > now
      \<and> (\<exists>x \<in> set (db_attempts s). at_ID x = a \<and> AttemptActive (at_State x))"
  have act: "\<exists>x \<in> set (db_attempts s). at_ID x = a \<and> active x" if "l \<in> set (db_leases s)" "l_AttemptID l = a" for l
    using inv that by (fastforce simp: lease_inv_def lease_rows_inv_def)
  show ?thesis
  proof (cases "\<exists>l \<in> set (db_leases s). l_AttemptID l = a \<and> l_WorkerID l = w \<and> now < l_ExpiresAt l")
    case True
    then obtain l where l: "l \<in> set (db_leases s)" "l_AttemptID l = a" "l_WorkerID l = w" "now < l_ExpiresAt l" by blast
    have only: "?P x \<longleftrightarrow> x = l" "l_AttemptID x = a \<longleftrightarrow> x = l" if "x \<in> set (db_leases s)" for x
      using that l act distinct_key_eq [OF dist that l(1)] by auto
    have "rows_affected ?P (db_leases s) = Suc 0" using only l(2) by (intro rows_affected_unique [OF dist l(1)]) auto
    moreover have "upd_where ?P f (db_leases s) = upd_where (\<lambda>l. l_AttemptID l = a) f (db_leases s)" for f
      unfolding upd_where_def using only by (intro map_cong) auto
    ultimately show ?thesis using True by (simp add: RenewLease_def RenewLease_tx_def commit0_def commit_def Let_def update_leases_def)
  next
    case False
    then have "\<not> (\<exists>l \<in> set (db_leases s). ?P l)" by blast
    then have "rows_affected ?P (db_leases s) = 0" using rows_affected_ex [of ?P "db_leases s"] by (metis (no_types, lifting))
    with False show ?thesis by (simp add: RenewLease_def RenewLease_tx_def commit0_def commit_def Let_def)
  qed
qed

theorem renew_needs_live_lease_witness:
  "reachable demo_leased \<and> fst (RenewLease (demo_epoch + 2) ''a-1'' ''w'' 9 demo_leased) = Inr ()
   \<and> RenewLease (demo_epoch + 3) ''a-1'' ''w'' 9 demo_leased = (Inl ErrNotFound, demo_leased)"
proof -
  have l: "map (\<lambda>l. (l_AttemptID l, l_WorkerID l, l_ExpiresAt l)) (db_leases demo_leased) = [(''a-1'', ''w'', demo_epoch + 3)]" by code_simp
  then show ?thesis
    by (cases "db_leases demo_leased") (simp_all add: renew_needs_live_lease [OF demo_leased_reachable] demo_leased_reachable)
qed

lemma commit0_Inr: "commit0 f s = (Inr (), s') \<longleftrightarrow> f s = Inr s'"
  by (auto simp: commit0_def commit_def split: sum.splits)

lemma ended_not_completable:
  assumes "reachable s" and "b \<in> set (db_attempts s)" and "at_ID b = cm_AttemptID c" and "\<not> active b"
  shows "\<exists>e. CompleteAttempt c s = (Inl e, s)"
  unfolding CompleteAttempt_def
proof (rule commit0_fails, rule notI)
  fix s' assume "CompleteAttempt_tx c s = Inr s'"
  then show False
  proof (rule CompleteAttempt_Inr)
    fix a assume "owned_attempt (cm_AttemptID c) (cm_WorkerID c) s = Some a" "CanAttemptTransition (at_State a) (cm_AttemptState c)"
    then have "a \<in> set (db_attempts s)" "at_ID a = cm_AttemptID c" "active a"
      by (auto simp: owned_attempt_def find_Some_iff dest: CanAttemptTransition_active)
    moreover have "lease_inv s" using reachable_inv [OF assms(1)] by (simp add: store_inv_def)
    ultimately show False using assms(2-) attempts_same_id by metis
  qed
qed

text \<open>
  C11: an attempt is completed at most once, and only by the worker that holds its lease before the
  lease expires. Once a completion succeeded, the attempt keeps the reported outcome through every later
  operation, and every other completion of it, by whatever worker, is rejected and changes nothing.
\<close>

theorem complete_exactly_once:
  assumes "reachable s" and "CompleteAttempt c s = (Inr (), s')" and "store_step\<^sup>*\<^sup>* s' s''"
    and "cm_AttemptID c' = cm_AttemptID c"
  shows "(\<exists>l \<in> set (db_leases s). l_AttemptID l = cm_AttemptID c \<and> l_WorkerID l = cm_WorkerID c \<and> cm_At c < l_ExpiresAt l)
    \<and> (\<exists>a \<in> set (db_attempts s''). at_ID a = cm_AttemptID c \<and> at_State a = cm_AttemptState c
         \<and> at_Failure a = cm_Failure c \<and> at_EndedAt a = Some (cm_At c))
    \<and> (\<exists>e. CompleteAttempt c' s'' = (Inl e, s''))"
proof -
  from assms(2) have tx: "CompleteAttempt_tx c s = Inr s'" by (simp add: CompleteAttempt_def commit0_Inr)
  obtain a l where a: "owned_attempt (cm_AttemptID c) (cm_WorkerID c) s = Some a"
    and terminal: "AttemptTerminal (cm_AttemptState c)"
    and l: "row_by l_AttemptID (cm_AttemptID c) (db_leases s) = Some l" "cm_At c < l_ExpiresAt l"
    and atts: "db_attempts s' = upd_where (\<lambda>x. at_ID x = cm_AttemptID c) (ended (cm_AttemptState c) (cm_Failure c) (cm_At c)) (db_attempts s)"
    by (rule CompleteAttempt_Inr [OF tx])
  have inv: "lease_inv s" using reachable_inv [OF assms(1)] by (simp add: store_inv_def)
  have a': "a \<in> set (db_attempts s)" "at_ID a = cm_AttemptID c" "at_WorkerID a = cm_WorkerID c"
    using a by (auto simp: owned_attempt_def find_Some_iff)
  have l': "l \<in> set (db_leases s)" "l_AttemptID l = cm_AttemptID c" using l(1) by (auto dest: row_byD)
  with inv obtain x where "x \<in> set (db_attempts s)" "at_ID x = cm_AttemptID c" "at_WorkerID x = l_WorkerID l"
    by (fastforce simp: lease_inv_def lease_rows_inv_def)
  with a' attempts_same_id [OF inv] have owner: "l_WorkerID l = cm_WorkerID c" by metis
  define b where "b = ended (cm_AttemptState c) (cm_Failure c) (cm_At c) a"
  have b: "b \<in> set (db_attempts s')" "\<not> active b"
    using a' terminal_not_active [OF terminal] unfolding atts b_def by (auto simp: in_upd_where intro!: bexI [of _ a])
  have r: "reachable s'" using reachable.step [OF assms(1) store_step.CompleteAttempt] assms(2) by (metis snd_conv)
  have r'': "reachable s''" and "history late_moves s' s''" using run_history [OF assms(3) r] by blast+
  then have b'': "b \<in> set (db_attempts s'')" using history_keeps_ended b by blast
  have id: "at_ID b = cm_AttemptID c'" using a' assms(4) by (simp add: b_def)
  from ended_not_completable [OF r'' b'' id b(2)] b'' l' l(2) owner a'(2) show ?thesis
    by (intro conjI bexI [of _ l] bexI [of _ b]) (auto simp: b_def ended_def)
qed

definition demo_completion :: Completion where
  "demo_completion = \<lparr>cm_AttemptID = ''a-1'', cm_WorkerID = ''w'', cm_AttemptState = AttemptSucceeded, cm_JobState = Some JobSucceeded,
     cm_Failure = None, cm_At = demo_epoch + 2, cm_Event = zero_Event\<rparr>"

theorem complete_exactly_once_witness:
  "\<exists>s'. CompleteAttempt demo_completion demo_leased = (Inr (), s') \<and> (\<exists>e. CompleteAttempt demo_completion s' = (Inl e, s'))"
proof -
  have "fst (CompleteAttempt demo_completion demo_leased) = Inr ()" by code_simp
  then have ok: "CompleteAttempt demo_completion demo_leased = (Inr (), snd (CompleteAttempt demo_completion demo_leased))"
    by (metis prod.collapse)
  from ok complete_exactly_once [OF demo_leased_reachable ok rtranclp.rtrancl_refl HOL.refl] show ?thesis by blast
qed

section \<open>Claims\<close>

lemma rank_candidate:
  assumes "scheduler (claim_rank r)" and "j \<in> set (claim_ranked r box s)"
  shows "\<exists>x \<in> set (db_jobs s). j = job_of_row x [] [] \<and> j_State x = JobQueued"
proof -
  have "j \<in> set (claimable (cr_Now r) s)"
    using scheduler.rank_sub [OF assms(1)] assms(2) unfolding claim_ranked_def by fastforce
  then show ?thesis by (auto simp: claimable_def)
qed

lemma claim_capacity_Inr:
  "claim_capacity r0 s = Inr r \<Longrightarrow> w_ID (cr_Worker r) = w_ID (cr_Worker r0) \<and> cr_SandboxID r = cr_SandboxID r0
     \<and> cr_Now r = cr_Now r0 \<and> cr_LeaseDuration r = cr_LeaseDuration r0 \<and> cr_Capacity r = cr_Capacity r0
     \<and> cr_Scheduler r = cr_Scheduler r0"
  by (auto simp: claim_capacity_def split: if_splits option.splits)

lemma take_slot_free:
  assumes "distinct (map w_ID (db_workers s))" and "w \<in> set (db_workers s)" and "w_ID w = w_ID (cr_Worker r)"
    and "cr_Capacity r > 0 \<Longrightarrow> w_AvailableSlots w > 0"
  shows "\<exists>ws. take_slot r s = Inr (s\<lparr>db_workers := ws\<rparr>) \<and> map w_ID ws = map w_ID (db_workers s)"
proof (cases "cr_Capacity r > 0")
  case True
  let ?P = "\<lambda>x. w_ID x = w_ID (cr_Worker r) \<and> w_AvailableSlots x > 0"
  have "rows_affected ?P (db_workers s) = Suc 0"
    using distinct_key_eq [OF assms(1) _ assms(2)] assms(3,4) True
    by (intro rows_affected_unique [OF assms(1,2)]) auto
  with True show ?thesis by (auto simp: take_slot_def Let_def update_workers_def map_upd_where)
next
  case False
  then show ?thesis by (auto simp: take_slot_def intro!: exI [of _ "db_workers s"])
qed

text \<open>The number a claim gives its attempt is new, so no uniqueness constraint can stop it.\<close>

lemma next_attempt_fresh:
  assumes "lease_inv s" and "x \<in> set (db_jobs s)" and "j_State x = JobQueued"
  defines "n \<equiv> next_number (\<lambda>a. at_JobID a = j_ID x) at_Number (db_attempts s)"
  shows "attempt_id (j_ID x) n \<notin> at_ID ` set (db_attempts s)"
    and "(j_ID x, n) \<notin> (\<lambda>a. (at_JobID a, at_Number a)) ` set (db_attempts s)"
    and "a \<in> set (db_attempts s) \<Longrightarrow> at_JobID a = j_ID x \<Longrightarrow> \<not> active a"
    and "l \<in> set (db_leases s) \<Longrightarrow> l_AttemptID l \<noteq> attempt_id (j_ID x) n"
    and "l \<in> set (db_leases s) \<Longrightarrow> l_ID l \<noteq> lease_id (attempt_id (j_ID x) n)"
proof -
  have fresh: "at_Number a \<noteq> n" if "a \<in> set (db_attempts s)" "at_JobID a = j_ID x" for a
    using next_number_fresh [of a "db_attempts s" "\<lambda>a. at_JobID a = j_ID x" at_Number] that by (simp add: n_def)
  have ids: "at_ID a = attempt_id (at_JobID a) (at_Number a)" if "a \<in> set (db_attempts s)" for a
    using assms(1) that by (simp add: lease_inv_def keys_inv_def)
  show 1: "attempt_id (j_ID x) n \<notin> at_ID ` set (db_attempts s)"
  proof
    assume "attempt_id (j_ID x) n \<in> at_ID ` set (db_attempts s)"
    then obtain a where a: "a \<in> set (db_attempts s)" "attempt_id (at_JobID a) (at_Number a) = attempt_id (j_ID x) n"
      using ids by (metis imageE)
    then have "at_JobID a = j_ID x \<and> at_Number a = n" unfolding attempt_id_def by (intro numbered_id_inj)
    with fresh a(1) show False by blast
  qed
  show "(j_ID x, n) \<notin> (\<lambda>a. (at_JobID a, at_Number a)) ` set (db_attempts s)" by auto (metis fresh)
  show "a \<in> set (db_attempts s) \<Longrightarrow> at_JobID a = j_ID x \<Longrightarrow> \<not> active a"
  proof
    assume a: "a \<in> set (db_attempts s)" "at_JobID a = j_ID x" "active a"
    moreover have "active_inv s" using assms(1) by (simp add: lease_inv_def)
    ultimately have "running_state (j_State x)" using assms(2) unfolding active_inv_def by blast
    with assms(3) show False by (simp add: running_state_def)
  qed
  show 2: "l_AttemptID l \<noteq> attempt_id (j_ID x) n" if "l \<in> set (db_leases s)" for l
    using assms(1) that 1 unfolding lease_inv_def lease_rows_inv_def by (metis imageI)
  show "l_ID l \<noteq> lease_id (attempt_id (j_ID x) n)" if "l \<in> set (db_leases s)" for l
    using assms(1) that 2 [OF that] unfolding lease_inv_def lease_rows_inv_def lease_id_def by fastforce
qed

lemma lease_job_succeeds:
  assumes inv: "lease_inv s" and dist: "distinct (map w_ID (db_workers s))"
    and w: "w \<in> set (db_workers s)" "w_ID w = w_ID (cr_Worker r)" "cr_Capacity r > 0 \<Longrightarrow> w_AvailableSlots w > 0"
    and box: "cr_SandboxID r \<in> b_ID ` set (db_sandboxes s)"
    and x: "x \<in> set (db_jobs s)" "j_State x = JobQueued" and j: "j_ID j = j_ID x" "j_SessionID j = ''''"
  shows "\<exists>a s'. lease_job r j s = Inr (Some (a, j\<lparr>j_State := JobLeased, j_Attempts := [a]\<rparr>), s')"
proof -
  let ?P = "\<lambda>y. j_ID y = j_ID j \<and> j_State y = JobQueued"
  define n where "n = next_number (\<lambda>a. at_JobID a = j_ID x) at_Number (db_attempts s)"
  note new = next_attempt_fresh [OF inv x, folded n_def]
  define s1 where "s1 = update_jobs ?P (\<lambda>y. y\<lparr>j_State := JobLeased, j_UpdatedAt := cr_Now r\<rparr>) s"
  have some: "rows_affected ?P (db_jobs s) \<noteq> 0" using x j by (subst rows_affected_ex) auto
  have dist1: "distinct (map w_ID (db_workers s1))" and w1: "w \<in> set (db_workers s1)"
    using dist w(1) by (simp_all add: s1_def update_jobs_def)
  obtain ws where ws: "take_slot r s1 = Inr (s1\<lparr>db_workers := ws\<rparr>)" "map w_ID ws = map w_ID (db_workers s)"
    using take_slot_free [OF dist1 w1 w(2,3)] by (auto simp: s1_def update_jobs_def)
  have wid: "w_ID (cr_Worker r) \<in> w_ID ` set ws" using ws(2) w(1,2) by (metis image_eqI list.set_map)
  have jid: "j_ID x \<in> j_ID ` set (db_jobs s1)"
    using jobs.key_set_update [of "\<lambda>y. y\<lparr>j_State := JobLeased, j_UpdatedAt := cr_Now r\<rparr>" ?P s] x(1) by (simp add: s1_def)
  let ?s2 = "s1\<lparr>db_workers := ws\<rparr>"
  let ?row = "attempt_row r (j_ID x) n"
  have t: "db_attempts s1 = db_attempts s" "db_leases s1 = db_leases s" "db_sandboxes s1 = db_sandboxes s"
    by (simp_all add: s1_def update_jobs_def)
  have ins: "insert_attempt ?row ?s2 = Inr (?s2\<lparr>db_attempts := db_attempts s @ [?row]\<rparr>)"
    using new(1-3) wid jid box by (auto simp: insert_attempt_def attempt_row_def t)
  have ins2: "insert_lease (at_Lease (new_attempt r (j_ID x) n)) (?s2\<lparr>db_attempts := db_attempts s @ [?row]\<rparr>)
      = Inr (?s2\<lparr>db_attempts := db_attempts s @ [?row], db_leases := db_leases s @ [at_Lease (new_attempt r (j_ID x) n)]\<rparr>)"
  proof -
    have "lease_id (attempt_id (j_ID x) n) \<notin> l_ID ` set (db_leases s)" "attempt_id (j_ID x) n \<notin> l_AttemptID ` set (db_leases s)"
      using new(4,5) by (metis imageE)+
    with wid show ?thesis by (simp add: insert_lease_def attempt_row_def new_attempt_def t)
  qed
  from some ws(1) ins ins2 j(2) show ?thesis
    unfolding lease_job_def Let_def j(1) n_def [symmetric] s1_def [symmetric, unfolded j(1)] by auto
qed

text \<open>
  C12: a claim does not come back empty-handed: when the worker is registered, unreserved and has a
  free slot, and the first job its scheduler ranks belongs to no session, the claim leases exactly that job to the worker,
  for the requested duration. The one assumption on the scheduler is that it ranks only jobs it was offered.
\<close>

theorem claim_leases_first_ranked:
  assumes "reachable s" and "scheduler (claim_rank r0)" and "claim_capacity r0 s = Inr r"
    and "getSandbox (cr_SandboxID r0) s = Inr box" and "claim_ranked r box s = j # js" and "j_SessionID j = ''''"
    and "GetWorker (w_ID (cr_Worker r0)) s = Inr w" and "w_ReservedSessionID w = ''''"
    and "cr_Capacity r0 > 0 \<longrightarrow> w_AvailableSlots w > 0"
  shows "\<exists>a s'. ClaimNextJob r0 s = (Inr (a, j\<lparr>j_State := JobLeased, j_Attempts := [a]\<rparr>), s')
    \<and> at_JobID a = j_ID j \<and> at_WorkerID a = w_ID (cr_Worker r0) \<and> at_Lease a \<in> set (db_leases s')
    \<and> l_ExpiresAt (at_Lease a) = cr_Now r0 + cr_LeaseDuration r0"
proof -
  note r = claim_capacity_Inr [OF assms(3)]
  have inv: "lease_inv s" using reachable_inv [OF assms(1)] by (simp add: store_inv_def)
  have dist: "distinct (map w_ID (db_workers s))" using reachable_infra_keys [OF assms(1)] by (simp add: infra_keys_def)
  from assms(7) have w: "row_by w_ID (w_ID (cr_Worker r)) (db_workers s) = Some w" by (simp add: GetWorker_def r)
  then have w': "w \<in> set (db_workers s)" "w_ID w = w_ID (cr_Worker r)" by (auto dest: row_byD)
  have box: "cr_SandboxID r \<in> b_ID ` set (db_sandboxes s)" using assms(4) by (auto simp: getSandbox_def r dest: row_by_in)
  have "claim_rank r = claim_rank r0" by (simp add: claim_rank_def r)
  with assms(2,5) obtain x where x: "x \<in> set (db_jobs s)" "j = job_of_row x [] []" "j_State x = JobQueued"
    using rank_candidate [of r j box s] by auto
  have "\<exists>a s'. lease_job r j s = Inr (Some (a, j\<lparr>j_State := JobLeased, j_Attempts := [a]\<rparr>), s')"
    by (rule lease_job_succeeds [OF inv dist w' _ box x(1,3)]) (use assms(6,9) x(2) r in simp_all)
  then obtain a s' where lease: "lease_job r j s = Inr (Some (a, j\<lparr>j_State := JobLeased, j_Attempts := [a]\<rparr>), s')" by blast
  have "session_gate r j (w_ReservedSessionID w) s = Inr (True, s)" using assms(6,8) by (simp add: session_gate_def)
  with lease w have "claim_loop r (j # js) s = Inr ((a, j\<lparr>j_State := JobLeased, j_Attempts := [a]\<rparr>), s')" by simp
  with assms(3-5) r have "ClaimNextJob r0 s = (Inr (a, j\<lparr>j_State := JobLeased, j_Attempts := [a]\<rparr>), s')"
    by (simp add: ClaimNextJob_def ClaimNextJob_tx_def commit_def del: claim_loop.simps)
  with lease_job_Inr(1,7) [OF lease] r show ?thesis by (auto simp: new_attempt_def)
qed

text \<open>A registered worker with its sandbox, before it claims.\<close>

definition demo_register :: "DB \<Rightarrow> DB" where
  "demo_register s = snd (UpsertSandbox demo_epoch demo_sandbox (snd (UpsertWorker demo_epoch demo_worker s)))"

definition demo_ready :: DB where
  "demo_ready = demo_register demo_two_jobs"

lemma demo_register_reachable: "reachable s \<Longrightarrow> reachable (demo_register s)"
  unfolding demo_register_def by (rule reachable.step [OF reachable.step [OF _ store_step.UpsertWorker] store_step.UpsertSandbox])

lemma offered_is_scheduler: "scheduler rq_Jobs"
  by unfold_locales

theorem claim_leases_first_ranked_witness:
  "\<exists>a j s'. ClaimNextJob demo_claim demo_ready = (Inr (a, j), s') \<and> at_JobID a = ''a''"
proof -
  let ?cap = "claim_capacity demo_claim demo_ready"
  let ?box = "getSandbox (cr_SandboxID demo_claim) demo_ready"
  let ?w = "GetWorker (w_ID (cr_Worker demo_claim)) demo_ready"
  have r: "reachable demo_ready" unfolding demo_ready_def by (rule demo_register_reachable [OF demo_two_jobs_reachable])
  have "\<not> isl ?cap" "\<not> isl ?box" "\<not> isl ?w" by code_simp+
  then have cap: "?cap = Inr (projr ?cap)" and box: "?box = Inr (projr ?box)" and w: "?w = Inr (projr ?w)" by simp_all
  have "map j_ID (claim_ranked (projr ?cap) (projr ?box) demo_ready) = [''a'']"
    "map j_SessionID (claim_ranked (projr ?cap) (projr ?box) demo_ready) = ['''']" by code_simp+
  then obtain j where j: "claim_ranked (projr ?cap) (projr ?box) demo_ready = [j]" "j_ID j = ''a''" "j_SessionID j = ''''" by auto
  have "w_ReservedSessionID (projr ?w) = ''''" "cr_Capacity demo_claim > 0 \<longrightarrow> w_AvailableSlots (projr ?w) > 0" by code_simp+
  moreover have "scheduler (claim_rank demo_claim)" using offered_is_scheduler by (simp add: claim_rank_def demo_claim_def)
  ultimately obtain a s' where "ClaimNextJob demo_claim demo_ready = (Inr (a, j\<lparr>j_State := JobLeased, j_Attempts := [a]\<rparr>), s')" "at_JobID a = j_ID j"
    using claim_leases_first_ranked [OF r _ cap box j(1,3) w] by blast
  with j(2) show ?thesis by auto
qed

lemma session_gate_session:
  assumes "session_gate r j reserved s = Inr (True, s')" and "j_SessionID j \<noteq> ''''"
  shows "\<exists>v \<in> set (db_sessions s'). s_ID v = j_SessionID j \<and>
    (s_State v = SessionActive \<and> s_WorkerID v = w_ID (cr_Worker r) \<and> s_SandboxID v = cr_SandboxID r
     \<or> s_State v = SessionRecovering \<and> has_prefix (j_ID j) (rebuild_prefix (s_ID v) (s_Epoch v)))"
proof -
  from assms obtain v where v: "row_by s_ID (j_SessionID j) (db_sessions s) = Some v" by (auto simp: session_gate_def)
  then have v': "v \<in> set (db_sessions s)" "s_ID v = j_SessionID j" by (auto dest: row_byD)
  show ?thesis
  proof (cases "s_State v = SessionPending")
    case True
    let ?f = "\<lambda>x. x\<lparr>s_WorkerID := w_ID (cr_Worker r), s_SandboxID := cr_SandboxID r, s_State := SessionActive,
        s_LastActivity := cr_Now r, s_IdleExpiresAt := idle_expiry (cr_Now r) (s_IdleTTL v)\<rparr>"
    from assms v True have "bind_pending r v s = (True, s')" by (auto simp: session_gate_def split: if_splits)
    then have "db_sessions s' = upd_where (\<lambda>x. s_ID x = s_ID v \<and> s_State x = SessionPending) ?f (db_sessions s)"
      by (auto simp: bind_pending_def Let_def stmt_defs split: if_splits)
    then have "?f v \<in> set (db_sessions s')" using v'(1) True by (auto simp: in_upd_where intro!: bexI [of _ v])
    with v'(2) show ?thesis by (intro bexI [of _ "?f v"]) simp_all
  next
    case False
    with assms v have "s' = s \<and> (s_State v = SessionActive \<and> s_WorkerID v = w_ID (cr_Worker r) \<and> s_SandboxID v = cr_SandboxID r
        \<or> s_State v = SessionRecovering \<and> has_prefix (j_ID j) (rebuild_prefix (j_SessionID j) (s_Epoch v)))"
      by (simp add: session_gate_def split: if_splits)
    with v' show ?thesis by metis
  qed
qed

text \<open>
  C13: a claimed job of a session is bound to it: the session is not closed or lost; an active session
  runs it on the session's own worker and sandbox, and a pending one has just been bound to the claiming worker.
\<close>

theorem claim_session_affinity:
  assumes "reachable s" and "ClaimNextJob r s = (Inr (a, j), s')" and "j_SessionID j \<noteq> ''''"
  shows "\<exists>v \<in> set (db_sessions s'). s_ID v = j_SessionID j \<and>
    (s_State v = SessionActive \<and> s_WorkerID v = at_WorkerID a \<and> s_SandboxID v = at_SandboxID a
     \<or> s_State v = SessionRecovering \<and> has_prefix (j_ID j) (rebuild_prefix (s_ID v) (s_Epoch v)))"
proof -
  from assms(2) have tx: "ClaimNextJob_tx r s = Inr ((a, j), s')" by (auto simp: ClaimNextJob_def commit_def split: sum.splits)
  obtain r' j0 s0 s1 k where r': "claim_capacity r s = Inr r'" and core: "same_core s s0"
    and gate: "session_gate r' j0 k s0 = Inr (True, s1)"
    and lease: "lease_job r' j0 s1 = Inr (Some (a, j), s')" by (rule ClaimNextJob_Inr [OF tx]) (rule that)
  note eff = lease_job_Inr [OF lease]
  have sid: "j_SessionID j0 \<noteq> ''''" and id: "j_SessionID j = j_SessionID j0" "j_ID j = j_ID j0" using assms(3) eff(2) by simp_all
  let ?ok = "\<lambda>v. s_State v = SessionActive \<and> s_WorkerID v = at_WorkerID a \<and> s_SandboxID v = at_SandboxID a
     \<or> s_State v = SessionRecovering \<and> has_prefix (j_ID j) (rebuild_prefix (s_ID v) (s_Epoch v))"
  have at: "at_WorkerID a = w_ID (cr_Worker r')" "at_SandboxID a = cr_SandboxID r'" using eff(1) by (simp_all add: new_attempt_def)
  from session_gate_session [OF gate sid] at id have "\<exists>v \<in> set (db_sessions s1). s_ID v = j_SessionID j0 \<and> ?ok v" by metis
  then obtain v where v: "v \<in> set (db_sessions s1)" "s_ID v = j_SessionID j0" "?ok v" by blast
  from eff(16) show ?thesis
  proof
    assume "db_sessions s' = db_sessions s1"
    with v id show ?thesis by auto
  next
    assume "\<exists>idle. db_sessions s' = db_sessions (touch_session (j_SessionID j0) (cr_Now r') idle s1)"
    then obtain idle where "db_sessions s' = db_sessions (touch_session (j_SessionID j0) (cr_Now r') idle s1)" ..
    then have "db_sessions s' = upd_where (\<lambda>x. s_ID x = j_SessionID j0 \<and> s_State x = SessionActive)
        (\<lambda>x. x\<lparr>s_LastActivity := cr_Now r', s_IdleExpiresAt := idle_expiry (cr_Now r') idle\<rparr>) (db_sessions s1)"
      by (simp add: touch_session_def update_sessions_def)
    with v(1) have new: "(if s_ID v = j_SessionID j0 \<and> s_State v = SessionActive
        then v\<lparr>s_LastActivity := cr_Now r', s_IdleExpiresAt := idle_expiry (cr_Now r') idle\<rparr> else v) \<in> set (db_sessions s')"
      by (simp only: in_upd_where) blast
    show ?thesis by (rule bexI [OF _ new]) (use v id in auto)
  qed
qed

definition demo_affine :: DB where
  "demo_affine = demo_register (snd (CreateJob demo_epoch ((demo_submit ''a'' [] 0)\<lparr>j_SessionID := ''s''\<rparr>)
     (snd (CreateSession demo_epoch (zero_Session\<lparr>s_ID := ''s'', s_Pool := ''p''\<rparr>) empty_db))))"

lemma demo_affine_reachable: "reachable demo_affine"
  unfolding demo_affine_def
  by (intro demo_register_reachable reachable.step [OF reachable.step [OF reachable.start store_step.CreateSession] store_step.CreateJob])
    (simp add: demo_submit_def)

theorem claim_session_affinity_witness:
  "\<exists>a j s'. ClaimNextJob demo_claim demo_affine = (Inr (a, j), s') \<and> (\<exists>v \<in> set (db_sessions s'). s_ID v = ''s'')"
proof -
  let ?c = "ClaimNextJob demo_claim demo_affine"
  have "\<not> isl (fst ?c)" by code_simp
  then have c: "?c = (Inr (fst (projr (fst ?c)), snd (projr (fst ?c))), snd ?c)" by (metis prod.collapse sum.collapse(2))
  have sid: "j_SessionID (snd (projr (fst ?c))) = ''s''" by code_simp
  have "\<exists>v \<in> set (db_sessions (snd ?c)). s_ID v = ''s''"
    using claim_session_affinity [OF demo_affine_reachable c] unfolding sid by (metis list.distinct(1))
  with c show ?thesis by blast
qed

section \<open>Retry delays\<close>

lemma backoff_loop_doubles:
  assumes "0 < d" and "0 < maximum" and "maximum \<le> 36028797018963968"
  shows "0 < backoff_loop k d maximum \<and> min maximum (backoff_loop k d maximum) = min maximum (d * 2 ^ k)"
  using assms(1)
proof (induction k arbitrary: d)
  case (Suc k)
  show ?case
  proof (cases "d < maximum")
    case True
    with assms(3) have "int64 (d * 2) = d * 2" using Suc.prems by (intro int64_id) (simp_all add: min_int64_def max_int64_def)
    with True assms Suc.IH [of "d * 2"] Suc.prems show ?thesis by (simp add: algebra_simps)
  next
    case False
    have "d * 1 \<le> d * 2 ^ Suc k" using Suc.prems by (intro mult_left_mono one_le_power) simp_all
    with False have "maximum \<le> d * 2 ^ Suc k" by linarith
    with False Suc.prems assms show ?thesis by (simp add: min_def)
  qed
qed simp

text \<open>
  The delay before a retry: the base backoff doubled for every attempt already made, capped at the
  maximum, plus a jitter of at most a quarter that depends only on the attempt's identifier. The bound of
  about 417 days on the maximum rules 64-bit overflow out.
\<close>

theorem retry_delay_spec:
  fixes n :: nat and i :: AttemptID
  assumes "0 < base" and "0 < maximum" and "maximum \<le> 36028797018963968"
  defines "D \<equiv> min maximum (base * 2 ^ (n - 1))"
  shows "retryDelay base maximum n i = D + D * (uint (fnv32a i) mod 251) div 1000
    \<and> D \<le> retryDelay base maximum n i \<and> retryDelay base maximum n i \<le> D + D div 4"
proof -
  define h where "h = uint (fnv32a i) mod 251"
  have h: "0 \<le> h" "h \<le> 250" using pos_mod_bound [of 251 "uint (fnv32a i)"] by (simp_all add: h_def)
  note loop = backoff_loop_doubles [OF assms(1-3), of "n - 1"]
  have D: "0 < D" "D \<le> 36028797018963968" using assms(1-3) by (simp_all add: D_def)
  have cap: "(if maximum > 0 \<and> backoff_loop (n - 1) base maximum > maximum then maximum else backoff_loop (n - 1) base maximum) = D"
    using loop assms(2) unfolding D_def by (simp add: min_def split: if_splits)
  have prod: "0 \<le> D * h" "D * h \<le> D * 250" using D h by (simp_all add: mult_left_mono)
  have j: "0 \<le> D * h div 1000" "D * h div 1000 \<le> D div 4" using prod by (simp_all add: pos_imp_zdiv_nonneg_iff)
  have "D * h < 18446744073709551616" using D(2) prod(2) by linarith
  then have u: "uint64 D = D" "uint64 (D * h) = D * h" using D prod(1) by (simp_all add: uint64_def)
  have "int64 (D * h div 1000) = D * h div 1000" "int64 (D + D * h div 1000) = D + D * h div 1000"
    using D j by (intro int64_id; simp add: min_int64_def max_int64_def; linarith)+
  then have "retryDelay base maximum n i = D + D * h div 1000"
    using assms(1) unfolding retryDelay_def Let_def cap h_def [symmetric] by (simp add: u)
  with j show ?thesis by (simp add: h_def)
qed

theorem retry_delay_spec_witness:
  "retryDelay second (60 * second) 3 ''a-3'' = 4 * second + 4 * second * (uint (fnv32a ''a-3'') mod 251) div 1000"
proof -
  have "min (60 * second) (second * 2 ^ (3 - 1)) = 4 * second" by (simp add: second_def)
  with retry_delay_spec [of second "60 * second" 3 "''a-3''"] show ?thesis by (simp add: second_def)
qed

end
