(* ===== verification/SR_Provider.thy ===== *)
theory SR_Provider
  imports SR_Domain
begin

text \<open>
  The package \<^verbatim>\<open>internal/sandbox\<close>: sandboxes as a provider reports them, the classified errors of
  \<^verbatim>\<open>errors.go\<close>, the registry, and the in-memory provider of \<^verbatim>\<open>internal/sandbox/fake\<close>.

  A provider is a record of operations over the state \<open>'p\<close> of everything outside the control plane:
  each call may fail and may change that state. The cloud adapters are such records; what the
  program expects of them is the locale \<open>sandbox_provider\<close>, the contract of
  \<^verbatim>\<open>providertest/contract.go\<close>, which the fake provider meets.
\<close>

section \<open>Data\<close>

record CreateSpec =
  sp_SandboxID :: SandboxID
  sp_WorkerID :: WorkerID
  sp_SandboxProvider :: string
  sp_ControlPlaneURL :: string
  sp_BootstrapToken :: string
  sp_Image :: string
  sp_Template :: string
  sp_CPUClass :: string
  sp_MemoryClass :: string
  sp_Architecture :: Architecture
  sp_Region :: string
  sp_WorkerMaxConcurrency :: int
  sp_Environment :: strmap
  sp_BootstrapCommand :: "string list"
  sp_BootstrapArtifact :: string
  sp_MaxLifetime :: duration
  sp_Capabilities :: Capabilities
  sp_Labels :: strmap

record PSandbox =
  ps_ID :: SandboxID
  ps_Provider :: string
  ps_ExternalID :: string
  ps_WorkerID :: WorkerID
  ps_State :: string
  ps_Capabilities :: Capabilities
  ps_Labels :: strmap
  ps_Metadata :: strmap
  ps_CreatedAt :: time

record Filter =
  fl_WorkerID :: WorkerID
  fl_States :: "string list"
  fl_Labels :: strmap

definition no_filter :: Filter where
  "no_filter = \<lparr>fl_WorkerID = '''', fl_States = [], fl_Labels = []\<rparr>"

definition Matches :: "PSandbox \<Rightarrow> Filter \<Rightarrow> bool" where
  "Matches item filt \<longleftrightarrow>
     \<not> (fl_WorkerID filt \<noteq> '''' \<and> ps_WorkerID item \<noteq> fl_WorkerID filt)
   \<and> (fl_States filt = [] \<or> list_ex (\<lambda>state. ps_State item = state) (fl_States filt))
   \<and> list_all (\<lambda>(key, value). get_str (ps_Labels item) key = value) (fl_Labels filt)"

section \<open>Errors\<close>

datatype ErrorCode =
    CodeUnset | CodeInvalid | CodeNotFound | CodeConflict | CodeCapacity | CodeAuthentication
  | CodeUnavailable | CodeInternal

datatype Sentinel =
    SbErrInvalid | SbErrNotFound | SbErrConflict | SbErrCapacity | SbErrAuthentication
  | SbErrUnavailable | SbErrInternal

text \<open>A \<^verbatim>\<open>ProviderError\<close> with its cause, one of the package's sentinels, or any other error.\<close>

datatype SbError =
    ProviderError (pe_Provider: string) (pe_Operation: string) (pe_SandboxID: string) (pe_Code: ErrorCode) (pe_Err: "SbError option")
  | SentinelErr Sentinel
  | OtherErr string

fun code_Is :: "ErrorCode \<Rightarrow> Sentinel \<Rightarrow> bool" where
  "code_Is CodeInvalid target = (target = SbErrInvalid)"
| "code_Is CodeNotFound target = (target = SbErrNotFound)"
| "code_Is CodeConflict target = (target = SbErrConflict)"
| "code_Is CodeCapacity target = (target = SbErrCapacity)"
| "code_Is CodeAuthentication target = (target = SbErrAuthentication)"
| "code_Is CodeUnavailable target = (target = SbErrUnavailable)"
| "code_Is CodeInternal target = (target = SbErrInternal)"
| "code_Is CodeUnset target = False"

text \<open>\<^verbatim>\<open>errors.Is\<close>: the error itself, its \<^verbatim>\<open>Is\<close> method, then its cause.\<close>

fun errors_Is :: "SbError \<Rightarrow> Sentinel \<Rightarrow> bool" where
  "errors_Is (ProviderError p operation i code cause) target \<longleftrightarrow> code_Is code target
     \<or> (case cause of None \<Rightarrow> False | Some e \<Rightarrow> errors_Is e target)"
| "errors_Is (SentinelErr s) target \<longleftrightarrow> s = target"
| "errors_Is (OtherErr _) target \<longleftrightarrow> False"

definition NewError :: "string \<Rightarrow> string \<Rightarrow> ErrorCode \<Rightarrow> SbError \<Rightarrow> SbError" where
  "NewError provider operation code err = ProviderError provider operation '''' code (Some err)"

section \<open>Providers\<close>

text \<open>
  The two snapshot operations are the optional \<^verbatim>\<open>Snapshotter\<close> interface; their reader and writer are the
  snapshot's content.
\<close>

record 'p Provider =
  pv_Create :: "CreateSpec \<Rightarrow> 'p \<Rightarrow> (SbError + PSandbox) \<times> 'p"
  pv_Get :: "SandboxID \<Rightarrow> 'p \<Rightarrow> (SbError + PSandbox) \<times> 'p"
  pv_List :: "Filter \<Rightarrow> 'p \<Rightarrow> (SbError + PSandbox list) \<times> 'p"
  pv_Terminate :: "SandboxID \<Rightarrow> 'p \<Rightarrow> (SbError + unit) \<times> 'p"
  pv_CreateSnapshot :: "(SandboxID \<Rightarrow> 'p \<Rightarrow> (SbError + string) \<times> 'p) option"
  pv_RestoreSnapshot :: "(CreateSpec \<Rightarrow> string \<Rightarrow> 'p \<Rightarrow> (SbError + PSandbox) \<times> 'p) option"

section \<open>Registry\<close>

record ProviderConfig =
  pc_Type :: string
  pc_Config :: strmap

type_synonym 'v Registry = "(string \<times> 'v) list"

text \<open>The configuration map is walked in any order; the list is the order one run takes.\<close>

fun NewRegistry :: "(string \<times> ProviderConfig) list \<Rightarrow> (string \<times> (strmap \<Rightarrow> SbError + 'v)) list \<Rightarrow> SbError + 'v Registry" where
  "NewRegistry [] factories = Inr []"
| "NewRegistry ((name, entry) # config) factories =
    (if name = '''' \<or> pc_Type entry = '''' then Inl (SentinelErr SbErrInvalid)
     else case map_of factories (pc_Type entry) of
       None \<Rightarrow> Inl (SentinelErr SbErrInvalid)
     | Some factory \<Rightarrow>
         rbind (factory (pc_Config entry)) (\<lambda>provider.
         rbind (NewRegistry config factories) (\<lambda>r. Inr ((name, provider) # r))))"

definition Registry_Get :: "'v Registry \<Rightarrow> string \<Rightarrow> SbError + 'v" where
  "Registry_Get r name = (case map_of r name of None \<Rightarrow> Inl (SentinelErr SbErrNotFound) | Some p \<Rightarrow> Inr p)"

definition Registry_Names :: "'v Registry \<Rightarrow> string list" where
  "Registry_Names r = sort (map fst r)"

section \<open>The fake provider\<close>

record FakeProvider =
  fk_next :: nat
  fk_items :: "(SandboxID \<times> PSandbox) list"
  fk_capacity :: int
  fk_createDelay :: duration
  fk_createCalls :: nat
  fk_createError :: ErrorCode
  fk_snapshots :: "(SandboxID \<times> string) list"

text \<open>
  A context: the error it already has, and the one it gets while a create is delayed. The clock and
  the context of a call are arguments.
\<close>

record Ctx =
  ctx_Err :: "SbError option"
  ctx_Later :: "SbError option"

definition background :: Ctx where
  "background = \<lparr>ctx_Err = None, ctx_Later = None\<rparr>"

definition fake_New :: FakeProvider where
  "fake_New = \<lparr>fk_next = 0, fk_items = [], fk_capacity = 0, fk_createDelay = 0, fk_createCalls = 0,
     fk_createError = CodeUnset, fk_snapshots = []\<rparr>"

definition fake_item :: "time \<Rightarrow> SandboxID \<Rightarrow> CreateSpec \<Rightarrow> PSandbox" where
  "fake_item now i spec = \<lparr>ps_ID = i, ps_Provider = ''fake'', ps_ExternalID = i, ps_WorkerID = sp_WorkerID spec,
     ps_State = ''running'', ps_Capabilities = sp_Capabilities spec, ps_Labels = sp_Labels spec,
     ps_Metadata = [(''image'', sp_Image spec), (''template'', sp_Template spec)], ps_CreatedAt = now\<rparr>"

definition fake_Create :: "Ctx \<Rightarrow> time \<Rightarrow> CreateSpec \<Rightarrow> FakeProvider \<Rightarrow> (SbError + PSandbox) \<times> FakeProvider" where
  "fake_Create ctx now spec p =
    (case ctx_Err ctx of Some e \<Rightarrow> (Inl e, p)
     | None \<Rightarrow>
       if sp_WorkerID spec = '''' \<or> sp_ControlPlaneURL spec = '''' \<or> sp_BootstrapToken spec = ''''
       then (Inl (NewError ''fake'' ''create'' CodeInvalid
              (OtherErr ''worker ID, control-plane URL, and bootstrap token are required'')), p)
       else
         (let p1 = p\<lparr>fk_createCalls := fk_createCalls p + 1\<rparr> in
          case (if fk_createDelay p > 0 then ctx_Later ctx else None) of
            Some e \<Rightarrow> (Inl e, p1)
          | None \<Rightarrow>
              if fk_createError p1 \<noteq> CodeUnset
              then (Inl (NewError ''fake'' ''create'' (fk_createError p1) (OtherErr ''configured create failure'')), p1)
              else if fk_capacity p1 > 0 \<and> int (length (fk_items p1)) \<ge> fk_capacity p1
              then (Inl (NewError ''fake'' ''create'' CodeCapacity (OtherErr ''capacity exhausted'')), p1)
              else
                (let n = fk_next p1 + 1;
                     i = (if sp_SandboxID spec = '''' then ''fake-'' @ show_nat n else sp_SandboxID spec);
                     item = fake_item now i spec
                 in (Inr item, p1\<lparr>fk_next := n, fk_items := AList.update i item (fk_items p1)\<rparr>))))"

definition fake_List :: "Ctx \<Rightarrow> Filter \<Rightarrow> FakeProvider \<Rightarrow> (SbError + PSandbox list) \<times> FakeProvider" where
  "fake_List ctx filt p =
    (case ctx_Err ctx of Some e \<Rightarrow> (Inl e, p)
     | None \<Rightarrow> (Inr (filter (\<lambda>item. Matches item filt) (map snd (fk_items p))), p))"

definition fake_Get :: "Ctx \<Rightarrow> SandboxID \<Rightarrow> FakeProvider \<Rightarrow> (SbError + PSandbox) \<times> FakeProvider" where
  "fake_Get ctx i p =
    (case ctx_Err ctx of Some e \<Rightarrow> (Inl e, p)
     | None \<Rightarrow> (case map_of (fk_items p) i of
         None \<Rightarrow> (Inl (ProviderError ''fake'' ''get'' i CodeNotFound None), p)
       | Some item \<Rightarrow> (Inr item, p)))"

definition fake_Terminate :: "Ctx \<Rightarrow> SandboxID \<Rightarrow> FakeProvider \<Rightarrow> (SbError + unit) \<times> FakeProvider" where
  "fake_Terminate ctx i p =
    (case ctx_Err ctx of Some e \<Rightarrow> (Inl e, p)
     | None \<Rightarrow> (case map_of (fk_items p) i of
         None \<Rightarrow> (Inr (), p)
       | Some item \<Rightarrow> (Inr (), p\<lparr>fk_items := AList.update i (item\<lparr>ps_State := ''terminated''\<rparr>) (fk_items p)\<rparr>)))"

definition fake_CreateSnapshot :: "Ctx \<Rightarrow> SandboxID \<Rightarrow> FakeProvider \<Rightarrow> SbError + string" where
  "fake_CreateSnapshot ctx i p =
    (case ctx_Err ctx of Some e \<Rightarrow> Inl e
     | None \<Rightarrow> (case map_of (fk_snapshots p) i of
         None \<Rightarrow> Inl (NewError ''fake'' ''snapshot'' CodeNotFound (SentinelErr SbErrNotFound))
       | Some data \<Rightarrow> Inr data))"

definition fake_RestoreSnapshot :: "Ctx \<Rightarrow> time \<Rightarrow> CreateSpec \<Rightarrow> string \<Rightarrow> FakeProvider \<Rightarrow> (SbError + PSandbox) \<times> FakeProvider" where
  "fake_RestoreSnapshot ctx now spec data p =
    (case ctx_Err ctx of Some e \<Rightarrow> (Inl e, p)
     | None \<Rightarrow> (case fake_Create ctx now spec p of
         (Inl e, p') \<Rightarrow> (Inl e, p')
       | (Inr item, p') \<Rightarrow> (Inr item, p'\<lparr>fk_snapshots := AList.update (ps_ID item) data (fk_snapshots p')\<rparr>)))"

definition fake_SetState :: "SandboxID \<Rightarrow> string \<Rightarrow> FakeProvider \<Rightarrow> (SbError + unit) \<times> FakeProvider" where
  "fake_SetState i state p =
    (case map_of (fk_items p) i of
       None \<Rightarrow> (Inl (SentinelErr SbErrNotFound), p)
     | Some item \<Rightarrow> (Inr (), p\<lparr>fk_items := AList.update i (item\<lparr>ps_State := state\<rparr>) (fk_items p)\<rparr>))"

definition fake_SetSnapshot :: "SandboxID \<Rightarrow> string \<Rightarrow> FakeProvider \<Rightarrow> FakeProvider" where
  "fake_SetSnapshot i data p = p\<lparr>fk_snapshots := AList.update i data (fk_snapshots p)\<rparr>"

definition fake_SetCapacity :: "int \<Rightarrow> FakeProvider \<Rightarrow> FakeProvider" where
  "fake_SetCapacity capacity p = p\<lparr>fk_capacity := capacity\<rparr>"

definition fake_SetCreateDelay :: "duration \<Rightarrow> FakeProvider \<Rightarrow> FakeProvider" where
  "fake_SetCreateDelay delay p = p\<lparr>fk_createDelay := delay\<rparr>"

definition fake_SetCreateError :: "ErrorCode \<Rightarrow> FakeProvider \<Rightarrow> FakeProvider" where
  "fake_SetCreateError code p = p\<lparr>fk_createError := code\<rparr>"

definition fake_provider :: "Ctx \<Rightarrow> time \<Rightarrow> FakeProvider Provider" where
  "fake_provider ctx now = \<lparr>pv_Create = fake_Create ctx now, pv_Get = fake_Get ctx, pv_List = fake_List ctx,
     pv_Terminate = fake_Terminate ctx, pv_CreateSnapshot = Some (\<lambda>i p. (fake_CreateSnapshot ctx i p, p)),
     pv_RestoreSnapshot = Some (fake_RestoreSnapshot ctx now)\<rparr>"

section \<open>The provider contract\<close>

text \<open>
  What the control plane relies on: a created sandbox is observed as it was returned until
  it is terminated, a terminated one reports it, terminating is idempotent and never touches another
  sandbox, an unknown sandbox is a classified error, and a listing is what its filter selects.
  \<open>inv\<close> holds of the provider states that occur.
\<close>

locale sandbox_provider =
  fixes P :: "'p Provider" and inv :: "'p \<Rightarrow> bool" and view :: "'p \<Rightarrow> (SandboxID \<times> PSandbox) list"
  assumes view_keys: "inv p \<Longrightarrow> distinct (map fst (view p)) \<and> (\<forall>(i, item) \<in> set (view p). ps_ID item = i)"
    and get: "inv p \<Longrightarrow> map_of (view p) i = Some item \<Longrightarrow> pv_Get P i p = (Inr item, p)"
    and get_missing: "inv p \<Longrightarrow> map_of (view p) i = None \<Longrightarrow> \<exists>e. pv_Get P i p = (Inl e, p) \<and> errors_Is e SbErrNotFound"
    and list: "inv p \<Longrightarrow> \<exists>items. pv_List P f p = (Inr items, p) \<and> set items = {item \<in> snd ` set (view p). Matches item f}"
    and create: "inv p \<Longrightarrow> pv_Create P spec p = (Inr item, p') \<Longrightarrow>
        inv p' \<and> map_of (view p') = (map_of (view p))(ps_ID item \<mapsto> item) \<and> ps_WorkerID item = sp_WorkerID spec
        \<and> ps_Labels item = sp_Labels spec \<and> ps_State item = ''running''"
    and terminate: "inv p \<Longrightarrow> pv_Terminate P i p = (r, p') \<Longrightarrow> r = Inr () \<and> inv p'
        \<and> map_of (view p') = (map_of (view p))(i := map_option (\<lambda>item. item\<lparr>ps_State := ''terminated''\<rparr>) (map_of (view p) i))"
begin

lemma create_then_get: "inv p \<Longrightarrow> pv_Create P spec p = (Inr item, p') \<Longrightarrow> pv_Get P (ps_ID item) p' = (Inr item, p')"
  using create [of p spec item p'] get [of p' "ps_ID item" item] by simp

lemma terminate_then_get:
  assumes "inv p" and "map_of (view p) i = Some item" and "pv_Terminate P i p = (r, p')"
  shows "pv_Get P i p' = (Inr (item\<lparr>ps_State := ''terminated''\<rparr>), p')"
  using terminate [OF assms(1,3)] assms(2) get [of p' i] by simp

lemma terminate_idempotent:
  assumes "inv p" and "pv_Terminate P i p = (r, p')" and "pv_Terminate P i p' = (r', p'')"
  shows "r' = Inr () \<and> map_of (view p'') = map_of (view p')"
  using terminate [OF assms(1,2)] terminate [of p' i r' p''] assms(3) by (auto simp: fun_eq_iff option.map_comp comp_def)

end

section \<open>Lemmas\<close>

definition fake_inv :: "FakeProvider \<Rightarrow> bool" where
  "fake_inv p \<longleftrightarrow> distinct (map fst (fk_items p)) \<and> (\<forall>(i, item) \<in> set (fk_items p). ps_ID item = i)"

lemma update_entries: "(j, y) \<in> set (AList.update i x ps) \<Longrightarrow> (j, y) = (i, x) \<or> (j, y) \<in> set ps"
  by (induction ps) (auto split: if_splits)

lemma fake_inv_update: "fake_inv p \<Longrightarrow> ps_ID item = i \<Longrightarrow> fake_inv (p\<lparr>fk_items := AList.update i item (fk_items p)\<rparr>)"
  by (auto simp: fake_inv_def distinct_update dest!: update_entries)

lemma fake_map_of: "fake_inv p \<Longrightarrow> map_of (fk_items p) i = Some item \<Longrightarrow> ps_ID item = i"
  by (auto simp: fake_inv_def dest: map_of_SomeD)

lemma fake_createCalls_irrelevant [simp]: "fake_inv (p\<lparr>fk_createCalls := n\<rparr>) = fake_inv p" "fake_inv (p\<lparr>fk_next := n\<rparr>) = fake_inv p"
  by (simp_all add: fake_inv_def)

lemma fake_Create_Inr:
  assumes "fake_Create ctx now spec p = (Inr item, p')"
  obtains i where "item = fake_item now i spec" "sp_SandboxID spec \<noteq> '''' \<Longrightarrow> i = sp_SandboxID spec"
    "p' = p\<lparr>fk_createCalls := fk_createCalls p + 1, fk_next := fk_next p + 1, fk_items := AList.update i item (fk_items p)\<rparr>"
  using assms by (auto simp: fake_Create_def Let_def split: option.splits if_splits)

interpretation fake: sandbox_provider "fake_provider background now" fake_inv fk_items for now
proof
  fix p i item
  show "fake_inv p \<Longrightarrow> distinct (map fst (fk_items p)) \<and> (\<forall>(i, item) \<in> set (fk_items p). ps_ID item = i)" by (simp add: fake_inv_def)
  show "fake_inv p \<Longrightarrow> map_of (fk_items p) i = Some item \<Longrightarrow> pv_Get (fake_provider background now) i p = (Inr item, p)"
    by (simp add: fake_provider_def fake_Get_def background_def)
  show "fake_inv p \<Longrightarrow> map_of (fk_items p) i = None \<Longrightarrow> \<exists>e. pv_Get (fake_provider background now) i p = (Inl e, p) \<and> errors_Is e SbErrNotFound"
    by (simp add: fake_provider_def fake_Get_def background_def)
next
  fix p f
  show "fake_inv p \<Longrightarrow> \<exists>items. pv_List (fake_provider background now) f p = (Inr items, p) \<and> set items = {item \<in> snd ` set (fk_items p). Matches item f}"
    by (auto simp: fake_provider_def fake_List_def background_def)
next
  fix p p' spec item assume p: "fake_inv p" and c: "pv_Create (fake_provider background now) spec p = (Inr item, p')"
  then have "fake_Create background now spec p = (Inr item, p')" by (simp add: fake_provider_def)
  then obtain i where "item = fake_item now i spec"
    "p' = p\<lparr>fk_createCalls := fk_createCalls p + 1, fk_next := fk_next p + 1, fk_items := AList.update i item (fk_items p)\<rparr>"
    by (rule fake_Create_Inr)
  with p fake_inv_update [of "p\<lparr>fk_createCalls := fk_createCalls p + 1, fk_next := fk_next p + 1\<rparr>" item i]
  show "fake_inv p' \<and> map_of (fk_items p') = (map_of (fk_items p))(ps_ID item \<mapsto> item) \<and> ps_WorkerID item = sp_WorkerID spec
      \<and> ps_Labels item = sp_Labels spec \<and> ps_State item = ''running''"
    by (simp add: fake_item_def update_conv')
next
  fix p p' i r assume p: "fake_inv p" and t: "pv_Terminate (fake_provider background now) i p = (r, p')"
  show "r = Inr () \<and> fake_inv p' \<and> map_of (fk_items p')
      = (map_of (fk_items p))(i := map_option (\<lambda>item. item\<lparr>ps_State := ''terminated''\<rparr>) (map_of (fk_items p) i))"
  proof (cases "map_of (fk_items p) i")
    case None
    with p t show ?thesis by (auto simp: fake_provider_def fake_Terminate_def background_def fun_eq_iff)
  next
    case (Some item)
    with p t fake_inv_update [OF p, of "item\<lparr>ps_State := ''terminated''\<rparr>" i] fake_map_of [OF p Some] show ?thesis
      by (auto simp: fake_provider_def fake_Terminate_def background_def update_conv')
  qed
qed

section \<open>Properties\<close>

text \<open>
  What a created sandbox looks like afterwards: it is observed exactly as the creation returned it, under the
  identifier it was asked to have; after its termination it is observed terminated; and terminating it
  again succeeds and changes no observation.
\<close>

theorem fake_provider_contract:
  assumes "fake_inv p" and "fake_Create background now spec p = (Inr item, p')"
    and "fake_Terminate background (ps_ID item) p' = (r, p'')"
  shows "fake_Get background (ps_ID item) p' = (Inr item, p')
    \<and> (sp_SandboxID spec \<noteq> '''' \<longrightarrow> ps_ID item = sp_SandboxID spec)
    \<and> r = Inr () \<and> fake_Get background (ps_ID item) p'' = (Inr (item\<lparr>ps_State := ''terminated''\<rparr>), p'')
    \<and> (\<exists>q. fake_Terminate background (ps_ID item) p'' = (Inr (), q) \<and> map_of (fk_items q) = map_of (fk_items p''))"
proof -
  note simps = fake_provider_def
  have c: "pv_Create (fake_provider background now) spec p = (Inr item, p')" using assms(2) by (simp add: simps)
  have t: "pv_Terminate (fake_provider background now) (ps_ID item) p' = (r, p'')" using assms(3) by (simp add: simps)
  note made = fake.create [OF assms(1) c]
  obtain r' q where q: "fake_Terminate background (ps_ID item) p'' = (r', q)" by fastforce
  then have t': "pv_Terminate (fake_provider background now) (ps_ID item) p'' = (r', q)" by (simp add: simps)
  have "sp_SandboxID spec \<noteq> '''' \<longrightarrow> ps_ID item = sp_SandboxID spec"
    using fake_Create_Inr [OF assms(2)] by (metis PSandbox.select_convs(1) fake_item_def)
  moreover have "map_of (fk_items p') (ps_ID item) = Some item" using made by simp
  ultimately show ?thesis
    using fake.create_then_get [OF assms(1) c] fake.terminate_then_get [OF _ _ t, of item] fake.terminate_idempotent [OF _ t t']
      fake.terminate [OF _ t] made q by (simp add: simps)
qed

definition demo_spec :: CreateSpec where
  "demo_spec = \<lparr>sp_SandboxID = ''b'', sp_WorkerID = ''w'', sp_SandboxProvider = ''fake'', sp_ControlPlaneURL = ''url'',
     sp_BootstrapToken = ''t'', sp_Image = ''i'', sp_Template = '''', sp_CPUClass = '''', sp_MemoryClass = '''',
     sp_Architecture = '''', sp_Region = '''', sp_WorkerMaxConcurrency = 1, sp_Environment = [],
     sp_BootstrapCommand = [], sp_BootstrapArtifact = '''', sp_MaxLifetime = 0, sp_Capabilities = zero_Capabilities,
     sp_Labels = []\<rparr>"

theorem fake_provider_contract_witness:
  "\<exists>item p' r p''. fake_Create background 7 demo_spec fake_New = (Inr item, p') \<and> fake_Terminate background (ps_ID item) p' = (r, p'')
     \<and> fake_Get background (ps_ID item) p'' = (Inr (item\<lparr>ps_State := ''terminated''\<rparr>), p'')"
proof -
  have inv: "fake_inv fake_New" by (simp add: fake_inv_def fake_New_def)
  obtain p' where c: "fake_Create background 7 demo_spec fake_New = (Inr (fake_item 7 ''b'' demo_spec), p')"
    by (simp add: fake_Create_def background_def demo_spec_def fake_New_def Let_def)
  obtain r p'' where "fake_Terminate background (ps_ID (fake_item 7 ''b'' demo_spec)) p' = (r, p'')" by fastforce
  with c fake_provider_contract [OF inv c this] show ?thesis by blast
qed

text \<open>
  A registry built from a configuration has a provider for exactly the configured names, each
  made by the factory of its type from its own settings; every other name is a not-found error.
\<close>

theorem registry_resolves_configuration:
  assumes "NewRegistry config factories = Inr r" and "distinct (map fst config)"
  shows "Registry_Names r = sort (map fst config)
    \<and> (\<forall>(name, entry) \<in> set config. \<exists>factory p. map_of factories (pc_Type entry) = Some factory
          \<and> factory (pc_Config entry) = Inr p \<and> Registry_Get r name = Inr p)
    \<and> (\<forall>name. name \<notin> fst ` set config \<longrightarrow> Registry_Get r name = Inl (SentinelErr SbErrNotFound))"
proof -
  have "map fst r = map fst config \<and> (\<forall>(name, entry) \<in> set config. \<exists>factory p. map_of factories (pc_Type entry) = Some factory
          \<and> factory (pc_Config entry) = Inr p \<and> map_of r name = Some p)"
    using assms
  proof (induction config arbitrary: r)
    case (Cons c config)
    obtain name entry where c: "c = (name, entry)" by (cases c)
    from Cons.prems(1) obtain factory p r' where new: "map_of factories (pc_Type entry) = Some factory"
      "factory (pc_Config entry) = Inr p" "NewRegistry config factories = Inr r'" "r = (name, p) # r'"
      by (auto simp: c split: if_splits option.splits)
    have "distinct (map fst config)" using Cons.prems(2) by simp
    note IH = conjunct1 [OF Cons.IH [OF new(3) this]] conjunct2 [OF Cons.IH [OF new(3) this]]
    have "name \<notin> fst ` set config" using Cons.prems(2) by (simp add: c)
    then have "map_of r n = map_of r' n" if "n \<in> fst ` set config" for n using that by (auto simp: new(4))
    then have "\<exists>factory p. map_of factories (pc_Type e) = Some factory \<and> factory (pc_Config e) = Inr p \<and> map_of r n = Some p"
      if "(n, e) \<in> set config" for n e using IH(2) that by force
    moreover have "map fst r = map fst (c # config)" using IH(1) by (simp add: new(4) c)
    moreover have "map_of r name = Some p" by (simp add: new(4))
    ultimately show ?case using new(1,2) unfolding c by (auto simp del: map_of_eq_Some_iff)
  qed simp
  then have names: "map fst r = map fst config" and get: "\<forall>(name, entry) \<in> set config. \<exists>factory p.
      map_of factories (pc_Type entry) = Some factory \<and> factory (pc_Config entry) = Inr p \<and> map_of r name = Some p" by blast+
  have "fst ` set r = fst ` set config" using names by (metis list.set_map)
  then have "Registry_Get r name = Inl (SentinelErr SbErrNotFound)" if "name \<notin> fst ` set config" for name
    using that by (auto simp: Registry_Get_def map_of_eq_None_iff split: option.split dest: map_of_SomeD)
  moreover from get have "\<forall>(name, entry) \<in> set config. \<exists>factory p. map_of factories (pc_Type entry) = Some factory
      \<and> factory (pc_Config entry) = Inr p \<and> Registry_Get r name = Inr p" by (fastforce simp: Registry_Get_def)
  ultimately show ?thesis using names by (auto simp: Registry_Names_def)
qed

theorem registry_resolves_configuration_witness:
  "\<exists>r. NewRegistry [(''x'', \<lparr>pc_Type = ''fake'', pc_Config = []\<rparr>)] [(''fake'', \<lambda>_. Inr (7 :: nat))] = Inr r
     \<and> Registry_Get r ''y'' = Inl (SentinelErr SbErrNotFound)"
proof -
  let ?c = "[(''x'', \<lparr>pc_Type = ''fake'', pc_Config = []\<rparr>)]" and ?f = "[(''fake'', \<lambda>_ :: strmap. Inr (7 :: nat) :: SbError + nat)]"
  have ok: "NewRegistry ?c ?f = Inr [(''x'', 7)]" by simp
  have "Registry_Get [(''x'', 7 :: nat)] ''y'' = Inl (SentinelErr SbErrNotFound)"
    using registry_resolves_configuration [OF ok] by auto
  with ok show ?thesis by blast
qed

end
