(* ===== verification/SR_Files.thy ===== *)
theory SR_Files
  imports SR_Domain
begin

text \<open>
  Files: the checkpoint adapters of \<^verbatim>\<open>internal/checkpoint\<close>, the artifact store of \<^verbatim>\<open>internal/artifact\<close> and the
  archives of \<^verbatim>\<open>internal/worker/checkpoint.go\<close>, over lexical paths as \<^verbatim>\<open>path/filepath\<close> treats them on Unix.

  A file system holds regular files under their paths; directories exist as far as files need them. It refuses
  every operation on the paths of \<open>fs_deny\<close>, which stands for the failures of the operating system. A reader is the bytes it delivers and
  the error it ends with, which includes an error on closing the copy. The digest is an argument.
\<close>

section \<open>Paths\<close>

fun split_slash :: "string \<Rightarrow> string list" where
  "split_slash [] = [[]]"
| "split_slash (c # cs) = (if c = CHR ''/'' then [] # split_slash cs
     else case split_slash cs of [] \<Rightarrow> [[c]] | p # ps \<Rightarrow> (c # p) # ps)"

fun join_slash :: "string list \<Rightarrow> string" where
  "join_slash [] = []"
| "join_slash [p] = p"
| "join_slash (p # q # ps) = p @ CHR ''/'' # join_slash (q # ps)"

text \<open>\<^verbatim>\<open>filepath.Clean\<close>: the elements seen so far are kept last first.\<close>

definition clean_step :: "bool \<Rightarrow> string \<Rightarrow> string list \<Rightarrow> string list" where
  "clean_step rooted part st =
    (if part = [] \<or> part = ''.'' then st
     else if part = ''..'' then
       (case st of [] \<Rightarrow> if rooted then [] else [''..''] | t # ts \<Rightarrow> if t = ''..'' then ''..'' # st else ts)
     else part # st)"

definition clean_parts :: "bool \<Rightarrow> string list \<Rightarrow> string list" where
  "clean_parts rooted parts = rev (fold (clean_step rooted) parts [])"

definition is_abs :: "string \<Rightarrow> bool" where
  "is_abs p = (case p of [] \<Rightarrow> False | c # _ \<Rightarrow> c = CHR ''/'')"

definition Clean :: "string \<Rightarrow> string" where
  "Clean p =
    (if p = [] then ''.''
     else let cs = clean_parts (is_abs p) (split_slash p) in
       if is_abs p then CHR ''/'' # join_slash cs else if cs = [] then ''.'' else join_slash cs)"

fun Join :: "string list \<Rightarrow> string" where
  "Join [] = []"
| "Join (p # ps) = (if p \<noteq> [] then Clean (join_slash (p # ps)) else Join ps)"

declare Join.simps [simp del]

text \<open>\<^verbatim>\<open>filepath.Base\<close> and \<^verbatim>\<open>filepath.Dir\<close>.\<close>

definition Base :: "string \<Rightarrow> string" where
  "Base p =
    (if p = [] then ''.''
     else let q = rev (dropWhile (\<lambda>c. c = CHR ''/'') (rev p)) in if q = [] then ''/'' else last (split_slash q))"

definition has_suffix :: "string \<Rightarrow> string \<Rightarrow> bool" where
  "has_suffix s p \<longleftrightarrow> length p \<le> length s \<and> drop (length s - length p) s = p"

fun contains_str :: "string \<Rightarrow> string \<Rightarrow> bool" where
  "contains_str [] p = (p = [])"
| "contains_str (c # cs) p = (has_prefix (c # cs) p \<or> contains_str cs p)"

section \<open>The file system\<close>

datatype FsError = ErrUnsafeID | ErrInvalidKey | FsNotExist | FsExist | FsDenied | FsCanceled | FsCorrupt | ErrNoBacking
  | ErrInvalidRoot | ErrUnknownRoot | ErrTraversal | ErrUnsupportedEntry | FsOther string

record File =
  f_data :: string
  f_mtime :: time

record FS =
  fs_files :: "(string \<times> File) list"
  fs_deny :: "string \<Rightarrow> bool"
  fs_now :: time

record Reader =
  rd_data :: string
  rd_err :: "FsError option"

definition os_read :: "string \<Rightarrow> FS \<Rightarrow> FsError + string" where
  "os_read p fs = (if fs_deny fs p then Inl FsDenied
     else case map_of (fs_files fs) p of None \<Rightarrow> Inl FsNotExist | Some f \<Rightarrow> Inr (f_data f))"

definition os_write :: "string \<Rightarrow> string \<Rightarrow> FS \<Rightarrow> FS" where
  "os_write p data fs = fs\<lparr>fs_files := AList.update p \<lparr>f_data = data, f_mtime = fs_now fs\<rparr> (fs_files fs)\<rparr>"

definition os_unlink :: "string \<Rightarrow> FS \<Rightarrow> FS" where
  "os_unlink p fs = fs\<lparr>fs_files := AList.delete p (fs_files fs)\<rparr>"

definition os_remove :: "string \<Rightarrow> FS \<Rightarrow> (FsError + unit) \<times> FS" where
  "os_remove p fs = (if fs_deny fs p then (Inl FsDenied, fs)
     else if map_of (fs_files fs) p = None then (Inl FsNotExist, fs) else (Inr (), os_unlink p fs))"

text \<open>The names in a directory, sorted.\<close>

definition dir_prefix :: "string \<Rightarrow> string" where
  "dir_prefix dir = (let c = Clean dir in if c = ''/'' then c else if c = ''.'' then [] else c @ ''/'')"

definition os_readdir :: "string \<Rightarrow> FS \<Rightarrow> FsError + string list" where
  "os_readdir dir fs =
    (let d = dir_prefix dir in
     if fs_deny fs (Clean dir) then Inl FsDenied
     else Inr (sort (filter (\<lambda>n. n \<noteq> [] \<and> CHR ''/'' \<notin> set n)
            (map (drop (length d)) (filter (\<lambda>p. has_prefix p d) (map fst (fs_files fs)))))))"

section \<open>Checkpoint adapters\<close>

datatype Strategy = StrategyApplication | StrategyProviderSnapshot

record 'p Adapter =
  ad_Name :: string
  ad_Strategy :: Strategy
  ad_Save :: "Checkpoint \<Rightarrow> Reader \<Rightarrow> 'p \<Rightarrow> (FsError + string \<times> string \<times> int) \<times> 'p"
  ad_Open :: "Checkpoint \<Rightarrow> 'p \<Rightarrow> (FsError + string) \<times> 'p"
  ad_Delete :: "Checkpoint \<Rightarrow> 'p \<Rightarrow> (FsError + unit) \<times> 'p"
  ad_SweepOrphans :: "(string \<Rightarrow> bool) \<Rightarrow> time \<Rightarrow> 'p \<Rightarrow> (FsError + unit) \<times> 'p"

definition safeName :: "string \<Rightarrow> bool" where
  "safeName i \<longleftrightarrow> i \<noteq> [] \<and> Base i = i \<and> \<not> (CHR ''/'' \<in> set i \<or> CHR 0x5C \<in> set i)"

definition Filesystem_Save ::
    "(string \<Rightarrow> string) \<Rightarrow> FsError option \<Rightarrow> string \<Rightarrow> Checkpoint \<Rightarrow> Reader \<Rightarrow> FS \<Rightarrow> (FsError + string \<times> string \<times> int) \<times> FS" where
  "Filesystem_Save sha ctx dir c r fs =
    (if \<not> safeName (c_ID c) then (Inl ErrUnsafeID, fs)
     else case ctx of Some e \<Rightarrow> (Inl e, fs)
     | None \<Rightarrow>
       if fs_deny fs dir then (Inl FsDenied, fs)
       else
         (let final = Join [dir, c_ID c @ ''.checkpoint''];
              partial = final @ ''.partial''
          in if fs_deny fs partial then (Inl FsDenied, fs)
             else if map_of (fs_files fs) partial \<noteq> None then (Inl FsExist, fs)
             else
               (let fs1 = os_write partial (rd_data r) fs in
                case rd_err r of
                  Some e \<Rightarrow> (Inl e, os_unlink partial fs1)
                | None \<Rightarrow>
                    if fs_deny fs final then (Inl FsDenied, os_unlink partial fs1)
                    else (Inr (final, hex_EncodeToString (sha (rd_data r)), int (length (rd_data r))),
                      os_write final (rd_data r) (os_unlink partial fs1)))))"

definition Filesystem_Open :: "(string \<Rightarrow> string) \<Rightarrow> FsError option \<Rightarrow> Checkpoint \<Rightarrow> FS \<Rightarrow> (FsError + string) \<times> FS" where
  "Filesystem_Open sha ctx c fs =
    (case ctx of Some e \<Rightarrow> (Inl e, fs)
     | None \<Rightarrow> (case os_read (c_Location c) fs of
         Inl e \<Rightarrow> (Inl e, fs)
       | Inr data \<Rightarrow> if hex_EncodeToString (sha data) \<noteq> c_Checksum c then (Inl FsCorrupt, fs) else (Inr data, fs)))"

definition Filesystem_Delete :: "FsError option \<Rightarrow> Checkpoint \<Rightarrow> FS \<Rightarrow> (FsError + unit) \<times> FS" where
  "Filesystem_Delete ctx c fs =
    (case ctx of Some e \<Rightarrow> (Inl e, fs)
     | None \<Rightarrow> (case os_remove (c_Location c) fs of
         (Inl e, fs') \<Rightarrow> if e = FsNotExist then (Inr (), fs') else (Inl e, fs')
       | (Inr _, fs') \<Rightarrow> (Inr (), fs')))"

fun sweep :: "FsError option \<Rightarrow> string \<Rightarrow> (string \<Rightarrow> bool) \<Rightarrow> time \<Rightarrow> string list \<Rightarrow> FS \<Rightarrow> (FsError + unit) \<times> FS" where
  "sweep ctx dir live before [] fs = (Inr (), fs)"
| "sweep ctx dir live before (n # names) fs =
    (case ctx of Some e \<Rightarrow> (Inl e, fs)
     | None \<Rightarrow>
       let path = Join [dir, n] in
       if live path then sweep ctx dir live before names fs
       else if \<not> has_suffix n ''.partial'' \<and> \<not> has_suffix n ''.checkpoint'' then sweep ctx dir live before names fs
       else case map_of (fs_files fs) path of
         None \<Rightarrow> (Inl FsNotExist, fs)
       | Some f \<Rightarrow>
           if f_mtime f > before then sweep ctx dir live before names fs
           else (case os_remove path fs of
               (Inl e, fs') \<Rightarrow> if e \<noteq> FsNotExist then (Inl e, fs') else sweep ctx dir live before names fs'
             | (Inr _, fs') \<Rightarrow> sweep ctx dir live before names fs'))"

definition Filesystem_SweepOrphans :: "FsError option \<Rightarrow> string \<Rightarrow> (string \<Rightarrow> bool) \<Rightarrow> time \<Rightarrow> FS \<Rightarrow> (FsError + unit) \<times> FS" where
  "Filesystem_SweepOrphans ctx dir live before fs =
    (case os_readdir dir fs of Inl e \<Rightarrow> (Inl e, fs) | Inr names \<Rightarrow> sweep ctx dir live before names fs)"

definition Filesystem :: "(string \<Rightarrow> string) \<Rightarrow> FsError option \<Rightarrow> string \<Rightarrow> FS Adapter" where
  "Filesystem sha ctx dir = \<lparr>ad_Name = ''filesystem'', ad_Strategy = StrategyApplication, ad_Save = Filesystem_Save sha ctx dir,
     ad_Open = Filesystem_Open sha ctx, ad_Delete = Filesystem_Delete ctx, ad_SweepOrphans = Filesystem_SweepOrphans ctx dir\<rparr>"

definition ProviderSnapshot :: "'p Adapter option \<Rightarrow> 'p Adapter" where
  "ProviderSnapshot backing =
    \<lparr>ad_Name = ''provider_snapshot'', ad_Strategy = StrategyProviderSnapshot,
     ad_Save = (\<lambda>c r p. case backing of None \<Rightarrow> (Inl ErrNoBacking, p) | Some a \<Rightarrow> ad_Save a c r p),
     ad_Open = (\<lambda>c p. case backing of None \<Rightarrow> (Inl ErrNoBacking, p) | Some a \<Rightarrow> ad_Open a c p),
     ad_Delete = (\<lambda>c p. case backing of None \<Rightarrow> (Inl ErrNoBacking, p) | Some a \<Rightarrow> ad_Delete a c p),
     ad_SweepOrphans = (\<lambda>live before p. case backing of None \<Rightarrow> (Inr (), p) | Some a \<Rightarrow> ad_SweepOrphans a live before p)\<rparr>"

definition UnsafePath :: "string \<Rightarrow> bool" where
  "UnsafePath name =
    (let n = to_lower name; base = Base n in
     base = ''.env'' \<or> base = ''credentials'' \<or> base = ''id_rsa'' \<or> base = ''id_ed25519''
     \<or> contains_str n ''/.ssh/'' \<or> contains_str n ''/.aws/'' \<or> contains_str n ''/secrets/'')"

section \<open>Artifacts\<close>

text \<open>\<open>cwd\<close> is the working directory, or the error of asking for it.\<close>

definition Abs :: "FsError + string \<Rightarrow> string \<Rightarrow> FsError + string" where
  "Abs cwd p = (if is_abs p then Inr (Clean p) else rbind cwd (\<lambda>wd. Inr (Join [wd, p])))"

definition resolve_artifact :: "FsError + string \<Rightarrow> string \<Rightarrow> string \<Rightarrow> FsError + string" where
  "resolve_artifact cwd dir0 key =
    (if key = [] \<or> contains_str key [CHR 0x00] \<or> contains_str key ''..'' then Inl ErrInvalidKey
     else
       rbind (Abs cwd dir0) (\<lambda>dir.
       rbind (Abs cwd (Join [dir, key])) (\<lambda>p.
         if p = dir \<or> \<not> has_prefix p (dir @ ''/'') then Inl ErrInvalidKey else Inr p)))"

definition artifact_Put :: "FsError + string \<Rightarrow> string \<Rightarrow> string \<Rightarrow> string \<Rightarrow> FS \<Rightarrow> (FsError + unit) \<times> FS" where
  "artifact_Put cwd dir key data fs =
    (case resolve_artifact cwd dir key of
       Inl e \<Rightarrow> (Inl e, fs)
     | Inr p \<Rightarrow> if fs_deny fs p then (Inl FsDenied, fs) else (Inr (), os_write p data fs))"

definition artifact_Get :: "FsError + string \<Rightarrow> string \<Rightarrow> string \<Rightarrow> FS \<Rightarrow> FsError + string" where
  "artifact_Get cwd dir key fs = rbind (resolve_artifact cwd dir key) (\<lambda>p. os_read p fs)"

section \<open>Archives of a worker's state\<close>

text \<open>
  A tar stream is the entries a reader delivers, each with the error its content may end with, and how the
  stream ends (\<^term>\<open>None\<close> for \<^verbatim>\<open>io.EOF\<close>). File modes are not modelled.
\<close>

datatype Typeflag = TypeReg | TypeDir | TypeOther

record TarEntry =
  te_Name :: string
  te_Typeflag :: Typeflag
  te_Data :: string
  te_Err :: "FsError option"

text \<open>What \<^verbatim>\<open>filepath.Walk\<close> reports, in its order: the elements below the root, the kind, the content of a regular file.\<close>

datatype FileKind = Regular | Directory | Symlink | Special

record Visit =
  vi_Rel :: "string list"
  vi_Kind :: FileKind
  vi_Data :: "FsError + string"
  vi_Err :: "FsError option"

definition entry_name :: "nat \<Rightarrow> string list \<Rightarrow> string" where
  "entry_name i rel = Join [''root-'' @ show_nat i, if rel = [] then ''.'' else join_slash rel]"

text \<open>The visits that \<^verbatim>\<open>filepath.SkipDir\<close> leaves out are those below the directory.\<close>

function export_root :: "FsError option \<Rightarrow> nat \<Rightarrow> Visit list \<Rightarrow> FsError + TarEntry list" where
  "export_root ctx i [] = Inr []"
| "export_root ctx i (v # vs) =
    (case vi_Err v of Some e \<Rightarrow> Inl e
     | None \<Rightarrow> (case ctx of Some e \<Rightarrow> Inl e
     | None \<Rightarrow>
       let name = entry_name i (vi_Rel v) in
       if UnsafePath (CHR ''/'' # name) \<or> vi_Kind v = Symlink then
         export_root ctx i (if vi_Kind v = Directory then dropWhile (\<lambda>x. take (length (vi_Rel v)) (vi_Rel x) = vi_Rel v) vs else vs)
       else if vi_Kind v = Directory then
         rbind (export_root ctx i vs) (\<lambda>es. Inr (\<lparr>te_Name = name, te_Typeflag = TypeDir, te_Data = [], te_Err = None\<rparr> # es))
       else if vi_Kind v \<noteq> Regular then export_root ctx i vs
       else rbind (vi_Data v) (\<lambda>data.
         rbind (export_root ctx i vs) (\<lambda>es. Inr (\<lparr>te_Name = name, te_Typeflag = TypeReg, te_Data = data, te_Err = None\<rparr> # es)))))"
  by pat_completeness auto
termination
  by (relation "measure (\<lambda>(ctx, i, vs). length vs)") (auto simp: less_Suc_eq_le length_dropWhile_le)

fun export_roots :: "FsError option \<Rightarrow> nat \<Rightarrow> Visit list list \<Rightarrow> FsError + TarEntry list" where
  "export_roots ctx i [] = Inr []"
| "export_roots ctx i (vs # roots) = rbind (export_root ctx i vs) (\<lambda>es. rbind (export_roots ctx (i + 1) roots) (\<lambda>rest. Inr (es @ rest)))"

definition Export :: "FsError option \<Rightarrow> Visit list list \<Rightarrow> FsError + TarEntry list" where
  "Export ctx walks = export_roots ctx 0 walks"

text \<open>\<^verbatim>\<open>strconv.Atoi\<close>: an optional sign, decimal digits, and the range of 64 bits.\<close>

definition digit_value :: "char \<Rightarrow> int" where
  "digit_value c = int (of_char c) - 48"

definition is_digit :: "char \<Rightarrow> bool" where
  "is_digit c \<longleftrightarrow> 0 \<le> digit_value c \<and> digit_value c \<le> 9"

definition digits_value :: "string \<Rightarrow> int" where
  "digits_value ds = fold (\<lambda>c n. 10 * n + digit_value c) ds 0"

definition Atoi :: "string \<Rightarrow> int option" where
  "Atoi s =
    (let neg = (s \<noteq> [] \<and> hd s = CHR ''-'');
         ds = (if s \<noteq> [] \<and> (hd s = CHR ''-'' \<or> hd s = CHR ''+'') then tl s else s);
         n = (if neg then - digits_value ds else digits_value ds)
     in if ds = [] \<or> \<not> list_all is_digit ds \<or> n < min_int64 \<or> max_int64 < n then None else Some n)"

definition Dir :: "string \<Rightarrow> string" where
  "Dir p = Clean (rev (dropWhile (\<lambda>c. c \<noteq> CHR ''/'') (rev p)))"

definition restore_entry :: "string list \<Rightarrow> FsError option \<Rightarrow> TarEntry \<Rightarrow> FS \<Rightarrow> (FsError + unit) \<times> FS" where
  "restore_entry roots ctx h fs =
    (let parts = split_slash (te_Name h) in
     if parts = [] \<or> \<not> has_prefix (hd parts) ''root-'' then (Inl ErrInvalidRoot, fs)
     else case Atoi (drop 5 (hd parts)) of
       None \<Rightarrow> (Inl ErrUnknownRoot, fs)
     | Some i \<Rightarrow>
         if i < 0 \<or> i \<ge> int (length roots) then (Inl ErrUnknownRoot, fs)
         else if length parts = 1 then (Inr (), fs)
         else
           (let rel = Join (tl parts);
                dir = Clean (roots ! nat i);
                target = Join [dir, rel]
            in if UnsafePath (CHR ''/'' # rel) then (Inr (), fs)
               else if target \<noteq> dir \<and> \<not> has_prefix target (dir @ ''/'') then (Inl ErrTraversal, fs)
               else if te_Typeflag h = TypeDir then (if fs_deny fs target then (Inl FsDenied, fs) else (Inr (), fs))
               else if te_Typeflag h \<noteq> TypeReg then (Inl ErrUnsupportedEntry, fs)
               else if fs_deny fs (Dir target) \<or> fs_deny fs target then (Inl FsDenied, fs)
               else
                 (let fs1 = os_write target (te_Data h) fs in
                  case te_Err h of Some e \<Rightarrow> (Inl e, fs1)
                  | None \<Rightarrow> (case ctx of Some e \<Rightarrow> (Inl e, fs1) | None \<Rightarrow> (Inr (), fs1)))))"

fun Restore :: "string list \<Rightarrow> FsError option \<Rightarrow> TarEntry list \<Rightarrow> FsError option \<Rightarrow> FS \<Rightarrow> (FsError + unit) \<times> FS" where
  "Restore roots ctx [] eof fs = (case eof of None \<Rightarrow> (Inr (), fs) | Some e \<Rightarrow> (Inl e, fs))"
| "Restore roots ctx (h # hs) eof fs =
    (case restore_entry roots ctx h fs of (Inl e, fs') \<Rightarrow> (Inl e, fs') | (Inr _, fs') \<Rightarrow> Restore roots ctx hs eof fs')"

section \<open>Lemmas on paths\<close>

definition proper_name :: "string \<Rightarrow> bool" where
  "proper_name n \<longleftrightarrow> n \<noteq> [] \<and> n \<noteq> ''.'' \<and> n \<noteq> ''..'' \<and> CHR ''/'' \<notin> set n"

lemma split_slash_not_Nil [simp]: "split_slash p \<noteq> []"
  by (induction p) (auto split: list.splits)

lemma split_slash_elem: "n \<in> set (split_slash p) \<Longrightarrow> CHR ''/'' \<notin> set n"
  by (induction p arbitrary: n) (auto split: list.splits if_splits)

lemma split_slash_append: "split_slash (a @ CHR ''/'' # b) = split_slash a @ split_slash b"
  by (induction a) (auto split: list.splits)

lemma split_slash_single: "CHR ''/'' \<notin> set a \<Longrightarrow> split_slash a = [a]"
  by (induction a) auto

lemma join_slash_char: "join_slash ((c # p) # ps) = c # join_slash (p # ps)"
  by (cases ps) auto

lemma join_slash_empty: "ps \<noteq> [] \<Longrightarrow> join_slash ([] # ps) = CHR ''/'' # join_slash ps"
  by (cases ps) auto

lemma join_split [simp]: "join_slash (split_slash p) = p"
proof (induction p)
  case (Cons c p)
  then show ?case by (cases "split_slash p") (auto simp: join_slash_char join_slash_empty simp del: join_slash.simps)
qed simp

lemma split_join: "ps \<noteq> [] \<Longrightarrow> (\<And>p. p \<in> set ps \<Longrightarrow> CHR ''/'' \<notin> set p) \<Longrightarrow> split_slash (join_slash ps) = ps"
  by (induction ps rule: join_slash.induct) (auto simp: split_slash_single split_slash_append)

lemma join_append: "ps \<noteq> [] \<Longrightarrow> qs \<noteq> [] \<Longrightarrow> join_slash (ps @ qs) = join_slash ps @ CHR ''/'' # join_slash qs"
  by (induction ps rule: join_slash.induct) (auto simp: neq_Nil_conv)

lemma clean_step_rooted:
  assumes "\<forall>n \<in> set st. proper_name n" and "CHR ''/'' \<notin> set part"
  shows "\<forall>n \<in> set (clean_step True part st). proper_name n"
proof (cases "part = [] \<or> part = ''.'' \<or> part = ''..''")
  case True
  have "t \<noteq> ''..''" if "t \<in> set st" for t using assms(1) that by (auto simp: proper_name_def)
  then have "set (clean_step True part st) \<subseteq> set st" using True by (cases st) (auto simp: clean_step_def)
  with assms(1) show ?thesis by blast
next
  case False
  then have "clean_step True part st = part # st" "proper_name part" using assms(2) by (simp_all add: clean_step_def proper_name_def)
  with assms(1) show ?thesis by simp
qed

lemma clean_fold_rooted:
  "(\<And>n. n \<in> set parts \<Longrightarrow> CHR ''/'' \<notin> set n) \<Longrightarrow> \<forall>n \<in> set st. proper_name n \<Longrightarrow> n \<in> set (fold (clean_step True) parts st) \<Longrightarrow> proper_name n"
proof (induction parts arbitrary: st)
  case (Cons part parts)
  have "\<forall>n \<in> set (clean_step True part st). proper_name n" using Cons.prems by (intro clean_step_rooted) simp_all
  with Cons show ?case by simp
qed simp

lemma Clean_rooted:
  assumes "is_abs p"
  obtains cs where "Clean p = CHR ''/'' # join_slash cs" and "\<And>n. n \<in> set cs \<Longrightarrow> proper_name n"
proof
  show "Clean p = CHR ''/'' # join_slash (clean_parts True (split_slash p))"
    using assms by (cases p) (auto simp: Clean_def is_abs_def Let_def)
  show "proper_name n" if "n \<in> set (clean_parts True (split_slash p))" for n
    using that clean_fold_rooted [of "split_slash p" "[]" n] split_slash_elem by (auto simp: clean_parts_def)
qed

lemma fold_clean_proper: "(\<And>n. n \<in> set parts \<Longrightarrow> proper_name n) \<Longrightarrow> fold (clean_step rooted) parts st = rev parts @ st"
  by (induction parts arbitrary: st) (auto simp: clean_step_def proper_name_def)

lemma is_abs_append: "is_abs p \<Longrightarrow> is_abs (p @ q)"
  by (cases p) (auto simp: is_abs_def)

text \<open>A prefix test on cleaned absolute paths decides containment.\<close>

lemma prefix_confines:
  assumes "is_abs d" and "is_abs t" and "has_prefix (Clean t) (Clean d @ ''/'')"
  obtains rest where "rest \<noteq> []" "\<And>n. n \<in> set rest \<Longrightarrow> proper_name n" "Clean t = Clean d @ CHR ''/'' # join_slash rest"
proof -
  obtain cd where d: "Clean d = CHR ''/'' # join_slash cd" "\<And>n. n \<in> set cd \<Longrightarrow> proper_name n" by (rule Clean_rooted [OF assms(1)]) blast
  obtain ct where t: "Clean t = CHR ''/'' # join_slash ct" "\<And>n. n \<in> set ct \<Longrightarrow> proper_name n" by (rule Clean_rooted [OF assms(2)]) blast
  define x where "x = drop (length (Clean d @ ''/'')) (Clean t)"
  have "Clean t = (Clean d @ ''/'') @ x" using assms(3) unfolding x_def has_prefix_def by (metis append_take_drop_id)
  then have eq: "join_slash ct = join_slash cd @ CHR ''/'' # x" using d(1) t(1) by simp
  then have "split_slash (join_slash ct) = split_slash (join_slash cd) @ split_slash x" by (simp add: split_slash_append)
  moreover have "ct \<noteq> []" using eq by auto
  then have "split_slash (join_slash ct) = ct" using t(2) by (intro split_join) (auto simp: proper_name_def)
  ultimately have ct: "ct = split_slash (join_slash cd) @ split_slash x" by simp
  show thesis
  proof (rule that)
    show "split_slash x \<noteq> []" by simp
    show "proper_name n" if "n \<in> set (split_slash x)" for n using that t(2) ct by simp
    show "Clean t = Clean d @ CHR ''/'' # join_slash (split_slash x)" using eq d(1) t(1) by simp
  qed
qed

lemma has_prefix_slash: "has_prefix (d @ CHR ''/'' # r) (d @ ''/'')"
  by (simp add: has_prefix_def)

text \<open>Cleaning the join of a cleaned absolute directory other than the top and proper names.\<close>

lemma Clean_proper_relative:
  assumes "ns \<noteq> []" and "\<And>n. n \<in> set ns \<Longrightarrow> proper_name n"
  shows "Clean (join_slash ns) = join_slash ns" and "join_slash ns \<noteq> []" and "\<not> is_abs (join_slash ns)"
proof -
  obtain n rest where ns: "ns = n # rest" using assms(1) by (cases ns) auto
  have n: "proper_name n" using assms(2) ns by simp
  then obtain c cs where c: "n = c # cs" "c \<noteq> CHR ''/''" by (cases n) (auto simp: proper_name_def)
  have join: "join_slash ns = c # join_slash (cs # rest)" unfolding ns c(1) by (rule join_slash_char)
  then show "join_slash ns \<noteq> []" and abs: "\<not> is_abs (join_slash ns)" using c(2) by (simp_all add: is_abs_def)
  have "split_slash (join_slash ns) = ns" using assms by (intro split_join) (auto simp: proper_name_def)
  moreover have "clean_parts False ns = ns" unfolding clean_parts_def by (simp add: fold_clean_proper [OF assms(2)])
  ultimately show "Clean (join_slash ns) = join_slash ns" using join abs assms(1) by (simp add: Clean_def)
qed

lemma Join_below:
  assumes "is_abs d" and "Clean d \<noteq> ''/''" and "ns \<noteq> []" and "\<And>n. n \<in> set ns \<Longrightarrow> proper_name n"
  shows "Join [Clean d, join_slash ns] = Clean d @ CHR ''/'' # join_slash ns"
proof -
  obtain cd where d: "Clean d = CHR ''/'' # join_slash cd" "\<And>n. n \<in> set cd \<Longrightarrow> proper_name n" by (rule Clean_rooted [OF assms(1)]) blast
  have cd: "cd \<noteq> []" using d(1) assms(2) by auto
  let ?p = "Clean d @ CHR ''/'' # join_slash ns"
  have ns: "split_slash (join_slash ns) = ns" "split_slash (join_slash cd) = cd"
    using assms(3,4) cd d(2) by (auto simp: proper_name_def intro!: split_join)
  have "split_slash ?p = [] # cd @ ns" unfolding d(1) append_Cons using split_slash_append [of "join_slash cd" "join_slash ns"] ns by simp
  moreover have "fold (clean_step True) ([] # cd @ ns) [] = rev (cd @ ns)"
    using fold_clean_proper [of "cd @ ns" True "[]"] d(2) assms(4) by (auto simp: clean_step_def)
  moreover have "is_abs ?p" "?p \<noteq> []" by (simp_all add: d(1) is_abs_def)
  ultimately have "Clean ?p = CHR ''/'' # join_slash (cd @ ns)" by (simp add: Clean_def clean_parts_def del: rev_append)
  then have "Clean ?p = ?p" using join_append [OF cd assms(3)] d(1) by simp
  moreover have "Clean d \<noteq> []" by (simp add: d(1))
  ultimately show ?thesis by (simp add: Join.simps)
qed

lemma contains_str_append: "contains_str b p \<Longrightarrow> contains_str (a @ b) p"
proof (induction a)
  case (Cons x a)
  then show ?case by simp
qed simp

lemma to_lower_append [simp]: "to_lower (a @ b) = to_lower a @ to_lower b" "to_lower (c # b) = lower_char c # to_lower b"
  by (simp_all add: to_lower_def)

lemma lower_char_slash: "lower_char c = CHR ''/'' \<longleftrightarrow> c = CHR ''/''"
proof -
  have "lower_char c \<noteq> CHR ''/''" if "65 \<le> (of_char c :: nat)" "(of_char c :: nat) \<le> 90"
  proof
    assume "lower_char c = CHR ''/''"
    then have "of_char (char_of ((of_char c :: nat) + 32) :: char) = (of_char CHR ''/'' :: nat)" using that by (simp add: lower_char_def)
    with that show False by simp
  qed
  then show ?thesis by (auto simp: lower_char_def Let_def)
qed

lemma Base_last:
  assumes "ns \<noteq> []" and "\<And>n. n \<in> set ns \<Longrightarrow> CHR ''/'' \<notin> set n" and "last ns \<noteq> []"
  shows "Base (a @ CHR ''/'' # join_slash ns) = last ns"
proof -
  let ?p = "a @ CHR ''/'' # join_slash ns"
  have "ns = butlast ns @ [last ns]" using assms(1) by simp
  then obtain b where "join_slash ns = b @ last ns"
    by (metis append_Nil append_Cons append_assoc join_append join_slash.simps(2) not_Cons_self2)
  moreover obtain l c where "last ns = l @ [c]" using assms(3) by (metis append_butlast_last_id)
  moreover have "c \<noteq> CHR ''/''" using assms(1,2) calculation(2) by (metis in_set_conv_decomp last_in_set)
  ultimately have "rev (dropWhile (\<lambda>c. c = CHR ''/'') (rev ?p)) = ?p" by simp
  moreover have "last (split_slash ?p) = last ns" using assms(1,2) by (simp add: split_slash_append split_join)
  ultimately show ?thesis by (simp add: Base_def)
qed

lemma UnsafePath_below:
  assumes "ns \<noteq> []" and "\<And>n. n \<in> set ns \<Longrightarrow> proper_name n" and "UnsafePath (CHR ''/'' # join_slash ns)"
  shows "UnsafePath (a @ CHR ''/'' # join_slash ns)"
proof -
  have low: "to_lower (join_slash ns) = join_slash (map to_lower ns)"
    by (induction ns rule: join_slash.induct) (simp_all add: to_lower_def lower_char_def)
  have slash: "lower_char CHR ''/'' = CHR ''/''" by (simp add: lower_char_def)
  have "CHR ''/'' \<notin> set n" if "n \<in> set (map to_lower ns)" for n
  proof -
    from that obtain m where m: "m \<in> set ns" "n = map lower_char m" by (auto simp: to_lower_def)
    have "CHR ''/'' \<notin> set m" using assms(2) [OF m(1)] by (simp add: proper_name_def)
    then have "\<forall>c \<in> set m. lower_char c \<noteq> CHR ''/''" using lower_char_slash by metis
    then show ?thesis unfolding m(2) by (metis (no_types, lifting) imageE list.set_map)
  qed
  moreover have "last (map to_lower ns) \<noteq> []" using assms(1,2) by (auto simp: last_map to_lower_def proper_name_def)
  ultimately have base: "Base (x @ CHR ''/'' # join_slash (map to_lower ns)) = last (map to_lower ns)" for x
    using assms(1) by (intro Base_last) auto
  show ?thesis
    using assms(3) base [of "[]"] base [of "to_lower a"] contains_str_append [of "CHR ''/'' # join_slash (map to_lower ns)" _ "to_lower a"]
    by (auto simp: UnsafePath_def Let_def low slash simp del: contains_str.simps)
qed

section \<open>Decimal round trip\<close>

lemma digits_value_append: "digits_value (a @ [c]) = 10 * digits_value a + digit_value c"
  by (simp add: digits_value_def)

lemma digit_char_value: "d < 10 \<Longrightarrow> digit_value (digit_char d) = int d \<and> is_digit (digit_char d)"
  by (simp add: digit_value_def digit_char_def is_digit_def)

lemma show_nat_digits: "list_all is_digit (show_nat n) \<and> digits_value (show_nat n) = int n \<and> show_nat n \<noteq> []"
proof (induction n rule: show_nat.induct)
  case (1 n)
  show ?case
  proof (cases "n < 10")
    case True
    then show ?thesis using digit_char_value [OF True] by (simp add: show_nat.simps [of n] digits_value_def)
  next
    case False
    have "n mod 10 < 10" by simp
    from digit_char_value [OF this] 1 [OF False] False show ?thesis
      by (subst (1 2 3) show_nat.simps) (simp add: digits_value_append zmod_int zdiv_int)
  qed
qed

lemma Atoi_show_nat: "int n \<le> max_int64 \<Longrightarrow> Atoi (show_nat n) = Some (int n)"
proof -
  assume n: "int n \<le> max_int64"
  have d: "list_all is_digit (show_nat n)" "digits_value (show_nat n) = int n" "show_nat n \<noteq> []" using show_nat_digits by auto
  then have "hd (show_nat n) \<noteq> CHR ''-''" "hd (show_nat n) \<noteq> CHR ''+''"
    by (cases "show_nat n"; auto simp: is_digit_def digit_value_def)+
  with d n show ?thesis by (simp add: Atoi_def Let_def min_int64_def)
qed

section \<open>Restoring what was exported\<close>

text \<open>Where a visited file of the \<open>i\<close>-th root is restored.\<close>

definition restored_path :: "string list \<Rightarrow> nat \<Rightarrow> Visit \<Rightarrow> string" where
  "restored_path roots i v = Clean (roots ! i) @ CHR ''/'' # join_slash (vi_Rel v)"

definition usable_root :: "string \<Rightarrow> bool" where
  "usable_root d \<longleftrightarrow> is_abs d \<and> Clean d \<noteq> ''/''"

lemma proper_root_name: "proper_name (''root-'' @ show_nat i)"
proof -
  have "CHR ''/'' \<notin> set (show_nat i)" using show_nat_digits [of i] by (auto simp: list_all_iff is_digit_def digit_value_def)
  then show ?thesis by (simp add: proper_name_def)
qed

lemma entry_name_proper:
  assumes "\<And>n. n \<in> set rel \<Longrightarrow> proper_name n"
  shows "entry_name i rel = join_slash ((''root-'' @ show_nat i) # rel)"
proof (cases rel)
  case Nil
  let ?r = "''root-'' @ show_nat i"
  have "split_slash (?r @ ''/.'') = [?r, ''.'']"
    using split_slash_append [of ?r "''.''"] split_slash_single [of ?r] proper_root_name [of i] by (simp add: proper_name_def)
  moreover have "clean_parts False [?r, ''.''] = [?r]"
    using fold_clean_proper [of "[?r]" False "[]"] proper_root_name [of i] by (simp add: clean_parts_def clean_step_def)
  moreover have "\<not> is_abs (?r @ ''/.'')" by (simp add: is_abs_def)
  ultimately have "Clean (?r @ ''/.'') = ?r" by (simp add: Clean_def)
  then show ?thesis using Nil by (simp add: entry_name_def Join.simps)
next
  case (Cons n ns)
  let ?r = "''root-'' @ show_nat i"
  have "Clean (join_slash (?r # rel)) = join_slash (?r # rel)"
    using assms proper_root_name [of i] by (intro Clean_proper_relative) auto
  then show ?thesis using Cons by (simp add: entry_name_def Join.simps)
qed

lemma split_entry_name:
  assumes "\<And>n. n \<in> set rel \<Longrightarrow> proper_name n"
  shows "split_slash (entry_name i rel) = (''root-'' @ show_nat i) # rel"
proof -
  have "split_slash (join_slash ((''root-'' @ show_nat i) # rel)) = (''root-'' @ show_nat i) # rel"
    using assms proper_root_name [of i] by (intro split_join) (auto simp: proper_name_def)
  with entry_name_proper [of rel i] assms show ?thesis by simp
qed

lemma restore_exported:
  assumes "i < length roots" and "int i \<le> max_int64" and "usable_root (roots ! i)" and "\<And>n. n \<in> set rel \<Longrightarrow> proper_name n"
    and "\<not> UnsafePath (CHR ''/'' # entry_name i rel)" and "\<And>p. \<not> fs_deny fs p"
  shows "restore_entry roots None \<lparr>te_Name = entry_name i rel, te_Typeflag = TypeDir, te_Data = [], te_Err = None\<rparr> fs = (Inr (), fs)"
    and "rel \<noteq> [] \<Longrightarrow> restore_entry roots None \<lparr>te_Name = entry_name i rel, te_Typeflag = TypeReg, te_Data = data, te_Err = None\<rparr> fs
      = (Inr (), os_write (Clean (roots ! i) @ CHR ''/'' # join_slash rel) data fs)"
proof -
  define r where "r = ''root-'' @ show_nat i"
  have head: "has_prefix r ''root-''" "drop 5 r = show_nat i" by (simp_all add: r_def has_prefix_def)
  note atoi = Atoi_show_nat [OF assms(2)]
  have split: "split_slash (entry_name i rel) = r # rel" using split_entry_name [of rel i] assms(4) by (simp only: r_def)
  have target: "rel \<noteq> [] \<Longrightarrow> Join [Clean (roots ! i), join_slash rel] = Clean (roots ! i) @ CHR ''/'' # join_slash rel"
    using assms(3) by (intro Join_below assms(4)) (simp_all add: usable_root_def)
  have rel: "Join rel = join_slash rel" if ne: "rel \<noteq> []"
  proof -
    obtain n ns where "rel = n # ns" using ne by (cases rel) auto
    moreover have "n \<noteq> []" using assms(4) [of n] calculation by (simp add: proper_name_def)
    ultimately show ?thesis using Clean_proper_relative(1) [OF ne assms(4)] by (simp add: Join.simps)
  qed
  have safe: "\<not> UnsafePath (CHR ''/'' # join_slash rel)" if "rel \<noteq> []"
  proof
    assume "UnsafePath (CHR ''/'' # join_slash rel)"
    then have "UnsafePath ((CHR ''/'' # ''root-'' @ show_nat i) @ CHR ''/'' # join_slash rel)"
      using UnsafePath_below [of rel "CHR ''/'' # ''root-'' @ show_nat i"] that assms(4) by blast
    moreover have "entry_name i rel = (''root-'' @ show_nat i) @ CHR ''/'' # join_slash rel"
      using entry_name_proper [of rel i, OF assms(4)] that by (cases rel) auto
    ultimately show False using assms(5) by simp
  qed
  show "restore_entry roots None \<lparr>te_Name = entry_name i rel, te_Typeflag = TypeDir, te_Data = [], te_Err = None\<rparr> fs = (Inr (), fs)"
  proof (cases "rel = []")
    case True
    then have "split_slash (entry_name i []) = [r]" using split by simp
    with True assms(1) show ?thesis by (simp add: restore_entry_def head atoi Let_def)
  next
    case False
    with assms(1,6) target rel safe has_prefix_slash show ?thesis
      by (simp add: restore_entry_def split head atoi Let_def)
  qed
  show "restore_entry roots None \<lparr>te_Name = entry_name i rel, te_Typeflag = TypeReg, te_Data = data, te_Err = None\<rparr> fs
      = (Inr (), os_write (Clean (roots ! i) @ CHR ''/'' # join_slash rel) data fs)" if "rel \<noteq> []"
    using that assms(1,6) target rel safe has_prefix_slash
    by (simp add: restore_entry_def split head atoi Let_def)
qed

text \<open>An entry of an export, with the root and the visit it comes from.\<close>

definition exported :: "nat \<Rightarrow> Visit \<Rightarrow> TarEntry \<Rightarrow> bool" where
  "exported i v e \<longleftrightarrow> te_Name e = entry_name i (vi_Rel v) \<and> te_Err e = None \<and> \<not> UnsafePath (CHR ''/'' # entry_name i (vi_Rel v))
     \<and> (vi_Kind v = Directory \<and> te_Typeflag e = TypeDir \<and> te_Data e = [] \<or> vi_Kind v = Regular \<and> te_Typeflag e = TypeReg \<and> vi_Data v = Inr (te_Data e))"

lemma set_dropWhile: "x \<in> set (dropWhile P xs) \<Longrightarrow> x \<in> set xs"
  by (induction xs) (auto split: if_splits)

lemma dropWhile_keeps: "x \<in> set xs \<Longrightarrow> \<not> P x \<Longrightarrow> x \<in> set (dropWhile P xs)"
  by (induction xs) auto

lemma export_root_Cons:
  assumes "export_root ctx i (v # vs) = Inr es"
  obtains (skip) "UnsafePath (CHR ''/'' # entry_name i (vi_Rel v)) \<or> vi_Kind v = Symlink"
      "export_root ctx i (if vi_Kind v = Directory then dropWhile (\<lambda>x. take (length (vi_Rel v)) (vi_Rel x) = vi_Rel v) vs else vs) = Inr es"
  | (entry) h es' where "exported i v h" "es = h # es'" "export_root ctx i vs = Inr es'"
  | (special) "vi_Kind v = Special" "export_root ctx i vs = Inr es"
proof -
  from assms have ok: "vi_Err v = None" "ctx = None" by (auto split: option.splits)
  let ?name = "entry_name i (vi_Rel v)"
  let ?dir = "\<lparr>te_Name = ?name, te_Typeflag = TypeDir, te_Data = [], te_Err = None\<rparr>"
  let ?reg = "\<lambda>data. \<lparr>te_Name = ?name, te_Typeflag = TypeReg, te_Data = data, te_Err = None\<rparr>"
  show thesis
  proof (cases "UnsafePath (CHR ''/'' # ?name) \<or> vi_Kind v = Symlink")
    case True
    with assms ok show thesis by (intro skip) (simp_all add: Let_def)
  next
    case False
    note safe = this
    show thesis
    proof (cases "vi_Kind v")
      case Directory
      with assms ok safe obtain es' where "es = ?dir # es'" "export_root ctx i vs = Inr es'" by (auto simp: rbind_def Let_def split: sum.splits)
      moreover have "exported i v ?dir" using Directory safe by (simp add: exported_def)
      ultimately show thesis by (rule entry [rotated])
    next
      case Regular
      with assms ok safe obtain data es' where "es = ?reg data # es'" "export_root ctx i vs = Inr es'" "vi_Data v = Inr data"
        by (auto simp: rbind_def Let_def split: sum.splits)
      moreover have "vi_Data v = Inr data \<Longrightarrow> exported i v (?reg data)" for data using Regular safe by (simp add: exported_def)
      ultimately show thesis using entry by blast
    next
      case Special
      with assms ok safe show thesis by (intro special) (simp_all add: Let_def)
    qed (use safe in simp)
  qed
qed

lemma export_root_sound: "export_root ctx i vs = Inr es \<Longrightarrow> e \<in> set es \<Longrightarrow> \<exists>v \<in> set vs. exported i v e"
proof (induction "length vs" arbitrary: vs es rule: less_induct)
  case less
  show ?case
  proof (cases vs)
    case (Cons v vs')
    from less.prems(1) [unfolded Cons] show ?thesis
    proof (cases rule: export_root_Cons)
      case skip
      let ?rest = "if vi_Kind v = Directory then dropWhile (\<lambda>x. take (length (vi_Rel v)) (vi_Rel x) = vi_Rel v) vs' else vs'"
      have "length ?rest < length vs" by (simp add: Cons less_Suc_eq_le length_dropWhile_le)
      from less.hyps [OF this skip(2) less.prems(2)] show ?thesis by (auto simp: Cons split: if_splits dest: set_dropWhile)
    next
      case (entry h es')
      with less.hyps [OF _ entry(3)] less.prems(2) show ?thesis by (auto simp: Cons)
    next
      case special
      from less.hyps [OF _ special(2) less.prems(2)] show ?thesis by (auto simp: Cons)
    qed
  qed (use less.prems in simp)
qed

text \<open>No directory on the way to the visited file, nor the file itself, is left out.\<close>

definition safe_visit :: "nat \<Rightarrow> Visit \<Rightarrow> bool" where
  "safe_visit i v \<longleftrightarrow> (\<forall>k \<le> length (vi_Rel v). \<not> UnsafePath (CHR ''/'' # entry_name i (take k (vi_Rel v))))"

lemma export_root_complete:
  "export_root ctx i vs = Inr es \<Longrightarrow> v \<in> set vs \<Longrightarrow> vi_Kind v = Regular \<Longrightarrow> safe_visit i v \<Longrightarrow> \<exists>e \<in> set es. exported i v e"
proof (induction "length vs" arbitrary: vs es rule: less_induct)
  case less
  have self: "\<not> UnsafePath (CHR ''/'' # entry_name i (vi_Rel v))"
    using less.prems(4) [unfolded safe_visit_def, rule_format, of "length (vi_Rel v)"] by simp
  show ?case
  proof (cases vs)
    case (Cons x vs')
    from less.prems(1) [unfolded Cons] show ?thesis
    proof (cases rule: export_root_Cons)
      case skip
      have "v \<noteq> x" using skip(1) self less.prems(3) by auto
      then have v: "v \<in> set vs'" using less.prems(2) Cons by simp
      have "take (length (vi_Rel x)) (vi_Rel v) \<noteq> vi_Rel x" if "vi_Kind x = Directory"
      proof
        assume eq: "take (length (vi_Rel x)) (vi_Rel v) = vi_Rel x"
        then have "length (vi_Rel x) \<le> length (vi_Rel v)" by (metis length_take min.absorb_iff1 min.commute)
        with less.prems(4) eq have "\<not> UnsafePath (CHR ''/'' # entry_name i (vi_Rel x))" by (metis safe_visit_def)
        with skip(1) that show False by simp
      qed
      then have "v \<in> set (if vi_Kind x = Directory then dropWhile (\<lambda>y. take (length (vi_Rel x)) (vi_Rel y) = vi_Rel x) vs' else vs')"
        using v by (auto intro: dropWhile_keeps)
      from less.hyps [OF _ skip(2) this less.prems(3,4)] show ?thesis by (auto simp: Cons less_Suc_eq_le length_dropWhile_le)
    next
      case (entry h es')
      with less.hyps [OF _ entry(3) _ less.prems(3,4)] less.prems(2) show ?thesis by (auto simp: Cons)
    next
      case special
      with less.hyps [OF _ special(2) _ less.prems(3,4)] less.prems(2,3) show ?thesis by (auto simp: Cons)
    qed
  qed (use less.prems in simp)
qed

lemma export_roots_entries:
  assumes "export_roots ctx i walks = Inr es"
  shows "e \<in> set es \<Longrightarrow> \<exists>j < length walks. \<exists>v \<in> set (walks ! j). exported (i + j) v e"
    and "j < length walks \<Longrightarrow> v \<in> set (walks ! j) \<Longrightarrow> vi_Kind v = Regular \<Longrightarrow> safe_visit (i + j) v \<Longrightarrow> \<exists>e \<in> set es. exported (i + j) v e"
proof -
  from assms have "(\<forall>e \<in> set es. \<exists>j < length walks. \<exists>v \<in> set (walks ! j). exported (i + j) v e)
    \<and> (\<forall>j < length walks. \<forall>v \<in> set (walks ! j). vi_Kind v = Regular \<and> safe_visit (i + j) v \<longrightarrow> (\<exists>e \<in> set es. exported (i + j) v e))"
  proof (induction walks arbitrary: i es)
    case (Cons vs walks)
    then obtain es1 es2 where es: "export_root ctx i vs = Inr es1" "export_roots ctx (i + 1) walks = Inr es2" "es = es1 @ es2"
      by (auto simp: rbind_def split: sum.splits)
    note IH = Cons.IH [OF es(2)]
    show ?case
    proof (intro conjI ballI allI impI)
      fix e assume "e \<in> set es"
      then consider "e \<in> set es1" | "e \<in> set es2" using es(3) by auto
      then show "\<exists>j < length (vs # walks). \<exists>v \<in> set ((vs # walks) ! j). exported (i + j) v e"
      proof cases
        case 1
        from export_root_sound [OF es(1) 1] show ?thesis by (intro exI [of _ 0]) simp
      next
        case 2
        with IH obtain j v where "j < length walks" "v \<in> set (walks ! j)" "exported (i + 1 + j) v e" by blast
        then show ?thesis by (intro exI [of _ "Suc j"]) auto
      qed
    next
      fix j v assume j: "j < length (vs # walks)" and v: "v \<in> set ((vs # walks) ! j)" and reg: "vi_Kind v = Regular \<and> safe_visit (i + j) v"
      show "\<exists>e \<in> set es. exported (i + j) v e"
      proof (cases j)
        case 0
        with export_root_complete [OF es(1)] v reg es(3) show ?thesis by auto
      next
        case (Suc k)
        with IH [THEN conjunct2, rule_format, of k v] j v reg es(3) show ?thesis by auto
      qed
    qed
  qed simp
  then show "e \<in> set es \<Longrightarrow> \<exists>j < length walks. \<exists>v \<in> set (walks ! j). exported (i + j) v e"
    "j < length walks \<Longrightarrow> v \<in> set (walks ! j) \<Longrightarrow> vi_Kind v = Regular \<Longrightarrow> safe_visit (i + j) v \<Longrightarrow> \<exists>e \<in> set es. exported (i + j) v e"
    by blast+
qed

lemma os_write_lookup: "map_of (fs_files (os_write p d fs)) = (map_of (fs_files fs))(p \<mapsto> \<lparr>f_data = d, f_mtime = fs_now fs\<rparr>)"
  by (simp add: os_write_def update_conv')

lemma os_write_deny [simp]: "fs_deny (os_write p d fs) = fs_deny fs"
  by (simp add: os_write_def)

text \<open>The path an entry's name stands for, and the effect of restoring it.\<close>

definition target_of :: "string list \<Rightarrow> TarEntry \<Rightarrow> string" where
  "target_of roots e = (let parts = split_slash (te_Name e) in
     Clean (roots ! nat (the (Atoi (drop 5 (hd parts))))) @ CHR ''/'' # join_slash (tl parts))"

definition write_entry :: "string list \<Rightarrow> TarEntry \<Rightarrow> FS \<Rightarrow> FS" where
  "write_entry roots e fs = (if te_Typeflag e = TypeReg then os_write (target_of roots e) (te_Data e) fs else fs)"

lemma write_entry_deny [simp]: "fs_deny (write_entry roots e fs) = fs_deny fs"
  by (simp add: write_entry_def)

lemma restore_exported_entry:
  assumes "exported j v e" and "\<forall>n \<in> set (vi_Rel v). proper_name n" and "vi_Kind v = Regular \<Longrightarrow> vi_Rel v \<noteq> []"
    and "j < length roots" and "list_all usable_root roots" and "int (length roots) \<le> max_int64"
  shows "(\<And>p. \<not> fs_deny fs p) \<Longrightarrow> restore_entry roots None e fs = (Inr (), write_entry roots e fs)"
    and "target_of roots e = restored_path roots j v"
proof -
  have root: "usable_root (roots ! j)" "int j \<le> max_int64" using assms(4-6) by (auto simp: list_all_length)
  have unsafe: "\<not> UnsafePath (CHR ''/'' # entry_name j (vi_Rel v))" using assms(1) by (simp add: exported_def)
  have proper: "\<And>n. n \<in> set (vi_Rel v) \<Longrightarrow> proper_name n" using assms(2) by blast
  have "drop 5 (''root-'' @ show_nat j) = show_nat j" by simp
  then have "nat (the (Atoi (drop 5 (''root-'' @ show_nat j)))) = j" by (simp only: Atoi_show_nat [OF root(2)] option.sel nat_int)
  with split_entry_name [of "vi_Rel v" j, OF proper] assms(1) show target: "target_of roots e = restored_path roots j v"
    by (simp add: target_of_def restored_path_def exported_def)
  assume deny: "\<And>p. \<not> fs_deny fs p"
  note one = restore_exported [of j roots "vi_Rel v" fs, OF assms(4) root(2,1) proper unsafe deny]
  show "restore_entry roots None e fs = (Inr (), write_entry roots e fs)"
  proof (cases "vi_Kind v = Directory")
    case True
    with assms(1) have "e = \<lparr>te_Name = entry_name j (vi_Rel v), te_Typeflag = TypeDir, te_Data = [], te_Err = None\<rparr>" by (auto simp: exported_def)
    with one(1) show ?thesis by (simp add: write_entry_def)
  next
    case False
    with assms(1) have e: "e = \<lparr>te_Name = entry_name j (vi_Rel v), te_Typeflag = TypeReg, te_Data = te_Data e, te_Err = None\<rparr>"
      and "vi_Kind v = Regular" by (auto simp: exported_def)
    with assms(3) one(2) [of "te_Data e"] target show ?thesis
      by (metis (no_types, lifting) TarEntry.select_convs(2) restored_path_def write_entry_def)
  qed
qed

lemma restore_stream:
  assumes "\<And>e fs. e \<in> set es \<Longrightarrow> (\<And>p. \<not> fs_deny fs p) \<Longrightarrow> restore_entry roots None e fs = (Inr (), write_entry roots e fs)" and "\<And>p. \<not> fs_deny fs p"
  shows "Restore roots None es None fs = (Inr (), fold (write_entry roots) es fs)"
  using assms by (induction es arbitrary: fs) simp_all

lemma read_after_stream:
  assumes "\<And>e. e \<in> set es \<Longrightarrow> te_Typeflag e = TypeReg \<Longrightarrow> target_of roots e = path \<Longrightarrow> te_Data e = d" and "\<not> fs_deny fs path"
    and "(\<exists>e \<in> set es. te_Typeflag e = TypeReg \<and> target_of roots e = path) \<or> os_read path fs = Inr d"
  shows "os_read path (fold (write_entry roots) es fs) = Inr d"
  using assms
proof (induction es arbitrary: fs)
  case (Cons e es)
  have "os_read path (write_entry roots e fs) = Inr d" if "te_Typeflag e = TypeReg \<and> target_of roots e = path \<or> os_read path fs = Inr d"
    using that Cons.prems(1) [of e] Cons.prems(2) by (auto simp: os_read_def write_entry_def os_write_lookup split: option.splits if_splits)
  with Cons.prems have "(\<exists>e \<in> set es. te_Typeflag e = TypeReg \<and> target_of roots e = path) \<or> os_read path (write_entry roots e fs) = Inr d" by auto
  with Cons show ?case by simp
qed simp

section \<open>Containment\<close>

text \<open>A path is a directory or lies below it, through proper names only.\<close>

definition confined :: "string \<Rightarrow> string \<Rightarrow> bool" where
  "confined d p \<longleftrightarrow> p = Clean d \<or> (\<exists>rest. rest \<noteq> [] \<and> (\<forall>n \<in> set rest. proper_name n) \<and> p = Clean d @ CHR ''/'' # join_slash rest)"

lemma Clean_abs: "is_abs d \<Longrightarrow> is_abs (Clean d) \<and> Clean d \<noteq> []"
  by (erule Clean_rooted) (simp add: is_abs_def)

lemma Join_abs: "is_abs d \<Longrightarrow> Join [d, rel] = Clean (d @ CHR ''/'' # rel)"
  by (cases d) (auto simp: is_abs_def Join.simps)

lemma restore_entry_confined:
  assumes "list_all is_abs roots" and "restore_entry roots ctx h fs = (r, fs')"
  shows "fs' = fs \<or> (\<exists>d \<in> set roots. \<exists>p. confined d p \<and> fs' = os_write p (te_Data h) fs)"
proof (cases "fs' = fs")
  case False
  let ?parts = "split_slash (te_Name h)"
  from False assms(2) obtain i where i: "Atoi (drop 5 (hd ?parts)) = Some i"
    by (auto simp: restore_entry_def Let_def split: if_splits option.splits)
  define d where "d = roots ! nat i"
  define rel where "rel = Join (tl ?parts)"
  define target where "target = Join [Clean d, rel]"
  from False assms(2) i have ok: "\<not> (i < 0 \<or> i \<ge> int (length roots))" "\<not> (target \<noteq> Clean d \<and> \<not> has_prefix target (Clean d @ ''/''))"
    and fs': "fs' = os_write target (te_Data h) fs"
    unfolding restore_entry_def Let_def d_def [symmetric] rel_def [symmetric] target_def [symmetric]
    by (auto simp only: i option.case d_def [symmetric] target_def [symmetric] prod.inject split: if_splits option.splits)
  have d: "d \<in> set roots" "is_abs d" using ok(1) assms(1) by (auto simp: d_def list_all_iff)
  have t: "target = Clean (Clean d @ CHR ''/'' # rel)" unfolding target_def using Clean_abs [OF d(2)] by (intro Join_abs) simp
  have "confined d target"
  proof (cases "target = Clean d")
    case False
    with ok(2) have "has_prefix (Clean (Clean d @ CHR ''/'' # rel)) (Clean d @ ''/'')" by (simp add: t)
    then show ?thesis using d(2) Clean_abs [OF d(2)]
      by (elim prefix_confines [rotated 2]) (auto simp: confined_def t is_abs_append)
  qed (simp add: confined_def)
  with d(1) fs' show ?thesis by blast
qed simp

section \<open>The contract of a checkpoint adapter\<close>

text \<open>
  What the API and the recovery controller rely on: a saved checkpoint is opened with the bytes it was saved with,
  nothing is delivered that does not have the catalogued checksum, a failed save leaves no trace, and a deleted
  checkpoint cannot be opened.
\<close>

locale checkpoint_adapter =
  fixes A :: "'p Adapter" and digest :: "string \<Rightarrow> string"
  assumes save_open: "ad_Save A c \<lparr>rd_data = data, rd_err = None\<rparr> p = (Inr (loc, chk, n), p') \<Longrightarrow>
      ad_Open A (c\<lparr>c_Location := loc, c_Checksum := chk\<rparr>) p' = (Inr data, p') \<and> chk = digest data \<and> n = int (length data)"
    and save_fails: "ad_Save A c r p = (Inl e, p') \<Longrightarrow> p' = p"
    and open_checked: "ad_Open A c p = (Inr data, p') \<Longrightarrow> p' = p \<and> digest data = c_Checksum c"
    and delete_gone: "ad_Delete A c p = (Inr (), p') \<Longrightarrow> \<exists>e. fst (ad_Open A c p') = Inl e"
begin

lemma reopen:
  assumes "ad_Save A c \<lparr>rd_data = data, rd_err = None\<rparr> p = (Inr (loc, chk, n), p')" and "ad_Open A (c\<lparr>c_Location := loc, c_Checksum := chk\<rparr>) q = (Inr data', q')"
  shows "digest data' = digest data"
  using save_open [OF assms(1)] open_checked [OF assms(2)] by simp

end

lemma unlink_write:
  assumes "map_of (fs_files fs) p = None"
  shows "os_unlink p (os_write p d fs) = fs"
proof -
  have "p \<notin> fst ` set (fs_files fs)" using assms by (simp add: map_of_eq_None_iff)
  then show ?thesis by (simp add: os_unlink_def os_write_def delete_update_same)
qed

interpretation fs: checkpoint_adapter "Filesystem sha ctx dir" "\<lambda>d. hex_EncodeToString (sha d)" for sha ctx dir
proof
  fix c data p loc chk n p'
  assume "ad_Save (Filesystem sha ctx dir) c \<lparr>rd_data = data, rd_err = None\<rparr> p = (Inr (loc, chk, n), p')"
  then show "ad_Open (Filesystem sha ctx dir) (c\<lparr>c_Location := loc, c_Checksum := chk\<rparr>) p' = (Inr data, p')
      \<and> chk = hex_EncodeToString (sha data) \<and> n = int (length data)"
    by (auto simp: Filesystem_def Filesystem_Save_def Filesystem_Open_def os_read_def unlink_write os_write_lookup Let_def
        split: option.splits if_splits)
next
  fix c r p e p'
  assume "ad_Save (Filesystem sha ctx dir) c r p = (Inl e, p')"
  then show "p' = p"
    by (auto simp: Filesystem_def Filesystem_Save_def unlink_write Let_def split: option.splits if_splits)
next
  fix c p data p'
  assume "ad_Open (Filesystem sha ctx dir) c p = (Inr data, p')"
  then show "p' = p \<and> hex_EncodeToString (sha data) = c_Checksum c"
    by (auto simp: Filesystem_def Filesystem_Open_def split: option.splits sum.splits if_splits)
next
  fix c p p'
  assume "ad_Delete (Filesystem sha ctx dir) c p = (Inr (), p')"
  then show "\<exists>e. fst (ad_Open (Filesystem sha ctx dir) c p') = Inl e"
    by (auto simp: Filesystem_def Filesystem_Delete_def Filesystem_Open_def os_remove_def os_read_def os_unlink_def delete_conv'
        split: option.splits if_splits)
qed

interpretation snapshot: checkpoint_adapter "ProviderSnapshot (Some (Filesystem sha ctx dir))" "\<lambda>d. hex_EncodeToString (sha d)" for sha ctx dir
  using fs.save_open fs.save_fails fs.open_checked fs.delete_gone by unfold_locales (simp_all add: ProviderSnapshot_def)

section \<open>Sweeping\<close>

lemma os_unlink_lookup: "map_of (fs_files (os_unlink p fs)) = (map_of (fs_files fs))(p := None)"
  by (simp add: os_unlink_def delete_conv')

text \<open>A file may go: it is one of the names, not live, of the adapter's making, and old enough.\<close>

definition orphan :: "string \<Rightarrow> (string \<Rightarrow> bool) \<Rightarrow> time \<Rightarrow> FS \<Rightarrow> string \<Rightarrow> bool" where
  "orphan dir live before fs n \<longleftrightarrow> \<not> live (Join [dir, n]) \<and> (has_suffix n ''.partial'' \<or> has_suffix n ''.checkpoint'')
     \<and> (\<exists>f. map_of (fs_files fs) (Join [dir, n]) = Some f \<and> f_mtime f \<le> before)"

lemma sweep_Cons:
  "sweep None dir live before (n # names) fs =
    (if orphan dir live before fs n then
       (if fs_deny fs (Join [dir, n]) then (Inl FsDenied, fs) else sweep None dir live before names (os_unlink (Join [dir, n]) fs))
     else if \<not> live (Join [dir, n]) \<and> (has_suffix n ''.partial'' \<or> has_suffix n ''.checkpoint'') \<and> map_of (fs_files fs) (Join [dir, n]) = None
     then (Inl FsNotExist, fs) else sweep None dir live before names fs)"
proof -
  define path where "path = Join [dir, n]"
  define mine where "mine \<longleftrightarrow> has_suffix n ''.partial'' \<or> has_suffix n ''.checkpoint''"
  have "sweep None dir live before (n # names) fs =
      (if live path \<or> \<not> mine then sweep None dir live before names fs
       else case map_of (fs_files fs) path of None \<Rightarrow> (Inl FsNotExist, fs)
       | Some f \<Rightarrow> if f_mtime f > before then sweep None dir live before names fs
           else if fs_deny fs path then (Inl FsDenied, fs) else sweep None dir live before names (os_unlink path fs))"
    by (simp add: path_def [symmetric] mine_def Let_def os_remove_def split: option.split)
  moreover have "orphan dir live before fs n \<longleftrightarrow> \<not> live path \<and> mine \<and> (\<exists>f. map_of (fs_files fs) path = Some f \<and> f_mtime f \<le> before)"
    by (simp add: orphan_def path_def mine_def)
  ultimately show ?thesis unfolding path_def [symmetric] mine_def [symmetric] by (cases "map_of (fs_files fs) path") auto
qed

lemma sweep_removes:
  assumes "sweep ctx dir live before names fs = (r, fs')"
  shows "(map_of (fs_files fs') p = map_of (fs_files fs) p \<or> map_of (fs_files fs') p = None \<and> (\<exists>n \<in> set names. p = Join [dir, n] \<and> orphan dir live before fs n))
    \<and> (r = Inr () \<longrightarrow> (\<forall>n \<in> set names. orphan dir live before fs n \<longrightarrow> map_of (fs_files fs') (Join [dir, n]) = None))"
  using assms
proof (induction names arbitrary: fs p)
  case (Cons n names)
  define path where "path = Join [dir, n]"
  show ?case
  proof (cases ctx)
    case None
    show ?thesis
    proof (cases "orphan dir live before fs n \<and> \<not> fs_deny fs path")
      case True
      then have "sweep ctx dir live before names (os_unlink path fs) = (r, fs')"
        using Cons.prems unfolding None sweep_Cons path_def by simp
      note IHs = Cons.IH [OF this]
      note IH = IHs [of p]
      have look: "map_of (fs_files (os_unlink path fs)) q = (if q = path then None else map_of (fs_files fs) q)" for q
        by (simp add: os_unlink_lookup)
      have keep: "orphan dir live before (os_unlink path fs) m \<longleftrightarrow> orphan dir live before fs m \<and> Join [dir, m] \<noteq> path" for m
        by (auto simp: orphan_def look)
      have gone: "map_of (fs_files fs') path = None" using IHs [of path] by (auto simp: look)
      show ?thesis
      proof (intro conjI impI ballI)
        show "map_of (fs_files fs') p = map_of (fs_files fs) p \<or> map_of (fs_files fs') p = None
            \<and> (\<exists>m \<in> set (n # names). p = Join [dir, m] \<and> orphan dir live before fs m)"
        proof (cases "p = path")
          case True
          with gone \<open>orphan dir live before fs n \<and> _\<close> show ?thesis by (auto simp: path_def)
        next
          case False
          with IH show ?thesis unfolding keep look by auto
        qed
      next
        fix m assume "r = Inr ()" and m: "m \<in> set (n # names)" "orphan dir live before fs m"
        show "map_of (fs_files fs') (Join [dir, m]) = None"
        proof (cases "Join [dir, m] = path")
          case False
          with m have "m \<in> set names" by (auto simp: path_def)
          with IH \<open>r = Inr ()\<close> m(2) False show ?thesis unfolding keep by blast
        qed (use gone in simp)
      qed
    next
      case False
      then consider "fs' = fs" "r \<noteq> Inr ()" | "sweep ctx dir live before names fs = (r, fs')" "\<not> orphan dir live before fs n"
        using Cons.prems unfolding None sweep_Cons path_def by (auto split: if_splits)
      then show ?thesis
      proof cases
        case 2
        from Cons.IH [OF 2(1)] 2(2) show ?thesis by (metis insert_iff list.set(2))
      qed simp
    qed
  qed (use Cons.prems in auto)
qed simp

section \<open>Properties\<close>


definition demo_fs :: FS where
  "demo_fs = \<lparr>fs_files = [(''/srv/other'', \<lparr>f_data = ''x'', f_mtime = 1\<rparr>)], fs_deny = (\<lambda>_. False), fs_now = 9\<rparr>"

definition demo_visit :: "string list \<Rightarrow> FileKind \<Rightarrow> string \<Rightarrow> Visit" where
  "demo_visit rel kind data = \<lparr>vi_Rel = rel, vi_Kind = kind, vi_Data = Inr data, vi_Err = None\<rparr>"

definition demo_walk :: "Visit list" where
  "demo_walk = [demo_visit [] Directory [], demo_visit [''.env''] Regular ''secret'', demo_visit [''state''] Regular ''s'']"


text \<open>
  Roots that an export accepts but a restore does not: the current directory is rejected as a path traversal, and a
  root that is itself a file is passed over, so its content is lost.
\<close>

theorem restore_rejects_current_directory:
  "fst (Restore [''.''] None (projr (Export None [demo_walk])) None demo_fs) = Inl ErrTraversal"
  by code_simp

theorem restore_loses_file_root:
  "(case Export None [[demo_visit [] Regular ''s'']] of Inl e \<Rightarrow> False
    | Inr es \<Rightarrow> length es = 1 \<and> fst (Restore [''/data/state''] None es None demo_fs) = Inr ()
        \<and> fs_files (snd (Restore [''/data/state''] None es None demo_fs)) = fs_files demo_fs)"
  by code_simp



text \<open>
  Checkpoints are durable and checked: for both adapters a saved checkpoint opens with the bytes that were
  saved and a checksum and size that describe them, a save that fails leaves the files as they were, and no
  bytes are ever delivered that do not have the catalogued checksum.
\<close>

theorem checkpoint_contract:
  assumes "A = Filesystem sha ctx dir \<or> A = ProviderSnapshot (Some (Filesystem sha ctx dir))"
  shows "(case ad_Save A c \<lparr>rd_data = data, rd_err = err\<rparr> fs of
      (Inl e, fs') \<Rightarrow> fs' = fs
    | (Inr (loc, chk, n), fs') \<Rightarrow> ad_Open A (c\<lparr>c_Location := loc, c_Checksum := chk\<rparr>) fs' = (Inr data, fs')
        \<and> chk = hex_EncodeToString (sha data) \<and> n = int (length data))
    \<and> (case ad_Open A x fs of (Inl e, fs') \<Rightarrow> True | (Inr bytes, fs') \<Rightarrow> fs' = fs \<and> hex_EncodeToString (sha bytes) = c_Checksum x)"
proof -
  have err: "err = None" if "ad_Save A c \<lparr>rd_data = data, rd_err = err\<rparr> fs = (Inr y, fs')" for y fs'
    using assms that by (auto simp: ProviderSnapshot_def Filesystem_def Filesystem_Save_def Let_def split: option.splits if_splits)
  from assms show ?thesis
  proof
    assume A: "A = Filesystem sha ctx dir"
    show ?thesis using err unfolding A
      by (auto split: prod.splits sum.splits dest: fs.save_open fs.save_fails fs.open_checked)
  next
    assume A: "A = ProviderSnapshot (Some (Filesystem sha ctx dir))"
    show ?thesis using err unfolding A
      by (auto split: prod.splits sum.splits dest: snapshot.save_open snapshot.save_fails snapshot.open_checked)
  qed
qed

theorem checkpoint_contract_witness:
  "\<exists>loc chk n fs'. ad_Save (Filesystem (take 1) None ''/cp'') (zero_Checkpoint\<lparr>c_ID := ''a''\<rparr>) \<lparr>rd_data = ''state'', rd_err = None\<rparr> demo_fs = (Inr (loc, chk, n), fs')
    \<and> ad_Open (Filesystem (take 1) None ''/cp'') (zero_Checkpoint\<lparr>c_ID := ''a'', c_Location := loc, c_Checksum := chk\<rparr>) fs' = (Inr ''state'', fs')"
proof -
  let ?A = "Filesystem (take 1) None ''/cp''" and ?c = "zero_Checkpoint\<lparr>c_ID := ''a''\<rparr>"
  have "\<not> isl (fst (ad_Save ?A ?c \<lparr>rd_data = ''state'', rd_err = None\<rparr> demo_fs))" by code_simp
  then obtain loc chk n fs' where save: "ad_Save ?A ?c \<lparr>rd_data = ''state'', rd_err = None\<rparr> demo_fs = (Inr (loc, chk, n), fs')"
    by (metis prod.collapse sum.collapse(2))
  with checkpoint_contract [of ?A "take 1" None "''/cp''" demo_fs ?c "''state''" None] show ?thesis by auto
qed

text \<open>
  The artifact store stays in its directory and returns what was put: a key resolves to a path strictly below
  the absolute root, and after a successful put the same key yields the data while every other file is unchanged.
\<close>

theorem artifact_roundtrip:
  assumes "is_abs d \<or> (\<exists>wd. cwd = Inr wd \<and> is_abs wd)" and "artifact_Put cwd d key data fs = (Inr (), fs')"
  shows "\<exists>root p rest. Abs cwd d = Inr root \<and> p = root @ CHR ''/'' # join_slash rest \<and> rest \<noteq> [] \<and> (\<forall>n \<in> set rest. proper_name n)
    \<and> artifact_Get cwd d key fs' = Inr data \<and> (\<forall>q. q \<noteq> p \<longrightarrow> map_of (fs_files fs') q = map_of (fs_files fs) q)"
proof -
  from assms(2) obtain p where p: "resolve_artifact cwd d key = Inr p" "\<not> fs_deny fs p" "fs' = os_write p data fs"
    by (auto simp: artifact_Put_def split: sum.splits if_splits)
  obtain x where x: "is_abs x" "Abs cwd d = Inr (Clean x)"
  proof (cases "is_abs d")
    case False
    with assms(1) obtain wd where wd: "cwd = Inr wd" "is_abs wd" by blast
    with False have "Abs cwd d = Inr (Clean (wd @ CHR ''/'' # d))" by (simp add: Abs_def rbind_def Join_abs)
    with wd(2) show thesis by (intro that [of "wd @ CHR ''/'' # d"]) (simp_all add: is_abs_append)
  qed (use that [of d] in \<open>simp add: Abs_def\<close>)
  have cx: "is_abs (Clean x)" "Clean x \<noteq> []" using Clean_abs [OF x(1)] by simp_all
  have join: "Join [Clean x, key] = Clean (Clean x @ CHR ''/'' # key)" by (rule Join_abs [OF cx(1)])
  have abs: "is_abs (Join [Clean x, key])" unfolding join using Clean_abs is_abs_append [OF cx(1)] by blast
  then have "Abs cwd (Join [Clean x, key]) = Inr (Clean (Join [Clean x, key]))" by (simp add: Abs_def)
  with p(1) x(2) have "p = Clean (Join [Clean x, key])" "has_prefix (Clean (Join [Clean x, key])) (Clean x @ ''/'')"
    by (auto simp: resolve_artifact_def rbind_def split: if_splits)
  then obtain rest where "rest \<noteq> []" "\<And>n. n \<in> set rest \<Longrightarrow> proper_name n" "p = Clean x @ CHR ''/'' # join_slash rest"
    using prefix_confines [OF x(1) abs] by metis
  moreover have "artifact_Get cwd d key fs' = Inr data" using p by (simp add: artifact_Get_def rbind_def os_read_def os_write_lookup)
  moreover have "\<forall>q. q \<noteq> p \<longrightarrow> map_of (fs_files fs') q = map_of (fs_files fs) q" using p(3) by (simp add: os_write_lookup)
  ultimately show ?thesis using x(2) by blast
qed

theorem artifact_roundtrip_witness:
  "artifact_Get (Inr ''/w'') ''art'' ''job/out'' (snd (artifact_Put (Inr ''/w'') ''art'' ''job/out'' ''bytes'' demo_fs)) = Inr ''bytes''"
proof -
  have "fst (artifact_Put (Inr ''/w'') ''art'' ''job/out'' ''bytes'' demo_fs) = Inr () \<and> is_abs ''/w''" by code_simp
  then have "artifact_Put (Inr ''/w'') ''art'' ''job/out'' ''bytes'' demo_fs = (Inr (), snd (artifact_Put (Inr ''/w'') ''art'' ''job/out'' ''bytes'' demo_fs))" "is_abs ''/w''"
    by (simp_all add: prod_eq_iff)
  with artifact_roundtrip [OF _ this(1)] show ?thesis by blast
qed

end
