(* ===== verification/SR_Controllers.thy ===== *)
theory SR_Controllers
  imports SR_Protocol SR_Provider SR_Files
begin

text \<open>
  The maintenance loops of \<^verbatim>\<open>internal/controller/controller.go\<close>: the gate that coalesces runs, the
  ticking loop, and the passes that expire leases, jobs and sessions, judge workers by their heartbeats,
  reconcile sandbox records with the providers and reap idle sandboxes.

  A pass works on the database and on the state \<open>'p\<close> of the providers. \<open>tm\<close> is the controller's clock, read
  once per pass, \<open>wall\<close> the clock the store reads for itself. Each pass is a run of store operations, so the
  store's invariants and histories hold across it.
\<close>

section \<open>Sequencing\<close>

type_synonym ('e, 'a, 's) pass = "'s \<Rightarrow> ('e + 'a) \<times> 's"

text \<open>A call whose error ends the function; and a loop whose body may do that.\<close>

definition sbind :: "('e + 'a) \<times> 's \<Rightarrow> ('a \<Rightarrow> ('e, 'b, 's) pass) \<Rightarrow> ('e + 'b) \<times> 's" where
  "sbind m f = (case m of (Inl e, s) \<Rightarrow> (Inl e, s) | (Inr x, s) \<Rightarrow> f x s)"

fun foldS :: "('x \<Rightarrow> ('e, unit, 's) pass) \<Rightarrow> 'x list \<Rightarrow> ('e, unit, 's) pass" where
  "foldS f [] s = (Inr (), s)"
| "foldS f (x # xs) s = sbind (f x s) (\<lambda>_. foldS f xs)"

datatype CtlError = StoreErr StoreError | ProvErr SbError | FileErr FsError | Canceled | CtlErr string

type_synonym 'p plane = "DB \<times> 'p"

definition on_store :: "'a op \<Rightarrow> (CtlError, 'a, 'p plane) pass" where
  "on_store f = (\<lambda>(s, x). case f s of (Inl e, s') \<Rightarrow> (Inl (StoreErr e), (s', x)) | (Inr r, s') \<Rightarrow> (Inr r, (s', x)))"

definition on_provider :: "('p \<Rightarrow> (SbError + 'a) \<times> 'p) \<Rightarrow> (CtlError, 'a, 'p plane) pass" where
  "on_provider f = (\<lambda>(s, x). case f x of (Inl e, x') \<Rightarrow> (Inl (ProvErr e), (s, x')) | (Inr r, x') \<Rightarrow> (Inr r, (s, x')))"

text \<open>A call whose error is discarded.\<close>

definition ignoring :: "('e, 'a, 's) pass \<Rightarrow> ('e, unit, 's) pass" where
  "ignoring f s = (Inr (), snd (f s))"

definition done_pass :: "('e, unit, 's) pass" where
  "done_pass s = (Inr (), s)"

definition resolve :: "'v Registry \<Rightarrow> string \<Rightarrow> (CtlError, 'v, 's) pass" where
  "resolve r name s = (case Registry_Get r name of Inl e \<Rightarrow> (Inl (ProvErr e), s) | Inr p \<Rightarrow> (Inr p, s))"

section \<open>The gate and the ticking loop\<close>

text \<open>One run through the gate: \<open>running\<close> is the flag it finds, \<open>ctx\<close> the error of the context.\<close>

definition gate_run :: "bool \<Rightarrow> 'e option \<Rightarrow> ('e, unit, 's) pass \<Rightarrow> ('e, unit, 's) pass" where
  "gate_run running ctx fn s =
    (if running then (Inr (), s) else case ctx of Some e \<Rightarrow> (Inl e, s) | None \<Rightarrow> fn s)"

text \<open>The flag under concurrent callers: a compare-and-swap lets one in, the deferred store lets it out.\<close>

record gate_state =
  g_running :: bool
  g_inside :: "nat list"

inductive gate_step :: "gate_state \<Rightarrow> gate_state \<Rightarrow> bool" where
  enter: "\<not> g_running g \<Longrightarrow> gate_step g (g\<lparr>g_running := True, g_inside := t # g_inside g\<rparr>)"
| skip: "g_running g \<Longrightarrow> gate_step g g"
| leave: "t \<in> set (g_inside g) \<Longrightarrow> gate_step g (g\<lparr>g_running := False, g_inside := remove1 t (g_inside g)\<rparr>)"

text \<open>
  What the loop waits for: the ticker, with the time the run reads, or the end of the context.
  \<^term>\<open>None\<close> is a loop that is still waiting for its next event.
\<close>

datatype tick = Tick time | CtxDone

fun tick_loop :: "(time \<Rightarrow> (CtlError, unit, 's) pass) \<Rightarrow> tick list \<Rightarrow> 's \<Rightarrow> CtlError option \<times> 's" where
  "tick_loop run [] s = (None, s)"
| "tick_loop run (CtxDone # evs) s = (Some Canceled, s)"
| "tick_loop run (Tick tm # evs) s = (case run tm s of (Inl e, s') \<Rightarrow> (Some e, s') | (Inr _, s') \<Rightarrow> tick_loop run evs s')"

definition start :: "duration \<Rightarrow> (time \<Rightarrow> (CtlError, unit, 's) pass) \<Rightarrow> time \<Rightarrow> tick list \<Rightarrow> 's \<Rightarrow> CtlError option \<times> 's" where
  "start interval run t0 evs s =
    (if interval \<le> 0 then (Some (CtlErr ''controller interval must be positive''), s)
     else case run t0 s of
       (Inl e, s') \<Rightarrow> if e \<noteq> Canceled then (Some e, s') else tick_loop run evs s'
     | (Inr _, s') \<Rightarrow> tick_loop run evs s')"

section \<open>Leases, deadlines, sessions\<close>

text \<open>The result of the lease reaper is the count its observer is given.\<close>

definition LeaseReaper_Run :: "time \<Rightarrow> (CtlError, nat, 'p plane) pass" where
  "LeaseReaper_Run tm w = sbind (on_store (ExpireLeases tm) w) (\<lambda>ids s. (Inr (length ids), s))"

definition JobTimeouts_Run :: "time \<Rightarrow> (CtlError, unit, 'p plane) pass" where
  "JobTimeouts_Run tm w = sbind (on_store (TimeoutJobs tm) w) (\<lambda>_. done_pass)"

definition SessionExpiry_Run :: "time \<Rightarrow> (CtlError, unit, 'p plane) pass" where
  "SessionExpiry_Run tm w = sbind (on_store (ExpireSessions tm) w) (\<lambda>_. done_pass)"

section \<open>Worker health\<close>

record WorkerHealthConfig =
  wh_SuspectAfter :: duration
  wh_DeadAfter :: duration

definition worker_verdict :: "WorkerHealthConfig \<Rightarrow> time \<Rightarrow> Worker \<Rightarrow> WorkerHealth" where
  "worker_verdict cfg tm w =
    (let age = time_sub tm (w_LastSeenAt w) in
     if age \<ge> wh_DeadAfter cfg then WorkerDead
     else if age \<ge> wh_SuspectAfter cfg then WorkerSuspect else WorkerHealthy)"

definition judge_worker :: "WorkerHealthConfig \<Rightarrow> time \<Rightarrow> Worker \<Rightarrow> (CtlError, unit, 'p plane) pass" where
  "judge_worker cfg tm w s =
    (let health = worker_verdict cfg tm w in
     if get_str (w_Health w) ''status'' = show_WorkerHealth health then (Inr (), s)
     else sbind (on_store (SetWorkerHealth (w_ID w) health tm) s) (\<lambda>_ s1.
       if health = WorkerDead then sbind (on_store (ExpireWorkerLeases (w_ID w) tm) s1) (\<lambda>_. done_pass)
       else (Inr (), s1)))"

definition WorkerHealth_run :: "WorkerHealthConfig \<Rightarrow> time \<Rightarrow> (CtlError, unit, 'p plane) pass" where
  "WorkerHealth_run cfg tm s =
    (if wh_SuspectAfter cfg \<le> 0 \<or> wh_DeadAfter cfg < wh_SuspectAfter cfg
     then (Inl (CtlErr ''invalid worker health thresholds''), s)
     else foldS (judge_worker cfg tm) (ListWorkers (fst s)) s)"

section \<open>Reconciling sandboxes\<close>

datatype OrphanPolicy = OrphanUnset | OrphanTerminate | OrphanAdopt

record ReconcileConfig =
  rcf_OwnerLabel :: string
  rcf_OwnerValue :: string
  rcf_Orphans :: OrphanPolicy
  rcf_MaxLifetime :: duration
  rcf_DrainGrace :: duration

definition fromProvider :: "string \<Rightarrow> PSandbox \<Rightarrow> time \<Rightarrow> Sandbox" where
  "fromProvider name v tm = \<lparr>b_ID = ps_ID v, b_WorkerID = ps_WorkerID v, b_Provider = name,
     b_ExternalID = ps_ExternalID v, b_Capabilities = ps_Capabilities v, b_State = ps_State v,
     b_CreatedAt = ps_CreatedAt v, b_UpdatedAt = tm, b_DrainAt = 0, b_ReservedSessionID = ''''\<rparr>"

definition record_key :: "string \<Rightarrow> SandboxID \<Rightarrow> string" where
  "record_key provider i = provider @ [CHR 0x00] @ i"

text \<open>The Go map \<^verbatim>\<open>db\<close>: a later record replaces an earlier one.\<close>

definition record_map :: "Sandbox list \<Rightarrow> string \<rightharpoonup> Sandbox" where
  "record_map records = map_of (rev (map (\<lambda>v. (record_key (b_Provider v) (b_ID v), v)) records))"

definition reconcile_item ::
    "ReconcileConfig \<Rightarrow> time \<Rightarrow> time \<Rightarrow> Sandbox list \<Rightarrow> string \<Rightarrow> 'p Provider \<Rightarrow> PSandbox \<Rightarrow> (CtlError, unit, 'p plane) pass" where
  "reconcile_item cfg wall tm records name provider item s =
    (let i = ps_ID item;
         owned = (rcf_OwnerLabel cfg = '''' \<or> get_str (ps_Labels item) (rcf_OwnerLabel cfg) = rcf_OwnerValue cfg)
     in case record_map records (record_key name i) of
       None \<Rightarrow>
         if \<not> owned then (Inr (), s)
         else if rcf_Orphans cfg = OrphanAdopt then on_store (UpsertSandbox wall (fromProvider name item tm)) s
         else on_provider (pv_Terminate provider i) s
     | Some record \<Rightarrow>
         if b_State record = ''terminating'' then on_provider (pv_Terminate provider i) s
         else if rcf_MaxLifetime cfg > 0 \<and> time_sub tm (ps_CreatedAt item) \<ge> rcf_MaxLifetime cfg then
           sbind (if b_State record \<noteq> ''draining'' then on_store (SetSandboxState wall i ''draining'' tm) s else (Inr (), s)) (\<lambda>_ s1.
             if b_DrainAt record \<noteq> 0 \<and> time_sub tm (b_DrainAt record) \<ge> rcf_DrainGrace cfg then
               sbind (on_store (SetSandboxState wall i ''terminating'' tm) s1) (\<lambda>_. on_provider (pv_Terminate provider i))
             else (Inr (), s1))
         else on_store (UpsertSandbox wall (record\<lparr>b_State := ps_State item, b_UpdatedAt := tm\<rparr>)) s)"

definition reconcile_missing ::
    "time \<Rightarrow> time \<Rightarrow> string \<Rightarrow> SandboxID list \<Rightarrow> Sandbox \<Rightarrow> (CtlError, unit, 'p plane) pass" where
  "reconcile_missing wall tm name seen record s =
    (if b_Provider record = name \<and> b_ID record \<notin> set seen then
       (if b_State record = ''terminating'' \<or> b_State record = ''terminated''
        then ignoring (on_store (DeleteSandbox (b_ID record))) s
        else on_store (SetSandboxState wall (b_ID record) ''missing'' tm) s)
     else (Inr (), s))"

definition reconcile_provider ::
    "ReconcileConfig \<Rightarrow> time \<Rightarrow> time \<Rightarrow> 'p Provider Registry \<Rightarrow> Sandbox list \<Rightarrow> string \<Rightarrow> (CtlError, unit, 'p plane) pass" where
  "reconcile_provider cfg wall tm registry records name s =
    sbind (resolve registry name s) (\<lambda>provider s1.
    sbind (on_provider (pv_List provider no_filter) s1) (\<lambda>items s2.
    sbind (foldS (reconcile_item cfg wall tm records name provider) items s2) (\<lambda>_ s3.
      foldS (reconcile_missing wall tm name (map ps_ID items)) records s3)))"

definition SandboxReconciler_run :: "ReconcileConfig \<Rightarrow> time \<Rightarrow> time \<Rightarrow> 'p Provider Registry \<Rightarrow> (CtlError, unit, 'p plane) pass" where
  "SandboxReconciler_run cfg wall tm registry s =
     foldS (reconcile_provider cfg wall tm registry (ListSandboxes (fst s))) (Registry_Names registry) s"

section \<open>Reaping idle sandboxes\<close>

record ReaperConfig =
  rp_IdleAfter :: duration
  rp_DrainGrace :: duration
  rp_MinimumWarm :: int

definition is_warm :: "Sandbox \<Rightarrow> bool" where
  "is_warm v \<longleftrightarrow> b_State v = ''running'' \<or> b_State v = ''ready''"

definition worker_busy :: "Worker \<Rightarrow> bool" where
  "worker_busy w \<longleftrightarrow> w_ReservedSessionID w \<noteq> '''' \<or> w_ActiveAttempts w \<noteq> [] \<or> w_AvailableSlots w < w_MaxConcurrency w"

definition busy_map :: "Worker list \<Rightarrow> WorkerID \<Rightarrow> bool" where
  "busy_map workers i = (case map_of (rev (map (\<lambda>w. (w_ID w, worker_busy w)) workers)) i of None \<Rightarrow> False | Some b \<Rightarrow> b)"

definition warm_count :: "Sandbox list \<Rightarrow> string \<Rightarrow> int" where
  "warm_count items p = int (length (filter (\<lambda>v. is_warm v \<and> b_Provider v = p) items))"

text \<open>The state of the loop is the plane with the Go map \<^verbatim>\<open>warm\<close>.\<close>

definition reap_one ::
    "ReaperConfig \<Rightarrow> time \<Rightarrow> time \<Rightarrow> 'p Provider Registry \<Rightarrow> (WorkerID \<Rightarrow> bool) \<Rightarrow> Sandbox
      \<Rightarrow> (CtlError, unit, (string \<Rightarrow> int) \<times> 'p plane) pass" where
  "reap_one cfg wall tm registry busy v = (\<lambda>(warm, s).
     case Registry_Get registry (b_Provider v) of
       Inl e \<Rightarrow> (Inl (ProvErr e), (warm, s))
     | Inr provider \<Rightarrow>
         if b_State v = ''draining'' \<and> b_DrainAt v \<noteq> 0 \<and> time_sub tm (b_DrainAt v) \<ge> rp_DrainGrace cfg then
           (case sbind (on_store (SetSandboxState wall (b_ID v) ''terminating'' tm) s)
               (\<lambda>_. on_provider (pv_Terminate provider (b_ID v))) of (r, s') \<Rightarrow> (r, (warm, s')))
         else if busy (b_WorkerID v) \<or> \<not> is_warm v \<or> rp_IdleAfter cfg \<le> 0
             \<or> time_sub tm (b_UpdatedAt v) < rp_IdleAfter cfg \<or> warm (b_Provider v) \<le> rp_MinimumWarm cfg
         then (Inr (), (warm, s))
         else (case on_store (SetSandboxState wall (b_ID v) ''draining'' tm) s of
             (Inl e, s') \<Rightarrow> (Inl e, (warm, s'))
           | (Inr _, s') \<Rightarrow> (Inr (), (warm(b_Provider v := warm (b_Provider v) - 1), s'))))"

text \<open>\<^verbatim>\<open>sort.Slice\<close> leaves the order of equal creation times open; the model keeps their order.\<close>

definition SandboxReaper_run :: "ReaperConfig \<Rightarrow> time \<Rightarrow> time \<Rightarrow> 'p Provider Registry \<Rightarrow> (CtlError, unit, 'p plane) pass" where
  "SandboxReaper_run cfg wall tm registry s =
    (let items = sort_key b_CreatedAt (ListSandboxes (fst s)) in
     case foldS (reap_one cfg wall tm registry (busy_map (ListWorkers (fst s)))) items (warm_count items, s) of
       (r, (_, s')) \<Rightarrow> (r, s'))"

section \<open>Relations across passes\<close>

text \<open>A preorder that holds across every call holds across the functions built from them.\<close>

locale pass_relation =
  fixes R :: "'s \<Rightarrow> 's \<Rightarrow> bool"
  assumes pass_refl: "R s s"
    and pass_trans: "R s t \<Longrightarrow> R t u \<Longrightarrow> R s u"
begin

lemma across_sbind: "R s (snd m) \<Longrightarrow> (\<And>x t. m = (Inr x, t) \<Longrightarrow> R t (snd (f x t))) \<Longrightarrow> R s (snd (sbind m f))"
  by (cases m; cases "fst m") (auto simp: sbind_def intro: pass_trans)

lemma across_foldS: "(\<And>x s. x \<in> set xs \<Longrightarrow> R s (snd (f x s))) \<Longrightarrow> R s (snd (foldS f xs s))"
proof (induction xs arbitrary: s)
  case (Cons x xs)
  then show ?case unfolding foldS.simps by (intro across_sbind) simp_all
qed (simp add: pass_refl)

lemma across_done: "R s (snd (done_pass s))"
  by (simp add: done_pass_def pass_refl)

lemma across_ignoring: "R s (snd (f s)) \<Longrightarrow> R s (snd (ignoring f s))"
  by (simp add: ignoring_def)

lemma across_resolve: "R s (snd (resolve r name s))"
  by (simp add: resolve_def pass_refl split: sum.split)

lemma across_gate: "R s (snd (fn s)) \<Longrightarrow> R s (snd (gate_run running ctx fn s))"
  by (simp add: gate_run_def pass_refl split: option.split)

lemma across_ticks: "(\<And>tm s. R s (snd (run tm s))) \<Longrightarrow> R s (snd (tick_loop run evs s))"
proof (induction run evs s rule: tick_loop.induct)
  case (3 run tm evs s)
  have "R s (snd (run tm s))" by (rule "3.prems")
  with 3 show ?case by (cases "run tm s"; cases "fst (run tm s)") (auto intro: pass_trans)
qed (simp_all add: pass_refl)

lemma across_start:
  assumes run: "\<And>tm s. R s (snd (run tm s))"
  shows "R s (snd (start interval run t0 evs s))"
proof -
  have "R s (snd (run t0 s))" by (rule run)
  with across_ticks [of run, OF run] show ?thesis
    by (cases "run t0 s"; cases "fst (run t0 s)") (auto simp: start_def pass_refl intro: pass_trans)
qed

lemmas across_pass = across_sbind across_foldS across_done across_ignoring across_resolve pass_refl

end

text \<open>The database of a plane after a run of store operations.\<close>

definition ran :: "'p plane \<Rightarrow> 'p plane \<Rightarrow> bool" where
  "ran w w' \<longleftrightarrow> store_step\<^sup>*\<^sup>* (fst w) (fst w')"

interpretation ran: pass_relation ran
  by unfold_locales (auto simp: ran_def)

lemma on_store_simps [simp]:
  "fst (snd (on_store f w)) = snd (f (fst w))" "snd (snd (on_store f w)) = snd w"
  by (simp_all add: on_store_def split: prod.split sum.split)

lemma on_provider_simps [simp]: "fst (snd (on_provider f w)) = fst w"
  by (simp add: on_provider_def split: prod.split sum.split)

lemma ran_on_store: "(\<And>s. store_step s (snd (f s))) \<Longrightarrow> ran w (snd (on_store f w))"
  by (simp add: ran_def r_into_rtranclp)

lemma ran_on_provider: "ran w (snd (on_provider f w))"
  by (simp add: ran_def)

lemma ran_store_ops:
  "ran w (snd (on_store (ExpireLeases tm) w))" "ran w (snd (on_store (TimeoutJobs tm) w))" "ran w (snd (on_store (ExpireSessions tm) w))"
  "ran w (snd (on_store (SetWorkerHealth i health tm) w))" "ran w (snd (on_store (ExpireWorkerLeases i tm) w))"
  "ran w (snd (on_store (UpsertSandbox wall v) w))" "ran w (snd (on_store (SetSandboxState wall b st tm) w))"
  "ran w (snd (on_store (DeleteSandbox b) w))"
  by (rule ran_on_store, rule store_step.intros)+

lemmas ran_intros = ran_store_ops ran_on_provider ran.across_pass

lemma ran_LeaseReaper: "ran w (snd (LeaseReaper_Run tm w))"
  unfolding LeaseReaper_Run_def by (intro ran_intros) (simp add: ran.pass_refl)

lemma ran_JobTimeouts: "ran w (snd (JobTimeouts_Run tm w))"
  unfolding JobTimeouts_Run_def by (intro ran_intros)

lemma ran_SessionExpiry: "ran w (snd (SessionExpiry_Run tm w))"
  unfolding SessionExpiry_Run_def by (intro ran_intros)

lemma ran_WorkerHealth: "ran w (snd (WorkerHealth_run cfg tm w))"
proof -
  have "ran s (snd (judge_worker cfg tm x s))" for x and s :: "'a plane"
    unfolding judge_worker_def Let_def by (auto intro!: ran_intros)
  then show ?thesis unfolding WorkerHealth_run_def by (auto intro: ran.across_foldS ran.pass_refl)
qed

lemma ran_reconcile_item: "ran s (snd (reconcile_item cfg wall tm records name provider item s))"
  unfolding reconcile_item_def Let_def by (auto split: option.split intro!: ran_intros)

lemma ran_reconcile_missing: "ran s (snd (reconcile_missing wall tm name seen record s))"
  unfolding reconcile_missing_def by (auto intro!: ran_intros)

lemma ran_SandboxReconciler: "ran w (snd (SandboxReconciler_run cfg wall tm registry w))"
  unfolding SandboxReconciler_run_def reconcile_provider_def
  by (intro ran_intros ran_reconcile_item ran_reconcile_missing)

lemma ran_reap_one: "ran s (snd (snd (reap_one cfg wall tm registry busy v (warm, s))))"
proof -
  have 1: "ran s (snd (sbind (on_store (SetSandboxState wall (b_ID v) ''terminating'' tm) s) (\<lambda>_. on_provider f)))" for f
    by (intro ran_intros)
  have 2: "ran s (snd (on_store (SetSandboxState wall (b_ID v) ''draining'' tm) s))" by (rule ran_intros)
  show ?thesis unfolding reap_one_def prod.case
    by (cases "Registry_Get registry (b_Provider v)") (simp_all add: 1 2 ran.pass_refl split_def split: sum.split)
qed

lemma ran_SandboxReaper: "ran w (snd (SandboxReaper_run cfg wall tm registry w))"
proof -
  have "ran s (snd (snd (foldS (reap_one cfg wall tm registry busy) items (warm, s))))" for items busy and warm :: "string \<Rightarrow> int" and s :: "'a plane"
  proof (induction items arbitrary: warm s)
    case (Cons v items)
    obtain r warm' s' where one: "reap_one cfg wall tm registry busy v (warm, s) = (r, (warm', s'))" by (metis surj_pair)
    have "ran s s'" using ran_reap_one [of s cfg wall tm registry busy v warm] by (simp add: one)
    with Cons.IH [of s' warm'] show ?case by (cases r) (auto simp: one sbind_def intro: ran.pass_trans ran.pass_refl)
  qed (simp add: ran.pass_refl)
  then show ?thesis by (simp add: SandboxReaper_run_def Let_def split_def)
qed

lemma ran_loop:
  assumes "\<And>tm w. ran w (snd (pass tm w))"
  shows "ran w (snd (start interval (\<lambda>tm. gate_run running ctx (pass tm)) t0 evs w))"
  by (rule ran.across_start, rule ran.across_gate, rule assms)

section \<open>Dead workers\<close>

text \<open>Leases only go in a health pass.\<close>

definition shrinks :: "'p plane \<Rightarrow> 'p plane \<Rightarrow> bool" where
  "shrinks w w' \<longleftrightarrow> (reachable (fst w) \<longrightarrow> reachable (fst w') \<and> set (db_leases (fst w')) \<subseteq> set (db_leases (fst w)))"

interpretation shrinks: pass_relation shrinks
  by unfold_locales (auto simp: shrinks_def)

lemma ran_reachable: "ran w w' \<Longrightarrow> reachable (fst w) \<Longrightarrow> reachable (fst w')"
  unfolding ran_def by (rule run_reachable)

lemma leases_finishSessionTx: "finishSessionTx i state code tm s = Inr s' \<Longrightarrow> set (db_leases s') \<subseteq> set (db_leases s)"
  by (erule finishSessionTx_Inr) auto

lemma leases_RequestRecovery: "db_leases (snd (RequestRecovery i tm s)) = db_leases s"
proof -
  have "quiet s (snd (RequestRecovery i tm s))"
    unfolding RequestRecovery_def by (rule commit0_rel) (auto dest: quiet_RequestRecovery_tx)
  then show ?thesis by (simp add: quiet_def)
qed

lemma leases_SetWorkerHealth: "set (db_leases (snd (SetWorkerHealth i health tm s))) \<subseteq> set (db_leases s)"
proof (cases "GetWorker i s")
  case (Inr w)
  define s1 where "s1 = update_workers (\<lambda>x. w_ID x = i) (\<lambda>x. x\<lparr>w_Health := AList.update ''status'' (show_WorkerHealth health) (w_Health w),
      w_SessionTokenHash := (if health = WorkerDead then '''' else w_SessionTokenHash x),
      w_SessionExpiresAt := (if health = WorkerDead then 0 else w_SessionExpiresAt x)\<rparr>) s"
  have s1: "db_leases s1 = db_leases s" by (simp add: s1_def update_workers_def)
  have f: "set (db_leases (snd (finishSession k st code tm s1))) \<subseteq> set (db_leases s1)" for k st code
    unfolding finishSession_def by (rule commit0_rel [of "\<lambda>x y. set (db_leases y) \<subseteq> set (db_leases x)"]) (auto dest: leases_finishSessionTx)
  have "snd (SetWorkerHealth i health tm s) \<in> {s1} \<union> range (\<lambda>k. snd (RequestRecovery k tm s1))
      \<union> range (\<lambda>k. snd (finishSession k SessionLost ''session_lost'' tm s1))"
    unfolding SetWorkerHealth_def Inr sum.case Let_def s1_def [symmetric] by (auto split: sum.splits)
  then show ?thesis
  proof (elim UnE rangeE singletonE)
    fix k assume eq: "snd (SetWorkerHealth i health tm s) = snd (finishSession k SessionLost ''session_lost'' tm s1)"
    show ?thesis unfolding eq s1 [symmetric] by (rule f)
  qed (simp_all add: s1 leases_RequestRecovery)
qed (simp add: SetWorkerHealth_def)

lemma leases_ExpireWorkerLeases:
  assumes "reachable s" and "ExpireWorkerLeases i tm s = (r, s')"
  shows "set (db_leases s') \<subseteq> set (db_leases s) \<and> ((\<exists>x. r = Inr x) \<longrightarrow> (\<forall>l \<in> set (db_leases s'). l_WorkerID l \<noteq> i))"
proof (cases "expireLeases_tx (\<lambda>l. l_WorkerID l = i) tm s")
  case (Inl e)
  with assms(2) show ?thesis by (auto simp: ExpireWorkerLeases_def commit_def)
next
  case (Inr x)
  have inv: "lease_inv s" using reachable_inv [OF assms(1)] by (simp add: store_inv_def)
  obtain ids t where x: "x = (ids, t)" by (cases x)
  from Inr x have ids: "ids = map l_AttemptID (sort_key l_ExpiresAt (filter (\<lambda>l. l_WorkerID l = i) (db_leases s)))"
    and fold: "foldM (expire_lease tm) ids s = Inr t" by (auto simp: expireLeases_tx_def Let_def)
  from assms(2) Inr x have "r = Inr ids" "s' = t" by (simp_all add: ExpireWorkerLeases_def commit_def)
  with expire_leases_remove [OF fold inv] ids show ?thesis by auto
qed

lemma shrinks_judge: "shrinks s (snd (judge_worker cfg tm w s))"
proof -
  have 1: "shrinks s (snd (on_store (SetWorkerHealth i health tm) s))" for i health and s :: "'a plane"
    using ran_reachable [OF ran_store_ops(4)] leases_SetWorkerHealth by (auto simp: shrinks_def)
  have 2: "shrinks s (snd (on_store (ExpireWorkerLeases i tm) s))" for i and s :: "'a plane"
    using ran_reachable [OF ran_store_ops(5), of s i tm] leases_ExpireWorkerLeases [OF _ surjective_pairing, of "fst s" i tm]
    by (simp add: shrinks_def)
  show ?thesis unfolding judge_worker_def Let_def by (auto intro!: 1 2 shrinks.across_pass)
qed

lemma foldS_append: "foldS f (xs @ ys) s = sbind (foldS f xs s) (\<lambda>_. foldS f ys)"
  by (induction xs arbitrary: s) (auto simp: sbind_def split: prod.split sum.split)

lemma sbind_Inr: "sbind m f = (Inr y, u) \<longleftrightarrow> (\<exists>x t. m = (Inr x, t) \<and> f x t = (Inr y, u))"
  by (auto simp: sbind_def split: prod.splits sum.splits)

lemma on_store_Inr: "on_store f w = (Inr r, w') \<longleftrightarrow> f (fst w) = (Inr r, fst w') \<and> snd w' = snd w"
  by (auto simp: on_store_def split: prod.splits sum.splits)

lemma judge_dead:
  assumes "reachable (fst s)" and "judge_worker cfg tm w s = (Inr (), s')" and "worker_verdict cfg tm w = WorkerDead"
    and "get_str (w_Health w) ''status'' \<noteq> show_WorkerHealth WorkerDead"
  shows "\<forall>l \<in> set (db_leases (fst s')). l_WorkerID l \<noteq> w_ID w"
proof -
  from assms(2-) obtain s1 ids where set: "on_store (SetWorkerHealth (w_ID w) WorkerDead tm) s = (Inr (), s1)"
    and exp: "ExpireWorkerLeases (w_ID w) tm (fst s1) = (Inr ids, fst s')"
    by (auto simp: judge_worker_def Let_def sbind_Inr on_store_Inr done_pass_def)
  have "reachable (fst s1)" using ran_reachable [OF ran_store_ops(4) assms(1)] set by (metis snd_conv)
  from leases_ExpireWorkerLeases [OF this exp] show ?thesis by blast
qed

section \<open>Warm sandboxes\<close>

definition set_state :: "string \<Rightarrow> time \<Rightarrow> Sandbox \<Rightarrow> Sandbox" where
  "set_state state tm b = b\<lparr>b_State := state, b_UpdatedAt := tm,
     b_DrainAt := (if state = ''draining'' then (if b_DrainAt b = 0 then tm else b_DrainAt b) else b_DrainAt b)\<rparr>"

lemma set_state_simps [simp]:
  "b_ID (set_state st tm b) = b_ID b" "b_Provider (set_state st tm b) = b_Provider b" "b_State (set_state st tm b) = st"
  by (simp_all add: set_state_def)

lemma SetSandboxState_rows:
  "db_sandboxes (snd (SetSandboxState wall i st tm s)) = upd_where (\<lambda>b. b_ID b = i) (set_state st tm) (db_sandboxes s)"
  by (simp add: SetSandboxState_def RevokeSandboxCredentials_def Let_def stmt_defs set_state_def [abs_def])

lemma warm_count_Cons:
  "warm_count (v # t) p = (if is_warm v \<and> b_Provider v = p then 1 else 0) + warm_count t p"
  by (simp add: warm_count_def)

lemma warm_count_set_state:
  assumes "distinct (map b_ID t)" and "v \<in> set t"
  shows "warm_count t p - (if is_warm v \<and> b_Provider v = p then 1 else 0)
    \<le> warm_count (upd_where (\<lambda>b. b_ID b = b_ID v) (set_state st tm) t) p"
  using assms
proof (induction t)
  case (Cons b t)
  show ?case
  proof (cases "b = v")
    case True
    have "b_ID v \<notin> b_ID ` set t" using Cons.prems(1) True by simp
    then have "\<forall>r \<in> set t. b_ID r \<noteq> b_ID v" by (metis imageI)
    then have "upd_where (\<lambda>b. b_ID b = b_ID v) (set_state st tm) t = t" by (rule upd_where_none)
    then have "upd_where (\<lambda>b. b_ID b = b_ID v) (set_state st tm) (b # t) = set_state st tm v # t" using True by (simp add: upd_where_def)
    then show ?thesis by (simp add: warm_count_Cons True)
  next
    case False
    with Cons.prems have "v \<in> set t" "b_ID b \<notin> b_ID ` set t" by auto
    then have "b_ID b \<noteq> b_ID v" by (metis imageI)
    then have "upd_where (\<lambda>b. b_ID b = b_ID v) (set_state st tm) (b # t) = b # upd_where (\<lambda>b. b_ID b = b_ID v) (set_state st tm) t"
      by (simp add: upd_where_def)
    with Cons False show ?thesis by (simp add: warm_count_Cons)
  qed
qed simp

text \<open>The three outcomes of an iteration, seen from the sandbox table.\<close>

lemma reap_one_cases:
  assumes "reap_one cfg wall tm registry busy v (warm, s) = (r, (warm', s'))"
  obtains (keep) "warm' = warm" "db_sandboxes (fst s') = db_sandboxes (fst s)"
  | (finish) "warm' = warm" "\<not> is_warm v"
      "db_sandboxes (fst s') = upd_where (\<lambda>b. b_ID b = b_ID v) (set_state ''terminating'' tm) (db_sandboxes (fst s))"
  | (drain) "is_warm v" "\<not> busy (b_WorkerID v)" "rp_MinimumWarm cfg < warm (b_Provider v)"
      "warm' = warm(b_Provider v := warm (b_Provider v) - 1) \<or> warm' = warm \<and> (\<exists>e. r = Inl e)"
      "db_sandboxes (fst s') = upd_where (\<lambda>b. b_ID b = b_ID v) (set_state ''draining'' tm) (db_sandboxes (fst s))"
proof -
  let ?set = "\<lambda>st. on_store (SetSandboxState wall (b_ID v) st tm) s"
  have rows: "db_sandboxes (fst (snd (?set st))) = upd_where (\<lambda>b. b_ID b = b_ID v) (set_state st tm) (db_sandboxes (fst s))" for st
    by (simp add: SetSandboxState_rows)
  have rows2: "db_sandboxes (fst (snd (sbind (?set st) (\<lambda>_. on_provider g)))) = upd_where (\<lambda>b. b_ID b = b_ID v) (set_state st tm) (db_sandboxes (fst s))" for st g
    using rows [of st] by (cases "?set st"; cases "fst (?set st)") (simp_all add: sbind_def)
  show thesis
  proof (cases "Registry_Get registry (b_Provider v)")
    case (Inl e)
    with assms keep show thesis by (simp add: reap_one_def)
  next
    case (Inr provider)
    show thesis
    proof (cases "b_State v = ''draining'' \<and> b_DrainAt v \<noteq> 0 \<and> time_sub tm (b_DrainAt v) \<ge> rp_DrainGrace cfg")
      case True
      with assms Inr have "warm' = warm" "s' = snd (sbind (?set ''terminating'') (\<lambda>_. on_provider (pv_Terminate provider (b_ID v))))"
        by (auto simp: reap_one_def split: prod.splits)
      moreover have "\<not> is_warm v" using True by (simp add: is_warm_def)
      ultimately show thesis using rows2 by (intro finish) simp_all
    next
      case False
      note not_due = this
      show thesis
      proof (cases "busy (b_WorkerID v) \<or> \<not> is_warm v \<or> rp_IdleAfter cfg \<le> 0
          \<or> time_sub tm (b_UpdatedAt v) < rp_IdleAfter cfg \<or> warm (b_Provider v) \<le> rp_MinimumWarm cfg")
        case True
        with assms Inr not_due keep show thesis by (simp add: reap_one_def)
      next
        case False
        with assms Inr not_due have "s' = snd (?set ''draining'')"
          "warm' = warm(b_Provider v := warm (b_Provider v) - 1) \<or> warm' = warm \<and> (\<exists>e. r = Inl e)"
          by (auto simp: reap_one_def split: prod.splits sum.splits)
        with False rows drain show thesis by simp
      qed
    qed
  qed
qed

lemma reap_one_effect:
  assumes one: "reap_one cfg wall tm registry busy v (warm, s) = (r, (warm', s'))"
    and dist: "distinct (map b_ID (db_sandboxes (fst s)))" and v: "v \<in> set (db_sandboxes (fst s))"
    and warm: "\<And>p. min (L p) (rp_MinimumWarm cfg) \<le> warm p \<and> warm p \<le> warm_count (db_sandboxes (fst s)) p"
  shows "map b_ID (db_sandboxes (fst s')) = map b_ID (db_sandboxes (fst s))"
    and "b \<in> set (db_sandboxes (fst s)) \<Longrightarrow> b_ID b \<noteq> b_ID v \<or> is_warm b \<and> busy (b_WorkerID b) \<Longrightarrow> b \<in> set (db_sandboxes (fst s'))"
    and "min (L p) (rp_MinimumWarm cfg) \<le> warm_count (db_sandboxes (fst s')) p"
    and "r = Inr x \<Longrightarrow> min (L p) (rp_MinimumWarm cfg) \<le> warm' p \<and> warm' p \<le> warm_count (db_sandboxes (fst s')) p"
proof -
  note count = warm_count_set_state [OF dist v]
  have same: "b = v" if "b \<in> set (db_sandboxes (fst s))" "b_ID b = b_ID v" for b using distinct_key_eq [OF dist that(1) v that(2)] .
  from one show "map b_ID (db_sandboxes (fst s')) = map b_ID (db_sandboxes (fst s))"
    by (cases rule: reap_one_cases) (simp_all add: map_upd_where)
  from one show "b \<in> set (db_sandboxes (fst s'))"
    if "b \<in> set (db_sandboxes (fst s))" "b_ID b \<noteq> b_ID v \<or> is_warm b \<and> busy (b_WorkerID b)"
    by (cases rule: reap_one_cases) (use that same [OF that(1)] in \<open>auto intro!: upd_where_keep\<close>)
  have less: "min (L p) (rp_MinimumWarm cfg) \<le> warm_count (db_sandboxes (fst s)) p" for p using warm [of p] by linarith
  from one show "min (L p) (rp_MinimumWarm cfg) \<le> warm_count (db_sandboxes (fst s')) p"
  proof (cases rule: reap_one_cases)
    case drain
    with warm [of p] count [of p "''draining''" tm] show ?thesis by (auto split: if_splits)
  qed (use less [of p] count [of p "''terminating''" tm] in auto)
  assume r: "r = Inr x"
  from one show "min (L p) (rp_MinimumWarm cfg) \<le> warm' p \<and> warm' p \<le> warm_count (db_sandboxes (fst s')) p"
  proof (cases rule: reap_one_cases)
    case drain
    with r warm [of p] count [of p "''draining''" tm] show ?thesis by (auto split: if_splits)
  next
    case finish
    with warm [of p] count [of p "''terminating''" tm] show ?thesis by simp
  qed (use warm [of p] in simp)
qed

lemma reap_keeps_warm:
  assumes "foldS (reap_one cfg wall tm registry busy) items (warm, s) = (r, (warm', s'))"
    and "distinct (map b_ID items)" and "set items \<subseteq> set (db_sandboxes (fst s))" and "distinct (map b_ID (db_sandboxes (fst s)))"
    and "\<And>p. min (L p) (rp_MinimumWarm cfg) \<le> warm p \<and> warm p \<le> warm_count (db_sandboxes (fst s)) p"
  shows "(\<forall>p. min (L p) (rp_MinimumWarm cfg) \<le> warm_count (db_sandboxes (fst s')) p)
    \<and> (\<forall>v \<in> set (db_sandboxes (fst s)). is_warm v \<and> busy (b_WorkerID v) \<longrightarrow> v \<in> set (db_sandboxes (fst s')))"
  using assms
proof (induction items arbitrary: warm s)
  case Nil
  then show ?case by (auto intro: order_trans)
next
  case (Cons v items)
  obtain r1 warm1 s1 where one: "reap_one cfg wall tm registry busy v (warm, s) = (r1, (warm1, s1))" by (metis surj_pair)
  have v: "v \<in> set (db_sandboxes (fst s))" using Cons.prems(3) by simp
  note eff = reap_one_effect [OF one Cons.prems(4) v, of L, OF Cons.prems(5)]
  show ?case
  proof (cases r1)
    case (Inl e)
    with Cons.prems(1) one have "s' = s1" by (simp add: sbind_def)
    with eff(2,3) show ?thesis by blast
  next
    case (Inr u)
    with Cons.prems(1) one have rest: "foldS (reap_one cfg wall tm registry busy) items (warm1, s1) = (r, (warm', s'))" by (simp add: sbind_def)
    have "x \<in> set (db_sandboxes (fst s1))" if "x \<in> set items" for x
    proof (rule eff(2))
      show "x \<in> set (db_sandboxes (fst s))" using that Cons.prems(3) by auto
      have "b_ID v \<notin> b_ID ` set items" using Cons.prems(2) by simp
      then have "b_ID x \<noteq> b_ID v" using that by (metis imageI)
      then show "b_ID x \<noteq> b_ID v \<or> is_warm x \<and> busy (b_WorkerID x)" ..
    qed
    then have sub: "set items \<subseteq> set (db_sandboxes (fst s1))" ..
    have "distinct (map b_ID (db_sandboxes (fst s1)))" using Cons.prems(4) by (simp only: eff(1))
    from Cons.IH [OF rest _ sub this eff(4) [OF Inr]] Cons.prems(2)
    have "(\<forall>p. min (L p) (rp_MinimumWarm cfg) \<le> warm_count (db_sandboxes (fst s')) p)
      \<and> (\<forall>v \<in> set (db_sandboxes (fst s1)). is_warm v \<and> busy (b_WorkerID v) \<longrightarrow> v \<in> set (db_sandboxes (fst s')))" by simp
    with eff(2) show ?thesis by blast
  qed
qed

section \<open>Properties\<close>

text \<open>
  Overlapping runs of one controller are coalesced: whatever the interleaving of callers, at most one
  of them is inside the gate, and the flag is set exactly while one is.
\<close>

theorem gate_coalesces:
  assumes "gate_step\<^sup>*\<^sup>* \<lparr>g_running = False, g_inside = []\<rparr> g"
  shows "length (g_inside g) \<le> 1 \<and> (g_running g \<longleftrightarrow> g_inside g \<noteq> [])"
  using assms
proof (induction rule: rtranclp_induct)
  case (step y z)
  from step.hyps(2) step.IH show ?case
    by cases (auto simp: length_Suc_conv le_Suc_eq)
qed simp

theorem gate_coalesces_witness:
  "length (g_inside \<lparr>g_running = True, g_inside = [7]\<rparr>) \<le> 1"
proof -
  have "gate_step \<lparr>g_running = False, g_inside = []\<rparr> \<lparr>g_running = True, g_inside = [7]\<rparr>"
    using gate_step.enter [of "\<lparr>g_running = False, g_inside = []\<rparr>" 7] by simp
  then have "gate_step\<^sup>*\<^sup>* \<lparr>g_running = False, g_inside = []\<rparr> \<lparr>g_running = True, g_inside = [7]\<rparr>" by (rule r_into_rtranclp)
  from gate_coalesces [OF this] show ?thesis by simp
qed

text \<open>
  After a successful health pass no worker that has just been found dead holds a lease: whoever was
  silent for the configured time loses every attempt, and those attempts are retried or failed.
\<close>

theorem health_pass_revokes_dead:
  assumes "reachable (fst s)" and "WorkerHealth_run cfg tm s = (Inr (), s')" and "w \<in> set (db_workers (fst s))"
    and "wh_DeadAfter cfg \<le> time_sub tm (w_LastSeenAt w)" and "get_str (w_Health w) ''status'' \<noteq> ''dead''"
  shows "\<forall>l \<in> set (db_leases (fst s')). l_WorkerID l \<noteq> w_ID w"
proof -
  from assms(3) have "w \<in> set (ListWorkers (fst s))" by (simp add: ListWorkers_def)
  then obtain xs ys where ws: "ListWorkers (fst s) = xs @ w # ys" by (auto dest: split_list)
  from assms(2) have "foldS (judge_worker cfg tm) (xs @ w # ys) s = (Inr (), s')"
    by (auto simp: WorkerHealth_run_def ws split: if_splits)
  then obtain t u where t: "foldS (judge_worker cfg tm) xs s = (Inr (), t)" and u: "judge_worker cfg tm w t = (Inr (), u)"
    and s': "foldS (judge_worker cfg tm) ys u = (Inr (), s')" by (auto simp: foldS_append sbind_Inr)
  have shrink: "shrinks p (snd (foldS (judge_worker cfg tm) zs p))" for zs and p :: "'a plane"
    by (rule shrinks.across_foldS) (rule shrinks_judge)
  have rt: "reachable (fst t)" using shrink [of s xs] assms(1) by (simp add: t shrinks_def)
  have ru: "reachable (fst u)" using shrinks_judge [of t cfg tm w] rt by (simp add: u shrinks_def)
  have "worker_verdict cfg tm w = WorkerDead" using assms(4) by (simp add: worker_verdict_def Let_def)
  from judge_dead [OF rt u this] assms(5) have "\<forall>l \<in> set (db_leases (fst u)). l_WorkerID l \<noteq> w_ID w" by simp
  moreover have "set (db_leases (fst s')) \<subseteq> set (db_leases (fst u))" using shrink [of u ys] ru by (simp add: s' shrinks_def)
  ultimately show ?thesis by blast
qed

theorem health_pass_revokes_dead_witness:
  "\<exists>s' :: unit plane. WorkerHealth_run \<lparr>wh_SuspectAfter = 1, wh_DeadAfter = 2\<rparr> (demo_epoch + 5) (demo_leased, ()) = (Inr (), s')
     \<and> db_leases demo_leased \<noteq> [] \<and> \<not> (\<exists>l \<in> set (db_leases (fst s')). l_WorkerID l = ''w'')"
proof -
  let ?cfg = "\<lparr>wh_SuspectAfter = 1, wh_DeadAfter = 2\<rparr>"
  let ?r = "WorkerHealth_run ?cfg (demo_epoch + 5) (demo_leased, ())"
  have "fst ?r = Inr ()" by code_simp
  then have r: "?r = (Inr (), snd ?r)" by (metis prod.collapse)
  have "map (\<lambda>w. (w_ID w, w_LastSeenAt w, get_str (w_Health w) ''status'')) (db_workers demo_leased) = [(''w'', demo_epoch, '''')]" by code_simp
  then obtain w where w: "w \<in> set (db_workers demo_leased)" "w_ID w = ''w''" "w_LastSeenAt w = demo_epoch"
    "get_str (w_Health w) ''status'' = ''''" by (cases "db_workers demo_leased") auto
  have "\<forall>l \<in> set (db_leases (fst (snd ?r))). l_WorkerID l \<noteq> w_ID w"
    by (rule health_pass_revokes_dead [OF _ r]) (use w demo_leased_reachable in \<open>simp_all add: time_sub_def max_int64_def min_int64_def demo_epoch_def\<close>)
  moreover have "db_leases demo_leased \<noteq> []" using demo_leased_rows(2) by auto
  ultimately show ?thesis unfolding w(2) by (intro exI [of _ "snd ?r"] conjI) (rule r, blast+)
qed

text \<open>
  C20: the reaper respects the warm pool and running work: a pass, successful or not, leaves each provider at least the
  configured minimum of warm sandboxes (or as many as there were), and does not touch a warm sandbox
  whose worker is reserved, has active attempts or a slot in use.
\<close>

theorem reaper_keeps_warm_pool:
  assumes "reachable (fst s)" and "SandboxReaper_run cfg wall tm registry s = (r, s')"
  shows "(\<forall>p. min (warm_count (db_sandboxes (fst s)) p) (rp_MinimumWarm cfg) \<le> warm_count (db_sandboxes (fst s')) p)
    \<and> (\<forall>v \<in> set (db_sandboxes (fst s)). is_warm v \<and> busy_map (ListWorkers (fst s)) (b_WorkerID v) \<longrightarrow> v \<in> set (db_sandboxes (fst s')))"
proof -
  let ?items = "sort_key b_CreatedAt (ListSandboxes (fst s))"
  let ?L = "warm_count (db_sandboxes (fst s))"
  have dist: "distinct (map b_ID (db_sandboxes (fst s)))" using reachable_infra_keys [OF assms(1)] by (simp add: infra_keys_def)
  have m: "mset ?items = mset (db_sandboxes (fst s))" by (simp add: ListSandboxes_def)
  then have "mset (map b_ID ?items) = mset (map b_ID (db_sandboxes (fst s)))" by (metis mset_map)
  then have dist_items: "distinct (map b_ID ?items)" using dist mset_eq_imp_distinct_iff by blast
  have warm: "warm_count ?items = ?L"
  proof
    fix p
    have "mset (filter (\<lambda>v. is_warm v \<and> b_Provider v = p) ?items) = mset (filter (\<lambda>v. is_warm v \<and> b_Provider v = p) (db_sandboxes (fst s)))"
      using m by (metis mset_filter)
    then show "warm_count ?items p = ?L p" unfolding warm_count_def by (metis size_mset)
  qed
  from assms(2) obtain warm' where
    "foldS (reap_one cfg wall tm registry (busy_map (ListWorkers (fst s)))) ?items (?L, s) = (r, (warm', s'))"
    unfolding SandboxReaper_run_def Let_def warm by (auto split: prod.splits)
  from reap_keeps_warm [OF this dist_items _ dist, of ?L] show ?thesis using mset_eq_setD [OF m] by simp
qed

definition demo_fleet :: "FakeProvider plane" where
  "demo_fleet = (snd (UpsertSandbox demo_epoch (demo_sandbox\<lparr>b_Provider := ''fake''\<rparr>) empty_db),
     snd (fake_Create background demo_epoch demo_spec fake_New))"

definition demo_providers :: "FakeProvider Provider Registry" where
  "demo_providers = [(''fake'', fake_provider background demo_epoch)]"

lemma demo_fleet_reachable: "reachable (fst demo_fleet)"
  by (simp add: demo_fleet_def reachable.step [OF reachable.start store_step.UpsertSandbox])

theorem reaper_keeps_warm_pool_witness:
  "\<exists>r s'. SandboxReaper_run \<lparr>rp_IdleAfter = 1, rp_DrainGrace = 1, rp_MinimumWarm = 1\<rparr> demo_epoch (demo_epoch + 5) demo_providers demo_fleet = (r, s')
     \<and> 1 \<le> warm_count (db_sandboxes (fst s')) ''fake''"
proof -
  obtain r s' where run: "SandboxReaper_run \<lparr>rp_IdleAfter = 1, rp_DrainGrace = 1, rp_MinimumWarm = 1\<rparr> demo_epoch (demo_epoch + 5) demo_providers demo_fleet = (r, s')"
    by (metis surj_pair)
  have "warm_count (db_sandboxes (fst demo_fleet)) ''fake'' = 1" by code_simp
  with run reaper_keeps_warm_pool [OF demo_fleet_reachable run] show ?thesis
    by (intro exI [of _ r] exI [of _ s'] conjI) (assumption, metis ReaperConfig.select_convs(3) min.idem)
qed

text \<open>
  The reconciler undoes a drain: a sandbox that was put into \<open>draining\<close> and that its provider still
  lists as running is recorded as running again by the next pass, with a fresh update time, so neither the drain grace
  nor the idle time of the reaper ever elapses for it.
\<close>

theorem reconciler_undoes_drain:
  "let drained = (snd (SetSandboxState demo_epoch ''b'' ''draining'' (demo_epoch + 1) (fst demo_fleet)), snd demo_fleet);
       cfg = \<lparr>rcf_OwnerLabel = '''', rcf_OwnerValue = '''', rcf_Orphans = OrphanTerminate, rcf_MaxLifetime = 0, rcf_DrainGrace = 1\<rparr>
   in map b_State (db_sandboxes (fst drained)) = [''draining'']
    \<and> map (\<lambda>b. (b_State b, b_UpdatedAt b)) (db_sandboxes (fst (snd (SandboxReconciler_run cfg demo_epoch (demo_epoch + 9) demo_providers drained))))
      = [(''running'', demo_epoch + 9)]"
  unfolding Let_def by (intro conjI; code_simp)

end
