(* ===== verification/SR_Autoscaler.thy ===== *)
theory SR_Autoscaler
  imports SR_Controllers
begin

text \<open>
  The queue autoscaler of \<^verbatim>\<open>internal/controller/autoscaler.go\<close>: demand per pool, desired replicas,
  startup timeouts, provisioning under limits with a provider backoff, and draining of idle capacity.

  Random bytes, the digest, the JSON encoding of capabilities, the clock and the optional token minter are
  arguments (\<open>AutoEnv\<close>); random bytes and the clock are read from the outside state, like a provider.
  \<^verbatim>\<open>createMany\<close> runs its creations concurrently; they are modelled one after the other, which is one of
  the orders in which they can take effect. \<^verbatim>\<open>sort.SliceStable\<close> is the insertion sort it performs on up to
  twenty elements. The quotient of the demand by the concurrency is exact, as the floating-point one is for
  demands below \<open>2\<^sup>5\<^sup>3\<close>. Wrapped errors (\<^verbatim>\<open>%w\<close>) are their cause.
\<close>

section \<open>Data\<close>

record SandboxPool =
  po_Name :: string
  po_Provider :: string
  po_Create :: CreateSpec
  po_Capabilities :: Capabilities
  po_Labels :: strmap
  po_MinReplicas :: int
  po_MaxReplicas :: int
  po_WorkerConcurrency :: int
  po_IdleTTL :: duration
  po_StartupTimeout :: duration
  po_ScaleUpCooldown :: duration
  po_ScaleDownCooldown :: duration
  po_ScaleDownStabilize :: duration
  po_Cost :: "float64 option"
  po_Region :: string

text \<open>A missing key of \<^verbatim>\<open>MaxSandboxesByProvider\<close> reads as 0.\<close>

record AutoscalerLimits =
  li_MaxScaleUpPerRun :: int
  li_ProvisioningConcurrency :: int
  li_MaxTotalSandboxes :: int
  li_MaxSandboxesByProvider :: "string \<Rightarrow> int"
  li_ProviderBackoffBase :: duration
  li_ProviderBackoffMax :: duration

datatype ScaleAction = ScaleNone | ScaleProvision | ScaleDrain | ScaleTimeout

record ScaleDecision =
  d_Pool :: string
  d_Provider :: string
  d_Action :: ScaleAction
  d_Reason :: string
  d_Queued :: int
  d_Unmet :: int
  d_IdleSlots :: int
  d_Busy :: int
  d_Ready :: int
  d_Starting :: int
  d_Draining :: int
  d_Current :: int
  d_Desired :: int
  d_Changed :: int
  d_ProvisionFailures :: int
  d_ProvisionDuration :: duration
  d_ObservedAt :: time
  d_Recovering :: int

record poolState =
  st_lastUp :: time
  st_lastDown :: time
  st_belowSince :: time
  st_failures :: int
  st_retryAt :: time
  st_unhealthy :: bool

definition zero_poolState :: poolState where
  "zero_poolState = \<lparr>st_lastUp = 0, st_lastDown = 0, st_belowSince = 0, st_failures = 0, st_retryAt = 0, st_unhealthy = False\<rparr>"

section \<open>Small helpers\<close>

definition poolLabel :: string where
  "poolLabel = ''smart-route.pool''"

definition clamp :: "int \<Rightarrow> int \<Rightarrow> int \<Rightarrow> int" where
  "clamp value low high = (if value < low then low else if value > high then high else value)"

definition positiveLimit :: "int \<Rightarrow> int \<Rightarrow> int" where
  "positiveLimit value limit = (if limit > 0 \<and> value > limit then limit else value)"

definition capacityLimit :: "int \<Rightarrow> int \<Rightarrow> int \<Rightarrow> int" where
  "capacityLimit value limit current =
    (if limit \<le> 0 then value else min value (let remaining = limit - current in if remaining < 0 then 0 else remaining))"

definition cooldownElapsed :: "time \<Rightarrow> time \<Rightarrow> duration \<Rightarrow> bool" where
  "cooldownElapsed tm previous cooldown \<longleftrightarrow> previous = 0 \<or> cooldown \<le> 0 \<or> time_sub tm previous \<ge> cooldown"

definition put_all :: "strmap \<Rightarrow> strmap \<Rightarrow> strmap" where
  "put_all kvs m = fold (\<lambda>(k, v). AList.update k v) kvs m"

definition poolCapabilities :: "SandboxPool \<Rightarrow> Capabilities" where
  "poolCapabilities pool =
    (let caps = po_Capabilities pool in
     caps\<lparr>cap_Labels := AList.update poolLabel (po_Name pool) (put_all (po_Labels pool) (cap_Labels caps)),
       cap_Region := (if cap_Region caps = '''' then po_Region pool else cap_Region caps)\<rparr>)"

definition poolRegion :: "SandboxPool \<Rightarrow> string" where
  "poolRegion pool = (if po_Region pool \<noteq> '''' then po_Region pool else cap_Region (po_Capabilities pool))"

section \<open>Choosing a pool\<close>

definition withinBudget :: "RoutingConstraints \<Rightarrow> SandboxPool \<Rightarrow> bool" where
  "withinBudget k pool \<longleftrightarrow> (case rc_MaxCost k of None \<Rightarrow> True
     | Some m \<Rightarrow> (case po_Cost pool of None \<Rightarrow> False | Some x \<Rightarrow> x \<le> m))"

definition hasProvider :: "SandboxPool list \<Rightarrow> RoutingConstraints \<Rightarrow> string \<Rightarrow> bool" where
  "hasProvider pools k provider = list_ex (\<lambda>pool. po_Provider pool = provider \<and> Satisfies (poolCapabilities pool) k \<and> withinBudget k pool) pools"

definition pool_less :: "RoutingConstraints \<Rightarrow> SandboxPool \<Rightarrow> SandboxPool \<Rightarrow> bool" where
  "pool_less k a b =
    (if rc_PreferredProvider k \<noteq> '''' \<and> (po_Provider a = rc_PreferredProvider k) \<noteq> (po_Provider b = rc_PreferredProvider k)
     then po_Provider a = rc_PreferredProvider k
     else if rc_PreferredRegion k \<noteq> '''' \<and> (poolRegion a = rc_PreferredRegion k) \<noteq> (poolRegion b = rc_PreferredRegion k)
     then poolRegion a = rc_PreferredRegion k
     else case (po_Cost a, po_Cost b) of
       (Some x, Some y) \<Rightarrow> if x \<noteq> y then x < y else po_Name a < po_Name b
     | (Some x, None) \<Rightarrow> True
     | _ \<Rightarrow> po_Name a < po_Name b)"

text \<open>The element moves to the front of the reversed prefix while it is less than its neighbour.\<close>

fun insert_back :: "('a \<Rightarrow> 'a \<Rightarrow> bool) \<Rightarrow> 'a \<Rightarrow> 'a list \<Rightarrow> 'a list" where
  "insert_back lt x [] = [x]"
| "insert_back lt x (y # ys) = (if lt x y then y # insert_back lt x ys else x # y # ys)"

definition insertionSort :: "('a \<Rightarrow> 'a \<Rightarrow> bool) \<Rightarrow> 'a list \<Rightarrow> 'a list" where
  "insertionSort lt xs = rev (fold (insert_back lt) xs [])"

definition compatible_pools :: "SandboxPool list \<Rightarrow> RoutingConstraints \<Rightarrow> SandboxPool list" where
  "compatible_pools pools k =
    (let preferAvailable = (rc_PreferredProvider k \<noteq> '''' \<and> hasProvider pools k (rc_PreferredProvider k)) in
     filter (\<lambda>pool. Satisfies (poolCapabilities pool) k \<and> withinBudget k pool
        \<and> (\<not> preferAvailable \<or> po_Provider pool = rc_PreferredProvider k)) pools)"

definition selectPool :: "SandboxPool list \<Rightarrow> RoutingConstraints \<Rightarrow> SandboxPool option" where
  "selectPool pools k = (case insertionSort (pool_less k) (compatible_pools pools k) of [] \<Rightarrow> None | pool # _ \<Rightarrow> Some pool)"

section \<open>Validation\<close>

fun validate_pools :: "SandboxPool list \<Rightarrow> string list \<Rightarrow> CtlError + unit" where
  "validate_pools [] seen = Inr ()"
| "validate_pools (pool # pools) seen =
    (if po_Name pool = '''' \<or> po_Provider pool = '''' \<or> po_WorkerConcurrency pool \<le> 0 \<or> po_MinReplicas pool < 0
        \<or> po_MaxReplicas pool < po_MinReplicas pool \<or> sp_ControlPlaneURL (po_Create pool) = ''''
     then Inl (CtlErr (''invalid sandbox pool '' @ po_Name pool))
     else if po_Name pool \<in> set seen then Inl (CtlErr (''duplicate sandbox pool '' @ po_Name pool))
     else validate_pools pools (po_Name pool # seen))"

definition validatePools :: "SandboxPool list \<Rightarrow> CtlError + unit" where
  "validatePools pools = validate_pools pools []"

section \<open>Backoff\<close>

fun provider_backoff_loop :: "nat \<Rightarrow> duration \<Rightarrow> duration \<Rightarrow> duration" where
  "provider_backoff_loop 0 delay maximum = delay"
| "provider_backoff_loop (Suc n) delay maximum =
    (if delay < maximum div 2 then provider_backoff_loop n (int64 (delay * 2)) maximum else delay)"

definition providerBackoff :: "AutoscalerLimits \<Rightarrow> string \<Rightarrow> int \<Rightarrow> duration" where
  "providerBackoff limits pool failures =
    (let base = (if li_ProviderBackoffBase limits \<le> 0 then second else li_ProviderBackoffBase limits);
         maximum = (if li_ProviderBackoffMax limits \<le> 0 then minute else li_ProviderBackoffMax limits);
         delay0 = provider_backoff_loop (nat (failures - 1)) base maximum;
         delay = (if delay0 > maximum then maximum else delay0);
         jitter = int64 (uint (fnv32a pool) mod 251 * delay) div 1000
     in if int64 (delay + jitter) > maximum then maximum else int64 (delay + jitter))"

section \<open>Observation\<close>

text \<open>The map from sandboxes to workers; a later worker replaces an earlier one.\<close>

definition worker_by_sandbox :: "Worker list \<Rightarrow> SandboxID \<rightharpoonup> Worker" where
  "worker_by_sandbox workers = map_of (rev (map (\<lambda>w. (w_SandboxID w, w)) (filter (\<lambda>w. w_SandboxID w \<noteq> '''') workers)))"

definition pool_demand :: "SandboxPool list \<Rightarrow> Job list \<Rightarrow> Session list \<Rightarrow> string \<Rightarrow> int" where
  "pool_demand pools jobs sessions name =
     int (length (filter (\<lambda>j. j_SessionID j = '''' \<and> (case selectPool pools (j_Constraints j) of
         None \<Rightarrow> False | Some pool \<Rightarrow> po_Name pool = name)) jobs))
   + int (length (filter (\<lambda>v. s_State v = SessionPending \<and> s_Pool v = name) sessions))"

definition counted :: "Sandbox \<Rightarrow> bool" where
  "counted box \<longleftrightarrow> b_State box \<noteq> ''terminated'' \<and> b_State box \<noteq> ''missing''"

definition worker_alive :: "(SandboxID \<rightharpoonup> Worker) \<Rightarrow> Sandbox \<Rightarrow> bool" where
  "worker_alive wbs box = (case wbs (b_ID box) of None \<Rightarrow> False | Some w \<Rightarrow> get_str (w_Health w) ''status'' \<noteq> ''dead'')"

definition owned_by :: "SandboxPool \<Rightarrow> Sandbox \<Rightarrow> bool" where
  "owned_by pool box \<longleftrightarrow> get_str (cap_Labels (b_Capabilities box)) poolLabel = po_Name pool"

definition count_boxes :: "(Sandbox \<Rightarrow> bool) \<Rightarrow> Sandbox list \<Rightarrow> int" where
  "count_boxes P boxes = int (length (filter P boxes))"

definition initial_decision :: "SandboxPool \<Rightarrow> int \<Rightarrow> int \<Rightarrow> (SandboxID \<rightharpoonup> Worker) \<Rightarrow> Sandbox list \<Rightarrow> time \<Rightarrow> ScaleDecision" where
  "initial_decision pool queued recovering wbs owned tm =
    (let ready = count_boxes (\<lambda>b. is_warm b \<and> worker_alive wbs b) owned;
         starting = count_boxes (\<lambda>b. b_State b = ''creating'' \<or> (is_warm b \<and> \<not> worker_alive wbs b)) owned;
         draining = count_boxes (\<lambda>b. b_State b = ''draining'' \<or> b_State b = ''terminating'') owned
     in \<lparr>d_Pool = po_Name pool, d_Provider = po_Provider pool, d_Action = ScaleNone, d_Reason = '''', d_Queued = queued,
       d_Unmet = 0, d_IdleSlots = 0, d_Busy = 0, d_Ready = ready, d_Starting = starting, d_Draining = draining,
       d_Current = ready + starting + draining, d_Desired = 0, d_Changed = 0, d_ProvisionFailures = 0,
       d_ProvisionDuration = 0, d_ObservedAt = tm, d_Recovering = recovering\<rparr>)"

text \<open>The walk over the pool's live workers: unmet demand, idle slots, busy replicas.\<close>

record slot_walk =
  sw_remaining :: int
  sw_idle :: int
  sw_active :: int

definition usable_slots :: "SandboxPool \<Rightarrow> Worker \<Rightarrow> int" where
  "usable_slots pool w =
    (let s1 = (if w_ReservedSessionID w \<noteq> '''' then 0 else w_AvailableSlots w);
         s2 = (if s1 < 0 then 0 else s1)
     in if s2 > po_WorkerConcurrency pool then po_WorkerConcurrency pool else s2)"

definition walk_box :: "SandboxPool \<Rightarrow> (SandboxID \<rightharpoonup> Worker) \<Rightarrow> Sandbox \<Rightarrow> slot_walk \<Rightarrow> slot_walk" where
  "walk_box pool wbs box k =
    (case wbs (b_ID box) of
       None \<Rightarrow> k
     | Some w \<Rightarrow>
         if \<not> is_warm box \<or> get_str (w_Health w) ''status'' = ''dead'' then k
         else
           (let slots = usable_slots pool w;
                k1 = k\<lparr>sw_idle := sw_idle k + slots,
                  sw_active := (if slots < po_WorkerConcurrency pool \<or> w_ActiveAttempts w \<noteq> [] then sw_active k + 1 else sw_active k)\<rparr>
            in if sw_remaining k1 > 0 \<and> slots > 0 then
                 k1\<lparr>sw_remaining := sw_remaining k1 - min slots (sw_remaining k1),
                   sw_active := (if slots = po_WorkerConcurrency pool \<and> w_ActiveAttempts w = [] then sw_active k1 + 1 else sw_active k1)\<rparr>
               else k1))"

definition slot_demand :: "SandboxPool \<Rightarrow> (SandboxID \<rightharpoonup> Worker) \<Rightarrow> Sandbox list \<Rightarrow> int \<Rightarrow> slot_walk" where
  "slot_demand pool wbs owned queued =
     fold (walk_box pool wbs) (sort_key b_ID owned) \<lparr>sw_remaining = queued, sw_idle = 0, sw_active = 0\<rparr>"

definition size_pool :: "SandboxPool \<Rightarrow> (SandboxID \<rightharpoonup> Worker) \<Rightarrow> Sandbox list \<Rightarrow> ScaleDecision \<Rightarrow> ScaleDecision" where
  "size_pool pool wbs owned d =
    (let k = slot_demand pool wbs owned (d_Queued d);
         needed = sw_active k + \<lceil>of_int (sw_remaining k) / of_int (po_WorkerConcurrency pool) :: rat\<rceil>
     in d\<lparr>d_IdleSlots := sw_idle k, d_Busy := sw_active k, d_Unmet := sw_remaining k,
       d_Desired := clamp needed (po_MinReplicas pool) (po_MaxReplicas pool)\<rparr>)"

section \<open>Creating sandboxes\<close>

text \<open>What the control plane takes from the standard library and the machine; \<open>ev_wall\<close> is \<^verbatim>\<open>time.Now\<close>.\<close>

record 'p Env =
  ev_rand :: "nat \<Rightarrow> 'p \<Rightarrow> (SbError + string) \<times> 'p"
  ev_sha256 :: "string \<Rightarrow> string"
  ev_json :: "Capabilities \<Rightarrow> string"
  ev_clock :: "'p \<Rightarrow> time"
  ev_wall :: time

type_synonym 'p minter = "SandboxID \<Rightarrow> string \<Rightarrow> string \<Rightarrow> Capabilities \<Rightarrow> (CtlError, string, 'p plane) pass"

record 'p AutoEnv = "'p Env" +
  ae_minter :: "'p minter option"
  ae_BootstrapTokenTTL :: duration

definition capabilityHash :: "('p, 'x) Env_scheme \<Rightarrow> Capabilities \<Rightarrow> string" where
  "capabilityHash env caps = hex_EncodeToString (ev_sha256 env (ev_json env caps))"

text \<open>An identifier of sixteen random bytes; running out of randomness is a panic of the caller.\<close>

definition newID :: "('p, 'x) Env_scheme \<Rightarrow> string \<Rightarrow> (CtlError, string, 'p plane) pass" where
  "newID env p w = sbind (on_provider (ev_rand env 16) w) (\<lambda>b w1. (Inr (p @ ''_'' @ hex_EncodeToString b), w1))"

text \<open>The minter of the API, which the application hands to the controllers.\<close>

definition MintBootstrapToken :: "('p, 'x) Env_scheme \<Rightarrow> duration \<Rightarrow> 'p minter" where
  "MintBootstrapToken env ttl i provider pool caps w =
    sbind (newID env ''wbt'' w) (\<lambda>token w1.
    sbind (on_store (CreateBootstrapToken \<lparr>t_TokenHash = hex_EncodeToString (ev_sha256 env token), t_SandboxID = i, t_SandboxProvider = provider,
      t_Pool = pool, t_CapabilityHash = capabilityHash env caps, t_ExpiresAt = ev_wall env + ttl, t_ConsumedAt = None\<rparr>) w1) (\<lambda>_ w2.
      (Inr token, w2)))"

definition create_spec :: "SandboxPool \<Rightarrow> time \<Rightarrow> int \<Rightarrow> string \<Rightarrow> CreateSpec" where
  "create_spec pool tm n random = (po_Create pool)
     \<lparr>sp_SandboxID := hex_EncodeToString random,
      sp_WorkerID := ''pool-'' @ po_Name pool @ ''-'' @ show_int (unix_nano tm) @ ''-'' @ show_int n,
      sp_SandboxProvider := po_Provider pool,
      sp_Capabilities := poolCapabilities pool,
      sp_Labels := AList.update poolLabel (po_Name pool) (po_Labels pool)\<rparr>"

definition bootstrap_credential :: "'p AutoEnv \<Rightarrow> SandboxPool \<Rightarrow> time \<Rightarrow> CreateSpec \<Rightarrow> (CtlError, string, 'p plane) pass" where
  "bootstrap_credential env pool tm spec w =
    (case ae_minter env of
       Some mint \<Rightarrow> mint (sp_SandboxID spec) (po_Provider pool) (po_Name pool) (sp_Capabilities spec) w
     | None \<Rightarrow>
         sbind (on_provider (ev_rand env 32) w) (\<lambda>secret w1.
           (let token = ''wbt_'' @ hex_EncodeToString secret;
                ttl = (if ae_BootstrapTokenTTL env \<le> 0 then 5 * minute else ae_BootstrapTokenTTL env)
            in sbind (on_store (CreateBootstrapToken \<lparr>t_TokenHash = hex_EncodeToString (ev_sha256 env token), t_SandboxID = sp_SandboxID spec,
                 t_SandboxProvider = po_Provider pool, t_Pool = po_Name pool,
                 t_CapabilityHash = capabilityHash env (sp_Capabilities spec),
                 t_ExpiresAt = tm + ttl, t_ConsumedAt = None\<rparr>) w1) (\<lambda>_ w2. (Inr token, w2)))))"

text \<open>The record of a new sandbox; a worker that registered meanwhile keeps its binding.\<close>

definition sandbox_record :: "SandboxPool \<Rightarrow> time \<Rightarrow> CreateSpec \<Rightarrow> PSandbox \<Rightarrow> Sandbox option \<Rightarrow> Sandbox" where
  "sandbox_record pool tm spec item existing =
    (let r0 = (fromProvider (po_Provider pool) item tm)\<lparr>b_Capabilities := sp_Capabilities spec\<rparr>;
         r1 = (case existing of None \<Rightarrow> r0
           | Some x \<Rightarrow> if b_WorkerID x \<noteq> '''' \<and> b_WorkerID x \<noteq> sp_WorkerID spec
               then r0\<lparr>b_WorkerID := b_WorkerID x,
                 b_State := (if b_State x = ''ready'' then b_State x else b_State r0),
                 b_UpdatedAt := (if b_UpdatedAt x > b_UpdatedAt r0 then b_UpdatedAt x else b_UpdatedAt r0)\<rparr>
               else r0)
     in r1\<lparr>b_State := (if b_State r1 = '''' then ''creating'' else b_State r1)\<rparr>)"

text \<open>Undoing a creation that cannot be recorded; both calls may fail silently.\<close>

definition abandon :: "'p AutoEnv \<Rightarrow> 'p Provider \<Rightarrow> SandboxID \<Rightarrow> SandboxID \<Rightarrow> CtlError \<Rightarrow> (CtlError, unit, 'p plane) pass" where
  "abandon env provider item_id i e w =
    (Inl e, snd (on_store (RevokeSandboxCredentials (ev_wall env) i) (snd (on_provider (pv_Terminate provider item_id) w))))"

definition persist_sandbox :: "'p AutoEnv \<Rightarrow> 'p Provider \<Rightarrow> SandboxPool \<Rightarrow> time \<Rightarrow> CreateSpec \<Rightarrow> PSandbox \<Rightarrow> (CtlError, unit, 'p plane) pass" where
  "persist_sandbox env provider pool tm spec item w =
    (let i = sp_SandboxID spec;
         save = (\<lambda>existing. case on_store (UpsertSandbox (ev_wall env) (sandbox_record pool tm spec item existing)) w of
             (Inl e, w1) \<Rightarrow> abandon env provider (ps_ID item) i e w1
           | (Inr _, w1) \<Rightarrow> (Inr (), w1))
     in case getSandbox (ps_ID item) (fst w) of
          Inr existing \<Rightarrow> save (Some existing)
        | Inl e \<Rightarrow> if e = ErrNotFound then save None else abandon env provider (ps_ID item) i (StoreErr e) w)"

definition provision :: "'p AutoEnv \<Rightarrow> 'p Provider \<Rightarrow> SandboxPool \<Rightarrow> time \<Rightarrow> CreateSpec \<Rightarrow> (CtlError, unit, 'p plane) pass" where
  "provision env provider pool tm spec0 w =
    sbind (bootstrap_credential env pool tm spec0 w) (\<lambda>token w1.
      (let spec = spec0\<lparr>sp_BootstrapToken := token\<rparr> in
       case on_provider (pv_Create provider spec) w1 of
         (Inl e, w2) \<Rightarrow> (Inl e, snd (on_store (RevokeSandboxCredentials (ev_wall env) (sp_SandboxID spec)) w2))
       | (Inr item, w2) \<Rightarrow> persist_sandbox env provider pool tm spec item w2))"

text \<open>The state is the plane with the 64-bit \<^verbatim>\<open>sequence\<close>.\<close>

definition create :: "'p AutoEnv \<Rightarrow> 'p Provider \<Rightarrow> SandboxPool \<Rightarrow> time \<Rightarrow> (CtlError, unit, int \<times> 'p plane) pass" where
  "create env provider pool tm = (\<lambda>(n, w).
     case on_provider (ev_rand env 12) w of
       (Inl e, w1) \<Rightarrow> (Inl e, (n, w1))
     | (Inr random, w1) \<Rightarrow>
         (let n1 = (n + 1) mod 2 ^ 64 in
          case provision env provider pool tm (create_spec pool tm n1 random) w1 of (r, w2) \<Rightarrow> (r, (n1, w2))))"

fun create_all :: "(CtlError, unit, 's) pass \<Rightarrow> nat \<Rightarrow> 's \<Rightarrow> (CtlError + unit) list \<times> 's" where
  "create_all f 0 s = ([], s)"
| "create_all f (Suc k) s = (case f s of (r, s1) \<Rightarrow> case create_all f k s1 of (rs, s2) \<Rightarrow> (r # rs, s2))"

definition createMany ::
    "'p AutoEnv \<Rightarrow> 'p Provider \<Rightarrow> SandboxPool \<Rightarrow> time \<Rightarrow> nat \<Rightarrow> int \<times> 'p plane \<Rightarrow> (int \<times> CtlError option) \<times> (int \<times> 'p plane)" where
  "createMany env provider pool tm amount s =
    (case create_all (create env provider pool tm) amount s of (rs, s') \<Rightarrow>
       ((int (length (filter (\<lambda>r. \<not> isl r) rs)), case filter isl rs of [] \<Rightarrow> None | r # _ \<Rightarrow> Some (projl r)), s'))"

section \<open>Draining\<close>

definition drainable :: "(SandboxID \<rightharpoonup> Worker) \<Rightarrow> duration \<Rightarrow> time \<Rightarrow> Sandbox \<Rightarrow> bool" where
  "drainable wbs idleTTL tm box \<longleftrightarrow> is_warm box \<and> b_ReservedSessionID box = ''''
     \<and> (case wbs (b_ID box) of None \<Rightarrow> True | Some w \<Rightarrow> \<not> worker_busy w)
     \<and> \<not> (idleTTL > 0 \<and> time_sub tm (b_UpdatedAt box) < idleTTL)"

fun drain_loop :: "time \<Rightarrow> (Sandbox \<Rightarrow> bool) \<Rightarrow> int \<Rightarrow> time \<Rightarrow> int \<Rightarrow> Sandbox list \<Rightarrow> (CtlError, int, 'p plane) pass" where
  "drain_loop wall idle wanted tm drained [] w = (Inr drained, w)"
| "drain_loop wall idle wanted tm drained (box # boxes) w =
    (if drained = wanted then (Inr drained, w)
     else if \<not> idle box then drain_loop wall idle wanted tm drained boxes w
     else sbind (on_store (SetSandboxState wall (b_ID box) ''draining'' tm) w) (\<lambda>_. drain_loop wall idle wanted tm (drained + 1) boxes))"

definition drain ::
    "time \<Rightarrow> Sandbox list \<Rightarrow> (SandboxID \<rightharpoonup> Worker) \<Rightarrow> int \<Rightarrow> duration \<Rightarrow> time \<Rightarrow> (CtlError, int, 'p plane) pass" where
  "drain wall boxes wbs wanted idleTTL tm =
     drain_loop wall (drainable wbs idleTTL tm) wanted tm 0 (sort_key (\<lambda>b. (b_UpdatedAt b, b_ID b)) boxes)"

section \<open>A run\<close>

text \<open>
  The fields of a \<^verbatim>\<open>QueueAutoscaler\<close> that change (\<^verbatim>\<open>sequence\<close> and \<^verbatim>\<open>state\<close>) with the decisions its observer has
  been given, the two running counters of a run, and what a run reads before it scales.
\<close>

record QueueAutoscaler =
  qa_sequence :: int
  qa_state :: "string \<Rightarrow> poolState"
  qa_observed :: "ScaleDecision list"

record counters =
  ct_total :: int
  ct_provider :: "string \<Rightarrow> int"

record observation =
  ob_boxes :: "Sandbox list"
  ob_workers :: "SandboxID \<rightharpoonup> Worker"
  ob_sessions :: "Session list"
  ob_demand :: "string \<Rightarrow> int"

definition startup_overdue :: "SandboxPool \<Rightarrow> (SandboxID \<rightharpoonup> Worker) \<Rightarrow> time \<Rightarrow> Sandbox \<Rightarrow> bool" where
  "startup_overdue pool wbs tm box \<longleftrightarrow>
     (b_State box = ''creating'' \<or> (is_warm box \<and> wbs (b_ID box) = None))
     \<and> po_StartupTimeout pool > 0 \<and> time_sub tm (b_CreatedAt box) \<ge> po_StartupTimeout pool"

definition expire_startup ::
    "'p AutoEnv \<Rightarrow> 'p Provider \<Rightarrow> SandboxPool \<Rightarrow> (SandboxID \<rightharpoonup> Worker) \<Rightarrow> time \<Rightarrow> Sandbox
      \<Rightarrow> (CtlError, unit, ScaleDecision \<times> counters \<times> 'p plane) pass" where
  "expire_startup env provider pool wbs tm box = (\<lambda>(d, c, w).
     if startup_overdue pool wbs tm box then
       (case sbind (on_store (SetSandboxState (ev_wall env) (b_ID box) ''terminating'' tm) w)
           (\<lambda>_. on_provider (pv_Terminate provider (b_ID box))) of
          (Inl e, w') \<Rightarrow> (Inl e, (d, c, w'))
        | (Inr _, w') \<Rightarrow> (Inr (),
            (d\<lparr>d_Action := ScaleTimeout, d_Reason := ''sandbox exceeded startup timeout'', d_Changed := d_Changed d + 1,
               d_Current := d_Current d - 1, d_Starting := d_Starting d - 1\<rparr>,
             c\<lparr>ct_total := ct_total c - 1, ct_provider := (ct_provider c)(po_Provider pool := ct_provider c (po_Provider pool) - 1)\<rparr>,
             w')))
     else (Inr (), (d, c, w)))"

definition scale_count :: "AutoscalerLimits \<Rightarrow> SandboxPool \<Rightarrow> counters \<Rightarrow> ScaleDecision \<Rightarrow> int" where
  "scale_count limits pool c d =
    (let n1 = positiveLimit (d_Desired d - d_Current d) (li_MaxScaleUpPerRun limits);
         n2 = capacityLimit n1 (li_MaxTotalSandboxes limits) (ct_total c)
     in capacityLimit n2 (li_MaxSandboxesByProvider limits (po_Provider pool)) (ct_provider c (po_Provider pool)))"

definition ctl_Is :: "CtlError \<Rightarrow> Sentinel \<Rightarrow> bool" where
  "ctl_Is e target = (case e of ProvErr x \<Rightarrow> errors_Is x target | _ \<Rightarrow> False)"

text \<open>What a batch of creations does to the decision and the pool's state.\<close>

definition after_provision ::
    "AutoscalerLimits \<Rightarrow> SandboxPool \<Rightarrow> time \<Rightarrow> int \<Rightarrow> int \<Rightarrow> CtlError option \<Rightarrow> duration \<Rightarrow> ScaleDecision \<Rightarrow> poolState
      \<Rightarrow> ScaleDecision \<times> poolState" where
  "after_provision limits pool tm amount created err elapsed d st =
    (let d1 = d\<lparr>d_ProvisionDuration := elapsed, d_ProvisionFailures := amount - created, d_Changed := d_Changed d + created\<rparr>;
         d2 = (if created > 0 then d1\<lparr>d_Action := ScaleProvision, d_Reason := ''compatible queued demand exceeds available capacity''\<rparr> else d1);
         st2 = (if created > 0 then st\<lparr>st_lastUp := tm, st_belowSince := 0\<rparr> else st)
     in case err of
          None \<Rightarrow> (d2, st2\<lparr>st_failures := 0, st_retryAt := 0\<rparr>)
        | Some e \<Rightarrow>
            (let st3 = st2\<lparr>st_failures := st_failures st2 + 1\<rparr> in
             if ctl_Is e SbErrInvalid \<or> ctl_Is e SbErrAuthentication
             then (d2\<lparr>d_Reason := ''permanent provider authentication or configuration failure''\<rparr>, st3\<lparr>st_unhealthy := True\<rparr>)
             else (d2\<lparr>d_Reason := ''transient provider capacity failure; backoff circuit opened''\<rparr>,
               st3\<lparr>st_retryAt := tm + providerBackoff limits (po_Name pool) (st_failures st3)\<rparr>)))"

definition because :: "string \<Rightarrow> ScaleDecision \<Rightarrow> ScaleDecision" where
  "because reason d = (if d_Reason d = '''' then d\<lparr>d_Reason := reason\<rparr> else d)"

definition scale_up ::
    "'p AutoEnv \<Rightarrow> AutoscalerLimits \<Rightarrow> 'p Provider \<Rightarrow> SandboxPool \<Rightarrow> time \<Rightarrow> ScaleDecision \<Rightarrow> poolState \<Rightarrow> counters \<Rightarrow> int \<times> 'p plane
      \<Rightarrow> (ScaleDecision \<times> poolState \<times> counters) \<times> (int \<times> 'p plane)" where
  "scale_up env limits provider pool tm d st c s =
    (if st_unhealthy st then ((d\<lparr>d_Reason := ''pool is unhealthy after permanent provider configuration failure''\<rparr>, st, c), s)
     else if tm < st_retryAt st then ((d\<lparr>d_Reason := ''provider backoff circuit is open''\<rparr>, st, c), s)
     else if cooldownElapsed tm (st_lastUp st) (po_ScaleUpCooldown pool) then
       (let amount = scale_count limits pool c d in
        if amount \<le> 0 then ((d\<lparr>d_Reason := ''global or provider sandbox limit reached''\<rparr>, st, c), s)
        else case createMany env provider pool tm (nat amount) s of ((created, err), s') \<Rightarrow>
          (let elapsed = time_sub (ev_clock env (snd (snd s'))) (ev_clock env (snd (snd s)));
               c' = c\<lparr>ct_total := ct_total c + created,
                 ct_provider := (ct_provider c)(po_Provider pool := ct_provider c (po_Provider pool) + created)\<rparr>
           in case after_provision limits pool tm amount created err elapsed d st of (d', st') \<Rightarrow> ((d', st', c'), s')))
     else ((because ''scale-up cooldown is active'' d, st, c), s))"

definition scale_down ::
    "'p AutoEnv \<Rightarrow> SandboxPool \<Rightarrow> (SandboxID \<rightharpoonup> Worker) \<Rightarrow> Sandbox list \<Rightarrow> time \<Rightarrow> ScaleDecision \<Rightarrow> poolState
      \<Rightarrow> (CtlError, ScaleDecision \<times> poolState, 'p plane) pass" where
  "scale_down env pool wbs owned tm d st w =
    (let st1 = st\<lparr>st_belowSince := (if st_belowSince st = 0 then tm else st_belowSince st)\<rparr>;
         stable = (po_ScaleDownStabilize pool \<le> 0 \<or> time_sub tm (st_belowSince st1) \<ge> po_ScaleDownStabilize pool)
     in if stable \<and> cooldownElapsed tm (st_lastDown st1) (po_ScaleDownCooldown pool) then
          sbind (drain (ev_wall env) owned wbs (d_Current d - d_Desired d) (po_IdleTTL pool) tm w) (\<lambda>n w1.
            (Inr (if n > 0 then (d\<lparr>d_Action := ScaleDrain, d_Reason := ''idle capacity exceeds stabilized desired replicas'',
                    d_Changed := d_Changed d + n\<rparr>, st1\<lparr>st_lastDown := tm\<rparr>)
                  else (because ''excess capacity is busy or has not reached idle TTL'' d, st1)), w1))
        else (Inr (because ''scale-down stabilization or cooldown is active'' d, st1), w))"

definition finish_pool :: "SandboxPool \<Rightarrow> ScaleDecision \<Rightarrow> poolState \<Rightarrow> int \<Rightarrow> QueueAutoscaler \<Rightarrow> QueueAutoscaler" where
  "finish_pool pool d st n q = q\<lparr>qa_sequence := n, qa_state := (qa_state q)(po_Name pool := st), qa_observed := qa_observed q @ [d]\<rparr>"

definition scale_replicas ::
    "'p AutoEnv \<Rightarrow> AutoscalerLimits \<Rightarrow> 'p Provider \<Rightarrow> SandboxPool \<Rightarrow> observation \<Rightarrow> Sandbox list \<Rightarrow> time \<Rightarrow> ScaleDecision
      \<Rightarrow> (CtlError, unit, counters \<times> QueueAutoscaler \<times> 'p plane) pass" where
  "scale_replicas env limits provider pool ob owned tm d = (\<lambda>(c, q, w).
    (let st = qa_state q (po_Name pool) in
     if d_Current d < d_Desired d then
       (case scale_up env limits provider pool tm d st c (qa_sequence q, w) of
          ((d', st', c'), (n, w')) \<Rightarrow> (Inr (), (c', finish_pool pool d' st' n q, w')))
     else if d_Current d > d_Desired d then
       (case scale_down env pool (ob_workers ob) owned tm d st w of
          (Inl e, w') \<Rightarrow> (Inl e, (c, q, w'))
        | (Inr (d', st'), w') \<Rightarrow> (Inr (), (c, finish_pool pool d' st' (qa_sequence q) q, w')))
     else (Inr (), (c, finish_pool pool (because ''capacity matches bounded compatible demand'' d)
            (st\<lparr>st_belowSince := 0\<rparr>) (qa_sequence q) q, w))))"

definition first_decision :: "SandboxPool \<Rightarrow> observation \<Rightarrow> Sandbox list \<Rightarrow> time \<Rightarrow> ScaleDecision" where
  "first_decision pool ob owned tm =
     size_pool pool (ob_workers ob) owned
       (initial_decision pool (ob_demand ob (po_Name pool))
         (int (length (filter (\<lambda>v. s_Pool v = po_Name pool \<and> s_State v = SessionRecovering) (ob_sessions ob))))
         (ob_workers ob) owned tm)"

definition scale_pool ::
    "'p AutoEnv \<Rightarrow> AutoscalerLimits \<Rightarrow> 'p Provider Registry \<Rightarrow> observation \<Rightarrow> time \<Rightarrow> SandboxPool
      \<Rightarrow> (CtlError, unit, counters \<times> QueueAutoscaler \<times> 'p plane) pass" where
  "scale_pool env limits registry ob tm pool = (\<lambda>(c, q, w).
     case Registry_Get registry (po_Provider pool) of
       Inl e \<Rightarrow> (Inl (ProvErr e), (c, q, w))
     | Inr provider \<Rightarrow>
         (let owned = filter (owned_by pool) (ob_boxes ob) in
          case foldS (expire_startup env provider pool (ob_workers ob) tm) owned (first_decision pool ob owned tm, c, w) of
            (Inl e, (d, c', w')) \<Rightarrow> (Inl e, (c', q, w'))
          | (Inr _, (d, c', w')) \<Rightarrow> scale_replicas env limits provider pool ob owned tm d (c', q, w')))"

definition observe :: "SandboxPool list \<Rightarrow> time \<Rightarrow> DB \<Rightarrow> observation" where
  "observe pools wall s =
    (let sessions = ListSessions [SessionPending, SessionActive, SessionRecovering] s in
     \<lparr>ob_boxes = ListSandboxes s, ob_workers = worker_by_sandbox (ListWorkers s), ob_sessions = sessions,
       ob_demand = pool_demand pools (ListQueuedJobs 100000 wall s) sessions\<rparr>)"

definition count_current :: "Sandbox list \<Rightarrow> counters" where
  "count_current boxes = \<lparr>ct_total = count_boxes counted boxes,
     ct_provider = (\<lambda>p. count_boxes (\<lambda>b. counted b \<and> b_Provider b = p) boxes)\<rparr>"

definition QueueAutoscaler_run ::
    "'p AutoEnv \<Rightarrow> AutoscalerLimits \<Rightarrow> 'p Provider Registry \<Rightarrow> SandboxPool list \<Rightarrow> (CtlError, unit, QueueAutoscaler \<times> 'p plane) pass" where
  "QueueAutoscaler_run env limits registry configured = (\<lambda>(q, w).
     case validatePools configured of
       Inl e \<Rightarrow> (Inl e, (q, w))
     | Inr _ \<Rightarrow>
         (let tm = ev_clock env (snd w);
              pools = sort_key po_Name configured;
              ob = observe pools (ev_wall env) (fst w)
          in case foldS (scale_pool env limits registry ob tm) pools (count_current (ob_boxes ob), q, w) of
               (r, (c, q', w')) \<Rightarrow> (r, (q', w'))))"

section \<open>Choosing a pool: lemmas\<close>

lemma mset_insert_back: "mset (insert_back lt x ys) = add_mset x (mset ys)"
  by (induction ys) auto

lemma mset_insertionSort: "mset (insertionSort lt xs) = mset xs"
proof -
  have "mset (fold (insert_back lt) xs acc) = mset xs + mset acc" for acc
    by (induction xs arbitrary: acc) (auto simp: mset_insert_back)
  then show ?thesis by (simp add: insertionSort_def)
qed

lemma set_insertionSort [simp]: "set (insertionSort lt xs) = set xs"
  by (rule mset_eq_setD) (rule mset_insertionSort)

lemma insertionSort_Nil_iff: "insertionSort lt xs = [] \<longleftrightarrow> xs = []"
  by (metis mset_insertionSort mset_zero_iff)

lemma insert_back_sorted:
  assumes "\<And>a b. a \<in> insert x (set ys) \<Longrightarrow> b \<in> insert x (set ys) \<Longrightarrow> lt a b \<longleftrightarrow> key a < (key b :: 'k :: linorder)"
    and "sorted_wrt (\<lambda>a b. key b \<le> key a) ys"
  shows "sorted_wrt (\<lambda>a b. key b \<le> key a) (insert_back lt x ys)"
  using assms
proof (induction ys)
  case (Cons y ys)
  have mem: "set (insert_back lt x ys) = insert x (set ys)" by (metis mset_insert_back set_mset_add_mset_insert set_mset_mset)
  have lt: "lt x y \<longleftrightarrow> key x < key y" using Cons.prems(1) by simp
  have ys: "sorted_wrt (\<lambda>a b. key b \<le> key a) ys" "\<forall>b \<in> set ys. key b \<le> key y" using Cons.prems(2) by simp_all
  show ?case
  proof (cases "lt x y")
    case True
    have "sorted_wrt (\<lambda>a b. key b \<le> key a) (insert_back lt x ys)" using ys(1) by (intro Cons.IH Cons.prems(1)) auto
    with True lt ys(2) show ?thesis by (simp add: mem)
  next
    case False
    with lt ys show ?thesis by (auto intro: order_trans)
  qed
qed simp

lemma insertionSort_min:
  assumes "\<And>a b. a \<in> set xs \<Longrightarrow> b \<in> set xs \<Longrightarrow> lt a b \<longleftrightarrow> key a < (key b :: 'k :: linorder)"
    and "insertionSort lt xs = x # rest" and "y \<in> set xs"
  shows "key x \<le> key y"
proof -
  have "sorted_wrt (\<lambda>a b. key b \<le> key a) (fold (insert_back lt) zs acc)"
    if "set zs \<union> set acc \<subseteq> set xs" "sorted_wrt (\<lambda>a b. key b \<le> key a) acc" for zs acc
    using that
  proof (induction zs arbitrary: acc)
    case (Cons z zs)
    have "set (insert_back lt z acc) = insert z (set acc)" by (metis mset_insert_back set_mset_add_mset_insert set_mset_mset)
    moreover have "sorted_wrt (\<lambda>a b. key b \<le> key a) (insert_back lt z acc)"
      using Cons.prems assms(1) by (intro insert_back_sorted) auto
    ultimately show ?case using Cons by simp
  qed simp
  from this [of xs "[]"] have "sorted_wrt (\<lambda>a b. key a \<le> key b) (x # rest)"
    unfolding assms(2) [symmetric] insertionSort_def sorted_wrt_rev by simp
  moreover have "y \<in> set (x # rest)" using assms(3) set_insertionSort [of lt xs] assms(2) by simp
  ultimately show ?thesis by auto
qed

section \<open>A run as store operations\<close>

text \<open>What the autoscaler needs of the minter it is given: it works on the store, and not on sandboxes.\<close>

locale autoscaler_env =
  fixes env :: "'p AutoEnv"
  assumes mint_runs: "ae_minter env = Some mint \<Longrightarrow> ran w (snd (mint i provider pool caps w))"
    and mint_boxes: "ae_minter env = Some mint \<Longrightarrow> db_sandboxes (fst (snd (mint i provider pool caps w))) = db_sandboxes (fst w)"

lemma ran_CreateBootstrapToken: "ran w (snd (on_store (CreateBootstrapToken t) w))"
  by (rule ran_on_store, rule store_step.intros)

lemma ran_Revoke: "ran w (snd (on_store (RevokeSandboxCredentials now b) w))"
  by (rule ran_on_store, rule store_step.intros)

lemmas ran_credentials = ran_CreateBootstrapToken ran_Revoke

lemma boxes_CreateBootstrapToken [simp]: "db_sandboxes (snd (CreateBootstrapToken t s)) = db_sandboxes s"
  by (auto simp: CreateBootstrapToken_def commit0_def commit_def rbind_def mapped_def insert_token_def split: sum.split)

lemma boxes_Revoke [simp]: "db_sandboxes (snd (RevokeSandboxCredentials now b s)) = db_sandboxes s"
  by (simp add: RevokeSandboxCredentials_def stmt_defs)

text \<open>A run of store operations that leaves the sandboxes alone.\<close>

definition aside :: "'p plane \<Rightarrow> 'p plane \<Rightarrow> bool" where
  "aside w w' \<longleftrightarrow> ran w w' \<and> db_sandboxes (fst w') = db_sandboxes (fst w)"

interpretation aside: pass_relation aside
  by unfold_locales (auto simp: aside_def intro: ran.pass_refl ran.pass_trans)

lemma aside_intros:
  "aside w (snd (on_provider f w))" "aside w (snd (on_store (CreateBootstrapToken t) w))" "aside w (snd (on_store (RevokeSandboxCredentials now b) w))"
  by (simp_all add: aside_def ran_on_provider ran_credentials)

lemma aside_newID: "aside w (snd (newID env p w))"
  unfolding newID_def by (intro aside.across_pass aside_intros) (simp add: aside.pass_refl)

lemma aside_MintBootstrapToken: "aside w (snd (MintBootstrapToken env ttl i provider pool caps w))"
  unfolding MintBootstrapToken_def by (intro aside.across_pass aside_intros aside_newID) (simp add: aside.pass_refl)

lemmas aside_MintD = aside_MintBootstrapToken [unfolded aside_def, THEN conjunct1] aside_MintBootstrapToken [unfolded aside_def, THEN conjunct2]

interpretation app: autoscaler_env "env\<lparr>ae_minter := Some (MintBootstrapToken env ttl)\<rparr>" for env ttl
  by unfold_locales (auto simp: aside_MintD)

interpretation standalone: autoscaler_env "env\<lparr>ae_minter := None\<rparr>" for env
  by unfold_locales simp_all

lemma UpsertSandbox_ok: "fst (UpsertSandbox now v s) = Inr ()"
  by (simp add: UpsertSandbox_def Let_def)

text \<open>A creation records one sandbox of its pool's provider or, when it fails, none.\<close>

definition recorded :: "string \<Rightarrow> CtlError + unit \<Rightarrow> 'p plane \<Rightarrow> 'p plane \<Rightarrow> bool" where
  "recorded p r w w' \<longleftrightarrow> (case r of
     Inl e \<Rightarrow> aside w w'
   | Inr _ \<Rightarrow> \<exists>w1 now v. aside w w1 \<and> b_Provider v = p \<and> fst w' = snd (UpsertSandbox now v (fst w1)))"

lemma recorded_aside: "aside w w1 \<Longrightarrow> recorded p r w1 w' \<Longrightarrow> recorded p r w w'"
  by (auto simp: recorded_def split: sum.splits intro: aside.pass_trans)

lemma recorded_ran: "recorded p r w w' \<Longrightarrow> ran w w'"
proof (cases r)
  case (Inr u)
  assume "recorded p r w w'"
  with Inr obtain w1 now v where "aside w w1" "fst w' = snd (UpsertSandbox now v (fst w1))" by (auto simp: recorded_def)
  then show ?thesis by (auto simp: aside_def ran_def intro: rtranclp.rtrancl_into_rtrancl store_step.UpsertSandbox)
qed (simp add: recorded_def aside_def)

lemma recorded_abandon: "abandon env provider j i e w = (r, w') \<Longrightarrow> recorded p r w w'"
proof -
  have "aside w (snd (on_store (RevokeSandboxCredentials now i) (snd (on_provider f w))))" for now f
    by (rule aside.pass_trans [OF aside_intros(1) aside_intros(3)])
  then show "abandon env provider j i e w = (r, w') \<Longrightarrow> recorded p r w w'" by (auto simp: abandon_def recorded_def)
qed

lemma on_store_Upsert: "on_store (UpsertSandbox now v) w = (Inr (), (snd (UpsertSandbox now v (fst w)), snd w))"
  using UpsertSandbox_ok [of now v "fst w"] by (cases w) (auto simp: on_store_def split: prod.split sum.split)

lemma b_Provider_sandbox_record: "b_Provider (sandbox_record pool tm spec item existing) = po_Provider pool"
  by (simp add: sandbox_record_def Let_def fromProvider_def split: option.split)

lemma recorded_persist:
  assumes "persist_sandbox env provider pool tm spec item w = (r, w')"
  shows "recorded (po_Provider pool) r w w'"
proof -
  have save: "recorded (po_Provider pool) (Inr ()) w (snd (UpsertSandbox now (sandbox_record pool tm spec item x) (fst w)), snd w)" for now x
    unfolding recorded_def sum.case
    by (intro exI [of _ w] exI [of _ now] exI [of _ "sandbox_record pool tm spec item x"]) (simp add: aside.pass_refl b_Provider_sandbox_record)
  show ?thesis
  proof (cases "\<exists>e. getSandbox (ps_ID item) (fst w) = Inl e \<and> e \<noteq> ErrNotFound")
    case True
    with assms show ?thesis by (auto simp: persist_sandbox_def Let_def intro: recorded_abandon)
  next
    case False
    with assms show ?thesis by (auto simp: persist_sandbox_def Let_def on_store_Upsert split: sum.splits if_splits intro: save)
  qed
qed

context autoscaler_env
begin

lemma aside_bootstrap: "aside w (snd (bootstrap_credential env pool tm spec w))"
proof (cases "ae_minter env")
  case None
  then show ?thesis unfolding bootstrap_credential_def option.case Let_def
    by (simp only: option.case) (intro aside.across_pass aside_intros; simp add: aside.pass_refl)
next
  case (Some mint)
  with mint_runs [OF Some] mint_boxes [OF Some] show ?thesis by (simp add: bootstrap_credential_def aside_def)
qed

lemma recorded_provision:
  assumes "provision env provider pool tm spec w = (r, w')"
  shows "recorded (po_Provider pool) r w w'"
proof -
  obtain b w1 where boot: "bootstrap_credential env pool tm spec w = (b, w1)" by (metis surj_pair)
  have w1: "aside w w1" using aside_bootstrap [of w pool tm spec] boot by simp
  show ?thesis
  proof (cases b)
    case (Inl e)
    with assms boot w1 show ?thesis by (auto simp: provision_def sbind_def recorded_def)
  next
    case (Inr token)
    let ?spec = "spec\<lparr>sp_BootstrapToken := token\<rparr>"
    obtain x w2 where create: "on_provider (pv_Create provider ?spec) w1 = (x, w2)" by (metis surj_pair)
    have w2: "aside w w2" using aside.pass_trans [OF w1 aside_intros(1), of "pv_Create provider ?spec"] create by simp
    show ?thesis
    proof (cases x)
      case (Inl e)
      with assms boot Inr create aside.pass_trans [OF w2 aside_intros(3)] show ?thesis
        by (auto simp: provision_def sbind_def recorded_def)
    next
      case (Inr item)
      with assms boot \<open>b = Inr token\<close> create have "persist_sandbox env provider pool tm ?spec item w2 = (r, w')"
        by (simp add: provision_def sbind_def)
      from recorded_aside [OF w2 recorded_persist [OF this]] show ?thesis .
    qed
  qed
qed

lemma recorded_create:
  assumes "create env provider pool tm (n, w) = (r, (n', w'))"
  shows "recorded (po_Provider pool) r w w'"
proof -
  obtain x w1 where rand: "on_provider (ev_rand env 12) w = (x, w1)" by (metis surj_pair)
  have w1: "aside w w1" using aside_intros(1) [of w "ev_rand env 12"] rand by simp
  show ?thesis
  proof (cases x)
    case (Inl e)
    with assms rand w1 show ?thesis by (auto simp: create_def recorded_def)
  next
    case (Inr random)
    let ?spec = "create_spec pool tm ((n + 1) mod 2 ^ 64) random"
    have "provision env provider pool tm ?spec w1 = (r, w')"
      using assms rand Inr by (simp add: create_def Let_def split: prod.splits)
    from recorded_aside [OF w1 recorded_provision [OF this]] show ?thesis .
  qed
qed

end

section \<open>Quotas\<close>

lemma length_filter_upd_le:
  "(\<And>x. key x = i \<Longrightarrow> F (f x) \<Longrightarrow> F x) \<Longrightarrow> length (filter F (upd_where (\<lambda>x. key x = i) f t)) \<le> length (filter F t)"
  by (induction t) (auto simp: upd_where_def)

lemma length_filter_upd_Suc:
  assumes "distinct (map key t)"
  shows "length (filter F (upd_where (\<lambda>x. key x = i) f t)) \<le> Suc (length (filter F t))"
  using assms
proof (induction t)
  case (Cons x t)
  show ?case
  proof (cases "key x = i")
    case True
    with Cons.prems have "i \<notin> key ` set t" by simp
    then have "\<forall>y \<in> set t. key y \<noteq> i" by (metis imageI)
    then have "upd_where (\<lambda>x. key x = i) f t = t" by (rule upd_where_none)
    with True show ?thesis by (simp add: upd_where_def)
  qed (use Cons in \<open>auto simp: upd_where_def\<close>)
qed simp

text \<open>
  The sandboxes a run has added to a quota: those of the providers \<open>Q\<close> that count, other than the \<open>I\<close> that
  counted from the start. One of the \<open>J\<close> sandboxes that were listed warm may return to the count by being drained.
\<close>

definition added_box :: "(string \<Rightarrow> bool) \<Rightarrow> SandboxID set \<Rightarrow> SandboxID set \<Rightarrow> Sandbox \<Rightarrow> bool" where
  "added_box Q I J b \<longleftrightarrow> Q (b_Provider b) \<and> b_ID b \<notin> I \<and> (counted b \<or> b_ID b \<in> J)"

definition added :: "(string \<Rightarrow> bool) \<Rightarrow> SandboxID set \<Rightarrow> SandboxID set \<Rightarrow> DB \<Rightarrow> int" where
  "added Q I J s = int (length (filter (added_box Q I J) (db_sandboxes s)))"

lemma added_aside: "aside w w' \<Longrightarrow> added Q I J (fst w') = added Q I J (fst w)"
  by (simp add: aside_def added_def)

lemma added_Upsert:
  assumes "distinct (map b_ID (db_sandboxes s))"
  shows "added Q I J (snd (UpsertSandbox now v s)) \<le> added Q I J s + (if Q (b_Provider v) then 1 else 0)"
proof (cases "Q (b_Provider v)")
  case True
  have "int (length (filter F (upd_where (\<lambda>x. b_ID x = b_ID v) f (db_sandboxes s)))) \<le> int (length (filter F (db_sandboxes s))) + 1" for F f
    using length_filter_upd_Suc [OF assms, of F "b_ID v" f] by linarith
  with True show ?thesis by (simp add: added_def UpsertSandbox_def Let_def stmt_defs)
next
  case False
  have "length (filter (added_box Q I J) (upd_where (\<lambda>x. b_ID x = b_ID v) f (db_sandboxes s))) \<le> length (filter (added_box Q I J) (db_sandboxes s))"
    if "\<And>x. b_Provider (f x) = b_Provider v" for f
    by (rule length_filter_upd_le) (simp add: added_box_def that False)
  with False show ?thesis by (simp add: added_def added_box_def UpsertSandbox_def Let_def stmt_defs)
qed

lemma added_SetSandboxState:
  assumes "i \<in> J"
  shows "added Q I J (snd (SetSandboxState wall i st tm s)) \<le> added Q I J s"
  unfolding added_def SetSandboxState_rows
  by (intro of_nat_mono length_filter_upd_le) (auto simp: added_box_def assms)

lemma reachable_boxes_distinct: "reachable s \<Longrightarrow> distinct (map b_ID (db_sandboxes s))"
  by (drule reachable_infra_keys) (simp add: infra_keys_def)

lemma added_recorded:
  assumes "recorded p r w w'" and "reachable (fst w)"
  shows "added Q I J (fst w') \<le> added Q I J (fst w) + (if Q p \<and> \<not> isl r then 1 else 0)"
proof (cases r)
  case (Inl e)
  with assms show ?thesis by (simp add: recorded_def added_aside)
next
  case (Inr u)
  with assms obtain w1 now v where w1: "aside w w1" "b_Provider v = p" "fst w' = snd (UpsertSandbox now v (fst w1))" by (auto simp: recorded_def)
  have "reachable (fst w1)" using w1(1) assms(2) by (auto simp: aside_def dest: ran_reachable)
  from added_Upsert [OF reachable_boxes_distinct [OF this], of Q I J now v] w1 Inr show ?thesis by (simp add: added_aside [OF w1(1)])
qed

context autoscaler_env
begin

lemma create_all_added:
  assumes "create_all (create env provider pool tm) k (n, w) = (rs, (n', w'))" and "reachable (fst w)"
  shows "ran w w' \<and> length rs = k
    \<and> added Q I J (fst w') \<le> added Q I J (fst w) + (if Q (po_Provider pool) then int (length (filter (\<lambda>r. \<not> isl r) rs)) else 0)"
  using assms
proof (induction k arbitrary: n w rs)
  case 0
  then show ?case by (simp add: ran.pass_refl)
next
  case (Suc k)
  obtain r n1 w1 where one: "create env provider pool tm (n, w) = (r, (n1, w1))" by (metis surj_pair)
  obtain rs1 where rest: "create_all (create env provider pool tm) k (n1, w1) = (rs1, (n', w'))" and rs: "rs = r # rs1"
    using Suc.prems(1) one by (auto split: prod.splits)
  note rec = recorded_create [OF one]
  have ran: "ran w w1" by (rule recorded_ran [OF rec])
  then have "reachable (fst w1)" using Suc.prems(2) by (rule ran_reachable)
  with Suc.IH [OF rest] ran added_recorded [OF rec Suc.prems(2), of Q I J] rs show ?case
    by (auto intro: ran.pass_trans split: if_splits)
qed

lemma createMany_added:
  assumes "createMany env provider pool tm k (n, w) = ((created, err), (n', w'))" and "reachable (fst w)"
  shows "ran w w'" and "0 \<le> created" and "created \<le> int k"
    and "added Q I J (fst w') \<le> added Q I J (fst w) + (if Q (po_Provider pool) then created else 0)"
proof -
  obtain rs where rs: "create_all (create env provider pool tm) k (n, w) = (rs, (n', w'))"
    and created: "created = int (length (filter (\<lambda>r. \<not> isl r) rs))"
    using assms(1) by (auto simp: createMany_def split: prod.splits)
  note all = create_all_added [OF rs assms(2), of Q I J]
  show "ran w w'" and "0 \<le> created" using all created by auto
  show "created \<le> int k" using all created length_filter_le [of "\<lambda>r. \<not> isl r" rs] by auto
  show "added Q I J (fst w') \<le> added Q I J (fst w) + (if Q (po_Provider pool) then created else 0)" using all by (simp only: created)
qed

end

text \<open>
  One of the limits of a run: \<open>used\<close> is its running counter, for the sandboxes of the providers \<open>Q\<close>, and
  \<open>quota\<close> what the configuration allows (0 is no limit).
\<close>

locale sandbox_quota =
  fixes limits :: AutoscalerLimits and Q :: "string \<Rightarrow> bool" and used :: "counters \<Rightarrow> int" and quota :: int
  assumes scale_count_quota: "0 < quota \<Longrightarrow> Q (po_Provider pool) \<Longrightarrow> scale_count limits pool c d \<le> max 0 (quota - used c)"
    and used_add: "used (c\<lparr>ct_total := ct_total c + n, ct_provider := (ct_provider c)(p := ct_provider c p + n)\<rparr>) = used c + (if Q p then n else 0)"
    and used_start: "used (count_current boxes) = count_boxes (\<lambda>b. counted b \<and> Q (b_Provider b)) boxes"

lemma capacityLimit_le: "capacityLimit v l k \<le> v" "0 < l \<Longrightarrow> capacityLimit v l k \<le> max 0 (l - k)"
  by (auto simp: capacityLimit_def Let_def)

interpretation total: sandbox_quota limits "\<lambda>_. True" ct_total "li_MaxTotalSandboxes limits" for limits
proof
  fix pool c d assume "0 < li_MaxTotalSandboxes limits"
  then show "scale_count limits pool c d \<le> max 0 (li_MaxTotalSandboxes limits - ct_total c)"
    unfolding scale_count_def Let_def by (rule order_trans [OF capacityLimit_le(1) capacityLimit_le(2)])
qed (simp_all add: count_current_def)

interpretation by_provider: sandbox_quota limits "\<lambda>x. x = p" "\<lambda>c. ct_provider c p" "li_MaxSandboxesByProvider limits p" for limits p
proof
  fix pool :: SandboxPool and c d assume "0 < li_MaxSandboxesByProvider limits p" and "po_Provider pool = p"
  then show "scale_count limits pool c d \<le> max 0 (li_MaxSandboxesByProvider limits p - ct_provider c p)"
    unfolding scale_count_def Let_def by (metis capacityLimit_le(2))
qed (simp_all add: count_current_def)

text \<open>A property a pass keeps, as a relation on its states.\<close>

interpretation keeps: pass_relation "\<lambda>s t. P s \<longrightarrow> P t" for P
  by unfold_locales simp_all

definition warm_ids :: "Sandbox list \<Rightarrow> SandboxID set" where
  "warm_ids boxes = b_ID ` {b \<in> set boxes. is_warm b}"

lemma drain_loop_added:
  assumes "set boxes \<subseteq> B" and "\<And>b. b \<in> B \<Longrightarrow> idle b \<Longrightarrow> b_ID b \<in> J"
  shows "ran w (snd (drain_loop wall idle wanted tm n boxes w))
    \<and> added Q I J (fst (snd (drain_loop wall idle wanted tm n boxes w))) \<le> added Q I J (fst w)"
  using assms(1)
proof (induction boxes arbitrary: n w)
  case (Cons b boxes)
  let ?set = "on_store (SetSandboxState wall (b_ID b) ''draining'' tm) w"
  have sub: "set boxes \<subseteq> B" using Cons.prems by simp
  show ?case
  proof (cases "n \<noteq> wanted \<and> idle b")
    case False
    with Cons.IH [OF sub] show ?thesis by (auto simp: ran.pass_refl)
  next
    case True
    have ran: "ran w (snd ?set)" by (rule ran_store_ops)
    have "b_ID b \<in> J" using Cons.prems True by (intro assms(2)) auto
    then have added: "added Q I J (fst (snd ?set)) \<le> added Q I J (fst w)" by (simp add: added_SetSandboxState)
    show ?thesis
    proof (cases "fst ?set")
      case (Inl e)
      with True ran added show ?thesis by (cases ?set) (simp add: sbind_def)
    next
      case (Inr x)
      with Cons.IH [OF sub, of "snd ?set" "n + 1"] True ran added show ?thesis
        by (cases ?set) (auto simp: sbind_def intro: ran.pass_trans order_trans)
    qed
  qed
qed (simp add: ran.pass_refl)

lemma drain_added:
  assumes "set owned \<subseteq> set boxes"
  shows "ran w (snd (drain wall owned wbs wanted ttl tm w))"
    and "added Q I (warm_ids boxes) (fst (snd (drain wall owned wbs wanted ttl tm w))) \<le> added Q I (warm_ids boxes) (fst w)"
proof -
  have "b_ID b \<in> warm_ids boxes" if "b \<in> set boxes" "drainable wbs ttl tm b" for b
    using that by (auto simp: warm_ids_def drainable_def)
  note * = drain_loop_added [of "sort_key (\<lambda>b. (b_UpdatedAt b, b_ID b)) owned" "set boxes" _ "warm_ids boxes" w wall wanted tm 0 Q I, OF _ this]
  show "ran w (snd (drain wall owned wbs wanted ttl tm w))"
    "added Q I (warm_ids boxes) (fst (snd (drain wall owned wbs wanted ttl tm w))) \<le> added Q I (warm_ids boxes) (fst w)"
    unfolding drain_def using * assms by simp_all
qed

lemma scale_down_added:
  assumes "set owned \<subseteq> set boxes"
  shows "ran w (snd (scale_down env pool wbs owned tm d st w))"
    and "added Q I (warm_ids boxes) (fst (snd (scale_down env pool wbs owned tm d st w))) \<le> added Q I (warm_ids boxes) (fst w)"
proof -
  let ?drain = "drain (ev_wall env) owned wbs (d_Current d - d_Desired d) (po_IdleTTL pool) tm w"
  have "snd (scale_down env pool wbs owned tm d st w) \<in> {w, snd ?drain}"
    by (cases ?drain; cases "fst ?drain") (auto simp: scale_down_def Let_def sbind_def)
  then show "ran w (snd (scale_down env pool wbs owned tm d st w))"
    "added Q I (warm_ids boxes) (fst (snd (scale_down env pool wbs owned tm d st w))) \<le> added Q I (warm_ids boxes) (fst w)"
    by (auto simp only: insert_iff empty_iff drain_added [OF assms] ran.pass_refl order_refl)
qed

text \<open>The invariant of the loop over the pools.\<close>

definition within_quota ::
    "(string \<Rightarrow> bool) \<Rightarrow> (counters \<Rightarrow> int) \<Rightarrow> int \<Rightarrow> SandboxID set \<Rightarrow> SandboxID set \<Rightarrow> counters \<times> QueueAutoscaler \<times> 'p plane \<Rightarrow> bool" where
  "within_quota Q used quota I J = (\<lambda>(c, q, w). reachable (fst w) \<and> added Q I J (fst w) + int (card I) \<le> used c
     \<and> used c \<le> max quota (int (card I)))"

lemma card_filter_ids: "distinct (map key t) \<Longrightarrow> int (card (key ` {x \<in> set t. P x})) = int (length (filter P t))"
proof -
  assume dist: "distinct (map key t)"
  have "card (key ` set (filter P t)) = length (map key (filter P t))"
    using distinct_card [OF distinct_map_filter [OF dist, of P]] by simp
  then show ?thesis by simp
qed

lemma length_filter_weaken: "(\<And>x. P x \<Longrightarrow> R x) \<Longrightarrow> length (filter P xs) \<le> length (filter R xs)"
  by (induction xs) (auto intro: le_SucI)

lemma count_le_added:
  assumes "finite I" and "distinct (map b_ID (db_sandboxes s))"
  shows "count_boxes (\<lambda>b. counted b \<and> Q (b_Provider b)) (db_sandboxes s) \<le> int (card I) + added Q I J s"
proof -
  let ?P = "\<lambda>b. counted b \<and> Q (b_Provider b)"
  let ?in = "filter (\<lambda>b. ?P b \<and> b_ID b \<in> I) (db_sandboxes s)" and ?out = "filter (\<lambda>b. ?P b \<and> b_ID b \<notin> I) (db_sandboxes s)"
  have "length (filter ?P (db_sandboxes s)) = length ?in + length ?out"
    using sum_length_filter_compl [of "\<lambda>b. b_ID b \<in> I" "filter ?P (db_sandboxes s)"] by (simp add: conj_ac)
  moreover have "length (map b_ID ?in) \<le> card I"
    using distinct_card [OF distinct_map_filter [OF assms(2), of "\<lambda>b. ?P b \<and> b_ID b \<in> I"]] card_mono [OF assms(1), of "b_ID ` set ?in"] by auto
  moreover have "length ?out \<le> length (filter (added_box Q I J) (db_sandboxes s))"
    by (rule length_filter_weaken) (auto simp: added_box_def)
  ultimately show ?thesis by (simp add: count_boxes_def added_def)
qed

locale quota_run = autoscaler_env env + sandbox_quota limits Q used quota
  for env :: "'p AutoEnv" and limits Q used quota
begin

lemma scale_up_within:
  assumes "scale_up env limits provider pool tm d st c (n, w) = ((d', st', c'), (n', w'))"
    and "within_quota Q used quota I J (c, q, w)" and limited: "0 < quota"
  shows "within_quota Q used quota I J (c', q', w')"
proof (cases "c' = c \<and> w' = w")
  case True
  with assms(2) show ?thesis by (simp add: within_quota_def)
next
  case False
  let ?amount = "scale_count limits pool c d"
  obtain created err n1 w1 where many1: "createMany env provider pool tm (nat ?amount) (n, w) = ((created, err), (n1, w1))" by (metis surj_pair)
  let ?after = "after_provision limits pool tm ?amount created err (time_sub (ev_clock env (snd w1)) (ev_clock env (snd w))) d st"
  have go: "\<not> (st_unhealthy st \<or> tm < st_retryAt st \<or> \<not> cooldownElapsed tm (st_lastUp st) (po_ScaleUpCooldown pool) \<or> ?amount \<le> 0)"
    using assms(1) False by (auto simp: scale_up_def Let_def split: if_split_asm)
  then have "scale_up env limits provider pool tm d st c (n, w) = ((fst ?after, snd ?after, c\<lparr>ct_total := ct_total c + created,
      ct_provider := (ct_provider c)(po_Provider pool := ct_provider c (po_Provider pool) + created)\<rparr>), (n1, w1))"
    by (cases ?after) (simp add: scale_up_def many1 Let_def)
  with assms(1) many1 go have many: "createMany env provider pool tm (nat ?amount) (n, w) = ((created, err), (n', w'))"
    and c': "c' = c\<lparr>ct_total := ct_total c + created, ct_provider := (ct_provider c)(po_Provider pool := ct_provider c (po_Provider pool) + created)\<rparr>"
    and pos: "0 < ?amount" by simp_all
  from assms(2) have reach: "reachable (fst w)" and inv: "added Q I J (fst w) + int (card I) \<le> used c" "used c \<le> max quota (int (card I))"
    by (auto simp: within_quota_def)
  note create = createMany_added [OF many reach]
  have used: "used c' = used c + (if Q (po_Provider pool) then created else 0)" unfolding c' by (rule used_add)
  have "Q (po_Provider pool) \<Longrightarrow> used c + created \<le> max quota (int (card I))"
    using scale_count_quota [OF limited, of pool c d] create(3) pos inv by auto
  with used create(4) [of Q I J] inv ran_reachable [OF create(1) reach] show ?thesis
    by (auto simp: within_quota_def split: if_splits)
qed

lemma expire_startup_off: "po_StartupTimeout pool \<le> 0 \<Longrightarrow> foldS (expire_startup env provider pool wbs tm) owned s = (Inr (), s)"
  by (induction owned arbitrary: s) (auto simp: expire_startup_def startup_overdue_def sbind_def)

lemma scale_replicas_within:
  assumes "set owned \<subseteq> set boxes" and "within_quota Q used quota I (warm_ids boxes) s" and limited: "0 < quota"
  shows "within_quota Q used quota I (warm_ids boxes) (snd (scale_replicas env limits provider pool ob owned tm d s))"
proof -
  obtain c q w where s: "s = (c, q, w)" by (cases s)
  let ?st = "qa_state q (po_Name pool)"
  let ?down = "scale_down env pool (ob_workers ob) owned tm d ?st w"
  obtain d1 st1 c1 n1 w1 where up: "scale_up env limits provider pool tm d ?st c (qa_sequence q, w) = ((d1, st1, c1), (n1, w1))"
    by (metis surj_pair)
  have 1: "within_quota Q used quota I (warm_ids boxes) (c1, q', w1)" for q'
    using assms(2) limited unfolding s by (rule scale_up_within [OF up])
  have "ran w (snd ?down)" "added Q I (warm_ids boxes) (fst (snd ?down)) \<le> added Q I (warm_ids boxes) (fst w)"
    by (rule scale_down_added [OF assms(1)])+
  then have 2: "within_quota Q used quota I (warm_ids boxes) (c, q', snd ?down)" for q'
    using assms(2) by (auto simp: within_quota_def s dest: ran_reachable)
  show ?thesis
  proof (cases "d_Current d < d_Desired d")
    case True
    with up 1 show ?thesis by (simp add: scale_replicas_def s Let_def)
  next
    case False
    with 2 assms(2) show ?thesis
      by (cases ?down; cases "fst ?down") (auto simp: scale_replicas_def s Let_def within_quota_def)
  qed
qed

lemma scale_pool_within:
  assumes "po_StartupTimeout pool \<le> 0" and "within_quota Q used quota I (warm_ids (ob_boxes ob)) s" and limited: "0 < quota"
  shows "within_quota Q used quota I (warm_ids (ob_boxes ob)) (snd (scale_pool env limits registry ob tm pool s))"
proof -
  have "set (filter (owned_by pool) (ob_boxes ob)) \<subseteq> set (ob_boxes ob)" by auto
  from scale_replicas_within [OF this assms(2,3)] assms(2) show ?thesis
    by (cases s) (auto simp: scale_pool_def Let_def expire_startup_off [OF assms(1)] split: sum.split)
qed

lemma run_within_quota:
  assumes "reachable (fst w)" and "\<forall>pool \<in> set pools. po_StartupTimeout pool \<le> 0"
    and "I = b_ID ` {b \<in> set (db_sandboxes (fst w)). counted b \<and> Q (b_Provider b)}"
    and "QueueAutoscaler_run env limits registry pools (q, w) = (r, (q', w'))" and limited: "0 < quota"
  shows "count_boxes (\<lambda>b. counted b \<and> Q (b_Provider b)) (db_sandboxes (fst w'))
    \<le> max quota (count_boxes (\<lambda>b. counted b \<and> Q (b_Provider b)) (db_sandboxes (fst w)))"
proof -
  let ?P = "\<lambda>b. counted b \<and> Q (b_Provider b)" and ?boxes = "db_sandboxes (fst w)"
  let ?ob = "observe (sort_key po_Name pools) (ev_wall env) (fst w)"
  let ?J = "warm_ids (ob_boxes ?ob)"
  have boxes: "set (ob_boxes ?ob) = set ?boxes" "mset (ob_boxes ?ob) = mset ?boxes" by (simp_all add: observe_def Let_def ListSandboxes_def)
  have dist: "distinct (map b_ID ?boxes)" by (rule reachable_boxes_distinct [OF assms(1)])
  have card: "int (card I) = count_boxes ?P ?boxes" using dist unfolding assms(3) count_boxes_def by (rule card_filter_ids)
  have none: "\<not> added_box Q I ?J b" if "b \<in> set ?boxes" for b
  proof
    assume "added_box Q I ?J b"
    then have b: "Q (b_Provider b)" "b_ID b \<notin> I" "counted b \<or> b_ID b \<in> ?J" by (simp_all add: added_box_def)
    have "\<not> counted b" using b that unfolding assms(3) by blast
    with b obtain x where "x \<in> set ?boxes" "is_warm x" "b_ID x = b_ID b" by (auto simp: warm_ids_def boxes)
    with distinct_key_eq [OF dist this(1) that this(3)] have "is_warm b" by simp
    with \<open>\<not> counted b\<close> show False by (auto simp: is_warm_def counted_def)
  qed
  have "count_boxes ?P (ob_boxes ?ob) = count_boxes ?P ?boxes" unfolding count_boxes_def using boxes(2) by (metis mset_filter size_mset)
  then have "within_quota Q used quota I ?J (count_current (ob_boxes ?ob), q, w)"
    using assms(1) none card used_start [of "ob_boxes ?ob"] by (simp add: within_quota_def added_def filter_False)
  moreover have "within_quota Q used quota I ?J s \<longrightarrow> within_quota Q used quota I ?J (snd (foldS (scale_pool env limits registry ?ob tm) (sort_key po_Name pools) s))" for s tm
    by (rule keeps.across_foldS) (use assms(2) limited scale_pool_within in auto)
  ultimately have fin: "within_quota Q used quota I ?J (snd (foldS (scale_pool env limits registry ?ob tm) (sort_key po_Name pools) (count_current (ob_boxes ?ob), q, w)))" for tm
    by blast
  show ?thesis
  proof (cases "validatePools pools")
    case (Inl e)
    with assms(4) show ?thesis by (simp add: QueueAutoscaler_run_def)
  next
    case (Inr u)
    with assms(4) fin [of "ev_clock env (snd w)"] obtain c where c: "within_quota Q used quota I ?J (c, q', w')"
      by (auto simp: QueueAutoscaler_run_def Let_def split: prod.splits)
    then have "distinct (map b_ID (db_sandboxes (fst w')))" by (auto simp: within_quota_def intro: reachable_boxes_distinct)
    then have "count_boxes ?P (db_sandboxes (fst w')) \<le> int (card I) + added Q I ?J (fst w')"
      unfolding assms(3) by (intro count_le_added) (simp add: assms(3))
    with c card show ?thesis by (auto simp: within_quota_def)
  qed
qed

end

interpretation app_total: quota_run "env\<lparr>ae_minter := Some (MintBootstrapToken env ttl)\<rparr>" limits "\<lambda>_. True" ct_total
    "li_MaxTotalSandboxes limits" for env ttl limits
  by unfold_locales

interpretation app_provider: quota_run "env\<lparr>ae_minter := Some (MintBootstrapToken env ttl)\<rparr>" limits "\<lambda>x. x = p" "\<lambda>c. ct_provider c p"
    "li_MaxSandboxesByProvider limits p" for env ttl limits p
  by unfold_locales

section \<open>Runs keep the store reachable\<close>

interpretation ran_scaling: pass_relation "\<lambda>s t. ran (snd (snd s)) (snd (snd t))"
  by unfold_locales (auto intro: ran.pass_refl ran.pass_trans)

lemma ran_expire_startup: "ran (snd (snd s)) (snd (snd (snd (expire_startup env provider pool wbs tm box s))))"
proof -
  obtain d c w where s: "s = (d, c, w)" by (cases s)
  let ?m = "sbind (on_store (SetSandboxState (ev_wall env) (b_ID box) ''terminating'' tm) w) (\<lambda>_. on_provider (pv_Terminate provider (b_ID box)))"
  have "ran w (snd ?m)" by (intro ran_intros)
  then show ?thesis by (cases ?m; cases "fst ?m") (auto simp: expire_startup_def s ran.pass_refl)
qed

context autoscaler_env
begin

lemma ran_create_all:
  assumes "create_all (create env provider pool tm) k (n, w) = (rs, (n', w'))"
  shows "ran w w'"
  using assms
proof (induction k arbitrary: n w rs)
  case (Suc k)
  obtain r n1 w1 where one: "create env provider pool tm (n, w) = (r, (n1, w1))" by (metis surj_pair)
  with Suc.prems obtain rs1 where "create_all (create env provider pool tm) k (n1, w1) = (rs1, (n', w'))"
    by (auto split: prod.splits)
  from ran.pass_trans [OF recorded_ran [OF recorded_create [OF one]] Suc.IH [OF this]] show ?case .
qed (simp add: ran.pass_refl)

lemma ran_scale_up: "ran w (snd (snd (scale_up env limits provider pool tm d st c (n, w))))"
proof -
  let ?amount = "nat (scale_count limits pool c d)"
  obtain rs n1 w1 where all: "create_all (create env provider pool tm) ?amount (n, w) = (rs, (n1, w1))" by (metis surj_pair)
  have "snd (snd (scale_up env limits provider pool tm d st c (n, w))) \<in> {w, w1}"
    by (auto simp: scale_up_def createMany_def all Let_def split_def)
  then show ?thesis using ran_create_all [OF all] by (auto simp: ran.pass_refl)
qed

lemma ran_scale_replicas:
  "ran (snd (snd s)) (snd (snd (snd (scale_replicas env limits provider pool ob owned tm d s))))"
proof -
  obtain c q w where s: "s = (c, q, w)" by (cases s)
  let ?st = "qa_state q (po_Name pool)"
  let ?up = "scale_up env limits provider pool tm d ?st c (qa_sequence q, w)" and ?down = "scale_down env pool (ob_workers ob) owned tm d ?st w"
  have "snd (snd (snd (scale_replicas env limits provider pool ob owned tm d s))) \<in> {w, snd (snd ?up), snd ?down}"
    by (cases ?down; cases "fst ?down") (auto simp: scale_replicas_def s Let_def split_def)
  moreover have "ran w (snd (snd ?up))" by (rule ran_scale_up)
  moreover have "ran w (snd ?down)" by (rule scale_down_added(1) [OF subset_refl])
  ultimately show ?thesis unfolding s snd_conv by (elim insertE emptyE) (simp_all only: ran.pass_refl)
qed

lemma ran_scale_pool: "ran (snd (snd s)) (snd (snd (snd (scale_pool env limits registry ob tm pool s))))"
proof -
  obtain c q w where s: "s = (c, q, w)" by (cases s)
  show ?thesis
  proof (cases "Registry_Get registry (po_Provider pool)")
    case (Inr provider)
    let ?owned = "filter (owned_by pool) (ob_boxes ob)"
    obtain x d c1 w1 where exp: "foldS (expire_startup env provider pool (ob_workers ob) tm) ?owned (first_decision pool ob ?owned tm, c, w) = (x, (d, c1, w1))"
      by (metis surj_pair)
    have "ran w w1"
      using ran_scaling.across_foldS [of ?owned "expire_startup env provider pool (ob_workers ob) tm" "(first_decision pool ob ?owned tm, c, w)", OF ran_expire_startup]
      by (simp add: exp)
    with ran_scale_replicas [of "(c1, q, w1)" limits provider pool ob ?owned tm d] show ?thesis
      by (cases x) (auto simp: scale_pool_def s Inr Let_def exp intro: ran.pass_trans)
  qed (simp add: scale_pool_def s ran.pass_refl)
qed

lemma ran_QueueAutoscaler: "ran w (snd (snd (QueueAutoscaler_run env limits registry pools (q, w))))"
proof -
  have "ran (snd (snd s)) (snd (snd (snd (foldS (scale_pool env limits registry ob tm) ps s))))" for s ps ob tm
    by (rule ran_scaling.across_foldS) (rule ran_scale_pool)
  from this [of "(c, q, w)" for c] show ?thesis
    by (auto simp: QueueAutoscaler_run_def Let_def split_def ran.pass_refl split: sum.split)
qed

end

section \<open>Sizing\<close>

text \<open>What the walk over the workers keeps, for a positive concurrency and \<open>q\<close> queued.\<close>

definition walk_ok :: "int \<Rightarrow> int \<Rightarrow> int \<Rightarrow> slot_walk \<Rightarrow> bool" where
  "walk_ok conc q n k \<longleftrightarrow> 0 \<le> sw_remaining k \<and> 0 \<le> sw_idle k \<and> 0 \<le> sw_active k \<and> sw_active k \<le> n
     \<and> sw_remaining k = max 0 (q - sw_idle k) \<and> q - sw_remaining k \<le> sw_active k * conc"

lemma usable_slots_bounds: "0 < po_WorkerConcurrency pool \<Longrightarrow> 0 \<le> usable_slots pool w \<and> usable_slots pool w \<le> po_WorkerConcurrency pool"
  by (simp add: usable_slots_def Let_def)

lemma walk_box_ok:
  assumes "0 < po_WorkerConcurrency pool" and "walk_ok (po_WorkerConcurrency pool) q n k"
  shows "walk_ok (po_WorkerConcurrency pool) q (n + (if is_warm box \<and> worker_alive wbs box then 1 else 0)) (walk_box pool wbs box k)"
proof (cases "is_warm box \<and> worker_alive wbs box")
  case False
  with assms(2) have "walk_box pool wbs box k = k" by (auto simp: walk_box_def worker_alive_def split: option.split)
  with False assms(2) show ?thesis by auto
next
  case True
  then obtain w where w: "wbs (b_ID box) = Some w" "get_str (w_Health w) ''status'' \<noteq> ''dead''" by (auto simp: worker_alive_def split: option.splits)
  define slots where "slots = usable_slots pool w"
  have slots: "0 \<le> slots" "slots \<le> po_WorkerConcurrency pool" using usable_slots_bounds [OF assms(1), of w] by (auto simp: slots_def)
  have mono: "x \<le> (sw_active k + 1) * po_WorkerConcurrency pool" if "x \<le> sw_active k * po_WorkerConcurrency pool + po_WorkerConcurrency pool" for x
    using that by (simp add: algebra_simps)
  have "walk_box pool wbs box k =
     k\<lparr>sw_idle := sw_idle k + slots,
       sw_remaining := sw_remaining k - (if sw_remaining k > 0 \<and> slots > 0 then min slots (sw_remaining k) else 0),
       sw_active := sw_active k + (if slots < po_WorkerConcurrency pool \<or> w_ActiveAttempts w \<noteq> [] \<or> sw_remaining k > 0 \<and> slots > 0 then 1 else 0)\<rparr>"
    using True w slots by (simp add: walk_box_def slots_def Let_def)
  with assms slots True show ?thesis
    by (auto simp: walk_ok_def algebra_simps)
qed

lemma slot_demand_ok:
  assumes "0 < po_WorkerConcurrency pool" and "0 \<le> q"
  shows "walk_ok (po_WorkerConcurrency pool) q (count_boxes (\<lambda>b. is_warm b \<and> worker_alive wbs b) owned) (slot_demand pool wbs owned q)"
proof -
  have "walk_ok (po_WorkerConcurrency pool) q (n + count_boxes (\<lambda>b. is_warm b \<and> worker_alive wbs b) boxes) (fold (walk_box pool wbs) boxes k)"
    if "walk_ok (po_WorkerConcurrency pool) q n k" for boxes n k
    using that
  proof (induction boxes arbitrary: n k)
    case (Cons b boxes)
    from Cons.IH [OF walk_box_ok [OF assms(1) Cons.prems, of b wbs]] show ?case by (auto simp: count_boxes_def algebra_simps split: if_splits)
  qed (simp add: count_boxes_def)
  from this [of 0 "\<lparr>sw_remaining = q, sw_idle = 0, sw_active = 0\<rparr>" "sort_key b_ID owned"] assms(2)
  have "walk_ok (po_WorkerConcurrency pool) q (count_boxes (\<lambda>b. is_warm b \<and> worker_alive wbs b) (sort_key b_ID owned)) (slot_demand pool wbs owned q)"
    by (simp add: walk_ok_def slot_demand_def)
  moreover have "count_boxes P (sort_key b_ID owned) = count_boxes P owned" for P
    unfolding count_boxes_def by (metis mset_filter mset_sort size_mset)
  ultimately show ?thesis by simp
qed

lemma clamp_bounds: "low \<le> high \<Longrightarrow> low \<le> clamp v low high \<and> clamp v low high \<le> high \<and> (v \<le> clamp v low high \<or> clamp v low high = high)"
  by (simp add: clamp_def)

section \<open>Draining: lemmas\<close>

definition drain_ids :: "time \<Rightarrow> SandboxID list \<Rightarrow> DB \<Rightarrow> DB" where
  "drain_ids tm ids s = s\<lparr>db_sandboxes := map (\<lambda>b. if b_ID b \<in> set ids then set_state ''draining'' tm b else b) (db_sandboxes s)\<rparr>"

lemma SetSandboxState_draining:
  assumes "i \<in> b_ID ` set (db_sandboxes s)" and "distinct (map b_ID (db_sandboxes s))"
  shows "SetSandboxState wall i ''draining'' tm s = (Inr (), drain_ids tm [i] s)"
proof -
  from assms(1) obtain b where b: "b \<in> set (db_sandboxes s)" "b_ID b = i" by auto
  have "rows_affected (\<lambda>b. b_ID b = i) (db_sandboxes s) = 1"
    using rows_affected_unique [OF assms(2) b(1), of "\<lambda>b. b_ID b = i"] b(2) by simp
  then show ?thesis
    by (simp add: SetSandboxState_def Let_def drain_ids_def stmt_defs upd_where_def set_state_def [abs_def])
qed

lemma drain_ids_simps [simp]: "drain_ids tm [] s = s" "map b_ID (db_sandboxes (drain_ids tm ids s)) = map b_ID (db_sandboxes s)"
  by (auto simp: drain_ids_def)

lemma drain_ids_keys [simp]: "b_ID ` set (db_sandboxes (drain_ids tm ids s)) = b_ID ` set (db_sandboxes s)"
  by (metis drain_ids_simps(2) list.set_map)

lemma drain_ids_append:
  assumes "i \<notin> set ids"
  shows "drain_ids tm ids (drain_ids tm [i] s) = drain_ids tm (i # ids) s"
  using assms by (auto simp: drain_ids_def)

lemma drain_loop_exact:
  assumes "b_ID ` set boxes \<subseteq> b_ID ` set (db_sandboxes s)" and "distinct (map b_ID boxes)" and "distinct (map b_ID (db_sandboxes s))"
    and "0 \<le> n" and "n \<le> wanted" and "ids = take (nat (wanted - n)) (map b_ID (filter idle boxes))"
  shows "drain_loop wall idle wanted tm n boxes (s, x) = (Inr (n + int (length ids)), (drain_ids tm ids s, x))"
  using assms
proof (induction boxes arbitrary: n s ids)
  case (Cons b boxes)
  show ?case
  proof (cases "n = wanted \<or> \<not> idle b")
    case True
    with Cons show ?thesis by auto
  next
    case False
    let ?ids = "take (nat (wanted - (n + 1))) (map b_ID (filter idle boxes))"
    have "nat (wanted - n) = Suc (nat (wanted - (n + 1)))" using False Cons.prems(5) by auto
    with False Cons.prems(6) have ids: "ids = b_ID b # ?ids" by simp
    have set: "SetSandboxState wall (b_ID b) ''draining'' tm s = (Inr (), drain_ids tm [b_ID b] s)"
      using Cons.prems by (intro SetSandboxState_draining) auto
    have "b_ID b \<notin> set ?ids" using Cons.prems(2) by (auto dest!: in_set_takeD)
    moreover have "drain_loop wall idle wanted tm (n + 1) boxes (drain_ids tm [b_ID b] s, x)
        = (Inr (n + 1 + int (length ?ids)), (drain_ids tm ?ids (drain_ids tm [b_ID b] s), x))"
      using Cons.prems False by (intro Cons.IH) auto
    ultimately show ?thesis using False set unfolding ids by (simp add: sbind_def on_store_def drain_ids_append)
  qed
qed simp

section \<open>Backoff: lemmas\<close>

lemma provider_backoff_loop_bounds:
  assumes "0 < delay" and "maximum \<le> 2 ^ 55"
  shows "0 < provider_backoff_loop n delay maximum \<and> (delay \<le> maximum \<longrightarrow> provider_backoff_loop n delay maximum \<le> maximum)
    \<and> delay \<le> provider_backoff_loop n delay maximum"
  using assms(1)
proof (induction n arbitrary: delay)
  case (Suc n)
  show ?case
  proof (cases "delay < maximum div 2")
    case True
    then have "0 \<le> delay * 2" "delay * 2 \<le> maximum" using Suc.prems by auto
    with assms(2) have "int64 (delay * 2) = delay * 2" by (intro int64_id) (simp_all add: min_int64_def max_int64_def)
    with True show ?thesis using Suc.IH [of "delay * 2"] Suc.prems True by auto
  qed (use Suc.prems in simp)
qed simp

section \<open>Properties\<close>

text \<open>
  A pool is sized to its demand: the desired replicas stay within the configured bounds and provide a slot
  for every queued job unless the maximum is reached, what is not covered by idle slots is counted as
  unmet, and no more replicas are called busy than are ready.
\<close>

theorem desired_covers_demand:
  assumes "0 < po_WorkerConcurrency pool" and "po_MinReplicas pool \<le> po_MaxReplicas pool" and "0 \<le> ob_demand ob (po_Name pool)"
    and "d = first_decision pool ob owned tm"
  shows "po_MinReplicas pool \<le> d_Desired d \<and> d_Desired d \<le> po_MaxReplicas pool
    \<and> (d_Queued d \<le> d_Desired d * po_WorkerConcurrency pool \<or> d_Desired d = po_MaxReplicas pool)
    \<and> d_Unmet d = max 0 (d_Queued d - d_IdleSlots d) \<and> d_Busy d \<le> d_Ready d"
proof -
  let ?conc = "po_WorkerConcurrency pool" and ?q = "ob_demand ob (po_Name pool)"
  define k where "k = slot_demand pool (ob_workers ob) owned ?q"
  have ok: "walk_ok ?conc ?q (count_boxes (\<lambda>b. is_warm b \<and> worker_alive (ob_workers ob) b) owned) k"
    unfolding k_def by (rule slot_demand_ok [OF assms(1,3)])
  define needed where "needed = sw_active k + \<lceil>of_int (sw_remaining k) / of_int ?conc :: rat\<rceil>"
  have "of_int (sw_remaining k) / of_int ?conc \<le> (of_int \<lceil>of_int (sw_remaining k) / of_int ?conc :: rat\<rceil> :: rat)" by (rule le_of_int_ceiling)
  then have "of_int (sw_remaining k) \<le> (of_int (\<lceil>of_int (sw_remaining k) / of_int ?conc :: rat\<rceil> * ?conc) :: rat)"
    using assms(1) pos_divide_le_eq [of "of_int ?conc :: rat" "of_int (sw_remaining k)"] by (simp only: of_int_0_less_iff of_int_mult)
  then have "sw_remaining k \<le> \<lceil>of_int (sw_remaining k) / of_int ?conc :: rat\<rceil> * ?conc" by (simp only: of_int_le_iff)
  moreover have "?q - sw_remaining k \<le> sw_active k * ?conc" using ok by (simp add: walk_ok_def)
  ultimately have needed: "?q \<le> needed * ?conc" unfolding needed_def distrib_right by linarith
  have d: "d_Desired d = clamp needed (po_MinReplicas pool) (po_MaxReplicas pool)" "d_Queued d = ?q" "d_Unmet d = sw_remaining k"
    "d_IdleSlots d = sw_idle k" "d_Busy d = sw_active k" "d_Ready d = count_boxes (\<lambda>b. is_warm b \<and> worker_alive (ob_workers ob) b) owned"
    unfolding assms(4) by (simp_all add: first_decision_def size_pool_def initial_decision_def Let_def k_def needed_def)
  have "?q \<le> clamp needed (po_MinReplicas pool) (po_MaxReplicas pool) * ?conc" if "needed \<le> clamp needed (po_MinReplicas pool) (po_MaxReplicas pool)"
    using needed mult_right_mono [OF that, of ?conc] assms(1) by linarith
  with clamp_bounds [OF assms(2), of needed] ok show ?thesis unfolding d walk_ok_def by blast
qed

text \<open>A pool of two-slot replicas with a fake provider behind it.\<close>

definition demo_pool :: SandboxPool where
  "demo_pool = \<lparr>po_Name = ''p'', po_Provider = ''fake'', po_Create = demo_spec, po_Capabilities = zero_Capabilities, po_Labels = [],
     po_MinReplicas = 0, po_MaxReplicas = 5, po_WorkerConcurrency = 2, po_IdleTTL = 0, po_StartupTimeout = 0, po_ScaleUpCooldown = 0,
     po_ScaleDownCooldown = 0, po_ScaleDownStabilize = 0, po_Cost = None, po_Region = ''''\<rparr>"

theorem desired_covers_demand_witness:
  "d_Desired (first_decision demo_pool \<lparr>ob_boxes = [], ob_workers = Map.empty, ob_sessions = [], ob_demand = (\<lambda>_. 3)\<rparr> [] demo_epoch) * 2 \<ge> 3"
  using desired_covers_demand [of demo_pool "\<lparr>ob_boxes = [], ob_workers = Map.empty, ob_sessions = [], ob_demand = (\<lambda>_. 3)\<rparr>" _ "[]" demo_epoch, OF _ _ _ refl]
  by (auto simp: demo_pool_def first_decision_def size_pool_def initial_decision_def Let_def)

text \<open>
  Draining takes capacity away only where it is idle: of the sandboxes given, exactly the longest-unchanged
  ones that are warm, not reserved for a session, without a busy worker and past the idle time are set
  to draining, as many as wanted or as there are; nothing else in the database changes.
\<close>

theorem drain_oldest_idle:
  assumes "reachable s" and "set boxes \<subseteq> set (db_sandboxes s)" and "distinct (map b_ID boxes)" and "0 \<le> wanted"
    and "ids = take (nat wanted) (map b_ID (filter (drainable wbs ttl tm) (sort_key (\<lambda>b. (b_UpdatedAt b, b_ID b)) boxes)))"
  shows "drain wall boxes wbs wanted ttl tm (s, x) = (Inr (int (length ids)),
    (s\<lparr>db_sandboxes := map (\<lambda>b. if b_ID b \<in> set ids then set_state ''draining'' tm b else b) (db_sandboxes s)\<rparr>, x))"
proof -
  let ?sorted = "sort_key (\<lambda>b. (b_UpdatedAt b, b_ID b)) boxes"
  have "mset (map b_ID ?sorted) = mset (map b_ID boxes)" by simp
  then have dist: "distinct (map b_ID ?sorted)" using assms(3) by (metis mset_eq_imp_distinct_iff)
  have "drain_loop wall (drainable wbs ttl tm) wanted tm 0 ?sorted (s, x) = (Inr (0 + int (length ids)), (drain_ids tm ids s, x))"
    using assms(2,4,5) by (intro drain_loop_exact [OF _ dist reachable_boxes_distinct [OF assms(1)]]) auto
  then show ?thesis by (simp add: drain_def drain_ids_def)
qed

theorem drain_oldest_idle_witness:
  "drain demo_epoch (db_sandboxes (fst demo_fleet)) Map.empty 1 0 (demo_epoch + 5) demo_fleet =
     (Inr 1, ((fst demo_fleet)\<lparr>db_sandboxes := map (set_state ''draining'' (demo_epoch + 5)) (db_sandboxes (fst demo_fleet))\<rparr>, snd demo_fleet))"
proof -
  let ?boxes = "db_sandboxes (fst demo_fleet)"
  have "[''b''] = take (nat 1) (map b_ID (filter (drainable Map.empty 0 (demo_epoch + 5)) (sort_key (\<lambda>b. (b_UpdatedAt b, b_ID b)) ?boxes))) \<and> distinct (map b_ID ?boxes)
      \<and> map (\<lambda>b. if b_ID b \<in> set [''b''] then set_state ''draining'' (demo_epoch + 5) b else b) ?boxes = map (set_state ''draining'' (demo_epoch + 5)) ?boxes"
    by code_simp
  then have ids: "[''b''] = take (nat 1) (map b_ID (filter (drainable Map.empty 0 (demo_epoch + 5)) (sort_key (\<lambda>b. (b_UpdatedAt b, b_ID b)) ?boxes)))"
    and dist: "distinct (map b_ID ?boxes)"
    and all: "map (\<lambda>b. if b_ID b \<in> set [''b''] then set_state ''draining'' (demo_epoch + 5) b else b) ?boxes = map (set_state ''draining'' (demo_epoch + 5)) ?boxes"
    by blast+
  from drain_oldest_idle [OF demo_fleet_reachable subset_refl dist _ ids, of demo_epoch "snd demo_fleet"]
  show ?thesis unfolding all prod.collapse by simp
qed

text \<open>
  C21: in the application's wiring no run of the autoscaler takes the number of sandboxes that count (neither
  terminated nor missing) above the configured total, nor those of a provider above that provider's maximum,
  unless they were above it before; whatever the providers answer and however many creations fail.
  Pools with a startup timeout are excluded: \<open>timeout_exceeds_limit\<close> shows why.
\<close>

theorem autoscaler_respects_limits:
  assumes "reachable (fst w)" and "\<forall>pool \<in> set pools. po_StartupTimeout pool \<le> 0"
    and "QueueAutoscaler_run (env\<lparr>ae_minter := Some (MintBootstrapToken env ttl)\<rparr>) limits registry pools (q, w) = (r, (q', w'))"
  shows "(0 < li_MaxTotalSandboxes limits \<longrightarrow>
      count_boxes counted (db_sandboxes (fst w')) \<le> max (li_MaxTotalSandboxes limits) (count_boxes counted (db_sandboxes (fst w))))
    \<and> (0 < li_MaxSandboxesByProvider limits p \<longrightarrow>
      count_boxes (\<lambda>b. counted b \<and> b_Provider b = p) (db_sandboxes (fst w'))
        \<le> max (li_MaxSandboxesByProvider limits p) (count_boxes (\<lambda>b. counted b \<and> b_Provider b = p) (db_sandboxes (fst w))))"
  using app_total.run_within_quota [OF assms(1,2) refl assms(3)] app_provider.run_within_quota [OF assms(1,2) refl assms(3), of p] by simp

definition demo_env :: "FakeProvider AutoEnv" where
  "demo_env = \<lparr>ev_rand = (\<lambda>n p. (Inr (replicate n (char_of (fk_createCalls p))), p)), ev_sha256 = take 1, ev_json = (\<lambda>_. ''{}''),
     ev_clock = (\<lambda>_. demo_epoch + 9), ev_wall = demo_epoch + 9, ae_minter = None, ae_BootstrapTokenTTL = 0\<rparr>"

definition demo_limits :: AutoscalerLimits where
  "demo_limits = \<lparr>li_MaxScaleUpPerRun = 0, li_ProvisioningConcurrency = 1, li_MaxTotalSandboxes = 2, li_MaxSandboxesByProvider = (\<lambda>_. 0),
     li_ProviderBackoffBase = 0, li_ProviderBackoffMax = 0\<rparr>"

definition demo_autoscaler :: QueueAutoscaler where
  "demo_autoscaler = \<lparr>qa_sequence = 0, qa_state = (\<lambda>_. zero_poolState), qa_observed = []\<rparr>"

theorem autoscaler_respects_limits_witness:
  "\<exists>r q' w'. QueueAutoscaler_run (demo_env\<lparr>ae_minter := Some (MintBootstrapToken demo_env 5)\<rparr>) demo_limits demo_providers
      [demo_pool\<lparr>po_MinReplicas := 5\<rparr>] (demo_autoscaler, demo_fleet) = (r, (q', w'))
    \<and> count_boxes counted (db_sandboxes (fst w')) \<le> 2"
proof -
  let ?run = "QueueAutoscaler_run (demo_env\<lparr>ae_minter := Some (MintBootstrapToken demo_env 5)\<rparr>) demo_limits demo_providers
      [demo_pool\<lparr>po_MinReplicas := 5\<rparr>] (demo_autoscaler, demo_fleet)"
  obtain r q' w' where run: "?run = (r, (q', w'))" by (metis surj_pair)
  have "count_boxes counted (db_sandboxes (fst demo_fleet)) = 1" by code_simp
  with autoscaler_respects_limits [OF demo_fleet_reachable _ run] have "count_boxes counted (db_sandboxes (fst w')) \<le> 2"
    by (simp add: demo_pool_def demo_limits_def)
  with run show ?thesis by blast
qed

text \<open>
  With a startup timeout the limit is not kept: a sandbox that timed out leaves the counters while its row stays
  \<^verbatim>\<open>terminating\<close>, so the run that times it out replaces it at once and exceeds a maximum of one.
\<close>

definition demo_starting :: "FakeProvider plane" where
  "demo_starting = (snd (UpsertSandbox demo_epoch
     (demo_sandbox\<lparr>b_Provider := ''fake'', b_State := ''creating'', b_Capabilities := poolCapabilities demo_pool\<rparr>) empty_db), fake_New)"

lemma observe_starting:
  "observe pools wall (fst demo_starting) = \<lparr>ob_boxes = db_sandboxes (fst demo_starting), ob_workers = Map.empty, ob_sessions = [], ob_demand = (\<lambda>_. 0)\<rparr>"
  by (simp add: observe_def demo_starting_def UpsertSandbox_def Let_def empty_db_def ListSandboxes_def ListWorkers_def ListSessions_def ListQueuedJobs_def
      worker_by_sandbox_def pool_demand_def fun_eq_iff)

theorem timeout_exceeds_limit:
  "\<exists>q' w'. QueueAutoscaler_run demo_env (demo_limits\<lparr>li_MaxTotalSandboxes := 1\<rparr>) demo_providers
      [demo_pool\<lparr>po_MinReplicas := 1, po_StartupTimeout := 1\<rparr>] (demo_autoscaler, demo_starting) = (Inr (), (q', w'))
    \<and> count_boxes counted (db_sandboxes (fst demo_starting)) = 1 \<and> count_boxes counted (db_sandboxes (fst w')) = 2"
proof -
  let ?pools = "[demo_pool\<lparr>po_MinReplicas := 1, po_StartupTimeout := 1\<rparr>]"
  let ?ob = "\<lparr>ob_boxes = db_sandboxes (fst demo_starting), ob_workers = Map.empty, ob_sessions = [], ob_demand = (\<lambda>_. 0)\<rparr>"
  let ?loop = "foldS (scale_pool demo_env (demo_limits\<lparr>li_MaxTotalSandboxes := 1\<rparr>) demo_providers ?ob (demo_epoch + 9)) ?pools
      (count_current (ob_boxes ?ob), demo_autoscaler, demo_starting)"
  have "fst ?loop = Inr () \<and> count_boxes counted (db_sandboxes (fst (snd (snd (snd ?loop))))) = 2
      \<and> count_boxes counted (db_sandboxes (fst demo_starting)) = 1 \<and> validatePools ?pools = Inr () \<and> sort_key po_Name ?pools = ?pools
      \<and> ev_clock demo_env (snd demo_starting) = demo_epoch + 9"
    by code_simp
  then show ?thesis
    by (intro exI [of _ "fst (snd (snd ?loop))"] exI [of _ "snd (snd (snd ?loop))"])
      (simp add: QueueAutoscaler_run_def observe_starting Let_def split_def)
qed

text \<open>
  A queued job is counted for a pool that can run it: the chosen pool satisfies the constraints and the
  budget, is of the preferred provider whenever a suitable pool of that provider exists, and a pool is found
  exactly when some pool is suitable; without preferences, among pools that all state a cost, it is a cheapest one.
\<close>

theorem selectPool_sound:
  "(case selectPool pools k of
      None \<Rightarrow> \<forall>pool \<in> set pools. \<not> (Satisfies (poolCapabilities pool) k \<and> withinBudget k pool)
    | Some pool \<Rightarrow> pool \<in> set pools \<and> Satisfies (poolCapabilities pool) k \<and> withinBudget k pool
        \<and> (rc_PreferredProvider k \<noteq> '''' \<and> hasProvider pools k (rc_PreferredProvider k) \<longrightarrow> po_Provider pool = rc_PreferredProvider k)
        \<and> (rc_PreferredProvider k = '''' \<and> rc_PreferredRegion k = '''' \<and> (\<forall>x \<in> set pools. po_Cost x \<noteq> None)
            \<longrightarrow> (\<forall>x \<in> set pools. Satisfies (poolCapabilities x) k \<and> withinBudget k x \<longrightarrow> the (po_Cost pool) \<le> the (po_Cost x))))"
proof (cases "selectPool pools k")
  case None
  then have "compatible_pools pools k = []" by (auto simp: selectPool_def insertionSort_Nil_iff split: list.splits)
  then have "\<not> (Satisfies (poolCapabilities pool) k \<and> withinBudget k pool)" if "pool \<in> set pools" for pool
    using that by (auto simp: compatible_pools_def Let_def filter_empty_conv hasProvider_def list_ex_iff)
  with None show ?thesis by simp
next
  case (Some pool)
  then obtain rest where sorted: "insertionSort (pool_less k) (compatible_pools pools k) = pool # rest"
    by (auto simp: selectPool_def split: list.splits)
  then have mem: "pool \<in> set (compatible_pools pools k)" by (metis list.set_intros(1) set_insertionSort)
  have cheap: "the (po_Cost pool) \<le> the (po_Cost x)"
    if free: "rc_PreferredProvider k = ''''" "rc_PreferredRegion k = ''''" and costs: "\<forall>x \<in> set pools. po_Cost x \<noteq> None"
      and x: "x \<in> set pools" "Satisfies (poolCapabilities x) k" "withinBudget k x" for x
  proof -
    let ?key = "\<lambda>p. (the (po_Cost p), po_Name p)"
    have "pool_less k a b \<longleftrightarrow> ?key a < ?key b" if "a \<in> set (compatible_pools pools k)" "b \<in> set (compatible_pools pools k)" for a b
    proof -
      have "po_Cost a \<noteq> None" "po_Cost b \<noteq> None" using that costs by (auto simp: compatible_pools_def Let_def)
      then show ?thesis by (auto simp: pool_less_def free)
    qed
    moreover have "x \<in> set (compatible_pools pools k)" using x free by (simp add: compatible_pools_def)
    ultimately have "?key pool \<le> ?key x" using insertionSort_min [OF _ sorted, of ?key x] by blast
    then show ?thesis by auto
  qed
  with Some mem show ?thesis by (auto simp: compatible_pools_def Let_def)
qed

theorem selectPool_sound_witness:
  "selectPool [demo_pool\<lparr>po_Name := ''a'', po_Cost := Some 3\<rparr>, demo_pool\<lparr>po_Name := ''b'', po_Cost := Some 2\<rparr>] zero_RoutingConstraints
     = Some (demo_pool\<lparr>po_Name := ''b'', po_Cost := Some 2\<rparr>)"
proof -
  let ?pools = "[demo_pool\<lparr>po_Name := ''a'', po_Cost := Some 3\<rparr>, demo_pool\<lparr>po_Name := ''b'', po_Cost := Some 2\<rparr>]"
  have "list_all (\<lambda>x. Satisfies (poolCapabilities x) zero_RoutingConstraints \<and> withinBudget zero_RoutingConstraints x) ?pools"
    "rc_PreferredProvider zero_RoutingConstraints = ''''" "rc_PreferredRegion zero_RoutingConstraints = ''''" by code_simp+
  with selectPool_sound [of ?pools zero_RoutingConstraints] show ?thesis
    by (auto split: option.splits)
qed

text \<open>
  The order of the pools is not one: of two pools, one without a cost and with the smaller name, each comes before
  the other, so which of them a job is counted for depends on their order in the configuration.
\<close>

theorem pool_order_not_asymmetric:
  "pool_less zero_RoutingConstraints (demo_pool\<lparr>po_Name := ''a''\<rparr>) (demo_pool\<lparr>po_Name := ''b'', po_Cost := Some 2\<rparr>)
   \<and> pool_less zero_RoutingConstraints (demo_pool\<lparr>po_Name := ''b'', po_Cost := Some 2\<rparr>) (demo_pool\<lparr>po_Name := ''a''\<rparr>)"
  by code_simp

end
