(* ===== verification/SR_Recovery.thy ===== *)
theory SR_Recovery
  imports SR_Autoscaler
begin

text \<open>
  The recovery controller and the collection of checkpoints of \<^verbatim>\<open>internal/controller/recovery.go\<close>: adopting or
  provisioning a replacement for a lost session, validating a rebuild, restoring from a checkpoint, backing off.

  Adapters work on the outside state, like providers. The texts of errors, which end up in the recovery log, are an
  argument (\<open>rv_text\<close>). The conversion of a power of two beyond 63 bits to an integer is what it is on amd64.
\<close>

section \<open>Data\<close>

record RecoveryConfig =
  rcv_BackoffBase :: duration
  rcv_BackoffMax :: duration
  rcv_MaxAttempts :: int

record 'p RecoveryController =
  rv_Providers :: "'p Provider Registry"
  rv_Pools :: "SandboxPool list"
  rv_Checkpoints :: "(string \<times> 'p Adapter) list"
  rv_Tokens :: "'p minter option"
  rv_Config :: RecoveryConfig
  rv_text :: "CtlError \<Rightarrow> string"
  rv_wall :: time

definition on_adapter :: "('p \<Rightarrow> (FsError + 'a) \<times> 'p) \<Rightarrow> (CtlError, 'a, 'p plane) pass" where
  "on_adapter f = (\<lambda>(s, x). case f x of (Inl e, x') \<Rightarrow> (Inl (FileErr e), (s, x')) | (Inr r, x') \<Rightarrow> (Inr r, (s, x')))"

text \<open>A call of which one error is not an error.\<close>

definition tolerate :: "'e \<Rightarrow> ('e, 'a, 's) pass \<Rightarrow> ('e, unit, 's) pass" where
  "tolerate e f s = (case f s of (Inl x, s') \<Rightarrow> if x = e then (Inr (), s') else (Inl x, s') | (Inr _, s') \<Rightarrow> (Inr (), s'))"

section \<open>Collecting checkpoints\<close>

definition delete_checkpoint :: "(string \<times> 'p Adapter) list \<Rightarrow> Checkpoint \<Rightarrow> (CtlError, unit, 'p plane) pass" where
  "delete_checkpoint adapters cp w =
    (case map_of adapters (c_Adapter cp) of None \<Rightarrow> (Inr (), w) | Some a \<Rightarrow> on_adapter (ad_Delete a cp) w)"

definition hour :: duration where
  "hour = 3600000000000"

text \<open>The adapters are walked in any order; the list is the order one run takes.\<close>

definition CheckpointGC_run :: "(string \<times> 'p Adapter) list \<Rightarrow> int \<Rightarrow> bool \<Rightarrow> time \<Rightarrow> (CtlError, unit, 'p plane) pass" where
  "CheckpointGC_run adapters retain deleteOnClose tm w =
    sbind (on_store (GarbageCollectCheckpoints tm retain deleteOnClose) w) (\<lambda>items w1.
    sbind (foldS (delete_checkpoint adapters) items w1) (\<lambda>_ w2.
      (let live = (\<lambda>loc. \<exists>cp \<in> set (ListAllCheckpoints (fst w2)). c_Location cp \<noteq> '''' \<and> c_Location cp = loc) in
       foldS (\<lambda>(_, a). on_adapter (ad_SweepOrphans a live (tm - hour))) adapters w2)))"

section \<open>Backoff\<close>

definition pow2_int64 :: "nat \<Rightarrow> int" where
  "pow2_int64 k = (if k < 63 then 2 ^ k else min_int64)"

definition recovery_delay :: "RecoveryConfig \<Rightarrow> int \<Rightarrow> duration" where
  "recovery_delay cfg attempts =
    (let base = (if rcv_BackoffBase cfg \<le> 0 then second else rcv_BackoffBase cfg);
         ceil = (if rcv_BackoffMax cfg \<le> 0 then minute else rcv_BackoffMax cfg);
         d = int64 (pow2_int64 (nat (attempts - 1)) * base)
     in if d > ceil then ceil else d)"

definition fail :: "'p RecoveryController \<Rightarrow> Session \<Rightarrow> CtlError \<Rightarrow> time \<Rightarrow> (CtlError, unit, 'p plane) pass" where
  "fail ctl s e tm = on_store (FailRecovery (s_ID s) (s_Epoch s) (rv_text ctl e)
     (tm + recovery_delay (rv_Config ctl) (s_RecoveryAttempts s)) tm)"

section \<open>Rebuilding\<close>

definition rebuild_job :: "Session \<Rightarrow> time \<Rightarrow> nat \<Rightarrow> RebuildStep \<Rightarrow> JobID \<Rightarrow> Job" where
  "rebuild_job s tm i step previous = zero_Job\<lparr>
     j_ID := rebuild_prefix (s_ID s) (s_Epoch s) @ show_nat i,
     j_IdempotencyKey := ''rebuild:'' @ s_ID s @ '':'' @ show_nat (s_Epoch s) @ '':'' @ rs_IdempotencyKey step,
     j_Kind := rs_Kind step, j_Payload := rs_Payload step, j_State := JobQueued, j_SessionID := s_ID s,
     j_DependsOn := (if previous \<noteq> '''' then [previous] else []),
     j_RetryPolicy := zero_RetryPolicy\<lparr>rp_MaxAttempts := 1\<rparr>, j_CreatedAt := tm, j_UpdatedAt := tm\<rparr>"

fun enqueue_steps :: "time \<Rightarrow> Session \<Rightarrow> time \<Rightarrow> nat \<Rightarrow> RebuildStep list \<Rightarrow> JobID \<Rightarrow> (CtlError, unit, 'p plane) pass" where
  "enqueue_steps wall s tm i [] previous w = (Inr (), w)"
| "enqueue_steps wall s tm i (step # steps) previous w =
    (let j = rebuild_job s tm i step previous in
     sbind (tolerate (StoreErr ErrConflict) (on_store (CreateJob wall j)) w) (\<lambda>_. enqueue_steps wall s tm (i + 1) steps (j_ID j)))"

definition enqueueRebuild :: "time \<Rightarrow> Session \<Rightarrow> time \<Rightarrow> (CtlError, unit, 'p plane) pass" where
  "enqueueRebuild wall s tm = enqueue_steps wall s tm 0 (s_RebuildPlan s) ''''"

text \<open>The verdict over the session's jobs: a failed step, or whether all steps have succeeded.\<close>

fun rebuild_verdict :: "string \<Rightarrow> Job list \<Rightarrow> bool \<Rightarrow> bool option" where
  "rebuild_verdict pre [] allDone = Some allDone"
| "rebuild_verdict pre (j # js) allDone =
    (if \<not> has_prefix (j_ID j) pre then rebuild_verdict pre js allDone
     else if JobTerminal (j_State j) \<and> j_State j \<noteq> JobSucceeded then None
     else rebuild_verdict pre js (allDone \<and> j_State j = JobSucceeded))"

definition rebuildValidated :: "'p RecoveryController \<Rightarrow> Session \<Rightarrow> Worker \<Rightarrow> time \<Rightarrow> (CtlError, bool, 'p plane) pass" where
  "rebuildValidated ctl s x tm w =
    sbind (enqueueRebuild (rv_wall ctl) s tm w) (\<lambda>_ w1.
      (case rebuild_verdict (rebuild_prefix (s_ID s) (s_Epoch s)) (ListSessionJobs (s_ID s) (fst w1)) True of
         None \<Rightarrow> sbind (on_store (TerminalRecovery (s_ID s) (s_Epoch s) ''rebuild validation failed'' tm) w1) (\<lambda>_ w2. (Inr False, w2))
       | Some allDone \<Rightarrow>
           if \<not> allDone then (Inr False, w1)
           else if \<not> s_RestoreAcknowledged s then
             sbind (on_store (AcknowledgeRecovery (s_ID s) (s_Epoch s) (w_ID x) tm) w1) (\<lambda>_ w2. (Inr True, w2))
           else (Inr True, w1)))"

section \<open>Checkpoints\<close>

fun usable_checkpoint :: "'p RecoveryController \<Rightarrow> Checkpoint list \<Rightarrow> (CtlError, Checkpoint \<times> 'p Adapter, 'p plane) pass" where
  "usable_checkpoint ctl [] w = (Inl (CtlErr ''no usable checkpoint''), w)"
| "usable_checkpoint ctl (cp # cps) w =
    (if c_State cp \<noteq> ''ready'' then usable_checkpoint ctl cps w
     else case map_of (rv_Checkpoints ctl) (c_Adapter cp) of
       None \<Rightarrow> usable_checkpoint ctl cps w
     | Some a \<Rightarrow>
         (case on_adapter (ad_Open a cp) w of
            (Inr _, w1) \<Rightarrow> (Inr (cp, a), w1)
          | (Inl e, w1) \<Rightarrow>
              if e \<noteq> FileErr FsCorrupt then (Inl e, w1)
              else usable_checkpoint ctl cps (snd (on_store (MarkCheckpoint (c_ID cp) ''corrupt'' (rv_text ctl e)) w1))))"

definition usableCheckpoint :: "'p RecoveryController \<Rightarrow> Session \<Rightarrow> (CtlError, Checkpoint \<times> 'p Adapter, 'p plane) pass" where
  "usableCheckpoint ctl s w = usable_checkpoint ctl (ListCheckpoints (s_ID s) (fst w)) w"

definition recoveryPool :: "SandboxPool list \<Rightarrow> string \<Rightarrow> SandboxPool option" where
  "recoveryPool pools name = find (\<lambda>p. po_Name p = name) pools"

section \<open>A run\<close>

text \<open>A replacement that has registered: validated and bound, or left to finish.\<close>

definition adopt :: "'p RecoveryController \<Rightarrow> Session \<Rightarrow> Worker \<Rightarrow> time \<Rightarrow> (CtlError, unit, 'p plane) pass" where
  "adopt ctl s x tm w =
    sbind (if s_RecoveryPolicy s = RecoveryRebuild then rebuildValidated ctl s x tm w else (Inr (s_RestoreAcknowledged s), w)) (\<lambda>ready w1.
      if \<not> ready then (Inr (), w1)
      else tolerate (StoreErr ErrConflict) (on_store (CompleteRecovery (s_ID s) (s_Epoch s) (w_ID x) (w_SandboxID x) tm)) w1)"

definition terminate_box :: "'p RecoveryController \<Rightarrow> Sandbox \<Rightarrow> 'p plane \<Rightarrow> 'p plane" where
  "terminate_box ctl box w =
    (case Registry_Get (rv_Providers ctl) (b_Provider box) of Inl _ \<Rightarrow> w | Inr p \<Rightarrow> snd (on_provider (pv_Terminate p (b_ID box)) w))"

text \<open>A replacement under way: gone, late, or still starting.\<close>

definition await_replacement :: "'p RecoveryController \<Rightarrow> Sandbox list \<Rightarrow> Session \<Rightarrow> time \<Rightarrow> (CtlError, unit, 'p plane) pass" where
  "await_replacement ctl boxes s tm w =
    (let timeout = (case recoveryPool (rv_Pools ctl) (s_Pool s) of None \<Rightarrow> 0 | Some pool \<Rightarrow> po_StartupTimeout pool) in
     case find (\<lambda>b. b_ReservedSessionID b = s_ID s) boxes of
       None \<Rightarrow> on_store (FailRecovery (s_ID s) (s_Epoch s) ''replacement record missing'' (tm + rcv_BackoffBase (rv_Config ctl)) tm) w
     | Some box \<Rightarrow>
         if timeout > 0 \<and> time_sub tm (b_CreatedAt box) \<ge> timeout then
           sbind (on_store (DeleteSandbox (b_ID box)) (terminate_box ctl box w)) (\<lambda>_.
             fail ctl s (CtlErr ''replacement startup timeout'') tm)
         else (Inr (), w))"

definition discard_boxes :: "'p RecoveryController \<Rightarrow> Sandbox list \<Rightarrow> Session \<Rightarrow> 'p plane \<Rightarrow> 'p plane" where
  "discard_boxes ctl boxes s w =
     fold (\<lambda>box w. if b_ReservedSessionID box = s_ID s then snd (on_store (DeleteSandbox (b_ID box)) (terminate_box ctl box w)) else w) boxes w"

definition replacement_spec :: "SandboxPool \<Rightarrow> Session \<Rightarrow> CreateSpec" where
  "replacement_spec pool s = (po_Create pool)\<lparr>
     sp_SandboxID := ''recovery-'' @ s_ID s @ ''-'' @ show_nat (s_Epoch s),
     sp_WorkerID := ''recovery-worker-'' @ s_ID s @ ''-'' @ show_nat (s_Epoch s),
     sp_SandboxProvider := po_Provider pool,
     sp_Capabilities := s_Capabilities s,
     sp_Labels := AList.update ''smart-route.epoch'' (show_nat (s_Epoch s)) (AList.update ''smart-route.session'' (s_ID s)
       (AList.update poolLabel (po_Name pool) (sp_Labels (po_Create pool))))\<rparr>"

definition mint_replacement :: "'p RecoveryController \<Rightarrow> SandboxPool \<Rightarrow> Session \<Rightarrow> CreateSpec \<Rightarrow> (CtlError, CreateSpec, 'p plane) pass" where
  "mint_replacement ctl pool s spec w =
    (case rv_Tokens ctl of None \<Rightarrow> (Inr spec, w)
     | Some mint \<Rightarrow> sbind (mint (sp_SandboxID spec) (po_Provider pool) (po_Name pool) (s_Capabilities s) w) (\<lambda>token w1.
         (Inr (spec\<lparr>sp_BootstrapToken := token\<rparr>), w1)))"

definition create_replacement :: "'p RecoveryController \<Rightarrow> 'p Provider \<Rightarrow> Session \<Rightarrow> CreateSpec \<Rightarrow> (CtlError, PSandbox, 'p plane) pass" where
  "create_replacement ctl provider s spec w =
    (if s_RecoveryPolicy s = RecoveryCheckpoint then
       sbind (usableCheckpoint ctl s w) (\<lambda>(cp, adapter) w1.
       sbind (on_adapter (ad_Open adapter cp) w1) (\<lambda>content w2.
         (case pv_RestoreSnapshot provider of
            Some snap \<Rightarrow> if ad_Strategy adapter = StrategyProviderSnapshot then on_provider (snap spec content) w2
              else on_provider (pv_Create provider spec) w2
          | None \<Rightarrow> on_provider (pv_Create provider spec) w2)))
     else if s_RecoveryPolicy s = RecoveryRebuild then on_provider (pv_Create provider spec) w
     else (Inl (CtlErr ''recovery disabled''), w))"

definition replacement_record :: "PSandbox \<Rightarrow> Session \<Rightarrow> time \<Rightarrow> Sandbox" where
  "replacement_record item s tm = \<lparr>b_ID = ps_ID item, b_WorkerID = '''', b_Provider = ps_Provider item, b_ExternalID = ps_ExternalID item,
     b_Capabilities = ps_Capabilities item, b_State = ps_State item, b_CreatedAt = ps_CreatedAt item, b_UpdatedAt = tm, b_DrainAt = 0,
     b_ReservedSessionID = s_ID s\<rparr>"

definition replace_worker :: "'p RecoveryController \<Rightarrow> Session \<Rightarrow> time \<Rightarrow> (CtlError, unit, 'p plane) pass" where
  "replace_worker ctl s tm w =
    (case recoveryPool (rv_Pools ctl) (s_Pool s) of
       None \<Rightarrow> (Inl (CtlErr (''recovery pool not configured: '' @ s_Pool s)), w)
     | Some pool \<Rightarrow>
         sbind (resolve (rv_Providers ctl) (po_Provider pool) w) (\<lambda>provider w1.
           (case sbind (mint_replacement ctl pool s (replacement_spec pool s) w1) (\<lambda>spec. create_replacement ctl provider s spec) of
              (Inl e, w2) \<Rightarrow> fail ctl s e tm w2
            | (Inr item, w2) \<Rightarrow> on_store (UpsertSandbox (rv_wall ctl) (replacement_record item s tm)) w2)))"

definition recover_session :: "'p RecoveryController \<Rightarrow> Sandbox list \<Rightarrow> Worker list \<Rightarrow> time \<Rightarrow> Session \<Rightarrow> (CtlError, unit, 'p plane) pass" where
  "recover_session ctl boxes workers tm s w =
    (case find (\<lambda>x. w_ReservedSessionID x = s_ID s \<and> w_SessionEpoch x = s_Epoch s) workers of
       Some x \<Rightarrow> adopt ctl s x tm w
     | None \<Rightarrow>
         if s_RecoveryState s = RecoveryProvisioning \<or> s_RecoveryState s = RecoveryRestoring then await_replacement ctl boxes s tm w
         else (case on_store (ClaimRecovery (s_ID s) tm) w of
             (Inl e, w1) \<Rightarrow> if e = StoreErr ErrConflict then (Inr (), w1) else (Inl e, w1)
           | (Inr claimed, w1) \<Rightarrow>
               if rcv_MaxAttempts (rv_Config ctl) > 0 \<and> s_RecoveryAttempts claimed > rcv_MaxAttempts (rv_Config ctl)
               then on_store (TerminalRecovery (s_ID claimed) (s_Epoch claimed) ''recovery attempts exhausted'' tm) (discard_boxes ctl boxes claimed w1)
               else replace_worker ctl claimed tm w1))"

definition RecoveryController_run :: "'p RecoveryController \<Rightarrow> time \<Rightarrow> (CtlError, unit, 'p plane) pass" where
  "RecoveryController_run ctl tm w =
     foldS (recover_session ctl (ListSandboxes (fst w)) (ListWorkers (fst w)) tm) (ListRecoveringSessions tm (fst w)) w"

section \<open>Runs as store operations\<close>

text \<open>The sessions that are active; and a run of store operations that activates none.\<close>

definition active_sessions :: "DB \<Rightarrow> SessionID set" where
  "active_sessions s = s_ID ` {v \<in> set (db_sessions s). s_State v = SessionActive}"

definition calm :: "'p plane \<Rightarrow> 'p plane \<Rightarrow> bool" where
  "calm w w' \<longleftrightarrow> ran w w' \<and> active_sessions (fst w') \<subseteq> active_sessions (fst w)"

interpretation calm: pass_relation calm
  by unfold_locales (auto simp: calm_def intro: ran.pass_refl ran.pass_trans)

lemma active_update:
  assumes "\<And>v. P v \<Longrightarrow> s_ID (f v) = s_ID v \<and> (s_State (f v) = SessionActive \<longrightarrow> s_State v = SessionActive)"
  shows "active_sessions (update_sessions P f s) \<subseteq> active_sessions s"
proof
  fix i assume "i \<in> active_sessions (update_sessions P f s)"
  then obtain v where v: "v \<in> set (db_sessions s)" "i = s_ID (if P v then f v else v)" "s_State (if P v then f v else v) = SessionActive"
    by (auto simp: active_sessions_def update_sessions_def upd_where_def)
  with assms [of v] have "i = s_ID v" "s_State v = SessionActive" by (auto split: if_splits)
  with v(1) show "i \<in> active_sessions s" by (auto simp: active_sessions_def)
qed

lemma log_recovery_tables:
  "log_recovery e s = Inr s' \<Longrightarrow> db_sessions s' = db_sessions s \<and> db_jobs s' = db_jobs s \<and> db_workers s' = db_workers s"
  by (auto simp: log_recovery_def dest!: insert_or_ignore_recovery_Inr)

lemma active_same: "db_sessions s' = db_sessions s \<Longrightarrow> active_sessions s' = active_sessions s"
  by (simp add: active_sessions_def)

lemma active_FailRecovery: "active_sessions (snd (FailRecovery i epoch msg retry now s)) \<subseteq> active_sessions s"
  unfolding FailRecovery_def
  by (rule commit0_rel [of "\<lambda>s s'. active_sessions s' \<subseteq> active_sessions s"])
    (auto simp: FailRecovery_tx_def Let_def drop_reservation_def update_workers_def active_sessions_def update_sessions_def upd_where_def
      split: if_splits dest!: log_recovery_tables)

lemma active_AcknowledgeRecovery: "active_sessions (snd (AcknowledgeRecovery i epoch w tm s)) \<subseteq> active_sessions s"
  unfolding AcknowledgeRecovery_def
  by (rule commit0_rel [of "\<lambda>s s'. active_sessions s' \<subseteq> active_sessions s"])
    (auto simp: AcknowledgeRecovery_tx_def Let_def active_sessions_def update_sessions_def upd_where_def split: if_splits dest!: log_recovery_tables)

lemma active_ClaimRecovery: "active_sessions (snd (ClaimRecovery i tm s)) \<subseteq> active_sessions s"
  unfolding ClaimRecovery_def
  by (rule commit_rel [of "\<lambda>s s'. active_sessions s' \<subseteq> active_sessions s"])
    (auto simp: ClaimRecovery_tx_def Let_def active_sessions_def update_sessions_def upd_where_def split: if_splits dest!: log_recovery_tables)

lemma active_finishSessionTx:
  assumes "finishSessionTx i SessionLost code tm s = Inr s'"
  shows "active_sessions s' \<subseteq> active_sessions s"
  using assms by (rule finishSessionTx_Inr) (auto simp: active_sessions_def upd_where_def split: if_splits)

lemma active_TerminalRecovery: "active_sessions (snd (TerminalRecovery i epoch msg tm s)) \<subseteq> active_sessions s"
  unfolding TerminalRecovery_def
proof (rule commit0_rel [of "\<lambda>s s'. active_sessions s' \<subseteq> active_sessions s"])
  fix s' assume "TerminalRecovery_tx i epoch msg tm s = Inr s'"
  then obtain s1 e f where s1: "finishSessionTx i SessionLost ''recovery_failed'' tm s = Inr s1"
    and rest: "log_recovery e (update_sandboxes (\<lambda>b. b_ReservedSessionID b = i) (drain_sandbox tm)
      (drop_reservation i epoch (update_sessions (\<lambda>x. s_ID x = i) (\<lambda>x. x\<lparr>s_RecoveryState := RecoveryFailed,
        s_RecoveryError := msg, s_Failure := f\<rparr>) s1))) = Inr s'"
    unfolding TerminalRecovery_tx_def Let_def by (auto simp del: SessionTerminal.simps split: if_splits)
  have "active_sessions s' \<subseteq> active_sessions s1"
    using log_recovery_tables [OF rest] by (auto simp: active_sessions_def drop_reservation_def update_workers_def update_sandboxes_def update_sessions_def upd_where_def split: if_splits)
  with active_finishSessionTx [OF s1] show "active_sessions s' \<subseteq> active_sessions s" by blast
qed simp

lemma sessions_untouched [simp]:
  "db_sessions (snd (DeleteSandbox b s)) = db_sessions s" "db_sessions (snd (UpsertSandbox now v s)) = db_sessions s"
  "db_sessions (snd (MarkCheckpoint c state msg s)) = db_sessions s" "db_sessions (snd (CreateJob now j s)) = db_sessions s"
  "db_sessions (snd (CreateBootstrapToken t s)) = db_sessions s"
  by (auto simp: DeleteSandbox_def UpsertSandbox_def MarkCheckpoint_def CreateJob_def Let_def stmt_defs insert_job_def
      CreateBootstrapToken_def commit0_def commit_def rbind_def mapped_def insert_token_def split: sum.split if_split)

lemma on_adapter_simps [simp]: "fst (snd (on_adapter f w)) = fst w"
  by (simp add: on_adapter_def split: prod.split sum.split)

lemma calm_on_store:
  assumes "\<And>s. store_step s (snd (f s))" and "\<And>s. active_sessions (snd (f s)) \<subseteq> active_sessions s"
  shows "calm w (snd (on_store f w))"
  using ran_on_store [OF assms(1)] assms(2) by (simp add: calm_def)

lemma calm_CreateJob: "j_State j = JobQueued \<Longrightarrow> calm w (snd (on_store (CreateJob wall j) w))"
  by (rule calm_on_store) (auto intro: store_step.CreateJob simp: active_sessions_def)

lemma calm_store:
  "calm w (snd (on_store (FailRecovery i epoch msg retry now) w))" "calm w (snd (on_store (AcknowledgeRecovery i epoch x tm) w))"
  "calm w (snd (on_store (ClaimRecovery i tm) w))" "calm w (snd (on_store (TerminalRecovery i epoch msg tm) w))"
  "calm w (snd (on_store (DeleteSandbox b) w))" "calm w (snd (on_store (UpsertSandbox wall v) w))"
  "calm w (snd (on_store (MarkCheckpoint c state msg) w))" "calm w (snd (on_store (CreateBootstrapToken t) w))"
  by (rule calm_on_store, rule store_step.intros,
      rule active_FailRecovery active_AcknowledgeRecovery active_ClaimRecovery active_TerminalRecovery equalityD1 [OF active_same], simp?)+

lemma calm_outside: "calm w (snd (on_provider f w))" "calm w (snd (on_adapter g w))"
  by (simp_all add: calm_def ran_def)

lemma calm_tolerate: "calm w (snd (f w)) \<Longrightarrow> calm w (snd (tolerate e f w))"
  by (cases "f w"; cases "fst (f w)") (auto simp: tolerate_def)

lemma calm_fail: "calm w (snd (fail ctl s e tm w))"
  unfolding fail_def by (rule calm_store)

lemma calm_enqueue: "calm w (snd (enqueue_steps wall s tm i steps previous w))"
proof (induction steps arbitrary: i previous w)
  case (Cons step steps)
  show ?case unfolding enqueue_steps.simps Let_def
    by (rule calm.across_sbind) (rule calm_tolerate, rule calm_CreateJob, simp add: rebuild_job_def, rule Cons.IH)
qed (simp add: calm.pass_refl)

lemma calm_rebuildValidated: "calm w (snd (rebuildValidated ctl s x tm w))"
  unfolding rebuildValidated_def enqueueRebuild_def
proof (rule calm.across_sbind [OF calm_enqueue])
  fix u w1
  show "calm w1 (snd (case rebuild_verdict (rebuild_prefix (s_ID s) (s_Epoch s)) (ListSessionJobs (s_ID s) (fst w1)) True of
      None \<Rightarrow> sbind (on_store (TerminalRecovery (s_ID s) (s_Epoch s) ''rebuild validation failed'' tm) w1) (\<lambda>_ w2. (Inr False, w2))
    | Some allDone \<Rightarrow> if \<not> allDone then (Inr False, w1) else if \<not> s_RestoreAcknowledged s
        then sbind (on_store (AcknowledgeRecovery (s_ID s) (s_Epoch s) (w_ID x) tm) w1) (\<lambda>_ w2. (Inr True, w2)) else (Inr True, w1)))"
    by (auto split: option.split intro!: calm.across_sbind calm_store simp: calm.pass_refl)
qed

lemma calm_usable: "calm w (snd (usable_checkpoint ctl cps w))"
proof (induction cps arbitrary: w)
  case (Cons cp cps)
  show ?case
  proof (cases "c_State cp = ''ready'' \<and> (\<exists>a. map_of (rv_Checkpoints ctl) (c_Adapter cp) = Some a)")
    case False
    with Cons.IH [of w] show ?thesis by (auto split: option.split)
  next
    case True
    then obtain a where a: "map_of (rv_Checkpoints ctl) (c_Adapter cp) = Some a" by blast
    obtain r w1 where opened: "on_adapter (ad_Open a cp) w = (r, w1)" by (metis surj_pair)
    have w1: "calm w w1" using calm_outside(2) [of w "ad_Open a cp"] opened by simp
    have "calm w (snd (usable_checkpoint ctl cps (snd (on_store (MarkCheckpoint i state msg) w1))))" for i state msg
      by (rule calm.pass_trans [OF w1 calm.pass_trans [OF calm_store(7) Cons.IH]])
    with w1 True a opened show ?thesis by (cases r) auto
  qed
qed (simp add: calm.pass_refl)

lemma calm_terminate_box: "calm w (terminate_box ctl box w)"
  by (simp add: terminate_box_def calm.pass_refl calm_outside split: sum.split)

lemma calm_await: "calm w (snd (await_replacement ctl boxes s tm w))"
proof -
  have "calm w (snd (sbind (on_store (DeleteSandbox b) (terminate_box ctl box w)) (\<lambda>_. fail ctl s e tm)))" for b box e
    by (rule calm.across_sbind) (rule calm.pass_trans [OF calm_terminate_box calm_store(5)], rule calm_fail)
  then show ?thesis by (auto simp: await_replacement_def Let_def calm_store calm.pass_refl split: option.split)
qed

lemma calm_discard: "calm w (discard_boxes ctl boxes s w)"
proof -
  have "calm w (fold (\<lambda>box w. if b_ReservedSessionID box = s_ID s then snd (on_store (DeleteSandbox (b_ID box)) (terminate_box ctl box w)) else w) boxes w)" for w
  proof (induction boxes arbitrary: w)
    case (Cons box boxes)
    have one: "calm w (snd (on_store (DeleteSandbox (b_ID box)) (terminate_box ctl box w)))" by (rule calm.pass_trans [OF calm_terminate_box calm_store(5)])
    show ?case
    proof (cases "b_ReservedSessionID box = s_ID s")
      case True
      with calm.pass_trans [OF one Cons.IH] show ?thesis by simp
    qed (use Cons.IH in simp)
  qed (simp add: calm.pass_refl)
  then show ?thesis by (simp add: discard_boxes_def)
qed

text \<open>The minter of a recovery controller writes tokens only.\<close>

locale recovery_env =
  fixes ctl :: "'p RecoveryController"
  assumes mint_calm: "rv_Tokens ctl = Some mint \<Longrightarrow> calm w (snd (mint i provider pool caps w))"
begin

lemma calm_replace: "calm w (snd (replace_worker ctl s tm w))"
proof -
  have mint: "calm w (snd (mint_replacement ctl pool s spec w))" for pool spec w
    unfolding mint_replacement_def by (auto split: option.split intro!: calm.across_sbind mint_calm simp: calm.pass_refl)
  have create: "calm w (snd (create_replacement ctl provider s spec w))" for provider spec w
    unfolding create_replacement_def usableCheckpoint_def
    by (auto split: option.split intro!: calm.across_sbind calm_usable calm_outside simp: calm.pass_refl)
  have both: "calm w (snd (sbind (mint_replacement ctl pool s spec w) (\<lambda>spec. create_replacement ctl provider s spec)))" for pool spec provider w
    by (rule calm.across_sbind [OF mint create])
  have fin: "calm w (snd (case m of (Inl e, w2) \<Rightarrow> fail ctl s e tm w2 | (Inr item, w2) \<Rightarrow> on_store (UpsertSandbox (rv_wall ctl) (replacement_record item s tm)) w2))"
    if "calm w (snd m)" for m :: "(CtlError + PSandbox) \<times> 'p plane" and w
  proof -
    obtain r w2 where m: "m = (r, w2)" by (cases m)
    from that m have w2: "calm w w2" by simp
    show ?thesis
    proof (cases r)
      case (Inl e)
      with m calm.pass_trans [OF w2 calm_fail] show ?thesis by simp
    next
      case (Inr item)
      with m calm.pass_trans [OF w2 calm_store(6)] show ?thesis by simp
    qed
  qed
  show ?thesis unfolding replace_worker_def
  proof (cases "recoveryPool (rv_Pools ctl) (s_Pool s)", simp_all only: option.case)
    fix pool
    show "calm w (snd (sbind (resolve (rv_Providers ctl) (po_Provider pool) w) (\<lambda>provider w1.
        case sbind (mint_replacement ctl pool s (replacement_spec pool s) w1) (create_replacement ctl provider s) of
          (Inl e, w2) \<Rightarrow> fail ctl s e tm w2
        | (Inr item, w2) \<Rightarrow> on_store (UpsertSandbox (rv_wall ctl) (replacement_record item s tm)) w2)))"
      by (rule calm.across_sbind [OF calm.across_resolve], rule fin, rule both)
  qed (simp add: calm.pass_refl)
qed

lemma calm_recover:
  assumes "find (\<lambda>x. w_ReservedSessionID x = s_ID s \<and> w_SessionEpoch x = s_Epoch s) workers = None"
  shows "calm w (snd (recover_session ctl boxes workers tm s w))"
proof -
  obtain r w1 where claim: "on_store (ClaimRecovery (s_ID s) tm) w = (r, w1)" by (metis surj_pair)
  have w1: "calm w w1" using calm_store(3) [of w "s_ID s" tm] claim by simp
  have "calm w1 (snd (on_store (TerminalRecovery i epoch msg tm) (discard_boxes ctl boxes v w1)))" for i epoch msg v
    by (rule calm.pass_trans [OF calm_discard calm_store(4)])
  then have lost: "calm w (snd (on_store (TerminalRecovery i epoch msg tm) (discard_boxes ctl boxes v w1)))" for i epoch msg v
    by (rule calm.pass_trans [OF w1])
  have repl: "calm w (snd (replace_worker ctl v tm w1))" for v by (rule calm.pass_trans [OF w1 calm_replace])
  show ?thesis using claim w1 lost repl calm_await [of w ctl boxes s tm]
    by (cases r) (simp_all add: recover_session_def assms)
qed

lemma ran_adopt: "ran w (snd (adopt ctl s x tm w))"
proof -
  have c: "calm w w' \<Longrightarrow> ran w w'" for w w' :: "'p plane" by (simp add: calm_def)
  have "ran w1 (snd (tolerate (StoreErr ErrConflict) (on_store (CompleteRecovery i epoch y b tm)) w1))" for i epoch y b and w1 :: "'p plane"
    using ran_on_store [of "CompleteRecovery i epoch y b tm" w1, OF store_step.CompleteRecovery]
    by (cases "on_store (CompleteRecovery i epoch y b tm) w1"; cases "fst (on_store (CompleteRecovery i epoch y b tm) w1)") (auto simp: tolerate_def)
  then show ?thesis
    unfolding adopt_def by (auto intro!: ran.across_sbind c [OF calm_rebuildValidated] simp: ran.pass_refl)
qed

lemma ran_recover: "ran w (snd (recover_session ctl boxes workers tm s w))"
proof (cases "find (\<lambda>x. w_ReservedSessionID x = s_ID s \<and> w_SessionEpoch x = s_Epoch s) workers")
  case None
  from calm_recover [OF this] show ?thesis by (simp add: calm_def)
qed (simp add: recover_session_def ran_adopt)

lemma ran_RecoveryController: "ran w (snd (RecoveryController_run ctl tm w))"
  unfolding RecoveryController_run_def by (rule ran.across_foldS) (rule ran_recover)

end

lemma calm_MintBootstrapToken: "calm w (snd (MintBootstrapToken env ttl i provider pool caps w))"
  unfolding MintBootstrapToken_def newID_def by (intro calm.across_sbind calm_outside calm_store) (simp_all add: calm.pass_refl)

interpretation recovery_app: recovery_env "ctl\<lparr>rv_Tokens := Some (MintBootstrapToken env ttl)\<rparr>" for ctl env ttl
  by unfold_locales (auto simp: calm_MintBootstrapToken)

lemma ran_CheckpointGC: "ran w (snd (CheckpointGC_run adapters retain deleteOnClose tm w))"
proof -
  have gc: "ran w (snd (on_store (GarbageCollectCheckpoints tm retain deleteOnClose) w))" for w :: "'a plane"
    by (rule ran_on_store, rule store_step.intros)
  have ad: "ran w (snd (on_adapter f w))" for f and w :: "'a plane" by (simp add: ran_def)
  show ?thesis unfolding CheckpointGC_run_def Let_def delete_checkpoint_def
    by (intro ran.across_sbind ran.across_foldS gc) (auto simp: ad ran.pass_refl split: option.split)
qed

section \<open>Rebuild validation\<close>

lemma rebuild_verdict_done:
  "rebuild_verdict pre js c = Some True \<Longrightarrow> c \<and> (\<forall>j \<in> set js. has_prefix (j_ID j) pre \<longrightarrow> j_State j = JobSucceeded)"
proof (induction js arbitrary: c)
  case (Cons j js)
  let ?c = "if has_prefix (j_ID j) pre then c \<and> j_State j = JobSucceeded else c"
  have "rebuild_verdict pre js ?c = Some True" using Cons.prems by (simp split: if_split_asm)
  from Cons.IH [OF this] show ?case by (auto split: if_split_asm)
qed simp

lemma session_jobs_states:
  assumes "\<forall>j \<in> set (ListSessionJobs i s). has_prefix (j_ID j) pre \<longrightarrow> j_State j = JobSucceeded"
  shows "\<forall>r \<in> set (db_jobs s). j_SessionID r = i \<and> i \<noteq> '''' \<and> has_prefix (j_ID r) pre \<longrightarrow> j_State r = JobSucceeded"
  using assms by (auto simp: ListSessionJobs_def job_of_row_def)

lemma jobs_AcknowledgeRecovery: "db_jobs (snd (AcknowledgeRecovery i epoch w tm s)) = db_jobs s"
  unfolding AcknowledgeRecovery_def
  by (rule commit0_rel [of "\<lambda>s s'. db_jobs s' = db_jobs s"])
    (auto simp: AcknowledgeRecovery_tx_def Let_def update_sessions_def split: if_splits dest!: log_recovery_tables)

lemma rebuildValidated_ready:
  assumes "rebuildValidated ctl s x tm w = (Inr True, w')"
  shows "\<forall>r \<in> set (db_jobs (fst w')). j_SessionID r = s_ID s \<and> s_ID s \<noteq> '''' \<and> has_prefix (j_ID r) (rebuild_prefix (s_ID s) (s_Epoch s)) \<longrightarrow> j_State r = JobSucceeded"
proof -
  from assms obtain w1 where verdict: "rebuild_verdict (rebuild_prefix (s_ID s) (s_Epoch s)) (ListSessionJobs (s_ID s) (fst w1)) True = Some True"
    and w': "w' = w1 \<or> w' = snd (on_store (AcknowledgeRecovery (s_ID s) (s_Epoch s) (w_ID x) tm) w1)"
  proof -
    let ?verdict = "\<lambda>w1. rebuild_verdict (rebuild_prefix (s_ID s) (s_Epoch s)) (ListSessionJobs (s_ID s) (fst w1)) True"
    from assms obtain u w1 where w1: "(case ?verdict w1 of
         None \<Rightarrow> sbind (on_store (TerminalRecovery (s_ID s) (s_Epoch s) ''rebuild validation failed'' tm) w1) (\<lambda>_ w2. (Inr False, w2))
       | Some allDone \<Rightarrow> if \<not> allDone then (Inr False, w1) else if \<not> s_RestoreAcknowledged s
           then sbind (on_store (AcknowledgeRecovery (s_ID s) (s_Epoch s) (w_ID x) tm) w1) (\<lambda>_ w2. (Inr True, w2)) else (Inr True, w1)) = (Inr True, w')"
      unfolding rebuildValidated_def sbind_Inr by blast
    then have "?verdict w1 = Some True" by (cases "?verdict w1") (auto simp: sbind_Inr split: if_split_asm)
    moreover have "w' = w1 \<or> w' = snd (on_store (AcknowledgeRecovery (s_ID s) (s_Epoch s) (w_ID x) tm) w1)"
      using w1 unfolding calculation option.case by (simp add: sbind_Inr split: if_split_asm) (metis snd_conv)
    ultimately show thesis by (rule that)
  qed
  from w' have "db_jobs (fst w') = db_jobs (fst w1)" by (auto simp: jobs_AcknowledgeRecovery)
  with session_jobs_states [of "s_ID s" "fst w1" "rebuild_prefix (s_ID s) (s_Epoch s)"] rebuild_verdict_done [OF verdict] show ?thesis by simp
qed

lemma CompleteRecovery_activates:
  assumes "CompleteRecovery i epoch x b tm s = (r, s')" and "i \<in> active_sessions s'" and "i \<notin> active_sessions s"
  shows "db_jobs s' = db_jobs s \<and> (\<exists>v \<in> set (db_sessions s'). s_ID v = i \<and> s_State v = SessionActive \<and> s_Epoch v = epoch \<and> s_WorkerID v = x \<and> s_RestoreAcknowledged v)"
proof (cases "CompleteRecovery_tx i epoch x b tm s")
  case (Inl e)
  with assms show ?thesis by (auto simp: CompleteRecovery_def commit0_def commit_def rbind_def)
next
  case (Inr t)
  with assms(1) have t: "s' = t" by (auto simp: CompleteRecovery_def commit0_def commit_def rbind_def)
  let ?P = "\<lambda>v. s_ID v = i \<and> s_Epoch v = epoch \<and> s_State v = SessionRecovering \<and> s_RestoreAcknowledged v"
  let ?f = "\<lambda>v. v\<lparr>s_State := SessionActive, s_RecoveryState := RecoveryIdle, s_WorkerID := x, s_SandboxID := b, s_LastActivity := tm, s_RecoveryAfter := 0, s_RecoveryError := ''''\<rparr>"
  from Inr have rows: "db_sessions t = upd_where ?P ?f (db_sessions s)" "db_jobs t = db_jobs s"
    by (auto simp: CompleteRecovery_tx_def Let_def update_workers_def update_sessions_def split: if_splits dest!: log_recovery_tables)
  from assms(2) t obtain y where y: "y \<in> set (db_sessions t)" "s_ID y = i" "s_State y = SessionActive" by (auto simp: active_sessions_def)
  then obtain v where v: "v \<in> set (db_sessions s)" "y = (if ?P v then ?f v else v)" unfolding rows(1) upd_where_def set_map by blast
  have P: "?P v"
  proof (rule ccontr)
    assume "\<not> ?P v"
    then have "y = v" unfolding v(2) by (rule if_not_P)
    with v(1) y(2,3) assms(3) show False by (auto simp: active_sessions_def)
  qed
  have "?f v \<in> set (db_sessions t)" using v(1) P unfolding rows(1) upd_where_def set_map by (intro image_eqI [OF _ v(1)]) simp
  then show ?thesis using t rows(2) P by (intro conjI bexI [of _ "?f v"]) auto
qed

section \<open>Files of collected checkpoints\<close>

text \<open>Files only go: those outside \<open>L\<close> stay as they are.\<close>

definition only_removes :: "string set \<Rightarrow> FS \<Rightarrow> FS \<Rightarrow> bool" where
  "only_removes L fs fs' \<longleftrightarrow> (\<forall>p. map_of (fs_files fs') p = map_of (fs_files fs) p \<or> map_of (fs_files fs') p = None \<and> p \<in> L)"

lemma only_removes_trans: "only_removes L fs fs1 \<Longrightarrow> only_removes L fs1 fs2 \<Longrightarrow> only_removes L fs fs2"
  unfolding only_removes_def by metis

lemma only_removes_None: "only_removes L fs fs' \<Longrightarrow> map_of (fs_files fs) p = None \<Longrightarrow> map_of (fs_files fs') p = None"
  unfolding only_removes_def by metis

lemma delete_only_removes:
  assumes "Filesystem_Delete ctx cp fs = (r, fs')"
  shows "only_removes {c_Location cp} fs fs' \<and> (r = Inr () \<longrightarrow> map_of (fs_files fs') (c_Location cp) = None)"
  using assms by (auto simp: Filesystem_Delete_def os_remove_def only_removes_def os_unlink_lookup split: option.splits if_splits)

lemma delete_items:
  assumes "foldS (delete_checkpoint [(name, Filesystem sha ctx dir)]) items (s, fs) = (r, (s', fs'))"
  shows "s' = s \<and> only_removes (c_Location ` set items) fs fs'
    \<and> (r = Inr () \<longrightarrow> (\<forall>cp \<in> set items. c_Adapter cp = name \<longrightarrow> map_of (fs_files fs') (c_Location cp) = None))"
  using assms
proof (induction items arbitrary: fs)
  case Nil
  then show ?case by (simp add: only_removes_def)
next
  case (Cons cp items)
  obtain x s1 fs1 where one: "delete_checkpoint [(name, Filesystem sha ctx dir)] cp (s, fs) = (x, (s1, fs1))" by (metis surj_pair)
  have head: "s1 = s" "only_removes {c_Location cp} fs fs1" "x = Inr () \<Longrightarrow> c_Adapter cp = name \<Longrightarrow> map_of (fs_files fs1) (c_Location cp) = None"
  proof -
    obtain y fs2 where del: "Filesystem_Delete ctx cp fs = (y, fs2)" by (metis surj_pair)
    from one del show "s1 = s" "only_removes {c_Location cp} fs fs1" "x = Inr () \<Longrightarrow> c_Adapter cp = name \<Longrightarrow> map_of (fs_files fs1) (c_Location cp) = None"
      using delete_only_removes [OF del]
      by (auto simp: delete_checkpoint_def on_adapter_def Filesystem_def only_removes_def split: if_splits sum.splits)
  qed
  have weaker: "only_removes (c_Location ` set (cp # items)) fs fs1" using head(2) by (auto simp: only_removes_def)
  show ?case
  proof (cases x)
    case (Inl e)
    with Cons.prems one head(1) weaker show ?thesis by (auto simp: sbind_def)
  next
    case (Inr u)
    with Cons.prems one head(1) have "foldS (delete_checkpoint [(name, Filesystem sha ctx dir)]) items (s, fs1) = (r, (s', fs'))" by (simp add: sbind_def)
    note IH = Cons.IH [OF this]
    then have "only_removes (c_Location ` set (cp # items)) fs1 fs'" by (auto simp: only_removes_def)
    with weaker have "only_removes (c_Location ` set (cp # items)) fs fs'" by (rule only_removes_trans)
    moreover have "map_of (fs_files fs') (c_Location cp) = None" if "r = Inr ()" "c_Adapter cp = name"
      using head(3) Inr that(2) IH only_removes_None [of _ fs1 fs'] by auto
    ultimately show ?thesis using IH by auto
  qed
qed

lemma sweep_only_removes:
  assumes "Filesystem_SweepOrphans ctx dir live before fs = (r, fs')"
  shows "only_removes {p. \<not> live p} fs fs'"
proof (cases "os_readdir dir fs")
  case (Inl e)
  with assms show ?thesis by (simp add: Filesystem_SweepOrphans_def only_removes_def)
next
  case (Inr names)
  with assms have "sweep ctx dir live before names fs = (r, fs')" by (simp add: Filesystem_SweepOrphans_def)
  from sweep_removes [OF this] show ?thesis by (auto simp: only_removes_def orphan_def)
qed

section \<open>Properties\<close>

text \<open>
  C22: a lost session comes back only onto a validated replacement: when the controller makes a session active, its
  worker is one that registered for this session and this epoch, the restore has been acknowledged, the epoch is
  the current one and, for a rebuilt session, every job of the rebuild plan at this epoch has succeeded.
\<close>

theorem recovery_activates_validated:
  assumes "recover_session (ctl\<lparr>rv_Tokens := Some (MintBootstrapToken env ttl)\<rparr>) boxes workers tm s w = (r, w')"
    and "s_ID s \<notin> active_sessions (fst w)" and "s_ID s \<in> active_sessions (fst w')" and "s_ID s \<noteq> ''''"
  shows "\<exists>x \<in> set workers. w_ReservedSessionID x = s_ID s \<and> w_SessionEpoch x = s_Epoch s
    \<and> (\<exists>v \<in> set (db_sessions (fst w')). s_ID v = s_ID s \<and> s_State v = SessionActive \<and> s_Epoch v = s_Epoch s \<and> s_WorkerID v = w_ID x \<and> s_RestoreAcknowledged v)
    \<and> (s_RecoveryPolicy s = RecoveryRebuild \<longrightarrow> (\<forall>j \<in> set (db_jobs (fst w')). j_SessionID j = s_ID s
        \<and> has_prefix (j_ID j) (rebuild_prefix (s_ID s) (s_Epoch s)) \<longrightarrow> j_State j = JobSucceeded))"
proof -
  let ?ctl = "ctl\<lparr>rv_Tokens := Some (MintBootstrapToken env ttl)\<rparr>"
  have not_calm: "\<not> calm w w'" using assms(2,3) by (auto simp: calm_def)
  obtain x where x: "find (\<lambda>x. w_ReservedSessionID x = s_ID s \<and> w_SessionEpoch x = s_Epoch s) workers = Some x"
    using recovery_app.calm_recover [of s workers w env ttl ctl boxes tm] assms(1) not_calm by (metis option.exhaust snd_conv)
  then have found: "x \<in> set workers" "w_ReservedSessionID x = s_ID s" "w_SessionEpoch x = s_Epoch s" by (auto simp: find_Some_iff)
  let ?ready = "if s_RecoveryPolicy s = RecoveryRebuild then rebuildValidated ?ctl s x tm w else (Inr (s_RestoreAcknowledged s), w)"
  obtain b w1 where ready: "?ready = (b, w1)" by (metis surj_pair)
  have w1: "calm w w1" using calm_rebuildValidated [of w ?ctl s x tm] ready calm.pass_refl [of w] by (auto split: if_splits)
  have run: "sbind ?ready (\<lambda>ready w1. if \<not> ready then (Inr (), w1)
      else tolerate (StoreErr ErrConflict) (on_store (CompleteRecovery (s_ID s) (s_Epoch s) (w_ID x) (w_SandboxID x) tm)) w1) = (r, w')"
    using assms(1) x by (simp add: recover_session_def adopt_def)
  obtain y where y: "b = Inr y" using run ready w1 not_calm by (cases b) (auto simp: sbind_def)
  have True: "y" using run ready w1 not_calm y by (auto simp: sbind_def split: if_splits)
  let ?complete = "CompleteRecovery (s_ID s) (s_Epoch s) (w_ID x) (w_SandboxID x) tm (fst w1)"
  have "fst w' = snd ?complete"
    using run ready y True by (cases ?complete; cases "fst ?complete") (auto simp: sbind_def tolerate_def on_store_def split_def split: if_splits)
  moreover have "s_ID s \<notin> active_sessions (fst w1)" using w1 assms(2) by (auto simp: calm_def)
  ultimately have active: "db_jobs (fst w') = db_jobs (fst w1)"
    "\<exists>v \<in> set (db_sessions (fst w')). s_ID v = s_ID s \<and> s_State v = SessionActive \<and> s_Epoch v = s_Epoch s \<and> s_WorkerID v = w_ID x \<and> s_RestoreAcknowledged v"
    using CompleteRecovery_activates [of "s_ID s" "s_Epoch s" "w_ID x" "w_SandboxID x" tm "fst w1" "fst ?complete" "fst w'"] assms(3) by auto
  have "\<forall>j \<in> set (db_jobs (fst w')). j_SessionID j = s_ID s \<and> has_prefix (j_ID j) (rebuild_prefix (s_ID s) (s_Epoch s)) \<longrightarrow> j_State j = JobSucceeded"
    if "s_RecoveryPolicy s = RecoveryRebuild"
    using rebuildValidated_ready [of ?ctl s x tm w w1] ready y True that assms(4) active(1) by simp
  with found active(2) show ?thesis by blast
qed

text \<open>
  The collection never removes the file of a checkpoint that stays in the catalogue: whatever it deletes and
  sweeps, and even if it fails half way, a catalogued checkpoint keeps its file; and when it succeeds, the files of
  the checkpoints it took from the catalogue are gone.
\<close>

theorem checkpoint_gc_keeps_catalogued:
  assumes "reachable s" and "CheckpointGC_run [(name, Filesystem sha ctx dir)] retain onClose tm (s, fs) = (r, (s', fs'))"
    and "\<forall>a \<in> set (db_checkpoints s). \<forall>b \<in> set (db_checkpoints s). c_Location a = c_Location b \<and> c_Location a \<noteq> '''' \<longrightarrow> a = b"
    and "c \<in> set (db_checkpoints s)" and "c_Location c \<noteq> ''''"
  shows "(c \<in> set (db_checkpoints s') \<longrightarrow> map_of (fs_files fs') (c_Location c) = map_of (fs_files fs) (c_Location c))
    \<and> (c \<notin> set (db_checkpoints s') \<and> c_Adapter c = name \<and> r = Inr () \<longrightarrow> map_of (fs_files fs') (c_Location c) = None)"
proof -
  let ?adapters = "[(name, Filesystem sha ctx dir)]"
  obtain out s1 where gc: "GarbageCollectCheckpoints tm retain onClose s = (Inr out, s1)"
    by (simp add: GarbageCollectCheckpoints_def GarbageCollectCheckpoints_tx_def commit_def Let_def)
  then have del: "db_checkpoints s1 = del_where (\<lambda>c. c_ID c \<in> c_ID ` set out) (db_checkpoints s)"
    and out: "set out \<subseteq> set (db_checkpoints s)"
  proof -
    show "db_checkpoints s1 = del_where (\<lambda>c. c_ID c \<in> c_ID ` set out) (db_checkpoints s)"
      using gc by (auto simp: GarbageCollectCheckpoints_def GarbageCollectCheckpoints_tx_def commit_def Let_def update_sessions_def)
    have "set (map fst (gc_rows s)) \<subseteq> set (db_checkpoints s)" unfolding gc_rows_fst by auto
    moreover have "\<exists>n. out = gc_scan tm n onClose (gc_rows s) (\<lambda>_. 0)"
      using gc by (auto simp: GarbageCollectCheckpoints_def GarbageCollectCheckpoints_tx_def commit_def Let_def)
    ultimately show "set out \<subseteq> set (db_checkpoints s)" using gc_scan_reason by fastforce
  qed
  have keys: "distinct (map c_ID (db_checkpoints s))" using reachable_infra_keys [OF assms(1)] by (simp add: infra_keys_def)
  have stays: "c \<in> set (db_checkpoints s1) \<longleftrightarrow> c \<notin> set out"
    using assms(4) out distinct_key_eq [OF keys] by (auto simp: del del_where_def)
  obtain x t fs1 where items: "foldS (delete_checkpoint ?adapters) out (s1, fs) = (x, (t, fs1))" by (metis surj_pair)
  note deleted = delete_items [OF items]
  define live where "live = (\<lambda>loc. \<exists>cp \<in> set (ListAllCheckpoints s1). c_Location cp \<noteq> '''' \<and> c_Location cp = loc)"
  obtain y fs2 where sweep: "Filesystem_SweepOrphans ctx dir live (tm - hour) fs1 = (y, fs2)" by (metis surj_pair)
  have fin: "s' = s1 \<and> (fs' = fs1 \<and> r \<noteq> Inr () \<and> x \<noteq> Inr () \<or> fs' = fs2 \<and> x = Inr ())"
    using assms(2) items deleted sweep
    by (cases x; cases y) (auto simp: CheckpointGC_run_def on_store_def gc sbind_def on_adapter_def Filesystem_def live_def [symmetric] Let_def)
  have swept: "only_removes {p. \<not> live p} fs1 fs2" by (rule sweep_only_removes [OF sweep])
  show ?thesis
  proof (cases "c \<in> set out")
    case True
    then have "c_Adapter c = name \<Longrightarrow> x = Inr () \<Longrightarrow> map_of (fs_files fs2) (c_Location c) = None"
      using deleted only_removes_None [OF swept] by blast
    with True stays fin show ?thesis by auto
  next
    case False
    have "c_Location c \<notin> c_Location ` set out" using False out assms(3-5) by (auto simp: image_iff)
    then have "map_of (fs_files fs1) (c_Location c) = map_of (fs_files fs) (c_Location c)" using deleted by (auto simp: only_removes_def)
    moreover have "live (c_Location c)" using False stays assms(5) by (auto simp: live_def ListAllCheckpoints_def)
    then have "map_of (fs_files fs2) (c_Location c) = map_of (fs_files fs1) (c_Location c)" using swept by (auto simp: only_removes_def)
    ultimately show ?thesis using fin False stays by auto
  qed
qed

text \<open>A catalogue of two checkpoints over the files of an adapter.\<close>

definition demo_catalogue :: DB where
  "demo_catalogue = snd (CompleteCheckpoint ''k2'' ''s'' 1 ''/cp/k2.checkpoint'' ''sum'' 1 (snd (CreateCheckpoint
     (zero_Checkpoint\<lparr>c_ID := ''k2'', c_SessionID := ''s'', c_Epoch := 1, c_Adapter := ''filesystem'', c_ExpiresAt := demo_epoch + 5\<rparr>)
     (snd (CompleteCheckpoint ''k1'' ''s'' 1 ''/cp/k1.checkpoint'' ''sum'' 1 (snd (CreateCheckpoint
     (zero_Checkpoint\<lparr>c_ID := ''k1'', c_SessionID := ''s'', c_Epoch := 1, c_Adapter := ''filesystem'', c_ExpiresAt := demo_epoch + 5\<rparr>) demo_bound)))))))"

definition demo_files :: FS where
  "demo_files = \<lparr>fs_files = [(''/cp/k1.checkpoint'', \<lparr>f_data = ''1'', f_mtime = demo_epoch\<rparr>), (''/cp/k2.checkpoint'', \<lparr>f_data = ''2'', f_mtime = demo_epoch\<rparr>)],
     fs_deny = (\<lambda>_. False), fs_now = demo_epoch\<rparr>"

lemma demo_catalogue_reachable: "reachable demo_catalogue"
  unfolding demo_catalogue_def
  by (rule reachable.step [OF reachable.step [OF reachable.step [OF reachable.step [OF demo_bound_reachable store_step.CreateCheckpoint]
        store_step.CompleteCheckpoint] store_step.CreateCheckpoint] store_step.CompleteCheckpoint])

theorem checkpoint_gc_keeps_catalogued_witness:
  "\<exists>r s' fs'. CheckpointGC_run [(''filesystem'', Filesystem (take 1) None ''/cp'')] 1 False (demo_epoch + 2 * hour) (demo_catalogue, demo_files) = (r, (s', fs'))
    \<and> map c_ID (db_checkpoints s') = [''k2''] \<and> map_of (fs_files fs') ''/cp/k2.checkpoint'' = map_of (fs_files demo_files) ''/cp/k2.checkpoint''"
proof -
  let ?run = "CheckpointGC_run [(''filesystem'', Filesystem (take 1) None ''/cp'')] 1 False (demo_epoch + 2 * hour) (demo_catalogue, demo_files)"
  obtain r s' fs' where run: "?run = (r, (s', fs'))" by (metis surj_pair)
  have "map (\<lambda>c. (c_ID c, c_Location c)) (db_checkpoints demo_catalogue) = [(''k1'', ''/cp/k1.checkpoint''), (''k2'', ''/cp/k2.checkpoint'')]" by code_simp
  then obtain c1 c where cs: "db_checkpoints demo_catalogue = [c1, c]" "c_Location c1 = ''/cp/k1.checkpoint''" "c_Location c = ''/cp/k2.checkpoint''" "c_ID c = ''k2''" "c_ID c1 = ''k1''"
    by (auto simp: map_eq_Cons_conv)
  have "map c_ID (db_checkpoints (fst (snd ?run))) = [''k2''] \<and> last (db_checkpoints demo_catalogue) \<in> set (db_checkpoints (fst (snd ?run)))" by code_simp
  then have "map c_ID (db_checkpoints s') = [''k2'']" "c \<in> set (db_checkpoints s')" using run cs(1) by simp_all
  with checkpoint_gc_keeps_catalogued [OF demo_catalogue_reachable run, of c] cs run show ?thesis by auto
qed

text \<open>A session whose replacement has registered and acknowledged its restore.\<close>

definition demo_recovering :: DB where
  "demo_recovering = snd (AcknowledgeRecovery ''s'' 2 ''w2'' (demo_epoch + 3) (snd (UpsertWorker (demo_epoch + 2)
     (zero_Worker\<lparr>w_ID := ''w2'', w_SandboxID := ''b2'', w_ReservedSessionID := ''s'', w_SessionEpoch := 2\<rparr>)
     (snd (RequestRecovery ''s'' (demo_epoch + 2) demo_bound)))))"

definition demo_controller :: "FS RecoveryController" where
  "demo_controller = \<lparr>rv_Providers = [], rv_Pools = [], rv_Checkpoints = [], rv_Tokens = None,
     rv_Config = \<lparr>rcv_BackoffBase = 0, rcv_BackoffMax = 0, rcv_MaxAttempts = 0\<rparr>, rv_text = (\<lambda>_. ''''), rv_wall = demo_epoch\<rparr>"

definition demo_run_env :: "FS Env" where
  "demo_run_env = \<lparr>ev_rand = (\<lambda>n p. (Inr (replicate n (CHR ''0'')), p)), ev_sha256 = take 1, ev_json = (\<lambda>_. ''{}''),
     ev_clock = (\<lambda>_. demo_epoch), ev_wall = demo_epoch\<rparr>"

theorem recovery_activates_validated_witness:
  "\<exists>x \<in> set (db_workers demo_recovering). w_ReservedSessionID x = ''s'' \<and> w_SessionEpoch x = 2"
proof -
  let ?ctl = "demo_controller\<lparr>rv_Tokens := Some (MintBootstrapToken demo_run_env 5)\<rparr>"
  let ?s = "hd (db_sessions demo_recovering)" and ?w = "(demo_recovering, demo_files)"
  let ?run = "recover_session ?ctl [] (db_workers demo_recovering) (demo_epoch + 4) ?s ?w"
  obtain r w' where run: "?run = (r, w')" by (metis surj_pair)
  have "map (\<lambda>v. (s_ID v, s_Epoch v, s_State v)) (db_sessions demo_recovering) = [(''s'', 2, SessionRecovering)]" by code_simp
  then obtain v where v: "db_sessions demo_recovering = [v]" "s_ID v = ''s''" "s_Epoch v = 2" "s_State v = SessionRecovering" by auto
  have "map (\<lambda>v. (s_ID v, s_State v)) (db_sessions (fst (snd ?run))) = [(''s'', SessionActive)]" by code_simp
  with run have "map (\<lambda>v. (s_ID v, s_State v)) (db_sessions (fst w')) = [(''s'', SessionActive)]" by simp
  then have "''s'' \<in> active_sessions (fst w')" by (auto simp: active_sessions_def map_eq_Cons_conv)
  moreover have "''s'' \<notin> active_sessions (fst ?w)" using v by (auto simp: active_sessions_def)
  ultimately show ?thesis using recovery_activates_validated [OF run] v by auto
qed

text \<open>
  The delay before a recovery is tried again doubles up to the ceiling as long as the doubling fits 64 bits; from
  the thirty-fifth attempt on, with a base of one second, it does not, and the next attempt is due in the past.
\<close>

theorem recovery_delay_doubles:
  assumes "0 < rcv_BackoffBase cfg" and "0 < rcv_BackoffMax cfg" and "1 \<le> attempts" and "2 ^ nat (attempts - 1) * rcv_BackoffBase cfg \<le> max_int64"
  shows "recovery_delay cfg attempts = min (rcv_BackoffMax cfg) (2 ^ nat (attempts - 1) * rcv_BackoffBase cfg)"
proof -
  let ?k = "nat (attempts - 1)"
  have "(2::int) ^ ?k \<le> 2 ^ ?k * rcv_BackoffBase cfg" using assms(1) by (simp add: mult_le_cancel_left1)
  also have "\<dots> < 2 ^ 63" using assms(4) by (simp add: max_int64_def)
  finally have "(2::int) ^ ?k < 2 ^ 63" .
  then have "?k < 63" by (meson linorder_not_less one_le_numeral power_increasing)
  moreover have "int64 (2 ^ ?k * rcv_BackoffBase cfg) = 2 ^ ?k * rcv_BackoffBase cfg"
    using assms(1,4) by (intro int64_id) (simp_all add: min_int64_def order_trans [of _ 0])
  ultimately show ?thesis using assms(1,2) by (simp add: recovery_delay_def pow2_int64_def Let_def min_def)
qed

theorem recovery_delay_overflows:
  "recovery_delay \<lparr>rcv_BackoffBase = second, rcv_BackoffMax = minute, rcv_MaxAttempts = 0\<rparr> 35 < 0"
  by (simp add: recovery_delay_def pow2_int64_def int64_def second_def minute_def Let_def)

end
