(* ===== verification/SR_Api.thy ===== *)
theory SR_Api
  imports SR_Recovery
begin

text \<open>
  The public half of \<^verbatim>\<open>internal/httpapi\<close>: the API value and its defaults, the responses, submission with
  its idempotency key, sessions, jobs, events, results and checkpoints of \<^verbatim>\<open>server.go\<close>.

  A handler is a pass over the database and the machine whose error is the reply of an early return.
  The wire format is a parameter: \<^verbatim>\<open>encoding/json\<close> turns the body of a request into the request record or an
  error text, and a reply carries the value that is encoded. Telemetry is left out; \<^verbatim>\<open>nil\<close> and empty slices and maps are one
  value.
\<close>

section \<open>Requests and replies\<close>

datatype Peer = NoIP | Loopback | Remote

record HttpRequest =
  hr_Method :: string
  hr_Path :: string
  hr_TLS :: bool
  hr_Peer :: Peer
  hr_Header :: strmap
  hr_Query :: strmap
  hr_ContentLength :: int
  hr_Body :: string

record RetryDTO =
  rd_MaxAttempts :: int
  rd_Backoff :: duration
  rd_MaxBackoff :: duration
  rd_MaxElapsed :: duration

record ConstraintsDTO =
  cn_Capabilities :: "string list"
  cn_Labels :: strmap
  cn_Upstream :: "string option"
  cn_Architecture :: string
  cn_Region :: string
  cn_ExecutorKind :: string
  cn_PreferredRegion :: string
  cn_PreferredSandbox :: string
  cn_PreferredProvider :: string
  cn_MaxCost :: "float64 option"

record SubmitJob =
  sj_IdempotencyKey :: string
  sj_Kind :: string
  sj_Payload :: string
  sj_Constraints :: ConstraintsDTO
  sj_TimeoutSeconds :: int
  sj_Retry :: RetryDTO
  sj_SessionID :: string
  sj_DependsOn :: "string list"

record JobDTO =
  jd_ID :: string
  jd_IdempotencyKey :: string
  jd_Kind :: string
  jd_Payload :: string
  jd_State :: JobState
  jd_Constraints :: ConstraintsDTO
  jd_TimeoutSeconds :: int
  jd_TimeoutAt :: "time option"
  jd_Retry :: RetryDTO
  jd_CreatedAt :: time
  jd_UpdatedAt :: time
  jd_SessionID :: string
  jd_DependsOn :: "string list"

record CreateSessionReq =
  cs_Pool :: string
  cs_Capabilities :: "string list"
  cs_Labels :: strmap
  cs_PreferredProvider :: string
  cs_IdleTTL :: duration
  cs_MaxLifetime :: duration
  cs_RecoveryPolicy :: RecoveryPolicy
  cs_CheckpointMode :: CheckpointMode
  cs_RebuildPlan :: "RebuildStep list"

record SessionDTO =
  sd_ID :: string
  sd_Pool :: string
  sd_Capabilities :: Capabilities
  sd_PreferredProvider :: string
  sd_Labels :: strmap
  sd_SandboxID :: string
  sd_WorkerID :: string
  sd_State :: SessionState
  sd_IdleTTL :: duration
  sd_MaxLifetime :: duration
  sd_CreatedAt :: time
  sd_LastActivity :: time
  sd_IdleExpiresAt :: "time option"
  sd_ClosedAt :: "time option"
  sd_Failure :: "Failure option"
  sd_RecoveryPolicy :: RecoveryPolicy
  sd_CheckpointMode :: CheckpointMode
  sd_RebuildPlan :: "RebuildStep list"
  sd_Epoch :: nat
  sd_RecoveryState :: RecoveryState
  sd_RecoveryAttempts :: int
  sd_RecoveryAfter :: "time option"
  sd_RecoveryError :: string
  sd_LatestCheckpointID :: string
  sd_RestoreAcknowledged :: bool

record AttemptDTO =
  ad_ID :: string
  ad_Number :: nat
  ad_State :: AttemptState
  ad_WorkerID :: string
  ad_SandboxID :: string
  ad_Failure :: "Failure option"
  ad_StartedAt :: "time option"
  ad_EndedAt :: "time option"

record ResultDTO =
  rt_JobID :: string
  rt_AttemptID :: string
  rt_StatusCode :: int
  rt_Data :: string
  rt_Metadata :: strmap
  rt_CreatedAt :: time

record WorkerDTO =
  wd_ID :: string
  wd_Capabilities :: Capabilities
  wd_LastSeenAt :: time

record SandboxDTO =
  bd_ID :: string
  bd_WorkerID :: string
  bd_Capabilities :: Capabilities
  bd_State :: string
  bd_CreatedAt :: time

record AdminStatus =
  as_depth :: nat
  as_oldest :: "time option"
  as_workers :: "(string \<times> nat) list"
  as_sandboxes :: "(string \<times> nat) list"
  as_upstreams :: "(string \<times> (string \<times> nat) list) list"

record Registered =
  rg_WorkerID :: WorkerID
  rg_SessionID :: string
  rg_SessionToken :: string
  rg_HeartbeatSeconds :: int
  rg_LeaseSeconds :: int
  rg_Checkpoint :: string
  rg_RecoverySession :: SessionID
  rg_RecoveryEpoch :: nat

record Beat =
  bt_HeartbeatSeconds :: int
  bt_LeaseSeconds :: int
  bt_ServerTime :: time
  bt_SessionExpiresAt :: time
  bt_Cancel :: "AttemptID list"

record RegisterReq =
  rr_BootstrapToken :: string
  rr_InstanceID :: string
  rr_SandboxID :: SandboxID
  rr_SandboxProvider :: string
  rr_WorkerVersion :: string
  rr_ProtocolVersion :: string
  rr_Capabilities :: Capabilities
  rr_MaxConcurrency :: int
  rr_SandboxMetadata :: strmap

record AckReq =
  aq_SessionID :: SessionID
  aq_Epoch :: nat
  aq_Error :: string

record HeartbeatReq =
  hb_ActiveAttempts :: "AttemptID list"
  hb_AvailableSlots :: int
  hb_SandboxMetadata :: strmap
  hb_Health :: strmap
  hb_Upstreams :: "(string \<times> string) list"

record ClaimReq =
  cq_SandboxID :: SandboxID
  cq_WaitSeconds :: int

record EventReq =
  eq_Type :: string
  eq_Data :: strmap
  eq_WorkerSequence :: nat
  eq_IdempotencyKey :: string

record ResultReq =
  rq_StatusCode :: int
  rq_Data :: string
  rq_Metadata :: strmap

text \<open>
  What \<^verbatim>\<open>encoding/json\<close> makes of a body, of which at most the given number of bytes is read: the decoded
  request or the text of the error. \<open>dc_value\<close> is a canonical form of a JSON text: two texts have the same one
  if they decode to deeply equal values.
\<close>

record Codec =
  dc_SubmitJob :: "int \<Rightarrow> string \<Rightarrow> string + SubmitJob"
  dc_CreateSession :: "int \<Rightarrow> string \<Rightarrow> string + CreateSessionReq"
  dc_SaveCheckpoint :: "int \<Rightarrow> string \<Rightarrow> string + string \<times> nat"
  dc_Register :: "int \<Rightarrow> string \<Rightarrow> string + RegisterReq"
  dc_Ack :: "int \<Rightarrow> string \<Rightarrow> string + AckReq"
  dc_Heartbeat :: "int \<Rightarrow> string \<Rightarrow> string + HeartbeatReq"
  dc_Claim :: "int \<Rightarrow> string \<Rightarrow> string + ClaimReq"
  dc_Renew :: "int \<Rightarrow> string \<Rightarrow> string + int"
  dc_Event :: "int \<Rightarrow> string \<Rightarrow> string + EventReq"
  dc_Result :: "int \<Rightarrow> string \<Rightarrow> string + ResultReq"
  dc_Complete :: "int \<Rightarrow> string \<Rightarrow> string + string"
  dc_Failure :: "int \<Rightarrow> string \<Rightarrow> string + Failure"
  dc_Upstream :: "string \<Rightarrow> UpstreamState option"
  dc_String :: "string \<Rightarrow> string option"
  dc_valid :: "string \<Rightarrow> bool"
  dc_value :: "string \<Rightarrow> string option"

text \<open>The value under \<^verbatim>\<open>data\<close> of a reply, or its error. \<open>Dropped\<close> is a connection closed without one.\<close>

datatype Body =
    NoContent | ErrorB string string | StatusB string | BuildInfo | Metrics
  | JobB JobDTO | JobsB "JobDTO list" | SessionB SessionDTO | AttemptsB "AttemptDTO list" | EventB Event | EventsB "Event list"
  | ResultB ResultDTO | CheckpointB Checkpoint | CheckpointsB "Checkpoint list" | RecoveryEventsB "RecoveryEvent list"
  | WorkersB "WorkerDTO list" | SandboxesB "SandboxDTO list" | AdminB AdminStatus
  | RegisteredB Registered | BeatB Beat | ClaimedB JobDTO AttemptDTO LeaseID time | RenewedB time

datatype Reply = Response int Body | Dropped

definition fail_reply :: "int \<Rightarrow> string \<Rightarrow> string \<Rightarrow> Reply" where
  "fail_reply status code msg = Response status (ErrorB code msg)"

definition internal_reply :: Reply where
  "internal_reply = fail_reply 500 ''internal_error'' ''internal server error''"

definition jobError :: "CtlError \<Rightarrow> Reply" where
  "jobError e = (if e = StoreErr ErrNotFound then fail_reply 404 ''job_not_found'' ''job not found'' else internal_reply)"

definition attemptStoreError :: "CtlError \<Rightarrow> Reply" where
  "attemptStoreError e =
    (if e = StoreErr ErrNotFound then fail_reply 404 ''attempt_not_found'' ''attempt not found or not owned by worker''
     else if e = StoreErr ErrConflict then fail_reply 409 ''attempt_conflict'' ''attempt is no longer active''
     else internal_reply)"

section \<open>The API value\<close>

record 'p ArtifactStore =
  ar_Put :: "string \<Rightarrow> string \<Rightarrow> 'p \<Rightarrow> (FsError + unit) \<times> 'p"
  ar_Get :: "string \<Rightarrow> 'p \<Rightarrow> (FsError + string) \<times> 'p"

record 'p API =
  api_timeout :: duration
  api_heartbeatInterval :: duration
  api_leaseDuration :: duration
  api_workerTimeout :: duration
  api_maxClaimWait :: duration
  api_bootstrapTokenTTL :: duration
  api_workerSessionTTL :: duration
  api_scheduler :: "Request \<Rightarrow> Job list"
  api_artifacts :: "'p ArtifactStore option"
  api_inlineResultBytes :: int
  api_maxResultBytes :: int
  api_maxEvents :: int
  api_pools :: "string list"
  api_publicTokenHash :: "string option"
  api_requireTLS :: bool
  api_insecureLocalMode :: bool
  api_checkpoints :: "'p Adapter option"
  api_checkpointTTL :: duration
  api_recoveryBackoff :: duration
  api_providers :: "'p Provider Registry option"

record 'p ApiConfig =
  ac_RequestTimeout :: duration
  ac_HeartbeatInterval :: duration
  ac_LeaseDuration :: duration
  ac_WorkerTimeout :: duration
  ac_MaxClaimWait :: duration
  ac_BootstrapTokenTTL :: duration
  ac_WorkerSessionTTL :: duration
  ac_Scheduler :: "(Request \<Rightarrow> Job list) option"
  ac_ArtifactStore :: "'p ArtifactStore option"
  ac_Pools :: "string list"
  ac_PublicAuthToken :: string
  ac_RequireTLS :: bool
  ac_InsecureLocalMode :: bool
  ac_InlineResultBytes :: int
  ac_MaxResultBytes :: int
  ac_MaxEvents :: int
  ac_CheckpointAdapter :: "'p Adapter option"
  ac_CheckpointTTL :: duration
  ac_RecoveryBackoff :: duration
  ac_Providers :: "'p Provider Registry option"

text \<open>The pools are their names. \<open>default_rank\<close> is the policy \<^verbatim>\<open>scheduler.New\<close> builds from an empty configuration.\<close>

definition positive_or :: "int \<Rightarrow> int \<Rightarrow> int" where
  "positive_or dflt v = (if v \<le> 0 then dflt else v)"

definition api_New :: "(string \<Rightarrow> string) \<Rightarrow> (Request \<Rightarrow> Job list) \<Rightarrow> 'p ApiConfig \<Rightarrow> 'p API" where
  "api_New sha default_rank c =
    (let t = positive_or (30 * second) (ac_RequestTimeout c);
         heartbeat = positive_or (10 * second) (ac_HeartbeatInterval c);
         wait0 = (if ac_MaxClaimWait c \<le> 0 \<or> ac_MaxClaimWait c \<ge> t then t - second else ac_MaxClaimWait c)
     in \<lparr>api_timeout = t, api_heartbeatInterval = heartbeat,
         api_leaseDuration = positive_or (30 * second) (ac_LeaseDuration c),
         api_workerTimeout = positive_or (int64 (3 * heartbeat)) (ac_WorkerTimeout c),
         api_maxClaimWait = positive_or second wait0,
         api_bootstrapTokenTTL = positive_or (5 * minute) (ac_BootstrapTokenTTL c),
         api_workerSessionTTL = positive_or (5 * minute) (ac_WorkerSessionTTL c),
         api_scheduler = (case ac_Scheduler c of None \<Rightarrow> default_rank | Some policy \<Rightarrow> policy),
         api_artifacts = ac_ArtifactStore c,
         api_inlineResultBytes = positive_or 65536 (ac_InlineResultBytes c),
         api_maxResultBytes = positive_or 8388608 (ac_MaxResultBytes c),
         api_maxEvents = positive_or 100 (ac_MaxEvents c),
         api_pools = ac_Pools c,
         api_publicTokenHash = (if ac_PublicAuthToken c = '''' then None else Some (sha (ac_PublicAuthToken c))),
         api_requireTLS = ac_RequireTLS c, api_insecureLocalMode = ac_InsecureLocalMode c,
         api_checkpoints = ac_CheckpointAdapter c, api_checkpointTTL = ac_CheckpointTTL c,
         api_recoveryBackoff = positive_or second (ac_RecoveryBackoff c), api_providers = ac_Providers c\<rparr>)"

section \<open>Handlers\<close>

record 'p ApiEnv = "'p Env" +
  ap_now :: "'p \<Rightarrow> time \<times> 'p"
  ap_codec :: Codec
  ap_text :: "CtlError \<Rightarrow> string"

text \<open>An error of a call becomes the reply the handler returns with.\<close>

definition or_reply :: "('e \<Rightarrow> Reply) \<Rightarrow> ('e + 'a) \<times> 's \<Rightarrow> (Reply + 'a) \<times> 's" where
  "or_reply f m = (case m of (Inl e, s) \<Rightarrow> (Inl (f e), s) | (Inr x, s) \<Rightarrow> (Inr x, s))"

definition replying :: "(Reply + Reply) \<times> 's \<Rightarrow> Reply \<times> 's" where
  "replying m = (case m of (Inl r, s) \<Rightarrow> (r, s) | (Inr r, s) \<Rightarrow> (r, s))"

definition decoded :: "string + 'a \<Rightarrow> (Reply, 'a, 's) pass" where
  "decoded m w = (case m of Inl e \<Rightarrow> (Inl (fail_reply 400 ''invalid_request'' e), w) | Inr x \<Rightarrow> (Inr x, w))"

text \<open>Every reading of the clock is a call; an identifier that cannot be drawn is a panic, which closes the connection.\<close>

definition api_now :: "'p ApiEnv \<Rightarrow> ('e, time, 'p plane) pass" where
  "api_now env = (\<lambda>(s, x). case ap_now env x of (t, x') \<Rightarrow> (Inr t, (s, x')))"

definition api_id :: "'p ApiEnv \<Rightarrow> string \<Rightarrow> (Reply, string, 'p plane) pass" where
  "api_id env p w = or_reply (\<lambda>_. Dropped) (newID env p w)"

definition query :: "(DB \<Rightarrow> StoreError + 'a) \<Rightarrow> (CtlError, 'a, 'p plane) pass" where
  "query f = on_store (\<lambda>s. (f s, s))"

section \<open>Data transfer objects\<close>

definition go_div :: "int \<Rightarrow> int \<Rightarrow> int" where
  "go_div a b = sgn a * sgn b * (\<bar>a\<bar> div \<bar>b\<bar>)"

definition nonzero :: "time \<Rightarrow> time option" where
  "nonzero t = (if t = 0 then None else Some t)"

definition timeoutSeconds :: "('x JobCore_scheme) \<Rightarrow> int" where
  "timeoutSeconds j = (if j_TimeoutAt j = 0 then 0 else go_div (time_sub (j_TimeoutAt j) (j_CreatedAt j)) second)"

definition constraintsDTO :: "RoutingConstraints \<Rightarrow> ConstraintsDTO" where
  "constraintsDTO c = \<lparr>cn_Capabilities = rc_Capabilities c, cn_Labels = rc_Labels c,
     cn_Upstream = (if rc_RequiredUpstream c = '''' then None else Some (rc_RequiredUpstream c)),
     cn_Architecture = rc_Architecture c, cn_Region = rc_Region c, cn_ExecutorKind = rc_ExecutorKind c,
     cn_PreferredRegion = rc_PreferredRegion c, cn_PreferredSandbox = rc_PreferredSandbox c,
     cn_PreferredProvider = rc_PreferredProvider c, cn_MaxCost = rc_MaxCost c\<rparr>"

definition jobDTO :: "Job \<Rightarrow> JobDTO" where
  "jobDTO j = \<lparr>jd_ID = j_ID j, jd_IdempotencyKey = j_IdempotencyKey j, jd_Kind = j_Kind j, jd_Payload = j_Payload j,
     jd_State = j_State j, jd_Constraints = constraintsDTO (j_Constraints j), jd_TimeoutSeconds = timeoutSeconds j,
     jd_TimeoutAt = nonzero (j_TimeoutAt j),
     jd_Retry = \<lparr>rd_MaxAttempts = rp_MaxAttempts (j_RetryPolicy j), rd_Backoff = rp_Backoff (j_RetryPolicy j),
       rd_MaxBackoff = rp_MaxBackoff (j_RetryPolicy j), rd_MaxElapsed = rp_MaxElapsed (j_RetryPolicy j)\<rparr>,
     jd_CreatedAt = j_CreatedAt j, jd_UpdatedAt = j_UpdatedAt j, jd_SessionID = j_SessionID j, jd_DependsOn = j_DependsOn j\<rparr>"

definition attemptDTO :: "Attempt \<Rightarrow> AttemptDTO" where
  "attemptDTO a = \<lparr>ad_ID = at_ID a, ad_Number = at_Number a, ad_State = at_State a, ad_WorkerID = at_WorkerID a,
     ad_SandboxID = at_SandboxID a, ad_Failure = at_Failure a, ad_StartedAt = at_StartedAt a, ad_EndedAt = at_EndedAt a\<rparr>"

definition sessionDTO :: "Session \<Rightarrow> SessionDTO" where
  "sessionDTO v = \<lparr>sd_ID = s_ID v, sd_Pool = s_Pool v, sd_Capabilities = s_Capabilities v, sd_PreferredProvider = s_PreferredProvider v,
     sd_Labels = s_Labels v, sd_SandboxID = s_SandboxID v, sd_WorkerID = s_WorkerID v, sd_State = s_State v, sd_IdleTTL = s_IdleTTL v,
     sd_MaxLifetime = s_MaxLifetime v, sd_CreatedAt = s_CreatedAt v, sd_LastActivity = s_LastActivity v,
     sd_IdleExpiresAt = nonzero (s_IdleExpiresAt v), sd_ClosedAt = nonzero (s_ClosedAt v), sd_Failure = s_Failure v,
     sd_RecoveryPolicy = s_RecoveryPolicy v, sd_CheckpointMode = s_CheckpointMode v, sd_RebuildPlan = s_RebuildPlan v,
     sd_Epoch = s_Epoch v, sd_RecoveryState = s_RecoveryState v, sd_RecoveryAttempts = s_RecoveryAttempts v,
     sd_RecoveryAfter = nonzero (s_RecoveryAfter v), sd_RecoveryError = s_RecoveryError v,
     sd_LatestCheckpointID = s_LatestCheckpointID v, sd_RestoreAcknowledged = s_RestoreAcknowledged v\<rparr>"

section \<open>Submission\<close>

definition valid_submission :: "Codec \<Rightarrow> SubmitJob \<Rightarrow> bool" where
  "valid_submission c r \<longleftrightarrow> sj_IdempotencyKey r \<noteq> '''' \<and> sj_Kind r \<noteq> '''' \<and> sj_Payload r \<noteq> '''' \<and> dc_valid c (sj_Payload r)
     \<and> sj_TimeoutSeconds r \<ge> 0 \<and> rd_MaxAttempts (sj_Retry r) \<ge> 0 \<and> rd_Backoff (sj_Retry r) \<ge> 0
     \<and> rd_MaxBackoff (sj_Retry r) \<ge> 0 \<and> rd_MaxElapsed (sj_Retry r) \<ge> 0"

definition request_constraints :: "ConstraintsDTO \<Rightarrow> RoutingConstraints" where
  "request_constraints c = \<lparr>rc_Capabilities = cn_Capabilities c, rc_Labels = cn_Labels c, rc_Architecture = cn_Architecture c,
     rc_Region = cn_Region c, rc_ExecutorKind = cn_ExecutorKind c,
     rc_RequiredUpstream = (case cn_Upstream c of None \<Rightarrow> '''' | Some up \<Rightarrow> up),
     rc_PreferredRegion = cn_PreferredRegion c, rc_PreferredSandbox = cn_PreferredSandbox c,
     rc_PreferredProvider = cn_PreferredProvider c, rc_MaxCost = cn_MaxCost c\<rparr>"

definition requestJob :: "SubmitJob \<Rightarrow> time \<Rightarrow> JobID \<Rightarrow> Job" where
  "requestJob r now i = \<lparr>j_ID = i, j_IdempotencyKey = sj_IdempotencyKey r, j_Kind = sj_Kind r, j_Payload = sj_Payload r,
     j_State = JobQueued, j_Constraints = request_constraints (sj_Constraints r),
     j_RetryPolicy = \<lparr>rp_MaxAttempts = (if rd_MaxAttempts (sj_Retry r) = 0 then 1 else rd_MaxAttempts (sj_Retry r)),
       rp_Backoff = rd_Backoff (sj_Retry r), rp_MaxBackoff = rd_MaxBackoff (sj_Retry r), rp_MaxElapsed = rd_MaxElapsed (sj_Retry r)\<rparr>,
     j_TimeoutAt = (if sj_TimeoutSeconds r > 0 then now + int64 (sj_TimeoutSeconds r * second) else 0),
     j_SessionID = sj_SessionID r, j_DependsOn = sj_DependsOn r, j_CreatedAt = now, j_UpdatedAt = now,
     j_Attempts = [], j_Events = []\<rparr>"

text \<open>A job of a session inherits its capabilities, labels and provider.\<close>

definition inherit_session :: "Session \<Rightarrow> Job \<Rightarrow> Job" where
  "inherit_session v j = j\<lparr>j_Constraints := (j_Constraints j)
     \<lparr>rc_Capabilities := rc_Capabilities (j_Constraints j) @ cap_Capabilities (s_Capabilities v),
      rc_Labels := put_all (s_Labels v) (rc_Labels (j_Constraints j)),
      rc_PreferredProvider := (if rc_PreferredProvider (j_Constraints j) = '''' then s_PreferredProvider v
        else rc_PreferredProvider (j_Constraints j))\<rparr>\<rparr>"

text \<open>
  The deep comparisons of two submissions. A map is compared by its entries; a nil and an empty slice or map are one value
  here, so two submissions that differ only in giving an empty list or leaving it out count as the same.
\<close>

definition same_map :: "('k \<times> 'v) list \<Rightarrow> ('k \<times> 'v) list \<Rightarrow> bool" where
  "same_map m n \<longleftrightarrow> list_all (\<lambda>k. map_of m k = map_of n k) (map fst m @ map fst n)"

definition same_constraints :: "RoutingConstraints \<Rightarrow> RoutingConstraints \<Rightarrow> bool" where
  "same_constraints a b \<longleftrightarrow> same_map (rc_Labels a) (rc_Labels b) \<and> a\<lparr>rc_Labels := []\<rparr> = b\<lparr>rc_Labels := []\<rparr>"

definition sameSubmission :: "Codec \<Rightarrow> Job \<Rightarrow> Job \<Rightarrow> bool" where
  "sameSubmission c a b \<longleftrightarrow>
    (if dc_value c (j_Payload a) = None \<or> dc_value c (j_Payload b) = None then False
     else j_Kind a = j_Kind b \<and> dc_value c (j_Payload a) = dc_value c (j_Payload b)
       \<and> same_constraints (j_Constraints a) (j_Constraints b) \<and> j_RetryPolicy a = j_RetryPolicy b
       \<and> j_SessionID a = j_SessionID b \<and> j_DependsOn a = j_DependsOn b \<and> timeoutSeconds a = timeoutSeconds b)"

definition key_conflict :: Reply where
  "key_conflict = fail_reply 409 ''duplicate_idempotency_conflict'' ''idempotency key was already used for a different submission''"

definition candidate :: "Job \<Rightarrow> (Reply, Job, 'p plane) pass" where
  "candidate j w =
    (if j_SessionID j = '''' then (Inr j, w)
     else case GetSession (j_SessionID j) (fst w) of
       Inl _ \<Rightarrow> (Inl (fail_reply 400 ''invalid_request'' ''session not found''), w)
     | Inr v \<Rightarrow> (Inr (inherit_session v j), w))"

text \<open>An earlier submission under the key answers the request.\<close>

definition earlier_submission :: "Codec \<Rightarrow> Job \<Rightarrow> (Reply, unit, 'p plane) pass" where
  "earlier_submission c j w =
    (case GetJobByIdempotencyKey (j_IdempotencyKey j) (fst w) of
       Inr old \<Rightarrow> (Inl (if sameSubmission c old j then Response 200 (JobB (jobDTO old)) else key_conflict), w)
     | Inl e \<Rightarrow> if e = ErrNotFound then (Inr (), w) else (Inl internal_reply, w))"

definition submitError :: "'p ApiEnv \<Rightarrow> CtlError \<Rightarrow> Reply" where
  "submitError env e = (if e = StoreErr ErrConflict \<or> e = StoreErr ErrNotFound then fail_reply 400 ''invalid_request'' (ap_text env e) else internal_reply)"

text \<open>The second component says whether a waiting claim is woken.\<close>

definition submit :: "'p ApiEnv \<Rightarrow> HttpRequest \<Rightarrow> (Reply, Reply \<times> bool, 'p plane) pass" where
  "submit env r w =
    sbind (decoded (dc_SubmitJob (ap_codec env) 4194304 (hr_Body r)) w) (\<lambda>req w.
      if \<not> valid_submission (ap_codec env) req
      then (Inl (fail_reply 400 ''invalid_request'' ''idempotency_key, kind, valid payload, and non-negative timeout/retry values are required''), w)
      else
        sbind (api_now env w) (\<lambda>now w.
        sbind (api_id env ''job'' w) (\<lambda>i w.
        sbind (candidate (requestJob req now i) w) (\<lambda>j w.
        sbind (earlier_submission (ap_codec env) j w) (\<lambda>_ w.
        sbind (api_now env w) (\<lambda>created w.
        sbind (or_reply (submitError env) (on_store (CreateJob created j) w)) (\<lambda>got w.
          if j_ID got \<noteq> j_ID j \<and> \<not> sameSubmission (ap_codec env) got j then (Inl key_conflict, w)
          else (Inr (Response (if j_ID got \<noteq> j_ID j then 200 else 201) (JobB (jobDTO got)), j_ID got = j_ID j), w))))))))"

section \<open>Sessions\<close>

definition session_of :: "CreateSessionReq \<Rightarrow> time \<Rightarrow> SessionID \<Rightarrow> Session" where
  "session_of req n i =
    (let labels = AList.update ''smart-route.pool'' (cs_Pool req) (cs_Labels req)
     in zero_Session\<lparr>s_ID := i, s_Pool := cs_Pool req,
       s_Capabilities := zero_Capabilities\<lparr>cap_Capabilities := cs_Capabilities req, cap_Labels := labels\<rparr>,
       s_Labels := labels, s_PreferredProvider := cs_PreferredProvider req, s_IdleTTL := cs_IdleTTL req,
       s_MaxLifetime := cs_MaxLifetime req, s_CreatedAt := n, s_LastActivity := n, s_RecoveryPolicy := cs_RecoveryPolicy req,
       s_CheckpointMode := cs_CheckpointMode req, s_RebuildPlan := cs_RebuildPlan req\<rparr>)"

definition createSession :: "'p ApiEnv \<Rightarrow> 'p API \<Rightarrow> HttpRequest \<Rightarrow> (Reply, Reply, 'p plane) pass" where
  "createSession env api r w =
    (let bad = fail_reply 400 ''invalid_request'' ''pool and non-negative lifetimes are required'' in
     case dc_CreateSession (ap_codec env) 1048576 (hr_Body r) of
       Inl _ \<Rightarrow> (Inl bad, w)
     | Inr req \<Rightarrow>
         if cs_Pool req = '''' \<or> cs_IdleTTL req < 0 \<or> cs_MaxLifetime req < 0 then (Inl bad, w)
         else if cs_Pool req \<notin> set (api_pools api) then (Inl (fail_reply 400 ''invalid_request'' ''unknown pool''), w)
         else
           sbind (api_now env w) (\<lambda>n w.
           sbind (api_id env ''session'' w) (\<lambda>i w.
           sbind (api_now env w) (\<lambda>created w.
           sbind (or_reply (\<lambda>_. internal_reply) (on_store (CreateSession created (session_of req n i)) w)) (\<lambda>v w.
             (Inr (Response 201 (SessionB (sessionDTO v))), w))))))"

section \<open>Checkpoints\<close>

text \<open>With the provider's strategy the provider's snapshot replaces the posted bytes.\<close>

definition checkpoint_data :: "'p API \<Rightarrow> 'p Adapter \<Rightarrow> Session \<Rightarrow> string \<Rightarrow> (CtlError, string, 'p plane) pass" where
  "checkpoint_data api adapter v data w =
    (if ad_Strategy adapter \<noteq> StrategyProviderSnapshot then (Inr data, w)
     else case api_providers api of
       None \<Rightarrow> (Inl (CtlErr ''provider snapshot strategy requires an active sandbox provider''), w)
     | Some registry \<Rightarrow>
         if s_SandboxID v = '''' then (Inl (CtlErr ''provider snapshot strategy requires an active sandbox provider''), w)
         else
           sbind (query (getSandbox (s_SandboxID v)) w) (\<lambda>box w.
           sbind (resolve registry (b_Provider box) w) (\<lambda>provider w.
             case pv_CreateSnapshot provider of
               None \<Rightarrow> (Inl (CtlErr (''provider '' @ b_Provider box @ '' does not support native snapshots'')), w)
             | Some snapshot \<Rightarrow> on_provider (snapshot (s_SandboxID v)) w)))"

definition store_checkpoint :: "'p ApiEnv \<Rightarrow> 'p Adapter \<Rightarrow> Checkpoint \<Rightarrow> string \<Rightarrow> (CtlError, Checkpoint, 'p plane) pass" where
  "store_checkpoint env adapter cp data w =
    sbind (on_store (CreateCheckpoint cp) w) (\<lambda>_ w.
      case on_adapter (ad_Save adapter cp \<lparr>rd_data = data, rd_err = None\<rparr>) w of
        (Inl e, w) \<Rightarrow> (Inl e, snd (on_store (MarkCheckpoint (c_ID cp) ''partial'' (ap_text env e)) w))
      | (Inr (loc, checksum, bytes), w) \<Rightarrow>
          (let saved = cp\<lparr>c_Location := loc, c_Checksum := checksum, c_Size := bytes\<rparr> in
           case on_store (CompleteCheckpoint (c_ID cp) (c_SessionID cp) (c_Epoch cp) loc checksum bytes) w of
             (Inl e, w) \<Rightarrow> (Inl e, snd (on_adapter (ad_Delete adapter saved) w))
           | (Inr _, w) \<Rightarrow> (Inr (saved\<lparr>c_State := ''ready''\<rparr>), w)))"

text \<open>A panic of \<^verbatim>\<open>newID\<close> inside the function, and what the handlers make of its errors.\<close>

definition panicked :: CtlError where
  "panicked = CtlErr ''panic''"

definition unless_panic :: "(CtlError \<Rightarrow> Reply) \<Rightarrow> CtlError \<Rightarrow> Reply" where
  "unless_panic f e = (if e = panicked then Dropped else f e)"

definition checkpoint_id :: "'p ApiEnv \<Rightarrow> (CtlError, string, 'p plane) pass" where
  "checkpoint_id env w = (case newID env ''checkpoint'' w of (Inl _, w) \<Rightarrow> (Inl panicked, w) | (Inr k, w) \<Rightarrow> (Inr k, w))"

definition saveCheckpoint ::
    "'p ApiEnv \<Rightarrow> 'p API \<Rightarrow> SessionID \<Rightarrow> nat \<Rightarrow> string \<Rightarrow> time \<Rightarrow> (CtlError, Checkpoint, 'p plane) pass" where
  "saveCheckpoint env api i epoch data tm w =
    (case api_checkpoints api of
       None \<Rightarrow> (Inl (CtlErr ''checkpoint adapter is not configured''), w)
     | Some adapter \<Rightarrow>
         sbind (query (GetSession i) w) (\<lambda>v w.
           if s_RecoveryPolicy v \<noteq> RecoveryCheckpoint \<or> s_State v \<noteq> SessionActive \<or> epoch \<noteq> s_Epoch v
           then (Inl (StoreErr ErrConflict), w)
           else
             sbind (checkpoint_data api adapter v data w) (\<lambda>bytes w.
             sbind (checkpoint_id env w) (\<lambda>k w.
               store_checkpoint env adapter (zero_Checkpoint\<lparr>c_ID := k, c_SessionID := i, c_Epoch := s_Epoch v, c_Adapter := ad_Name adapter,
                 c_State := ''creating'', c_CreatedAt := tm, c_ExpiresAt := (if api_checkpointTTL api > 0 then tm + api_checkpointTTL api else 0)\<rparr>) bytes w))))"

definition sessionRoute ::
    "'p ApiEnv \<Rightarrow> 'p API \<Rightarrow> HttpRequest \<Rightarrow> SessionID \<Rightarrow> string list \<Rightarrow> (Reply, Reply, 'p plane) pass" where
  "sessionRoute env api r i rest w =
    (let get = (hr_Method r = ''GET''); post = (hr_Method r = ''POST'');
         show_session = (\<lambda>status w. sbind (or_reply jobError (query (GetSession i) w)) (\<lambda>v w. (Inr (Response status (SessionB (sessionDTO v))), w)))
     in
     if rest = [] \<and> get then show_session 200 w
     else if rest = [''jobs''] \<and> get then (Inr (Response 200 (JobsB (map jobDTO (ListSessionJobs i (fst w))))), w)
     else if rest = [''close''] \<and> post then
       sbind (api_now env w) (\<lambda>now w. sbind (or_reply jobError (on_store (CloseSession i now) w)) (\<lambda>_. show_session 200))
     else if rest = [''recover''] \<and> post then
       sbind (api_now env w) (\<lambda>now w. sbind (or_reply jobError (on_store (RequestRecovery i now) w)) (\<lambda>_. show_session 202))
     else if rest = [''checkpoints''] \<and> get then (Inr (Response 200 (CheckpointsB (ListCheckpoints i (fst w)))), w)
     else if rest = [''recovery-events''] \<and> get then (Inr (Response 200 (RecoveryEventsB (ListRecoveryEvents i (fst w)))), w)
     else if rest = [''checkpoints''] \<and> post then
       sbind (decoded (dc_SaveCheckpoint (ap_codec env) 1048576 (hr_Body r)) w) (\<lambda>(data, epoch) w.
       sbind (api_now env w) (\<lambda>now w.
       sbind (or_reply (unless_panic jobError) (saveCheckpoint env api i epoch data now w)) (\<lambda>cp w.
         (Inr (Response 201 (CheckpointB cp)), w))))
     else (Inl (fail_reply 404 ''job_not_found'' ''session not found''), w))"

section \<open>Jobs\<close>

definition ParseUint :: "string \<Rightarrow> nat option" where
  "ParseUint s = (if s \<noteq> [] \<and> list_all is_digit s \<and> digits_value s < 18446744073709551616 then Some (nat (digits_value s)) else None)"

definition event_page :: "'p API \<Rightarrow> HttpRequest \<Rightarrow> Reply + nat \<times> int" where
  "event_page api r =
    (let after = get_str (hr_Query r) ''after''; limit = get_str (hr_Query r) ''limit'' in
     case (if after = '''' then Some 0 else ParseUint after) of
       None \<Rightarrow> Inl (fail_reply 400 ''invalid_request'' ''after must be a non-negative sequence'')
     | Some n \<Rightarrow>
         if limit = '''' then Inr (n, api_maxEvents api)
         else (case Atoi limit of
             None \<Rightarrow> Inl (fail_reply 400 ''invalid_request'' ''limit must be positive'')
           | Some k \<Rightarrow> if k \<le> 0 then Inl (fail_reply 400 ''invalid_request'' ''limit must be positive'')
               else Inr (n, if k < api_maxEvents api then k else api_maxEvents api)))"

text \<open>The bytes of a large result are read from the artifact store.\<close>

definition result_data :: "'p API \<Rightarrow> JobResult \<Rightarrow> (Reply, string, 'p plane) pass" where
  "result_data api res w =
    (if res_ArtifactKey res = '''' then (Inr (res_Data res), w)
     else case api_artifacts api of
       None \<Rightarrow> (Inl internal_reply, w)
     | Some store \<Rightarrow> or_reply (\<lambda>_. internal_reply) (on_adapter (ar_Get store (res_ArtifactKey res)) w))"

definition cancelError :: "CtlError \<Rightarrow> Reply" where
  "cancelError e = (if e = StoreErr ErrConflict then fail_reply 409 ''canceled_job'' ''job can no longer be canceled'' else jobError e)"

definition jobRoute ::
    "'p ApiEnv \<Rightarrow> 'p API \<Rightarrow> HttpRequest \<Rightarrow> JobID \<Rightarrow> string list \<Rightarrow> (Reply, Reply, 'p plane) pass" where
  "jobRoute env api r i rest w =
    (let get = (hr_Method r = ''GET''); found = (\<lambda>w. or_reply jobError (query (GetJob i) w)) in
     if rest = [] \<and> get then sbind (found w) (\<lambda>j w. (Inr (Response 200 (JobB (jobDTO j))), w))
     else if rest = [''attempts''] \<and> get then sbind (found w) (\<lambda>j w. (Inr (Response 200 (AttemptsB (map attemptDTO (j_Attempts j)))), w))
     else if rest = [''events''] \<and> get then
       sbind (found w) (\<lambda>_ w.
         case event_page api r of
           Inl e \<Rightarrow> (Inl e, w)
         | Inr (after, limit) \<Rightarrow> (Inr (Response 200 (EventsB (ListEvents i after limit (fst w)))), w))
     else if rest = [''result''] \<and> get then
       sbind (or_reply jobError (query (GetResult i) w)) (\<lambda>res w.
       sbind (result_data api res w) (\<lambda>data w.
         (Inr (Response 200 (ResultB \<lparr>rt_JobID = res_JobID res, rt_AttemptID = res_AttemptID res, rt_StatusCode = res_StatusCode res,
           rt_Data = data, rt_Metadata = res_Metadata res, rt_CreatedAt = res_CreatedAt res\<rparr>)), w)))
     else if rest = [''cancel''] \<and> hr_Method r = ''POST'' then
       sbind (api_now env w) (\<lambda>now w.
       sbind (or_reply cancelError (on_store (CancelJob i now) w)) (\<lambda>_ w.
       sbind (found w) (\<lambda>j w. (Inr (Response 200 (JobB (jobDTO j))), w))))
     else (Inl (fail_reply 404 ''job_not_found'' ''job not found''), w))"

section \<open>Fleet and status\<close>

definition workers :: "'p plane \<Rightarrow> Reply" where
  "workers w = Response 200 (WorkersB (map (\<lambda>x. \<lparr>wd_ID = w_ID x, wd_Capabilities = w_Capabilities x, wd_LastSeenAt = w_LastSeenAt x\<rparr>) (ListWorkers (fst w))))"

definition sandboxes :: "'p plane \<Rightarrow> Reply" where
  "sandboxes w = Response 200 (SandboxesB (map (\<lambda>x. \<lparr>bd_ID = b_ID x, bd_WorkerID = b_WorkerID x, bd_Capabilities = b_Capabilities x,
     bd_State = b_State x, bd_CreatedAt = b_CreatedAt x\<rparr>) (ListSandboxes (fst w))))"

text \<open>A Go map of counters, as the JSON encoder writes it: sorted by key.\<close>

definition tally :: "string list \<Rightarrow> (string \<times> nat) list" where
  "tally xs = map (\<lambda>k. (k, count_list xs k)) (sort (remdups xs))"

fun show_UpstreamAvailability :: "UpstreamAvailability \<Rightarrow> string" where
  "show_UpstreamAvailability UpstreamUnset = ''''"
| "show_UpstreamAvailability UpstreamAvailable = ''available''"
| "show_UpstreamAvailability UpstreamUnavailable = ''unavailable''"
| "show_UpstreamAvailability UpstreamCooldown = ''cooldown''"
| "show_UpstreamAvailability (UpstreamOther s) = s"

definition adminStatus :: "'p ApiEnv \<Rightarrow> (Reply, Reply, 'p plane) pass" where
  "adminStatus env w = sbind (api_now env w) (\<lambda>now w.
    (let jobs = ListQueuedJobs 100000 now (fst w);
         seen = concat (map w_UpstreamStatus (ListWorkers (fst w)));
         states = (\<lambda>x. let state = get_str (w_Health x) ''status'' in if state = '''' then ''unknown'' else state)
     in (Inr (Response 200 (AdminB
       \<lparr>as_depth = length jobs,
        as_oldest = (case jobs of [] \<Rightarrow> None | j # js \<Rightarrow> Some (fold (\<lambda>x v. if j_CreatedAt x < v then j_CreatedAt x else v) js (j_CreatedAt j))),
        as_workers = tally (map states (ListWorkers (fst w))),
        as_sandboxes = tally (map b_State (ListSandboxes (fst w))),
        as_upstreams = map (\<lambda>name. (name, tally (map (\<lambda>(_, u). show_UpstreamAvailability (us_State u)) (filter (\<lambda>(n, _). n = name) seen))))
          (sort (remdups (map fst seen)))\<rparr>)), w)))"

end
