(* ===== verification/SR_Executors.thy ===== *)
theory SR_Executors
  imports SR_Controllers
begin

text \<open>
  The executors of the worker: \<^verbatim>\<open>internal/worker/command.go\<close> (allowlisted commands with a built environment, bounded
  output and redaction of secrets) and \<^verbatim>\<open>internal/worker/http.go\<close> (allowlisted hosts, no redirects, bounded bodies),
  with the types of \<^verbatim>\<open>internal/worker/types.go\<close> they exchange with the runtime.

  What runs outside is a parameter over a state \<open>'p\<close>: the JSON decoder, the operating system that starts a command and
  delivers its output, the URL parser and the transport of HTTP requests. A context is what the execution observes of
  it: that it ended, and how.
\<close>

section \<open>Types of the worker\<close>

record FailureError =
  fe_Code :: string
  fe_Message :: string
  fe_Class :: FailureClass

datatype CtxErr = DeadlineExceeded | ContextCanceled

text \<open>The errors an execution returns; \<open>WrappedErr\<close> is any other one, by its text.\<close>

datatype WorkerError = FailureErr FailureError | ErrTimeout | ErrCanceled | CtxError CtxErr | WrappedErr string

fun error_text :: "WorkerError \<Rightarrow> string" where
  "error_text (FailureErr f) = fe_Message f"
| "error_text ErrTimeout = ''execution timed out''"
| "error_text ErrCanceled = ''execution canceled''"
| "error_text (CtxError DeadlineExceeded) = ''context deadline exceeded''"
| "error_text (CtxError ContextCanceled) = ''context canceled''"
| "error_text (WrappedErr s) = s"

record WorkerJob =
  wj_ID :: string
  wj_Kind :: string
  wj_Payload :: string
  wj_Timeout :: time

record ExecResult =
  er_StatusCode :: int
  er_Data :: string
  er_Metadata :: strmap
  er_Checkpoint :: string

record WorkerEvent =
  we_Type :: string
  we_Data :: strmap
  we_WorkerSequence :: nat
  we_IdempotencyKey :: string

definition failure :: "string \<Rightarrow> string \<Rightarrow> FailureClass \<Rightarrow> WorkerError" where
  "failure code msg cls = FailureErr \<lparr>fe_Code = code, fe_Message = msg, fe_Class = cls\<rparr>"

section \<open>Redaction\<close>

text \<open>\<^verbatim>\<open>strings.ReplaceAll\<close> with a non-empty old string.\<close>

function ReplaceAll :: "string \<Rightarrow> string \<Rightarrow> string \<Rightarrow> string" where
  "ReplaceAll old new v =
    (if v = [] then []
     else if old \<noteq> [] \<and> has_prefix v old then new @ ReplaceAll old new (drop (length old) v)
     else hd v # ReplaceAll old new (tl v))"
  by pat_completeness auto
termination by (relation "measure (\<lambda>(old, new, v). length v)") auto

declare ReplaceAll.simps [simp del]

definition mask :: string where
  "mask = ''[REDACTED]''"

fun redact :: "string \<Rightarrow> string list \<Rightarrow> string" where
  "redact v [] = v"
| "redact v (s # ss) = redact (if s \<noteq> [] then ReplaceAll s mask v else v) ss"

section \<open>Bounded output\<close>

record boundedBuffer =
  bb_buf :: string
  bb_max :: int
  bb_truncated :: bool

definition newBoundedBuffer :: "int \<Rightarrow> boundedBuffer" where
  "newBoundedBuffer n = \<lparr>bb_buf = [], bb_max = n, bb_truncated = False\<rparr>"

text \<open>The count \<^verbatim>\<open>Write\<close> reports and the buffer after it.\<close>

definition bounded_Write :: "string \<Rightarrow> boundedBuffer \<Rightarrow> nat \<times> boundedBuffer" where
  "bounded_Write p b =
    (let left = bb_max b - int (length (bb_buf b)) in
     if left \<le> 0 then (length p, b\<lparr>bb_truncated := True\<rparr>)
     else if int (length p) > left
     then (length p, b\<lparr>bb_buf := bb_buf b @ take (nat left) p, bb_truncated := True\<rparr>)
     else (length p, b\<lparr>bb_buf := bb_buf b @ p\<rparr>))"

section \<open>The environment of a command\<close>

definition upper_char :: "char \<Rightarrow> char" where
  "upper_char c = (let n = of_char c :: nat in if 97 \<le> n \<and> n \<le> 122 then char_of (n - 32) else c)"

definition isBaseEnvVar :: "string \<Rightarrow> bool" where
  "isBaseEnvVar key \<longleftrightarrow>
    (if map upper_char key \<in> set [''PATH'', ''HOME'', ''USER'', ''SHELL'', ''LANG'', ''TERM'', ''TZ'', ''TMPDIR''] then True
     else has_prefix key ''LC_'')"

definition ref_prefix :: string where
  "ref_prefix = ''SMART_ROUTE_ENV_REF_''"

definition isSensitiveKey :: "string \<Rightarrow> bool" where
  "isSensitiveKey key \<longleftrightarrow> has_prefix key ''SMART_ROUTE_SECRET_'' \<or> has_prefix key ''SMART_ROUTE_CREDENTIAL_'' \<or> has_prefix key ref_prefix"

text \<open>\<^verbatim>\<open>strings.SplitN\<close> of an entry at its first equals sign; \<open>None\<close> for an entry without one.\<close>

definition split_entry :: "string \<Rightarrow> (string \<times> string) option" where
  "split_entry entry = (let k = takeWhile (\<lambda>c. c \<noteq> CHR ''='') entry in if k = entry then None else Some (k, drop (Suc (length k)) entry))"

text \<open>\<^verbatim>\<open>os.LookupEnv\<close> in the environment \<^verbatim>\<open>os.Environ\<close> lists.\<close>

definition LookupEnv :: "string list \<Rightarrow> string \<Rightarrow> string option" where
  "LookupEnv environ key = map_of (List.map_filter split_entry environ) key"

definition defaultResolveSecret :: "string list \<Rightarrow> string \<Rightarrow> string option" where
  "defaultResolveSecret environ ref =
    (case LookupEnv environ (''SMART_ROUTE_SECRET_'' @ ref) of
       Some v \<Rightarrow> Some v
     | None \<Rightarrow> LookupEnv environ (''SMART_ROUTE_CREDENTIAL_'' @ ref))"

definition base_entry :: "string \<Rightarrow> strmap \<Rightarrow> strmap" where
  "base_entry entry env =
    (case split_entry entry of None \<Rightarrow> env | Some (key, v) \<Rightarrow> if isBaseEnvVar key then AList.update key v env else env)"

definition payload_entry :: "string \<times> string \<Rightarrow> strmap \<Rightarrow> strmap" where
  "payload_entry kv env = (if isSensitiveKey (fst kv) then env else AList.update (fst kv) (snd kv) env)"

fun resolve_refs :: "(string \<Rightarrow> string option) \<Rightarrow> string list \<Rightarrow> strmap \<Rightarrow> string + strmap" where
  "resolve_refs look [] env = Inr env"
| "resolve_refs look (entry # es) env =
    (case split_entry entry of
       None \<Rightarrow> resolve_refs look es env
     | Some (key, ref) \<Rightarrow>
         if \<not> has_prefix key ref_prefix \<or> ref = '''' then resolve_refs look es env
         else (case look ref of
             None \<Rightarrow> Inl (''secret reference '' @ [CHR 0x22] @ ref @ [CHR 0x22] @ '' not found for '' @ drop (length ref_prefix) key)
           | Some v \<Rightarrow> resolve_refs look es (AList.update (drop (length ref_prefix) key) v env)))"

definition env_map :: "string list \<Rightarrow> (string \<Rightarrow> string option) \<Rightarrow> strmap \<Rightarrow> string + strmap" where
  "env_map environ look payload = resolve_refs look environ (fold payload_entry payload (fold base_entry environ []))"

definition buildEnv :: "string list \<Rightarrow> (string \<Rightarrow> string option) \<Rightarrow> strmap \<Rightarrow> string + string list" where
  "buildEnv environ look payload = rbind (env_map environ look payload) (\<lambda>env. Inr (map (\<lambda>(k, v). k @ ''='' @ v) env))"

section \<open>The command executor\<close>

record CommandConfig =
  cc_Allowlist :: "string list"
  cc_MaxOutputBytes :: int
  cc_EmitChunks :: bool
  cc_Secrets :: "string list"
  cc_ResolveSecret :: "(string \<Rightarrow> string option) option"

record CommandExecutor =
  ce_allowed :: "string list"
  ce_max :: int
  ce_chunks :: bool
  ce_secrets :: "string list"
  ce_resolve :: "string \<Rightarrow> string option"

definition NewCommandExecutor :: "string list \<Rightarrow> CommandConfig \<Rightarrow> CommandExecutor" where
  "NewCommandExecutor environ c = \<lparr>ce_allowed = cc_Allowlist c,
     ce_max = (if cc_MaxOutputBytes c \<le> 0 then 1048576 else cc_MaxOutputBytes c), ce_chunks = cc_EmitChunks c,
     ce_secrets = cc_Secrets c,
     ce_resolve = (case cc_ResolveSecret c of None \<Rightarrow> defaultResolveSecret environ | Some f \<Rightarrow> f)\<rparr>"

record commandPayload =
  cp_Command :: string
  cp_Args :: "string list"
  cp_Env :: strmap
  cp_TimeoutSeconds :: int

text \<open>
  What a started command is seen to do: the writes to its two outputs in order, and how the wait for it ended, by its
  exit (with the error's text, if any) or by the context, after which the process group is killed and waited for.
\<close>

datatype Chunk = Stdout string | Stderr string

datatype Ending = Exited "string option" | Interrupted CtxErr

text \<open>The outside of both executors. The last argument of a start or a request is the timeout the payload sets.\<close>

record 'p Outside =
  os_environ :: "string list"
  os_command_payload :: "string \<Rightarrow> string + commandPayload"
  os_start :: "string \<Rightarrow> string list \<Rightarrow> string list \<Rightarrow> duration option \<Rightarrow> 'p \<Rightarrow> (string + Chunk list \<times> Ending) \<times> 'p"

type_synonym 'p sink = "WorkerEvent \<Rightarrow> 'p \<Rightarrow> (string + unit) \<times> 'p"

definition payload_timeout :: "int \<Rightarrow> duration option" where
  "payload_timeout seconds = (if seconds > 0 then Some (int64 (seconds * second)) else None)"

definition chunk_event :: "string \<Rightarrow> string \<Rightarrow> string list \<Rightarrow> WorkerEvent" where
  "chunk_event kind p secrets = \<lparr>we_Type = kind, we_Data = [(''chunk'', redact p secrets)], we_WorkerSequence = 0, we_IdempotencyKey = ''''\<rparr>"

text \<open>One write of the command: into the bounded buffer of its stream and, with \<open>chunks\<close>, to the sink as an event.\<close>

definition write_chunk :: "CommandExecutor \<Rightarrow> 'p sink \<Rightarrow> Chunk \<Rightarrow> (boundedBuffer \<times> boundedBuffer) \<times> 'p \<Rightarrow> (boundedBuffer \<times> boundedBuffer) \<times> 'p" where
  "write_chunk e sink c bw =
    (case bw of ((out, err), w) \<Rightarrow>
       (case c of
          Stdout p \<Rightarrow> ((snd (bounded_Write p out), err), if ce_chunks e then snd (sink (chunk_event ''stdout'' p (ce_secrets e)) w) else w)
        | Stderr p \<Rightarrow> ((out, snd (bounded_Write p err)), if ce_chunks e then snd (sink (chunk_event ''stderr'' p (ce_secrets e)) w) else w)))"

definition show_bool :: "bool \<Rightarrow> string" where
  "show_bool b = (if b then ''true'' else ''false'')"

definition command_result :: "CommandExecutor \<Rightarrow> boundedBuffer \<Rightarrow> boundedBuffer \<Rightarrow> ExecResult" where
  "command_result e out err = \<lparr>er_StatusCode = 0, er_Data = redact (bb_buf out) (ce_secrets e),
     er_Metadata = [(''stderr'', redact (bb_buf err) (ce_secrets e)), (''stdout_truncated'', show_bool (bb_truncated out)),
       (''stderr_truncated'', show_bool (bb_truncated err))], er_Checkpoint = ''''\<rparr>"

definition command_end :: "CommandExecutor \<Rightarrow> Ending \<Rightarrow> boundedBuffer \<Rightarrow> boundedBuffer \<Rightarrow> WorkerError + ExecResult" where
  "command_end e ending out err =
    (case ending of
       Exited (Some msg) \<Rightarrow> Inl (failure ''command_failed'' (redact (msg @ '': '' @ bb_buf err) (ce_secrets e)) FailureNonRetryable)
     | Exited None \<Rightarrow> Inr (command_result e out err)
     | Interrupted DeadlineExceeded \<Rightarrow> Inl ErrTimeout
     | Interrupted ContextCanceled \<Rightarrow> Inl ErrCanceled)"

definition command_Execute :: "'p Outside \<Rightarrow> CommandExecutor \<Rightarrow> 'p sink \<Rightarrow> WorkerJob \<Rightarrow> (WorkerError, ExecResult, 'p) pass" where
  "command_Execute os e sink j w =
    (case os_command_payload os (wj_Payload j) of
       Inl msg \<Rightarrow> (Inl (failure ''invalid_payload'' msg FailureNonRetryable), w)
     | Inr p \<Rightarrow>
         if cp_Command p = '''' then (Inl (failure ''invalid_payload'' ''command is required'' FailureNonRetryable), w)
         else if cp_Command p \<notin> set (ce_allowed e)
         then (Inl (failure ''command_not_allowed'' ''command is not allowlisted'' FailureNonRetryable), w)
         else (case buildEnv (os_environ os) (ce_resolve e) (cp_Env p) of
             Inl msg \<Rightarrow> (Inl (failure ''secret_error'' msg FailureNonRetryable), w)
           | Inr env \<Rightarrow>
               (case os_start os (cp_Command p) (cp_Args p) env (payload_timeout (cp_TimeoutSeconds p)) w of
                  (Inl msg, w) \<Rightarrow> (Inl (WrappedErr (''start command: '' @ msg)), w)
                | (Inr (chunks, ending), w) \<Rightarrow>
                    (case fold (write_chunk e sink) chunks ((newBoundedBuffer (ce_max e), newBoundedBuffer (ce_max e)), w) of
                       ((out, err), w) \<Rightarrow> (command_end e ending out err, w)))))"

section \<open>The HTTP executor\<close>

record HTTPConfig =
  hx_MaxRequestBytes :: int
  hx_MaxResponseBytes :: int
  hx_AllowedHosts :: "string list"
  hx_Secrets :: "string list"

record HTTPExecutor =
  he_maxReq :: int
  he_maxResp :: int
  he_allowed :: "string list"
  he_secrets :: "string list"

text \<open>\<^verbatim>\<open>strings.TrimSpace\<close> on ASCII.\<close>

definition is_space :: "char \<Rightarrow> bool" where
  "is_space c \<longleftrightarrow> c \<in> set [CHR 0x09, CHR 0x0A, CHR 0x0B, CHR 0x0C, CHR 0x0D, CHR '' '']"

definition TrimSpace :: "string \<Rightarrow> string" where
  "TrimSpace s = rev (dropWhile is_space (rev (dropWhile is_space s)))"

definition NewHTTPExecutor :: "HTTPConfig \<Rightarrow> HTTPExecutor" where
  "NewHTTPExecutor c = \<lparr>he_maxReq = (if hx_MaxRequestBytes c \<le> 0 then 1048576 else hx_MaxRequestBytes c),
     he_maxResp = (if hx_MaxResponseBytes c \<le> 0 then 1048576 else hx_MaxResponseBytes c),
     he_allowed = map (\<lambda>h. to_lower (TrimSpace h)) (hx_AllowedHosts c), he_secrets = hx_Secrets c\<rparr>"

record httpPayload =
  hp_Method :: string
  hp_URL :: string
  hp_Headers :: strmap
  hp_Body :: string
  hp_TimeoutSeconds :: int

record ParsedURL =
  url_Scheme :: string
  url_Host :: string

record HttpCall =
  hc_Method :: string
  hc_URL :: string
  hc_Headers :: strmap
  hc_Body :: string
  hc_Timeout :: "duration option"

text \<open>A response with its body: the bytes and the error that may end them.\<close>

record HttpAnswer =
  ha_Status :: int
  ha_ContentType :: string
  ha_Body :: string
  ha_BodyErr :: "string option"

text \<open>
  One round trip fails with a text and the state of the context; \<open>ow_redirect\<close> is the request a redirecting response asks
  for next.
\<close>

record 'p Web =
  ow_payload :: "string \<Rightarrow> string + httpPayload"
  ow_Parse :: "string \<Rightarrow> string + ParsedURL"
  ow_NewRequest :: "string \<Rightarrow> string \<Rightarrow> string option"
  ow_round_trip :: "HttpCall \<Rightarrow> 'p \<Rightarrow> (string \<times> CtxErr option + HttpAnswer) \<times> 'p"
  ow_redirect :: "HttpCall \<Rightarrow> HttpAnswer \<Rightarrow> HttpCall option"

text \<open>Whether the client stops at the last response, given the requests made so far.\<close>

definition denyRedirects :: "HttpCall list \<Rightarrow> bool" where
  "denyRedirects via \<longleftrightarrow> length via \<ge> 1"

text \<open>
  The client of \<^verbatim>\<open>net/http\<close> with a redirect policy, following at most \<open>n\<close> redirects; under \<^verbatim>\<open>denyRedirects\<close> it follows none.
\<close>

fun client_Do :: "'p Web \<Rightarrow> (HttpCall list \<Rightarrow> bool) \<Rightarrow> nat \<Rightarrow> HttpCall list \<Rightarrow> HttpCall \<Rightarrow> (string \<times> CtxErr option, HttpAnswer, 'p) pass" where
  "client_Do web stop n via call w =
    sbind (ow_round_trip web call w) (\<lambda>a w.
      case ow_redirect web call a of
        None \<Rightarrow> (Inr a, w)
      | Some c \<Rightarrow>
          if stop (via @ [call]) then (Inr a, w)
          else (case n of 0 \<Rightarrow> (Inl (''stopped after redirects'', None), w) | Suc m \<Rightarrow> client_Do web stop m (via @ [call]) c w))"

declare client_Do.simps [simp del]

text \<open>\<^verbatim>\<open>io.ReadAll\<close> of a reader limited to \<open>n\<close> bytes.\<close>

definition read_limited :: "int \<Rightarrow> HttpAnswer \<Rightarrow> string + string" where
  "read_limited n a =
    (if int (length (ha_Body a)) \<ge> n then Inr (take (nat n) (ha_Body a))
     else case ha_BodyErr a of Some e \<Rightarrow> Inl e | None \<Rightarrow> Inr (ha_Body a))"

definition http_call :: "httpPayload \<Rightarrow> HttpCall" where
  "http_call p = \<lparr>hc_Method = (if hp_Method p = '''' then ''POST'' else hp_Method p), hc_URL = hp_URL p, hc_Headers = hp_Headers p,
     hc_Body = hp_Body p, hc_Timeout = payload_timeout (hp_TimeoutSeconds p)\<rparr>"

definition http_refusal :: "'p Web \<Rightarrow> HTTPExecutor \<Rightarrow> httpPayload \<Rightarrow> WorkerError option" where
  "http_refusal web e p =
    (if hp_URL p = '''' then Some (failure ''invalid_payload'' ''url is required'' FailureNonRetryable)
     else case ow_Parse web (hp_URL p) of
       Inl msg \<Rightarrow> Some (failure ''invalid_payload'' msg FailureNonRetryable)
     | Inr u \<Rightarrow>
         if url_Scheme u \<noteq> ''http'' \<and> url_Scheme u \<noteq> ''https''
         then Some (failure ''invalid_url'' ''only http and https URLs are allowed'' FailureNonRetryable)
         else if to_lower (url_Host u) \<notin> set (he_allowed e)
         then Some (failure ''url_not_allowed'' ''URL host is not in allowlist'' FailureNonRetryable)
         else if int (length (hp_Body p)) > he_maxReq e
         then Some (failure ''request_too_large'' ''HTTP request body exceeded configured size'' FailureNonRetryable)
         else map_option (\<lambda>msg. failure ''invalid_payload'' msg FailureNonRetryable) (ow_NewRequest web (hc_Method (http_call p)) (hp_URL p)))"

definition http_answer :: "HTTPExecutor \<Rightarrow> HttpAnswer \<Rightarrow> WorkerError + ExecResult" where
  "http_answer e a =
    (case read_limited (he_maxResp e + 1) a of
       Inl msg \<Rightarrow> Inl (WrappedErr (''read response: '' @ msg))
     | Inr body \<Rightarrow>
         if int (length body) > he_maxResp e
         then Inl (failure ''response_too_large'' ''HTTP response exceeded configured size'' FailureNonRetryable)
         else Inr \<lparr>er_StatusCode = ha_Status a, er_Data = redact body (he_secrets e), er_Metadata = [(''content_type'', ha_ContentType a)],
           er_Checkpoint = ''''\<rparr>)"

definition http_Execute :: "'p Web \<Rightarrow> HTTPExecutor \<Rightarrow> WorkerJob \<Rightarrow> (WorkerError, ExecResult, 'p) pass" where
  "http_Execute web e j w =
    (case ow_payload web (wj_Payload j) of
       Inl msg \<Rightarrow> (Inl (failure ''invalid_payload'' msg FailureNonRetryable), w)
     | Inr p \<Rightarrow>
         (case http_refusal web e p of
            Some err \<Rightarrow> (Inl err, w)
          | None \<Rightarrow>
              (case client_Do web denyRedirects 10 [] (http_call p) w of
                 (Inl (msg, ctx), w) \<Rightarrow> (Inl (case ctx of Some c \<Rightarrow> CtxError c | None \<Rightarrow> WrappedErr (''http request: '' @ msg)), w)
               | (Inr a, w) \<Rightarrow> (http_answer e a, w))))"

section \<open>No secret survives redaction\<close>

lemma sublist_occurrence: "sublist s v \<longleftrightarrow> (\<exists>i \<le> length v. has_prefix (drop i v) s)"
proof
  assume "sublist s v"
  then obtain a b where v: "v = a @ s @ b" by (auto simp: sublist_def)
  then have "has_prefix (drop (length a) v) s" by (simp add: has_prefix_def)
  with v show "\<exists>i \<le> length v. has_prefix (drop i v) s" by (intro exI [of _ "length a"]) simp
next
  assume "\<exists>i \<le> length v. has_prefix (drop i v) s"
  then obtain i where "take (length s) (drop i v) = s" by (auto simp: has_prefix_def)
  then have "v = take i v @ s @ drop (length s) (drop i v)" by (metis append_take_drop_id)
  then show "sublist s v" by (metis sublist_appendI)
qed

lemma sublist_around:
  assumes "sublist w (a @ c # b)" and "c \<notin> set w"
  shows "sublist w a \<or> sublist w b"
proof -
  from assms(1) have "sublist w a \<or> sublist w (c # b) \<or> (\<exists>w1 w2. w = w1 @ w2 \<and> suffix w1 a \<and> prefix w2 (c # b))" by (simp add: sublist_append)
  then show ?thesis
  proof (elim disjE exE conjE)
    assume "sublist w (c # b)"
    with assms(2) show ?thesis by (cases w) (auto simp: sublist_Cons_right)
  next
    fix w1 w2 assume "w = w1 @ w2" "suffix w1 a" "prefix w2 (c # b)"
    moreover from this assms(2) have "w2 = []" by (cases w2) auto
    ultimately show ?thesis by auto
  qed simp
qed

text \<open>A secret the mask cannot hide or complete: free of brackets and not a part of the masking word.\<close>

definition maskable :: "string \<Rightarrow> bool" where
  "maskable s \<longleftrightarrow> s \<noteq> [] \<and> CHR ''['' \<notin> set s \<and> CHR '']'' \<notin> set s \<and> \<not> sublist s ''REDACTED''"

lemma sublist_mask:
  assumes "maskable w" and "sublist w (a @ mask @ b)"
  shows "sublist w a \<or> sublist w b"
proof -
  have "sublist w (a @ CHR ''['' # (''REDACTED'' @ CHR '']'' # b))" using assms(2) by (simp add: mask_def)
  from sublist_around [OF this] assms(1) have "sublist w a \<or> sublist w (''REDACTED'' @ CHR '']'' # b)" by (auto simp: maskable_def)
  then show ?thesis using sublist_around [of w "''REDACTED''" "CHR '']''" b] assms(1) by (auto simp: maskable_def)
qed

lemma ReplaceAll_Nil [simp]: "ReplaceAll old new [] = []"
  by (simp add: ReplaceAll.simps)

lemma ReplaceAll_hit: "old \<noteq> [] \<Longrightarrow> has_prefix v old \<Longrightarrow> ReplaceAll old new v = new @ ReplaceAll old new (drop (length old) v)"
  by (subst ReplaceAll.simps) (auto simp: has_prefix_def)

lemma ReplaceAll_miss: "\<not> has_prefix (c # v) old \<Longrightarrow> ReplaceAll old new (c # v) = c # ReplaceAll old new v"
  by (subst ReplaceAll.simps) simp

text \<open>Replacing one secret does not complete another one.\<close>

lemma ReplaceAll_no_new:
  assumes "maskable w" and "sublist w (p @ ReplaceAll s mask v)" and "s \<noteq> []"
  shows "sublist w (p @ v)"
  using assms(2)
proof (induction "length v" arbitrary: p v rule: less_induct)
  case less
  show ?case
  proof (cases v)
    case Nil
    with less.prems show ?thesis by simp
  next
    case (Cons c t)
    show ?thesis
    proof (cases "has_prefix v s")
      case True
      have "sublist w p \<or> sublist w (ReplaceAll s mask (drop (length s) v))"
        using sublist_mask [OF assms(1)] less.prems ReplaceAll_hit [OF assms(3) True] by simp
      moreover have "sublist w (drop (length s) v)" if "sublist w (ReplaceAll s mask (drop (length s) v))"
        using less.hyps [of "drop (length s) v" "[]"] that assms(3) Cons by simp
      ultimately show ?thesis by (metis append_take_drop_id sublist_append)
    next
      case False
      with less.prems Cons have "sublist w ((p @ [c]) @ ReplaceAll s mask t)" by (simp add: ReplaceAll_miss)
      then have "sublist w ((p @ [c]) @ t)" using less.hyps [of t "p @ [c]"] Cons by simp
      with Cons show ?thesis by simp
    qed
  qed
qed

text \<open>The replaced secret is gone. \<open>p\<close> is what was copied before, in which no occurrence begins.\<close>

lemma ReplaceAll_gone:
  assumes "maskable s" and "\<And>i. i < length p \<Longrightarrow> \<not> has_prefix (drop i (p @ v)) s"
  shows "\<not> sublist s (p @ ReplaceAll s mask v)"
  using assms(2)
proof (induction "length v" arbitrary: p v rule: less_induct)
  case less
  have s: "s \<noteq> []" using assms(1) by (simp add: maskable_def)
  have no_p: "\<not> sublist s p"
  proof
    assume "sublist s p"
    then obtain i where i: "i \<le> length p" "has_prefix (drop i p) s" by (auto simp: sublist_occurrence)
    then have "has_prefix (drop i (p @ v)) s" using has_prefix_def by (auto simp: has_prefix_def take_append dest: arg_cong [of _ _ length])
    moreover have "i < length p" using i s by (cases "i = length p") (auto simp: has_prefix_def)
    ultimately show False using less.prems by blast
  qed
  show ?case
  proof (cases v)
    case Nil
    with no_p show ?thesis by simp
  next
    case (Cons c t)
    show ?thesis
    proof (cases "has_prefix v s")
      case True
      have "\<not> sublist s (ReplaceAll s mask (drop (length s) v))"
        using less.hyps [of "drop (length s) v" "[]"] s Cons by simp
      with no_p sublist_mask [OF assms(1), of p] show ?thesis unfolding ReplaceAll_hit [OF s True] by blast
    next
      case False
      have "\<not> has_prefix (drop i ((p @ [c]) @ t)) s" if "i < length (p @ [c])" for i
        using that less.prems [of i] False Cons by (cases "i = length p") (auto simp: less_Suc_eq)
      then have "\<not> sublist s ((p @ [c]) @ ReplaceAll s mask t)" using less.hyps [of t "p @ [c]"] Cons by simp
      with False Cons show ?thesis by (simp add: ReplaceAll_miss)
    qed
  qed
qed

lemma redact_no_new: "maskable w \<Longrightarrow> sublist w (redact v ss) \<Longrightarrow> sublist w v"
proof (induction ss arbitrary: v)
  case (Cons s ss)
  then show ?case using ReplaceAll_no_new [OF Cons.prems(1), of "[]" s v] by (auto split: if_splits)
qed simp

lemma redact_gone:
  assumes "s \<in> set ss" and "maskable s"
  shows "\<not> sublist s (redact v ss)"
  using assms(1)
proof (induction ss arbitrary: v)
  case (Cons x ss)
  show ?case
  proof (cases "x = s")
    case True
    with assms(2) ReplaceAll_gone [OF assms(2), of "[]" v] redact_no_new [OF assms(2)] show ?thesis by (auto simp: maskable_def)
  qed (use Cons in auto)
qed simp

section \<open>What a command returns\<close>

fun stdout_of :: "Chunk \<Rightarrow> string" where
  "stdout_of (Stdout p) = p"
| "stdout_of (Stderr p) = ''''"

fun stderr_of :: "Chunk \<Rightarrow> string" where
  "stderr_of (Stdout p) = ''''"
| "stderr_of (Stderr p) = p"

text \<open>A buffer that has been given the bytes \<open>v\<close>: it kept the first ones and says so when it dropped any.\<close>

definition bounded_holds :: "int \<Rightarrow> string \<Rightarrow> boundedBuffer \<Rightarrow> bool" where
  "bounded_holds n v b \<longleftrightarrow> bb_max b = n \<and> bb_buf b = take (nat n) v \<and> (int (length v) > n \<longrightarrow> bb_truncated b)
     \<and> (bb_truncated b \<longrightarrow> int (length v) \<ge> n)"

lemma bounded_new: "0 \<le> n \<Longrightarrow> bounded_holds n '''' (newBoundedBuffer n)"
  by (simp add: bounded_holds_def newBoundedBuffer_def)

lemma bounded_Write_holds:
  assumes "bounded_holds n v b" and "0 \<le> n"
  shows "bounded_holds n (v @ p) (snd (bounded_Write p b))"
proof (cases "length v < nat n")
  case True
  then have len: "length (bb_buf b) = length v" "bb_buf b = v" using assms by (auto simp: bounded_holds_def)
  with True assms show ?thesis by (auto simp: bounded_holds_def bounded_Write_def Let_def nat_diff_distrib)
next
  case False
  then have "length (bb_buf b) = nat n" using assms by (simp add: bounded_holds_def)
  with False assms show ?thesis by (auto simp: bounded_holds_def bounded_Write_def Let_def)
qed

lemma write_chunks_hold:
  assumes "bounded_holds n vo out" and "bounded_holds n ve err" and "0 \<le> n"
    and "fold (write_chunk e sink) cs ((out, err), w) = ((out', err'), w')"
  shows "bounded_holds n (vo @ concat (map stdout_of cs)) out' \<and> bounded_holds n (ve @ concat (map stderr_of cs)) err'"
  using assms
proof (induction cs arbitrary: vo ve out err w)
  case (Cons c cs)
  obtain o1 e1 w1 where step: "write_chunk e sink c ((out, err), w) = ((o1, e1), w1)" by (metis surj_pair)
  have "bounded_holds n (vo @ stdout_of c) o1 \<and> bounded_holds n (ve @ stderr_of c) e1"
    using step Cons.prems(1-3) bounded_Write_holds by (cases c) (auto simp: write_chunk_def)
  with Cons.IH [of "vo @ stdout_of c" o1 "ve @ stderr_of c" e1 w1] Cons.prems step show ?case by simp
qed simp


text \<open>
  A worker with a secret: the command \<^verbatim>\<open>echo\<close> prints it, and nine bytes are kept.
\<close>

definition demo_os :: "unit Outside" where
  "demo_os = \<lparr>os_environ = [''PATH=/bin'', ''TOKEN=x'', ''SMART_ROUTE_SECRET_a=pass'', ''SMART_ROUTE_ENV_REF_KEY=a''],
     os_command_payload = (\<lambda>_. Inr \<lparr>cp_Command = ''echo'', cp_Args = [], cp_Env = [(''PATH'', ''/usr''), (''SMART_ROUTE_SECRET_a'', '''')], cp_TimeoutSeconds = 0\<rparr>),
     os_start = (\<lambda>_ _ _ _ w. (Inr ([Stdout ''my pa'', Stderr ''e'', Stdout ''ss word''], Exited None), w))\<rparr>"

definition demo_executor :: CommandExecutor where
  "demo_executor = NewCommandExecutor (os_environ demo_os) \<lparr>cc_Allowlist = [''echo''], cc_MaxOutputBytes = 9, cc_EmitChunks = False,
     cc_Secrets = [''pass''], cc_ResolveSecret = None\<rparr>"

definition demo_echo :: WorkerJob where
  "demo_echo = \<lparr>wj_ID = ''j'', wj_Kind = ''command'', wj_Payload = ''{}'', wj_Timeout = 0\<rparr>"


section \<open>What a command may see of the environment\<close>

abbreviation entries :: "string list \<Rightarrow> (string \<times> string) set" where
  "entries environ \<equiv> set (List.map_filter split_entry environ)"

lemma entries_Cons: "entries (x # xs) = (case split_entry x of None \<Rightarrow> entries xs | Some kv \<Rightarrow> insert kv (entries xs))"
  by (simp add: List.map_filter_simps split: option.split)

lemma has_prefix_drop: "has_prefix s p \<longleftrightarrow> (\<exists>t. s = p @ t \<and> drop (length p) s = t)"
  unfolding has_prefix_def by (metis append_eq_conv_conj append_take_drop_id)

lemma has_prefix_self [simp]: "has_prefix (p @ s) p"
  by (simp add: has_prefix_def)

lemma base_distinct: "distinct (map fst env) \<Longrightarrow> distinct (map fst (base_entry x env))"
  by (cases "split_entry x") (auto simp: base_entry_def distinct_update)

lemma payload_distinct: "distinct (map fst env) \<Longrightarrow> distinct (map fst (payload_entry x env))"
  by (simp add: payload_entry_def distinct_update)

lemma base_env:
  assumes "map_of (fold base_entry es env) k = Some v"
  shows "map_of env k = Some v \<or> ((k, v) \<in> entries es \<and> isBaseEnvVar k)"
  using assms
proof (induction es arbitrary: env)
  case (Cons x es)
  from Cons.IH [of "base_entry x env"] Cons.prems have "map_of (base_entry x env) k = Some v \<or> ((k, v) \<in> entries es \<and> isBaseEnvVar k)" by simp
  then show ?case by (cases "split_entry x") (auto simp: base_entry_def entries_Cons update_conv' split: if_splits)
qed simp

lemma payload_env:
  assumes "map_of (fold payload_entry ps env) k = Some v"
  shows "map_of env k = Some v \<or> ((k, v) \<in> set ps \<and> \<not> isSensitiveKey k)"
  using assms
proof (induction ps arbitrary: env)
  case (Cons p ps)
  from Cons.IH [of "payload_entry p env"] Cons.prems show ?case by (cases p) (auto simp: payload_entry_def update_conv' split: if_splits)
qed simp

lemma fold_distinct: "(\<And>x env. distinct (map fst env) \<Longrightarrow> distinct (map fst (f x env))) \<Longrightarrow> distinct (map fst env) \<Longrightarrow> distinct (map fst (fold f xs env))"
  by (induction xs arbitrary: env) simp_all

text \<open>The worker names a secret reference for the variable \<open>k\<close>.\<close>

definition referenced :: "string list \<Rightarrow> string \<Rightarrow> string \<Rightarrow> bool" where
  "referenced environ k ref \<longleftrightarrow> ref \<noteq> '''' \<and> (ref_prefix @ k, ref) \<in> entries environ"

lemma refs_env:
  assumes "resolve_refs look es env0 = Inr env" and "map_of env k = Some v"
  shows "(\<exists>ref. referenced es k ref \<and> look ref = Some v) \<or> (map_of env0 k = Some v \<and> (\<forall>ref. \<not> referenced es k ref))"
  using assms
proof (induction es arbitrary: env0)
  case (Cons x es)
  show ?case
  proof (cases "\<exists>key ref. split_entry x = Some (key, ref) \<and> has_prefix key ref_prefix \<and> ref \<noteq> ''''")
    case True
    then obtain name ref where x: "split_entry x = Some (ref_prefix @ name, ref)" "ref \<noteq> ''''" by (auto simp: has_prefix_drop)
    with Cons.prems(1) obtain u where u: "look ref = Some u" "resolve_refs look es (AList.update name u env0) = Inr env"
      by (auto simp: has_prefix_def split: option.splits)
    from Cons.IH [OF u(2) Cons.prems(2)] x u(1) show ?thesis
      by (auto simp: referenced_def entries_Cons update_conv' split: if_splits)
  next
    case False
    then have "resolve_refs look es env0 = Inr env" using Cons.prems(1) by (auto split: option.splits if_splits)
    moreover have "split_entry x \<noteq> Some (ref_prefix @ k, ref)" if "ref \<noteq> ''''" for ref using False that has_prefix_self by blast
    then have "referenced (x # es) k ref \<longleftrightarrow> referenced es k ref" for ref
      by (cases "split_entry x") (auto simp: referenced_def entries_Cons)
    ultimately show ?thesis using Cons.IH Cons.prems(2) by simp
  qed
qed (simp add: referenced_def List.map_filter_simps)

lemma refs_distinct: "resolve_refs look es env0 = Inr env \<Longrightarrow> distinct (map fst env0) \<Longrightarrow> distinct (map fst env)"
  by (induction es arbitrary: env0) (auto simp: distinct_update split: option.splits if_splits)

text \<open>
  The environment of a command holds nothing else of the worker's: each variable has one value, which is a resolved secret
  reference of that name where the worker has one, else what the job asked for under a name that is not reserved for
  secrets, or one of the few base variables of the worker.
\<close>

theorem command_environment:
  assumes "buildEnv environ look payload = Inr out"
  shows "\<exists>env. out = map (\<lambda>(k, v). k @ ''='' @ v) env \<and> distinct (map fst env) \<and> (\<forall>(k, v) \<in> set env.
    (\<exists>ref. referenced environ k ref \<and> look ref = Some v)
    \<or> ((\<forall>ref. \<not> referenced environ k ref) \<and> (((k, v) \<in> set payload \<and> \<not> isSensitiveKey k) \<or> ((k, v) \<in> entries environ \<and> isBaseEnvVar k))))"
proof -
  let ?base = "fold base_entry environ []" and ?both = "fold payload_entry payload (fold base_entry environ [])"
  from assms obtain env where env: "resolve_refs look environ ?both = Inr env" "out = map (\<lambda>(k, v). k @ ''='' @ v) env"
    by (auto simp: buildEnv_def env_map_def rbind_eq_Inr)
  have "distinct (map fst ?both)" by (intro fold_distinct [OF payload_distinct] fold_distinct [OF base_distinct]) simp_all
  then have dist: "distinct (map fst env)" by (rule refs_distinct [OF env(1)])
  have "(\<exists>ref. referenced environ k ref \<and> look ref = Some v)
    \<or> ((\<forall>ref. \<not> referenced environ k ref) \<and> (((k, v) \<in> set payload \<and> \<not> isSensitiveKey k) \<or> ((k, v) \<in> entries environ \<and> isBaseEnvVar k)))"
    if "(k, v) \<in> set env" for k v
    using refs_env [OF env(1) map_of_is_SomeI [OF dist that]] payload_env [of payload ?base k v] base_env [of environ "[]" k v] by auto
  with env(2) dist show ?thesis by blast
qed

theorem command_environment_witness:
  "\<exists>out. buildEnv (os_environ demo_os) (defaultResolveSecret (os_environ demo_os)) [(''PATH'', ''/usr''), (''SMART_ROUTE_SECRET_a'', '''')] = Inr out
     \<and> ''KEY=pass'' \<in> set out \<and> (\<exists>env. out = map (\<lambda>(k, v). k @ ''='' @ v) env \<and> distinct (map fst env))"
proof -
  have "buildEnv (os_environ demo_os) (defaultResolveSecret (os_environ demo_os)) [(''PATH'', ''/usr''), (''SMART_ROUTE_SECRET_a'', '''')]
      = Inr [''PATH=/usr'', ''KEY=pass'']" by code_simp
  moreover from command_environment [OF this] have "\<exists>env. [''PATH=/usr'', ''KEY=pass''] = map (\<lambda>(k, v). k @ ''='' @ v) env \<and> distinct (map fst env)" by (elim exE conjE) (intro exI conjI)
  ultimately show ?thesis by (intro exI [of _ "[''PATH=/usr'', ''KEY=pass'']"] conjI) simp_all
qed

section \<open>Requests of the HTTP executor\<close>

lemma client_one_call: "client_Do web denyRedirects n [] call w = ow_round_trip web call w"
  by (subst client_Do.simps)
     (auto simp: sbind_def denyRedirects_def split: sum.split option.split prod.split)

text \<open>
  C35: an HTTP job reaches allowlisted hosts only: it makes no request, or exactly one, to a host of the allowlist over HTTP or
  HTTPS with a body within its limit, whatever redirects the answer asks for; a result carries the answer's whole
  body, within its limit, with every secret masked.
\<close>

theorem http_only_allowed_hosts:
  "(case http_Execute web e j w of (res, w') \<Rightarrow>
      (w' = w \<and> isl res) \<or>
      (\<exists>call u answer. (answer, w') = ow_round_trip web call w \<and> ow_Parse web (hc_URL call) = Inr u \<and> url_Scheme u \<in> {''http'', ''https''}
        \<and> to_lower (url_Host u) \<in> set (he_allowed e) \<and> int (length (hc_Body call)) \<le> he_maxReq e
        \<and> (\<forall>r. res = Inr r \<longrightarrow> (\<exists>a. answer = Inr a \<and> er_StatusCode r = ha_Status a \<and> er_Data r = redact (ha_Body a) (he_secrets e)
              \<and> int (length (ha_Body a)) \<le> he_maxResp e \<and> (\<forall>s \<in> set (he_secrets e). maskable s \<longrightarrow> \<not> sublist s (er_Data r))))))"
proof (cases "ow_payload web (wj_Payload j)")
  case (Inr p)
  show ?thesis
  proof (cases "http_refusal web e p")
    case None
    then obtain u where u: "ow_Parse web (hp_URL p) = Inr u" "url_Scheme u \<in> {''http'', ''https''}" "to_lower (url_Host u) \<in> set (he_allowed e)"
      "int (length (hp_Body p)) \<le> he_maxReq e" by (auto simp: http_refusal_def split: if_splits sum.splits)
    obtain answer w' where rt: "ow_round_trip web (http_call p) w = (answer, w')" by (metis surj_pair)
    have body: "er_StatusCode r = ha_Status a \<and> er_Data r = redact (ha_Body a) (he_secrets e) \<and> int (length (ha_Body a)) \<le> he_maxResp e"
      if "http_answer e a = Inr r" for a r
      using that by (auto simp: http_answer_def read_limited_def split: sum.splits if_splits option.splits)
    obtain res where res: "http_Execute web e j w = (res, w')" "res = Inr r \<Longrightarrow> \<exists>a. answer = Inr a \<and> http_answer e a = Inr r" for r
      using Inr None rt by (cases answer) (auto simp: http_Execute_def client_one_call split: prod.splits)
    have "\<exists>a. answer = Inr a \<and> er_StatusCode r = ha_Status a \<and> er_Data r = redact (ha_Body a) (he_secrets e)
        \<and> int (length (ha_Body a)) \<le> he_maxResp e \<and> (\<forall>s \<in> set (he_secrets e). maskable s \<longrightarrow> \<not> sublist s (er_Data r))" if "res = Inr r" for r
      using res(2) [OF that] body redact_gone by metis
    moreover have "hc_URL (http_call p) = hp_URL p" "hc_Body (http_call p) = hp_Body p" by (simp_all add: http_call_def)
    ultimately show ?thesis using u rt res(1) by (auto intro!: exI [of _ "http_call p"])
  qed (simp add: Inr http_Execute_def)
qed (simp add: http_Execute_def)

definition demo_web :: "nat Web" where
  "demo_web = \<lparr>ow_payload = (\<lambda>_. Inr \<lparr>hp_Method = '''', hp_URL = ''u'', hp_Headers = [], hp_Body = ''{}'', hp_TimeoutSeconds = 0\<rparr>),
     ow_Parse = (\<lambda>_. Inr \<lparr>url_Scheme = ''https'', url_Host = ''API.example''\<rparr>), ow_NewRequest = (\<lambda>_ _. None),
     ow_round_trip = (\<lambda>_ n. (Inr \<lparr>ha_Status = 302, ha_ContentType = '''', ha_Body = ''ok pass'', ha_BodyErr = None\<rparr>, Suc n)),
     ow_redirect = (\<lambda>c _. Some (c\<lparr>hc_URL := ''elsewhere''\<rparr>))\<rparr>"

theorem http_only_allowed_hosts_witness:
  "\<exists>r. http_Execute demo_web (NewHTTPExecutor \<lparr>hx_MaxRequestBytes = 0, hx_MaxResponseBytes = 9, hx_AllowedHosts = ['' Api.Example''], hx_Secrets = [''pass'']\<rparr>)
     demo_echo 0 = (Inr r, 1) \<and> \<not> sublist ''pass'' (er_Data r)"
proof -
  let ?e = "NewHTTPExecutor \<lparr>hx_MaxRequestBytes = 0, hx_MaxResponseBytes = 9, hx_AllowedHosts = ['' Api.Example''], hx_Secrets = [''pass'']\<rparr>"
  let ?m = "http_Execute demo_web ?e demo_echo 0"
  have "case fst ?m of Inr _ \<Rightarrow> True | Inl _ \<Rightarrow> False" "snd ?m = 1" by code_simp+
  then obtain r where m: "?m = (Inr r, 1)" by (cases ?m; cases "fst ?m") auto
  have "maskable ''pass''" "''pass'' \<in> set (he_secrets ?e)" by code_simp+
  with http_only_allowed_hosts [where web = demo_web and e = ?e and j = demo_echo and w = 0] m show ?thesis by auto
qed

end
