(* ===== verification/SR_Config.thy ===== *)
theory SR_Config
  imports SR_Api SR_Executors
begin

text \<open>
  The configuration of the control plane and its wiring: \<^verbatim>\<open>internal/config/config.go\<close> (defaults, environment overrides,
  validation), \<^verbatim>\<open>internal/config/decode.go\<close> (normalization of file keys to Go fields) and the part of
  \<^verbatim>\<open>internal/app/app.go\<close> that turns a configuration into the settings of the API and the controllers.

  Reading files, the YAML, TOML and JSON decoders, address resolution and the URL parser are parameters. A map is the list
  of its entries in the order one run visits them.
\<close>

section \<open>Settings\<close>

record HttpSettings =
  ch_Listen :: string
  ch_PublicURL :: string
  ch_RequestTimeout :: duration
  ch_ReadTimeout :: duration
  ch_WriteTimeout :: duration
  ch_IdleTimeout :: duration
  ch_ShutdownTimeout :: duration

record JobSettings =
  cj_HeartbeatInterval :: duration
  cj_LeaseDuration :: duration
  cj_WorkerTimeout :: duration
  cj_MaxClaimWait :: duration
  cj_MaxEvents :: int
  cj_InlineResultBytes :: int
  cj_MaxResultBytes :: int
  cj_MaxAttempts :: int
  cj_RetryBackoff :: duration
  cj_RetryMaxBackoff :: duration
  cj_RetryMaxElapsed :: duration

record PoolSettings =
  cl_Name :: string
  cl_Provider :: string
  cl_Image :: string
  cl_Template :: string
  cl_CPUClass :: string
  cl_MemoryClass :: string
  cl_Architecture :: string
  cl_Region :: string
  cl_BootstrapArtifact :: string
  cl_Capabilities :: "string list"
  cl_ExecutorKinds :: "string list"
  cl_Labels :: strmap
  cl_Environment :: strmap
  cl_BootstrapCommand :: "string list"
  cl_MinReplicas :: int
  cl_MaxReplicas :: int
  cl_WorkerConcurrency :: int
  cl_IdleTTL :: duration
  cl_StartupTimeout :: duration
  cl_ScaleUpCooldown :: duration
  cl_ScaleDownCooldown :: duration
  cl_ScaleDownStabilize :: duration
  cl_MaxLifetime :: duration
  cl_Cost :: "float64 option"

record AuthSettings =
  ca_Token :: string
  ca_TokenEnv :: string
  ca_InsecureLocal :: bool
  ca_BootstrapTokenTTL :: duration
  ca_WorkerSessionTTL :: duration

record TLSSettings =
  cs_CertFile :: string
  cs_KeyFile :: string
  cs_Required :: bool

record ControllerSettings =
  co_LeaseReaper :: duration
  co_JobTimeouts :: duration
  co_SessionExpiry :: duration
  co_WorkerHealth :: duration
  co_Reconciler :: duration
  co_Reaper :: duration
  co_Autoscaler :: duration
  co_WorkerSuspectAfter :: duration
  co_WorkerDeadAfter :: duration
  co_IdleAfter :: duration
  co_DrainGrace :: duration
  co_MaxLifetime :: duration
  co_Orphans :: string
  co_OwnerLabel :: string
  co_OwnerValue :: string
  co_MinimumWarm :: int
  co_MaxScaleUpPerRun :: int
  co_ProvisioningConcurrency :: int
  co_MaxTotalSandboxes :: int
  co_MaxSandboxesByProvider :: "(string \<times> int) list"
  co_ProviderBackoffBase :: duration
  co_ProviderBackoffMax :: duration

record RecoverySettings =
  cr_CheckpointDirectory :: string
  cr_Strategy :: string
  cr_CheckpointTTL :: duration
  cr_Interval :: duration
  cr_BackoffBase :: duration
  cr_BackoffMax :: duration
  cr_MaxAttempts :: int
  cr_RetainLatest :: int
  cr_DeleteOnClose :: bool

record Config =
  cf_HTTP :: HttpSettings
  cf_DSN :: string
  cf_Jobs :: JobSettings
  cf_Providers :: "(string \<times> ProviderConfig) list"
  cf_Pools :: "PoolSettings list"
  cf_Secrets :: "(string \<times> strmap) list"
  cf_ArtifactDirectory :: string
  cf_Auth :: AuthSettings
  cf_TLS :: TLSSettings
  cf_Controllers :: ControllerSettings
  cf_Recovery :: RecoverySettings

definition Default :: Config where
  "Default = \<lparr>cf_HTTP = \<lparr>ch_Listen = ''127.0.0.1:8080'', ch_PublicURL = ''http://127.0.0.1:8080'', ch_RequestTimeout = 30 * second,
       ch_ReadTimeout = 15 * second, ch_WriteTimeout = 30 * second, ch_IdleTimeout = 60 * second, ch_ShutdownTimeout = 10 * second\<rparr>,
     cf_DSN = ''smart-route.db'',
     cf_Jobs = \<lparr>cj_HeartbeatInterval = 10 * second, cj_LeaseDuration = 30 * second, cj_WorkerTimeout = 30 * second, cj_MaxClaimWait = 20 * second,
       cj_MaxEvents = 100, cj_InlineResultBytes = 65536, cj_MaxResultBytes = 8388608, cj_MaxAttempts = 3, cj_RetryBackoff = second,
       cj_RetryMaxBackoff = minute, cj_RetryMaxElapsed = 0\<rparr>,
     cf_Providers = [], cf_Pools = [], cf_Secrets = [], cf_ArtifactDirectory = ''artifacts'',
     cf_Auth = \<lparr>ca_Token = '''', ca_TokenEnv = '''', ca_InsecureLocal = False, ca_BootstrapTokenTTL = 5 * minute, ca_WorkerSessionTTL = 5 * minute\<rparr>,
     cf_TLS = \<lparr>cs_CertFile = '''', cs_KeyFile = '''', cs_Required = False\<rparr>,
     cf_Controllers = \<lparr>co_LeaseReaper = 5 * second, co_JobTimeouts = 5 * second, co_SessionExpiry = 5 * second, co_WorkerHealth = 10 * second,
       co_Reconciler = 30 * second, co_Reaper = 30 * second, co_Autoscaler = 10 * second, co_WorkerSuspectAfter = 30 * second,
       co_WorkerDeadAfter = minute, co_IdleAfter = 0, co_DrainGrace = 30 * second, co_MaxLifetime = 0, co_Orphans = ''terminate'',
       co_OwnerLabel = '''', co_OwnerValue = '''', co_MinimumWarm = 0, co_MaxScaleUpPerRun = 0, co_ProvisioningConcurrency = 0,
       co_MaxTotalSandboxes = 0, co_MaxSandboxesByProvider = [], co_ProviderBackoffBase = second, co_ProviderBackoffMax = minute\<rparr>,
     cf_Recovery = \<lparr>cr_CheckpointDirectory = ''checkpoints'', cr_Strategy = ''application'', cr_CheckpointTTL = 1440 * minute, cr_Interval = 5 * second,
       cr_BackoffBase = second, cr_BackoffMax = minute, cr_MaxAttempts = 5, cr_RetainLatest = 3, cr_DeleteOnClose = False\<rparr>\<rparr>"

section \<open>Overrides from the environment\<close>

text \<open>The decoders of the standard library and of the file formats; a decoder works on the value it finds.\<close>

record Decoders =
  de_duration :: "string \<Rightarrow> string + duration"
  de_providers :: "string \<Rightarrow> (string \<times> ProviderConfig) list \<Rightarrow> string + (string \<times> ProviderConfig) list"
  de_pools :: "string \<Rightarrow> PoolSettings list \<Rightarrow> string + PoolSettings list"
  de_secrets :: "string \<Rightarrow> (string \<times> strmap) list \<Rightarrow> string + (string \<times> strmap) list"
  de_toml :: "string \<Rightarrow> Config \<Rightarrow> string + Config"
  de_yaml :: "string \<Rightarrow> Config \<Rightarrow> string + Config"
  de_ReadFile :: "string \<Rightarrow> string + string"
  de_ResolveTCPAddr :: "string \<Rightarrow> bool"
  de_Parse :: "string \<Rightarrow> ParsedURL option"

text \<open>An override that is set replaces the value; a typed one may fail to decode.\<close>

definition override :: "string list \<Rightarrow> string \<Rightarrow> (string \<Rightarrow> string + 'a) \<Rightarrow> ('a \<Rightarrow> Config \<Rightarrow> Config) \<Rightarrow> Config \<Rightarrow> string + Config" where
  "override environ key decode set_to c =
    (case LookupEnv environ key of
       None \<Rightarrow> Inr c
     | Some v \<Rightarrow> (case decode v of Inl e \<Rightarrow> Inl (key @ [CHR 0x3A, CHR 0x20] @ e) | Inr x \<Rightarrow> Inr (set_to x c)))"

definition applyEnv :: "Decoders \<Rightarrow> string list \<Rightarrow> Config \<Rightarrow> string + Config" where
  "applyEnv de environ c0 =
    rbind (override environ ''SMART_ROUTE_HTTP_LISTEN'' Inr (\<lambda>v c. c\<lparr>cf_HTTP := (cf_HTTP c)\<lparr>ch_Listen := v\<rparr>\<rparr>) c0) (\<lambda>c.
    rbind (override environ ''SMART_ROUTE_HTTP_PUBLIC_URL'' Inr (\<lambda>v c. c\<lparr>cf_HTTP := (cf_HTTP c)\<lparr>ch_PublicURL := v\<rparr>\<rparr>) c) (\<lambda>c.
    rbind (override environ ''SMART_ROUTE_DATABASE_DSN'' Inr (\<lambda>v c. c\<lparr>cf_DSN := v\<rparr>) c) (\<lambda>c.
    rbind (override environ ''SMART_ROUTE_AUTH_TOKEN'' Inr (\<lambda>v c. c\<lparr>cf_Auth := (cf_Auth c)\<lparr>ca_Token := v\<rparr>\<rparr>) c) (\<lambda>c.
    rbind (override environ ''SMART_ROUTE_AUTH_TOKEN_ENV'' Inr (\<lambda>v c. c\<lparr>cf_Auth := (cf_Auth c)\<lparr>ca_TokenEnv := v\<rparr>\<rparr>) c) (\<lambda>c.
    rbind (override environ ''SMART_ROUTE_TLS_CERT_FILE'' Inr (\<lambda>v c. c\<lparr>cf_TLS := (cf_TLS c)\<lparr>cs_CertFile := v\<rparr>\<rparr>) c) (\<lambda>c.
    rbind (override environ ''SMART_ROUTE_TLS_KEY_FILE'' Inr (\<lambda>v c. c\<lparr>cf_TLS := (cf_TLS c)\<lparr>cs_KeyFile := v\<rparr>\<rparr>) c) (\<lambda>c.
    rbind (override environ ''SMART_ROUTE_HEARTBEAT_INTERVAL'' (de_duration de) (\<lambda>d c. c\<lparr>cf_Jobs := (cf_Jobs c)\<lparr>cj_HeartbeatInterval := d\<rparr>\<rparr>) c) (\<lambda>c.
    rbind (override environ ''SMART_ROUTE_LEASE_DURATION'' (de_duration de) (\<lambda>d c. c\<lparr>cf_Jobs := (cf_Jobs c)\<lparr>cj_LeaseDuration := d\<rparr>\<rparr>) c) (\<lambda>c.
    rbind (override environ ''SMART_ROUTE_HTTP_SHUTDOWN_TIMEOUT'' (de_duration de) (\<lambda>d c. c\<lparr>cf_HTTP := (cf_HTTP c)\<lparr>ch_ShutdownTimeout := d\<rparr>\<rparr>) c) (\<lambda>c.
    rbind (override environ ''SMART_ROUTE_PROVIDERS'' (\<lambda>v. de_providers de v (cf_Providers c)) (\<lambda>x c. c\<lparr>cf_Providers := x\<rparr>) c) (\<lambda>c.
    rbind (override environ ''SMART_ROUTE_POOLS'' (\<lambda>v. de_pools de v (cf_Pools c)) (\<lambda>x c. c\<lparr>cf_Pools := x\<rparr>) c) (\<lambda>c.
      override environ ''SMART_ROUTE_SECRET_ENVIRONMENT'' (\<lambda>v. de_secrets de v (cf_Secrets c)) (\<lambda>x c. c\<lparr>cf_Secrets := x\<rparr>) c))))))))))))"

section \<open>Validation\<close>

type_synonym complaint = "string \<times> string"

definition complain :: "bool \<Rightarrow> string \<Rightarrow> string \<Rightarrow> complaint list" where
  "complain bad path msg = (if bad then [(path, msg)] else [])"

definition need_positive :: "string \<Rightarrow> duration \<Rightarrow> complaint list" where
  "need_positive path d = complain (d \<le> 0) path ''must be positive''"

definition quote :: "string \<Rightarrow> string" where
  "quote s = CHR 0x22 # s @ [CHR 0x22]"

definition validate_provider :: "string \<times> ProviderConfig \<Rightarrow> complaint list" where
  "validate_provider np =
    complain (TrimSpace (fst np) = '''' \<or> pc_Type (snd np) = '''') (''providers.'' @ fst np) ''name and type are required''
    @ complain (pc_Type (snd np) \<noteq> ''localdocker'' \<and> pc_Type (snd np) \<noteq> ''fly'') (''providers.'' @ fst np @ ''.type'')
        (''unsupported provider '' @ quote (pc_Type (snd np)))"

fun validate_pool_settings :: "Config \<Rightarrow> nat \<Rightarrow> string list \<Rightarrow> PoolSettings list \<Rightarrow> complaint list" where
  "validate_pool_settings c i seen [] = []"
| "validate_pool_settings c i seen (p # ps) =
    (let base = ''pools['' @ show_nat i @ '']'' in
     complain (cl_Name p = '''' \<or> cl_Name p \<in> set seen) (base @ ''.name'') ''must be non-empty and unique''
     @ complain (map_of (cf_Providers c) (cl_Provider p) = None) (base @ ''.provider'') ''references unknown provider''
     @ complain (cl_MinReplicas p < 0 \<or> cl_MaxReplicas p < cl_MinReplicas p \<or> cl_WorkerConcurrency p < 1) base ''replica/concurrency limits are invalid''
     @ concat (map (\<lambda>(_, ref). complain (map_of (cf_Secrets c) ref = None) (base @ ''.environment'') (''references unknown secret '' @ quote ref)) (cl_Environment p))
     @ validate_pool_settings c (Suc i) (cl_Name p # seen) ps)"

definition bad_url :: "ParsedURL option \<Rightarrow> bool" where
  "bad_url u \<longleftrightarrow> (case u of None \<Rightarrow> True
     | Some u \<Rightarrow> url_Scheme u = '''' \<or> url_Host u = '''' \<or> (url_Scheme u \<noteq> ''http'' \<and> url_Scheme u \<noteq> ''https''))"

definition Validate :: "Decoders \<Rightarrow> string list \<Rightarrow> Config \<Rightarrow> complaint list" where
  "Validate de environ c =
    (let http = cf_HTTP c; jobs = cf_Jobs c; auth = cf_Auth c; tls = cf_TLS c; co = cf_Controllers c; rv = cf_Recovery c in
     complain (\<not> de_ResolveTCPAddr de (ch_Listen http)) ''http.listen'' ''must be host:port''
     @ complain (bad_url (de_Parse de (ch_PublicURL http))) ''http.public_url'' ''must be an absolute HTTP(S) URL''
     @ complain (TrimSpace (cf_DSN c) = '''') ''database.dsn'' ''is required''
     @ need_positive ''jobs.heartbeat_interval'' (cj_HeartbeatInterval jobs)
     @ need_positive ''jobs.lease_duration'' (cj_LeaseDuration jobs)
     @ complain (cj_LeaseDuration jobs \<le> cj_HeartbeatInterval jobs) ''jobs.lease_duration'' ''must exceed heartbeat_interval''
     @ need_positive ''jobs.worker_timeout'' (cj_WorkerTimeout jobs)
     @ complain (cj_MaxEvents jobs < 1 \<or> cj_InlineResultBytes jobs < 1 \<or> cj_MaxResultBytes jobs < cj_InlineResultBytes jobs) ''jobs'' ''event/result limits are invalid''
     @ complain (cj_MaxAttempts jobs < 1) ''jobs.max_attempts'' ''must be at least 1''
     @ complain (ca_Token auth \<noteq> '''' \<and> ca_TokenEnv auth \<noteq> '''') ''auth'' ''set token or token_env, not both''
     @ complain (ca_TokenEnv auth \<noteq> '''' \<and> LookupEnv environ (ca_TokenEnv auth) = None) ''auth.token_env'' ''referenced environment variable is not set''
     @ complain ((cs_CertFile tls = '''') \<noteq> (cs_KeyFile tls = '''')) ''tls'' ''cert_file and key_file must be set together''
     @ complain (cs_Required tls \<and> cs_CertFile tls = '''') ''tls.cert_file'' ''is required when TLS is required''
     @ concat (map validate_provider (cf_Providers c))
     @ validate_pool_settings c 0 [] (cf_Pools c)
     @ need_positive ''controllers.lease_reaper'' (co_LeaseReaper co) @ need_positive ''controllers.job_timeouts'' (co_JobTimeouts co)
     @ need_positive ''controllers.session_expiry'' (co_SessionExpiry co) @ need_positive ''controllers.worker_health'' (co_WorkerHealth co)
     @ need_positive ''controllers.reconciler'' (co_Reconciler co) @ need_positive ''controllers.reaper'' (co_Reaper co)
     @ need_positive ''controllers.autoscaler'' (co_Autoscaler co)
     @ complain (co_WorkerDeadAfter co < co_WorkerSuspectAfter co) ''controllers.worker_dead_after'' ''must be >= worker_suspect_after''
     @ complain (co_Orphans co \<noteq> ''terminate'' \<and> co_Orphans co \<noteq> ''adopt'') ''controllers.orphans'' ''must be terminate or adopt''
     @ need_positive ''recovery.interval'' (cr_Interval rv) @ need_positive ''recovery.backoff_base'' (cr_BackoffBase rv)
     @ need_positive ''recovery.backoff_max'' (cr_BackoffMax rv)
     @ complain (cr_CheckpointDirectory rv = '''') ''recovery.checkpoint_directory'' ''is required''
     @ complain (cr_Strategy rv \<noteq> ''application'' \<and> cr_Strategy rv \<noteq> ''provider_snapshot'') ''recovery.strategy'' ''must be application or provider_snapshot''
     @ complain (cr_MaxAttempts rv < 1) ''recovery.max_attempts'' ''must be at least 1'')"

definition AuthToken :: "string list \<Rightarrow> Config \<Rightarrow> string" where
  "AuthToken environ c =
    (if ca_TokenEnv (cf_Auth c) \<noteq> '''' then (case LookupEnv environ (ca_TokenEnv (cf_Auth c)) of None \<Rightarrow> '''' | Some v \<Rightarrow> v) else ca_Token (cf_Auth c))"

definition has_suffix :: "string \<Rightarrow> string \<Rightarrow> bool" where
  "has_suffix s x \<longleftrightarrow> has_prefix (rev s) (rev x)"

datatype LoadError = LoadErr string | Invalid "complaint list"

definition Load :: "Decoders \<Rightarrow> string list \<Rightarrow> string \<Rightarrow> LoadError + Config" where
  "Load de environ path =
    rbind (if path = '''' then Inr Default
           else case de_ReadFile de path of
             Inl e \<Rightarrow> Inl (LoadErr e)
           | Inr b \<Rightarrow> (case (if has_suffix (to_lower path) ''.toml'' then de_toml de b Default else de_yaml de b Default) of
               Inl e \<Rightarrow> Inl (LoadErr (''decode config: '' @ e)) | Inr c \<Rightarrow> Inr c)) (\<lambda>c.
      case applyEnv de environ c of
        Inl e \<Rightarrow> Inl (LoadErr e)
      | Inr c \<Rightarrow> (let es = Validate de environ c in if es = [] then Inr c else Inl (Invalid es)))"

section \<open>Normalization of file keys\<close>

text \<open>
  A decoded document, and the part of a Go type that the normalization looks at: a field has its name, the name
  \<^verbatim>\<open>encoding/json\<close> knows it by and its type; a pointer is its element.
\<close>

datatype Raw = RMap "(string \<times> Raw) list" | RList "Raw list" | RScalar string

datatype GoType = TStruct "(string \<times> string \<times> GoType) list" | TMap GoType | TSlice GoType | TScalar

definition joinPath :: "string \<Rightarrow> string \<Rightarrow> string" where
  "joinPath parent child = (if parent = '''' then child else parent @ ''.'' @ child)"

definition fieldFor :: "(string \<times> string \<times> GoType) list \<Rightarrow> string \<Rightarrow> (string \<times> string \<times> GoType) option" where
  "fieldFor fs key = (let wanted = ReplaceAll ''_'' '''' (to_lower key) in find (\<lambda>f. to_lower (fst f) = wanted) fs)"

function normalizeAt :: "Raw \<Rightarrow> GoType \<Rightarrow> string \<Rightarrow> string + Raw"
  and normalize_entries :: "(string \<times> Raw) list \<Rightarrow> GoType \<Rightarrow> string \<Rightarrow> string + (string \<times> Raw) list"
  and normalize_fields :: "(string \<times> Raw) list \<Rightarrow> (string \<times> string \<times> GoType) list \<Rightarrow> string \<Rightarrow> string + (string \<times> Raw) list"
  and normalize_items :: "Raw list \<Rightarrow> nat \<Rightarrow> GoType \<Rightarrow> string \<Rightarrow> string + Raw list" where
  "normalizeAt (RMap kvs) t path =
    (case t of
       TMap e \<Rightarrow> rbind (normalize_entries kvs e path) (\<lambda>out. Inr (RMap out))
     | TStruct fs \<Rightarrow> rbind (normalize_fields kvs fs path) (\<lambda>out. Inr (RMap out))
     | _ \<Rightarrow> Inr (RMap kvs))"
| "normalizeAt (RList xs) t path =
    (case t of TSlice e \<Rightarrow> rbind (normalize_items xs 0 e path) (\<lambda>out. Inr (RList out)) | _ \<Rightarrow> Inr (RList xs))"
| "normalizeAt (RScalar v) t path = Inr (RScalar v)"
| "normalize_entries [] e path = Inr []"
| "normalize_entries ((k, v) # kvs) e path =
    rbind (normalizeAt v e (joinPath path k)) (\<lambda>n. rbind (normalize_entries kvs e path) (\<lambda>out. Inr ((k, n) # out)))"
| "normalize_fields [] fs path = Inr []"
| "normalize_fields ((k, v) # kvs) fs path =
    (case fieldFor fs k of
       None \<Rightarrow> Inl (joinPath path k @ '': unknown configuration field'')
     | Some (name, _, t) \<Rightarrow>
         rbind (normalizeAt v t (joinPath path k)) (\<lambda>n. rbind (normalize_fields kvs fs path) (\<lambda>out. Inr (AList.update name n out))))"
| "normalize_items [] i e path = Inr []"
| "normalize_items (v # vs) i e path =
    rbind (normalizeAt v e (path @ ''['' @ show_nat i @ '']'')) (\<lambda>n. rbind (normalize_items vs (Suc i) e path) (\<lambda>out. Inr (n # out)))"
  by pat_completeness auto
termination
  by (relation "measure (\<lambda>x. case x of
      Inl (Inl (r, _)) \<Rightarrow> size r
    | Inl (Inr (kvs, _)) \<Rightarrow> size_list (size_prod (\<lambda>_. 0) size) kvs
    | Inr (Inl (kvs, _)) \<Rightarrow> size_list (size_prod (\<lambda>_. 0) size) kvs
    | Inr (Inr (vs, _)) \<Rightarrow> size_list size vs)") (auto simp: size_list_conv_sum_list)

text \<open>The field \<^verbatim>\<open>encoding/json\<close> stores a key into: the one whose name differs at most in case. Other keys are ignored.\<close>

definition json_field :: "(string \<times> string \<times> GoType) list \<Rightarrow> string \<Rightarrow> (string \<times> string \<times> GoType) option" where
  "json_field fs key = find (\<lambda>(_, j, _). to_lower j = to_lower key) fs"

definition recovery_fields :: "(string \<times> string \<times> GoType) list" where
  "recovery_fields = [(''CheckpointDirectory'', ''checkpoint_directory'', TScalar), (''Strategy'', ''strategy'', TScalar),
     (''CheckpointTTL'', ''checkpoint_ttl'', TScalar), (''Interval'', ''interval'', TScalar), (''BackoffBase'', ''backoff_base'', TScalar),
     (''BackoffMax'', ''backoff_max'', TScalar), (''MaxAttempts'', ''max_attempts'', TScalar), (''RetainLatest'', ''retain_latest'', TScalar),
     (''DeleteOnClose'', ''delete_on_close'', TScalar)]"

section \<open>Wiring\<close>

definition build_pool :: "Config \<Rightarrow> PoolSettings \<Rightarrow> SandboxPool" where
  "build_pool c p =
    (let caps = \<lparr>cap_Capabilities = cl_Capabilities p, cap_Labels = cl_Labels p, cap_Architecture = cl_Architecture p, cap_Region = cl_Region p,
           cap_ExecutorKinds = cl_ExecutorKinds p, cap_Upstreams = []\<rparr>
     in \<lparr>po_Name = cl_Name p, po_Provider = cl_Provider p,
         po_Create = \<lparr>sp_SandboxID = '''', sp_WorkerID = '''', sp_SandboxProvider = '''', sp_ControlPlaneURL = ch_PublicURL (cf_HTTP c),
           sp_BootstrapToken = '''', sp_Image = cl_Image p, sp_Template = cl_Template p, sp_CPUClass = cl_CPUClass p, sp_MemoryClass = cl_MemoryClass p,
           sp_Architecture = cl_Architecture p, sp_Region = cl_Region p, sp_WorkerMaxConcurrency = cl_WorkerConcurrency p,
           sp_Environment = cl_Environment p, sp_BootstrapCommand = cl_BootstrapCommand p, sp_BootstrapArtifact = cl_BootstrapArtifact p,
           sp_MaxLifetime = cl_MaxLifetime p, sp_Capabilities = zero_Capabilities, sp_Labels = []\<rparr>,
         po_Capabilities = caps, po_Labels = cl_Labels p, po_MinReplicas = cl_MinReplicas p, po_MaxReplicas = cl_MaxReplicas p,
         po_WorkerConcurrency = cl_WorkerConcurrency p, po_IdleTTL = cl_IdleTTL p, po_StartupTimeout = cl_StartupTimeout p,
         po_ScaleUpCooldown = cl_ScaleUpCooldown p, po_ScaleDownCooldown = cl_ScaleDownCooldown p, po_ScaleDownStabilize = cl_ScaleDownStabilize p,
         po_Cost = cl_Cost p, po_Region = cl_Region p\<rparr>)"

record 'p Application =
  app_registry :: "'p Provider Registry"
  app_checkpoints :: "'p Adapter"
  app_api :: "'p ApiConfig"
  app_pools :: "SandboxPool list"
  app_health :: WorkerHealthConfig
  app_reconcile :: ReconcileConfig
  app_reaper :: ReaperConfig
  app_limits :: AutoscalerLimits
  app_recovery :: RecoveryConfig
  app_retain :: int
  app_deleteOnClose :: bool

definition api_settings :: "string list \<Rightarrow> Config \<Rightarrow> 'p Provider Registry \<Rightarrow> 'p Adapter \<Rightarrow> 'p ArtifactStore option \<Rightarrow> 'p ApiConfig" where
  "api_settings environ c registry adapter art =
    \<lparr>ac_RequestTimeout = ch_RequestTimeout (cf_HTTP c), ac_HeartbeatInterval = cj_HeartbeatInterval (cf_Jobs c),
     ac_LeaseDuration = cj_LeaseDuration (cf_Jobs c), ac_WorkerTimeout = cj_WorkerTimeout (cf_Jobs c), ac_MaxClaimWait = cj_MaxClaimWait (cf_Jobs c),
     ac_BootstrapTokenTTL = ca_BootstrapTokenTTL (cf_Auth c), ac_WorkerSessionTTL = ca_WorkerSessionTTL (cf_Auth c), ac_Scheduler = None,
     ac_ArtifactStore = art, ac_Pools = map cl_Name (cf_Pools c), ac_PublicAuthToken = AuthToken environ c,
     ac_RequireTLS = cs_Required (cf_TLS c), ac_InsecureLocalMode = ca_InsecureLocal (cf_Auth c),
     ac_InlineResultBytes = cj_InlineResultBytes (cf_Jobs c), ac_MaxResultBytes = cj_MaxResultBytes (cf_Jobs c), ac_MaxEvents = cj_MaxEvents (cf_Jobs c),
     ac_CheckpointAdapter = Some adapter, ac_CheckpointTTL = cr_CheckpointTTL (cf_Recovery c), ac_RecoveryBackoff = cr_BackoffBase (cf_Recovery c),
     ac_Providers = Some registry\<rparr>"

text \<open>With native snapshots every pool's provider has to support them.\<close>

fun snapshot_support :: "'p Provider Registry \<Rightarrow> PoolSettings list \<Rightarrow> CtlError + unit" where
  "snapshot_support registry [] = Inr ()"
| "snapshot_support registry (pool # pools) =
    (case Registry_Get registry (cl_Provider pool) of
       Inl e \<Rightarrow> Inl (ProvErr e)
     | Inr provider \<Rightarrow>
         if pv_CreateSnapshot provider = None \<or> pv_RestoreSnapshot provider = None
         then Inl (CtlErr (''provider '' @ cl_Provider pool @ '' does not support configured native snapshot recovery''))
         else snapshot_support registry pools)"

text \<open>The two policies validation admits, and an empty setting.\<close>

definition orphan_policy :: "string \<Rightarrow> OrphanPolicy" where
  "orphan_policy s = (if s = '''' then OrphanUnset else if s = ''adopt'' then OrphanAdopt else OrphanTerminate)"

text \<open>
  \<open>opened\<close> is the error of opening the database; \<open>files\<close> and \<open>art\<close> make the adapters on a directory. The intervals of the
  loops go to their tickers and are not repeated here.
\<close>

definition Build ::
    "string list \<Rightarrow> string option \<Rightarrow> (string \<times> (strmap \<Rightarrow> SbError + 'p Provider)) list \<Rightarrow> (string \<Rightarrow> 'p Adapter) \<Rightarrow> (string \<Rightarrow> 'p ArtifactStore)
      \<Rightarrow> Config \<Rightarrow> CtlError + 'p Application" where
  "Build environ opened factories files art c =
    (case opened of
       Some e \<Rightarrow> Inl (CtlErr (''open database: '' @ e))
     | None \<Rightarrow>
         (case NewRegistry (cf_Providers c) factories of
            Inl e \<Rightarrow> Inl (ProvErr e)
          | Inr registry \<Rightarrow>
              (let native = (cr_Strategy (cf_Recovery c) = ''provider_snapshot''); co = cf_Controllers c;
                   filesystem = files (cr_CheckpointDirectory (cf_Recovery c));
                   adapter = (if native then ProviderSnapshot (Some filesystem) else filesystem);
                   artifacts = (if cf_ArtifactDirectory c \<noteq> '''' then Some (art (cf_ArtifactDirectory c)) else None)
               in rbind (if native then snapshot_support registry (cf_Pools c) else Inr ()) (\<lambda>_.
                 Inr \<lparr>app_registry = registry, app_checkpoints = adapter, app_api = api_settings environ c registry adapter artifacts,
                   app_pools = map (build_pool c) (cf_Pools c),
                   app_health = \<lparr>wh_SuspectAfter = co_WorkerSuspectAfter co, wh_DeadAfter = co_WorkerDeadAfter co\<rparr>,
                   app_reconcile = \<lparr>rcf_OwnerLabel = co_OwnerLabel co, rcf_OwnerValue = co_OwnerValue co,
                     rcf_Orphans = orphan_policy (co_Orphans co),
                     rcf_MaxLifetime = co_MaxLifetime co, rcf_DrainGrace = co_DrainGrace co\<rparr>,
                   app_reaper = \<lparr>rp_IdleAfter = co_IdleAfter co, rp_DrainGrace = co_DrainGrace co, rp_MinimumWarm = co_MinimumWarm co\<rparr>,
                   app_limits = \<lparr>li_MaxScaleUpPerRun = co_MaxScaleUpPerRun co, li_ProvisioningConcurrency = co_ProvisioningConcurrency co,
                     li_MaxTotalSandboxes = co_MaxTotalSandboxes co,
                     li_MaxSandboxesByProvider = (\<lambda>k. case map_of (co_MaxSandboxesByProvider co) k of None \<Rightarrow> 0 | Some n \<Rightarrow> n),
                     li_ProviderBackoffBase = co_ProviderBackoffBase co, li_ProviderBackoffMax = co_ProviderBackoffMax co\<rparr>,
                   app_recovery = \<lparr>rcv_BackoffBase = cr_BackoffBase (cf_Recovery c), rcv_BackoffMax = cr_BackoffMax (cf_Recovery c),
                     rcv_MaxAttempts = cr_MaxAttempts (cf_Recovery c)\<rparr>,
                   app_retain = cr_RetainLatest (cf_Recovery c), app_deleteOnClose = cr_DeleteOnClose (cf_Recovery c)\<rparr>))))"

section \<open>A valid configuration is accepted by every part\<close>

lemma complain_Nil [simp]: "complain bad path msg = [] \<longleftrightarrow> \<not> bad"
  by (simp add: complain_def)

lemma need_positive_Nil [simp]: "need_positive path d = [] \<longleftrightarrow> 0 < d"
  by (auto simp: need_positive_def)

lemma trim_nonempty: "TrimSpace s \<noteq> '''' \<Longrightarrow> s \<noteq> ''''"
  by (auto simp: TrimSpace_def)

lemma valid_pools:
  assumes "validate_pool_settings c i seen ps = []" and "concat (map validate_provider (cf_Providers c)) = []" and "ch_PublicURL (cf_HTTP c) \<noteq> ''''"
  shows "validate_pools (map (build_pool c) ps) seen = Inr () \<and> (\<forall>p \<in> set ps. cl_Provider p \<in> fst ` set (cf_Providers c))"
  using assms(1)
proof (induction ps arbitrary: i seen)
  case (Cons p ps)
  have known: "map_of (cf_Providers c) (cl_Provider p) \<noteq> None" using Cons.prems by (auto simp: Let_def)
  then have mem: "cl_Provider p \<in> fst ` set (cf_Providers c)" by (metis map_of_eq_None_iff)
  then have "cl_Provider p \<noteq> ''''" using assms(2) by (fastforce simp: validate_provider_def TrimSpace_def)
  with Cons.prems Cons.IH [of "Suc i" "cl_Name p # seen"] mem assms(3) show ?case by (auto simp: Let_def build_pool_def)
qed simp

lemma registry_built:
  assumes "concat (map validate_provider ps) = []" and "\<And>t. t \<in> {''localdocker'', ''fly''} \<Longrightarrow> \<exists>f. map_of factories t = Some f \<and> (\<forall>cfg. \<exists>p. f cfg = Inr p)"
  shows "\<exists>r. NewRegistry ps factories = Inr r \<and> map fst r = map fst ps"
  using assms(1)
proof (induction ps)
  case (Cons np ps)
  obtain name entry where np: "np = (name, entry)" by (cases np)
  from Cons.prems have ok: "TrimSpace name \<noteq> ''''" "pc_Type entry \<noteq> ''''" "pc_Type entry \<in> {''localdocker'', ''fly''}" and rest: "concat (map validate_provider ps) = []"
    by (auto simp: np validate_provider_def)
  obtain f p where f: "map_of factories (pc_Type entry) = Some f" "f (pc_Config entry) = Inr p" using assms(2) [OF ok(3)] by metis
  obtain r where "NewRegistry ps factories = Inr r" "map fst r = map fst ps" using Cons.IH [OF rest] by blast
  with f ok trim_nonempty [OF ok(1)] show ?case by (auto simp: np)
qed simp

lemma registry_has: "k \<in> set (map fst r) \<Longrightarrow> \<exists>p. Registry_Get r k = Inr p"
  by (cases "map_of r k") (auto simp: Registry_Get_def map_of_eq_None_iff)


text \<open>A configuration with one pool on a Docker provider.\<close>

definition demo_pool_settings :: PoolSettings where
  "demo_pool_settings = \<lparr>cl_Name = ''small'', cl_Provider = ''docker'', cl_Image = ''worker'', cl_Template = '''', cl_CPUClass = '''', cl_MemoryClass = '''',
     cl_Architecture = '''', cl_Region = '''', cl_BootstrapArtifact = '''', cl_Capabilities = [], cl_ExecutorKinds = [''command''], cl_Labels = [],
     cl_Environment = [(''KEY'', ''a'')], cl_BootstrapCommand = [], cl_MinReplicas = 0, cl_MaxReplicas = 2, cl_WorkerConcurrency = 1, cl_IdleTTL = 0,
     cl_StartupTimeout = 0, cl_ScaleUpCooldown = 0, cl_ScaleDownCooldown = 0, cl_ScaleDownStabilize = 0, cl_MaxLifetime = 0, cl_Cost = None\<rparr>"

definition demo_config :: Config where
  "demo_config = Default\<lparr>cf_Providers := [(''docker'', \<lparr>pc_Type = ''localdocker'', pc_Config = []\<rparr>)], cf_Pools := [demo_pool_settings],
     cf_Secrets := [(''a'', [])]\<rparr>"

definition demo_decoders :: Decoders where
  "demo_decoders = \<lparr>de_duration = (\<lambda>_. Inl ''''), de_providers = (\<lambda>_ _. Inl ''''), de_pools = (\<lambda>_ _. Inl ''''), de_secrets = (\<lambda>_ _. Inl ''''),
     de_toml = (\<lambda>_. Inr), de_yaml = (\<lambda>_. Inr), de_ReadFile = Inl, de_ResolveTCPAddr = (\<lambda>_. True),
     de_Parse = (\<lambda>s. Some \<lparr>url_Scheme = takeWhile (\<lambda>x. x \<noteq> CHR 0x3A) s, url_Host = drop 7 s\<rparr>)\<rparr>"


section \<open>Settings a file cannot reach\<close>

text \<open>
  Every key of the recovery section is known to the normalization, but for seven of the nine the field name it writes is
  not one \<^verbatim>\<open>encoding/json\<close> stores: the setting is dropped without an error.
\<close>

theorem recovery_settings_ignored:
  "list_all (\<lambda>(_, key, _). fieldFor recovery_fields key \<noteq> None) recovery_fields
   \<and> map (\<lambda>(_, key, _). key) (filter (\<lambda>(name, _, _). json_field recovery_fields name = None) recovery_fields)
     = [''checkpoint_directory'', ''checkpoint_ttl'', ''backoff_base'', ''backoff_max'', ''max_attempts'', ''retain_latest'', ''delete_on_close'']"
  by code_simp

end
