(* ===== verification/SR_ApiWorker.thy ===== *)
theory SR_ApiWorker
  imports SR_Api
begin

text \<open>
  The worker protocol of \<^verbatim>\<open>internal/httpapi/worker.go\<close> (registration with a bootstrap token, session
  authentication, heartbeats, the long-polling claim, attempt reports, recovery acknowledgements) and the
  router \<^verbatim>\<open>serveHTTP\<close> with its TLS and token checks.

  A claim that waits finds the database as the other requests left it: each wake-up comes with the plane it
  finds.
\<close>

section \<open>Registration\<close>

definition is_hex :: "char \<Rightarrow> bool" where
  "is_hex c \<longleftrightarrow> is_digit c \<or> (CHR ''a'' \<le> c \<and> c \<le> CHR ''f'') \<or> (CHR ''A'' \<le> c \<and> c \<le> CHR ''F'')"

definition validInstanceUUID :: "string \<Rightarrow> bool" where
  "validInstanceUUID v \<longleftrightarrow>
    (if length v \<noteq> 36 \<or> v ! 8 \<noteq> CHR ''-'' \<or> v ! 13 \<noteq> CHR ''-'' \<or> v ! 18 \<noteq> CHR ''-'' \<or> v ! 23 \<noteq> CHR ''-'' then False
     else (let ds = filter (\<lambda>c. c \<noteq> CHR ''-'') v in even (length ds) \<and> list_all is_hex ds))"

definition workerProtocolVersion :: string where
  "workerProtocolVersion = ''1''"

definition valid_registration :: "RegisterReq \<Rightarrow> bool" where
  "valid_registration req \<longleftrightarrow> validInstanceUUID (rr_InstanceID req) \<and> rr_SandboxID req \<noteq> '''' \<and> rr_SandboxProvider req \<noteq> ''''
     \<and> rr_WorkerVersion req \<noteq> '''' \<and> rr_ProtocolVersion req = workerProtocolVersion \<and> rr_MaxConcurrency req > 0"

definition registration_pool :: "RegisterReq \<Rightarrow> string" where
  "registration_pool req =
    (let labels = cap_Labels (rr_Capabilities req); pool = get_str labels ''smart-route.pool''
     in if pool = '''' then get_str labels ''pool'' else pool)"

text \<open>The session a sandbox was reserved for before it was provisioned, while it still recovers.\<close>

definition recovery_reservation :: "SandboxID \<Rightarrow> DB \<Rightarrow> Session option" where
  "recovery_reservation b s =
    (case getSandbox b s of
       Inl _ \<Rightarrow> None
     | Inr box \<Rightarrow>
         if b_ReservedSessionID box = '''' then None
         else (case GetSession (b_ReservedSessionID box) s of
             Inl _ \<Rightarrow> None
           | Inr v \<Rightarrow> if s_State v = SessionRecovering then Some v else None))"

fun newest_readable :: "'p Adapter \<Rightarrow> Checkpoint list \<Rightarrow> 'p plane \<Rightarrow> string \<times> 'p plane" where
  "newest_readable adapter [] w = ('''', w)"
| "newest_readable adapter (cp # cps) w =
    (if c_State cp \<noteq> ''ready'' \<or> c_Adapter cp \<noteq> ad_Name adapter then newest_readable adapter cps w
     else case on_adapter (ad_Open adapter cp) w of
       (Inl _, w) \<Rightarrow> newest_readable adapter cps w
     | (Inr data, w) \<Rightarrow> (data, w))"

definition recovery_checkpoint :: "'p API \<Rightarrow> Session option \<Rightarrow> 'p plane \<Rightarrow> string \<times> 'p plane" where
  "recovery_checkpoint api reserved w =
    (case (reserved, api_checkpoints api) of
       (Some v, Some adapter) \<Rightarrow>
         if s_RecoveryPolicy v = RecoveryCheckpoint \<and> ad_Strategy adapter \<noteq> StrategyProviderSnapshot
         then newest_readable adapter (ListCheckpoints (s_ID v) (fst w)) w
         else ('''', w)
     | _ \<Rightarrow> ('''', w))"

definition new_worker :: "'p API \<Rightarrow> RegisterReq \<Rightarrow> time \<Rightarrow> WorkerID \<Rightarrow> string \<Rightarrow> string \<Rightarrow> Session option \<Rightarrow> Worker" where
  "new_worker api req now i session_id token_hash reserved =
    (let w = zero_Worker\<lparr>w_ID := i, w_InstanceID := rr_InstanceID req, w_SandboxID := rr_SandboxID req,
           w_SandboxProvider := rr_SandboxProvider req, w_SessionID := session_id, w_SessionTokenHash := token_hash,
           w_WorkerVersion := rr_WorkerVersion req, w_ProtocolVersion := rr_ProtocolVersion req, w_Capabilities := rr_Capabilities req,
           w_MaxConcurrency := rr_MaxConcurrency req, w_AvailableSlots := rr_MaxConcurrency req,
           w_SandboxMetadata := rr_SandboxMetadata req, w_RegisteredAt := now, w_LastSeenAt := now,
           w_SessionExpiresAt := now + api_workerSessionTTL api\<rparr>
     in case reserved of None \<Rightarrow> w | Some v \<Rightarrow> w\<lparr>w_ReservedSessionID := s_ID v, w_SessionEpoch := s_Epoch v\<rparr>)"

text \<open>An instance that registers again keeps its identity and its running attempts.\<close>

definition rejoin :: "Worker \<Rightarrow> Worker \<Rightarrow> Worker" where
  "rejoin existing w = w\<lparr>w_ID := w_ID existing, w_RegisteredAt := w_RegisteredAt existing, w_ActiveAttempts := w_ActiveAttempts existing,
     w_AvailableSlots := (if w_AvailableSlots existing > w_MaxConcurrency w then w_MaxConcurrency w else w_AvailableSlots existing)\<rparr>"

definition registered_box :: "Worker \<Rightarrow> time \<Rightarrow> Sandbox" where
  "registered_box w now = zero_Sandbox\<lparr>b_ID := w_SandboxID w, b_WorkerID := w_ID w, b_Provider := w_SandboxProvider w,
     b_ExternalID := w_SandboxID w, b_Capabilities := w_Capabilities w, b_State := ''ready'', b_CreatedAt := now, b_UpdatedAt := now\<rparr>"

definition consume_bootstrap :: "'p ApiEnv \<Rightarrow> RegisterReq \<Rightarrow> time \<Rightarrow> (Reply, unit, 'p plane) pass" where
  "consume_bootstrap env req now w =
    (let refused = fail_reply 401 ''invalid_bootstrap_token'' ''bootstrap credential is invalid or expired'' in
     if rr_BootstrapToken req = '''' then (Inl refused, w)
     else or_reply (\<lambda>_. refused) (on_store (ConsumeBootstrapToken (hex_EncodeToString (ev_sha256 env (rr_BootstrapToken req))) (rr_SandboxID req)
       (rr_SandboxProvider req) (registration_pool req) (capabilityHash env (rr_Capabilities req)) now) w))"

definition rejoining :: "Worker \<Rightarrow> (Reply, Worker, 'p plane) pass" where
  "rejoining w0 w =
    (case GetWorkerByInstanceID (w_InstanceID w0) (fst w) of
       Inr existing \<Rightarrow> (Inr (rejoin existing w0), w)
     | Inl e \<Rightarrow> if e = ErrNotFound then (Inr w0, w) else (Inl internal_reply, w))"

definition registerWorker :: "'p ApiEnv \<Rightarrow> 'p API \<Rightarrow> HttpRequest \<Rightarrow> (Reply, Reply, 'p plane) pass" where
  "registerWorker env api r w =
    sbind (decoded (dc_Register (ap_codec env) 1048576 (hr_Body r)) w) (\<lambda>req w.
      if \<not> valid_registration req
      then (Inl (fail_reply 400 ''invalid_request'' ''UUID instance_id, sandbox_id, sandbox_provider, worker_version, supported protocol_version, and positive max_concurrency are required''), w)
      else
        sbind (api_now env w) (\<lambda>now w.
        sbind (consume_bootstrap env req now w) (\<lambda>_ w.
        sbind (api_id env ''wst'' w) (\<lambda>token w.
        sbind (api_id env ''worker'' w) (\<lambda>i w.
        sbind (api_id env ''session'' w) (\<lambda>session_id w.
          (let reserved = recovery_reservation (rr_SandboxID req) (fst w);
               w0 = new_worker api req now i session_id (hex_EncodeToString (ev_sha256 env token)) reserved
           in case recovery_checkpoint api reserved w of (checkpoint, w) \<Rightarrow>
             sbind (rejoining w0 w) (\<lambda>worker w.
             sbind (api_now env w) (\<lambda>t1 w.
             sbind (or_reply (\<lambda>_. internal_reply) (on_store (UpsertWorker t1 worker) w)) (\<lambda>_ w.
             sbind (api_now env w) (\<lambda>t2 w.
             sbind (or_reply (\<lambda>_. internal_reply) (on_store (UpsertSandbox t2 (registered_box worker now)) w)) (\<lambda>_ w.
               (Inr (Response 201 (RegisteredB \<lparr>rg_WorkerID = w_ID worker, rg_SessionID = w_SessionID worker, rg_SessionToken = token,
                 rg_HeartbeatSeconds = go_div (api_heartbeatInterval api) second, rg_LeaseSeconds = go_div (api_leaseDuration api) second,
                 rg_Checkpoint = checkpoint, rg_RecoverySession = w_ReservedSessionID worker, rg_RecoveryEpoch = w_SessionEpoch worker\<rparr>)), w)))))))))))))"

section \<open>Authentication\<close>

definition bearer :: string where
  "bearer = ''Bearer ''"

definition session_fence :: "Worker \<Rightarrow> DB \<Rightarrow> bool" where
  "session_fence worker s \<longleftrightarrow> w_ReservedSessionID worker = '''' \<or>
    (case GetSession (w_ReservedSessionID worker) s of
       Inl _ \<Rightarrow> False
     | Inr v \<Rightarrow> (s_State v = SessionActive \<and> s_WorkerID v = w_ID worker \<or> s_State v = SessionRecovering)
         \<and> w_SessionEpoch worker = s_Epoch v)"

definition authenticatedWorker :: "'p ApiEnv \<Rightarrow> HttpRequest \<Rightarrow> (Reply, Worker, 'p plane) pass" where
  "authenticatedWorker env r w =
    (let id0 = get_str (hr_Header r) ''X-Smart-Route-Worker-ID'';
         i = (if id0 = '''' then get_str (hr_Header r) ''X-Worker-ID'' else id0);
         auth = get_str (hr_Header r) ''Authorization'';
         invalid = fail_reply 401 ''invalid_worker_session'' ''worker session is invalid'';
         expired = fail_reply 401 ''expired_worker_session'' ''worker session is expired''
     in if i = '''' \<or> \<not> has_prefix auth bearer
        then (Inl (fail_reply 401 ''invalid_worker_session'' ''worker session credentials are required''), w)
        else case GetWorker i (fst w) of
          Inl _ \<Rightarrow> (Inl invalid, w)
        | Inr worker \<Rightarrow>
            if hex_EncodeToString (ev_sha256 env (drop (length bearer) auth)) \<noteq> w_SessionTokenHash worker then (Inl invalid, w)
            else if w_SessionExpiresAt worker = 0 then (Inl expired, w)
            else sbind (api_now env w) (\<lambda>now w.
              if \<not> now < w_SessionExpiresAt worker then (Inl expired, w)
              else if w_ProtocolVersion worker \<noteq> workerProtocolVersion
              then (Inl (fail_reply 409 ''incompatible_protocol'' ''worker protocol is no longer supported''), w)
              else if \<not> session_fence worker (fst w)
              then (Inl (fail_reply 409 ''stale_session_epoch'' ''worker belongs to a stale session epoch''), w)
              else (Inr worker, w)))"

section \<open>Recovery acknowledgement\<close>

definition terminate_replacement :: "'p API \<Rightarrow> Worker \<Rightarrow> 'p plane \<Rightarrow> 'p plane" where
  "terminate_replacement api worker w =
    (case api_providers api of
       None \<Rightarrow> w
     | Some registry \<Rightarrow>
         if w_SandboxID worker = '''' then w
         else
           (let w1 = (case Registry_Get registry (w_SandboxProvider worker) of
                 Inl _ \<Rightarrow> w | Inr provider \<Rightarrow> snd (on_provider (pv_Terminate provider (w_SandboxID worker)) w))
            in snd (on_store (DeleteSandbox (w_SandboxID worker)) w1)))"

definition acknowledgeRecovery :: "'p ApiEnv \<Rightarrow> 'p API \<Rightarrow> HttpRequest \<Rightarrow> (Reply, Reply, 'p plane) pass" where
  "acknowledgeRecovery env api r w =
    sbind (authenticatedWorker env r w) (\<lambda>worker w.
    sbind (decoded (dc_Ack (ap_codec env) 1048576 (hr_Body r)) w) (\<lambda>req w.
      if aq_SessionID req \<noteq> w_ReservedSessionID worker \<or> aq_Epoch req \<noteq> w_SessionEpoch worker
      then (Inl (fail_reply 409 ''stale_session_epoch'' ''recovery acknowledgement does not match worker epoch''), w)
      else if aq_Error req \<noteq> '''' then
        sbind (api_now env w) (\<lambda>now w.
        sbind (or_reply attemptStoreError (on_store (FailRecovery (aq_SessionID req) (aq_Epoch req) (aq_Error req) (now + api_recoveryBackoff api) now)
            (terminate_replacement api worker w))) (\<lambda>_ w.
          (Inr (Response 202 (StatusB ''restore_failed'')), w)))
      else
        sbind (api_now env w) (\<lambda>now w.
        sbind (or_reply attemptStoreError (on_store (AcknowledgeRecovery (aq_SessionID req) (aq_Epoch req) (w_ID worker) now) w)) (\<lambda>_ w.
          (Inr (Response 202 (StatusB ''validated'')), w)))))"

section \<open>Heartbeat\<close>

definition workerShouldCancel :: "JobState \<Rightarrow> bool" where
  "workerShouldCancel st \<longleftrightarrow> st = JobCanceled \<or> st = JobTimedOut \<or> st = JobSessionLost"

definition legacy_upstream :: "string \<Rightarrow> UpstreamState" where
  "legacy_upstream text =
    (let u = \<lparr>us_State = UpstreamUnset, us_Health = 0, us_CooldownUntil = 0, us_BudgetRemaining = None, us_Cost = None, us_Metadata = []\<rparr>;
         v = to_lower text
     in if v = ''healthy'' \<or> v = ''ok'' \<or> v = ''ready'' \<or> v = ''available'' then u\<lparr>us_State := UpstreamAvailable, us_Health := 1\<rparr>
        else if v = ''cooldown'' then u\<lparr>us_State := UpstreamCooldown\<rparr>
        else u\<lparr>us_State := UpstreamUnavailable\<rparr>)"

fun decodeUpstreams :: "Codec \<Rightarrow> (string \<times> string) list \<Rightarrow> (string \<times> UpstreamState) list option" where
  "decodeUpstreams c [] = Some []"
| "decodeUpstreams c ((i, value) # rest) =
    (case dc_Upstream c value of
       Some u \<Rightarrow> map_option (\<lambda>us. (i, u) # us) (decodeUpstreams c rest)
     | None \<Rightarrow> (case dc_String c value of
         None \<Rightarrow> None
       | Some text \<Rightarrow> map_option (\<lambda>us. (i, legacy_upstream text) # us) (decodeUpstreams c rest)))"

text \<open>The reported attempts, split into those that run on and those the worker has to cancel.\<close>

fun reported_attempts :: "WorkerID \<Rightarrow> DB \<Rightarrow> AttemptID list \<Rightarrow> (AttemptID list \<times> AttemptID list) option" where
  "reported_attempts wid s [] = Some ([], [])"
| "reported_attempts wid s (i # is) =
    (case getAttempt i s of
       Inl _ \<Rightarrow> None
     | Inr a \<Rightarrow>
         if at_WorkerID a \<noteq> wid then None
         else if AttemptActive (at_State a) then map_option (\<lambda>(live, gone). (i # live, gone)) (reported_attempts wid s is)
         else (case GetJob (at_JobID a) s of
             Inl _ \<Rightarrow> None
           | Inr j \<Rightarrow> if workerShouldCancel (j_State j)
               then map_option (\<lambda>(live, gone). (live, i # gone)) (reported_attempts wid s is) else None))"

definition beat_worker :: "'p API \<Rightarrow> HeartbeatReq \<Rightarrow> AttemptID list \<Rightarrow> AttemptID list \<Rightarrow> (string \<times> UpstreamState) list \<Rightarrow> time \<Rightarrow> Worker \<Rightarrow> Worker" where
  "beat_worker api req live gone upstreams now worker =
    (let slots = hb_AvailableSlots req + int (length gone)
     in worker\<lparr>w_ActiveAttempts := live,
          w_AvailableSlots := (if slots > w_MaxConcurrency worker then w_MaxConcurrency worker else slots),
          w_SandboxMetadata := hb_SandboxMetadata req, w_Health := hb_Health req, w_UpstreamStatus := upstreams,
          w_LastSeenAt := now, w_SessionExpiresAt := now + api_workerSessionTTL api\<rparr>)"

definition heartbeatWorker :: "'p ApiEnv \<Rightarrow> 'p API \<Rightarrow> HttpRequest \<Rightarrow> (Reply, Reply, 'p plane) pass" where
  "heartbeatWorker env api r w =
    sbind (authenticatedWorker env r w) (\<lambda>worker w.
    sbind (decoded (dc_Heartbeat (ap_codec env) 1048576 (hr_Body r)) w) (\<lambda>req w.
      if hb_AvailableSlots req < 0 \<or> hb_AvailableSlots req > w_MaxConcurrency worker
      then (Inl (fail_reply 400 ''invalid_request'' ''available_slots must be between zero and max_concurrency''), w)
      else case reported_attempts (w_ID worker) (fst w) (hb_ActiveAttempts req) of
        None \<Rightarrow> (Inl (fail_reply 409 ''invalid_active_attempt'' ''active attempt is not owned by this worker session''), w)
      | Some (live, gone) \<Rightarrow>
          (case decodeUpstreams (ap_codec env) (hb_Upstreams req) of
             None \<Rightarrow> (Inl (fail_reply 400 ''invalid_request'' ''invalid upstream state''), w)
           | Some upstreams \<Rightarrow>
               sbind (api_now env w) (\<lambda>now w.
               sbind (api_now env w) (\<lambda>stored w.
               sbind (or_reply (\<lambda>_. internal_reply) (on_store (UpsertWorker stored (beat_worker api req live gone upstreams now worker)) w)) (\<lambda>_ w.
                 (Inr (Response 200 (BeatB \<lparr>bt_HeartbeatSeconds = go_div (api_heartbeatInterval api) second,
                   bt_LeaseSeconds = go_div (api_leaseDuration api) second, bt_ServerTime = now,
                   bt_SessionExpiresAt = now + api_workerSessionTTL api, bt_Cancel = gone\<rparr>)), w)))))))"

section \<open>Claims\<close>

text \<open>\<^verbatim>\<open>strconv.ParseInt\<close> with its error ignored: zero for bad syntax, the nearest bound when out of range.\<close>

definition ParseInt_or_zero :: "string \<Rightarrow> int" where
  "ParseInt_or_zero s =
    (let neg = (s \<noteq> [] \<and> hd s = CHR ''-'');
         ds = (if s \<noteq> [] \<and> (hd s = CHR ''-'' \<or> hd s = CHR ''+'') then tl s else s);
         n = (if neg then - digits_value ds else digits_value ds)
     in if ds = [] \<or> \<not> list_all is_digit ds then 0 else max min_int64 (min max_int64 n))"

definition claim_request :: "'p ApiEnv \<Rightarrow> HttpRequest \<Rightarrow> (Reply, ClaimReq, 'p plane) pass" where
  "claim_request env r w =
    (if hr_Method r = ''POST'' then
       (if hr_ContentLength r \<noteq> 0 then decoded (dc_Claim (ap_codec env) 1048576 (hr_Body r)) w
        else (Inr \<lparr>cq_SandboxID = '''', cq_WaitSeconds = 0\<rparr>, w))
     else (Inr \<lparr>cq_SandboxID = get_str (hr_Query r) ''sandbox_id'', cq_WaitSeconds = ParseInt_or_zero (get_str (hr_Query r) ''wait_seconds'')\<rparr>, w))"

definition expire_silent_worker :: "'p API \<Rightarrow> Worker \<Rightarrow> time \<Rightarrow> Worker \<Rightarrow> (Reply, unit, 'p plane) pass" where
  "expire_silent_worker api worker now x w =
    (if w_ID x \<noteq> w_ID worker \<and> time_sub now (w_LastSeenAt x) \<ge> api_workerTimeout api
     then ignoring (or_reply (\<lambda>_. internal_reply) \<circ> on_store (ExpireWorkerLeases (w_ID x) now)) w
     else (Inr (), w))"

definition claim_call :: "'p API \<Rightarrow> Worker \<Rightarrow> time \<Rightarrow> ClaimRequest" where
  "claim_call api worker now = \<lparr>cr_Worker = worker, cr_SandboxID = w_SandboxID worker, cr_Now = now, cr_LeaseDuration = api_leaseDuration api,
     cr_Capacity = w_MaxConcurrency worker, cr_Scheduler = Some (api_scheduler api)\<rparr>"

text \<open>One round of the loop: a reply, or the wish to wait.\<close>

definition claim_once :: "'p ApiEnv \<Rightarrow> 'p API \<Rightarrow> Worker \<Rightarrow> ClaimReq \<Rightarrow> duration \<Rightarrow> (Reply, unit, 'p plane) pass" where
  "claim_once env api worker req wait w =
    sbind (api_now env w) (\<lambda>now w.
    sbind (ignoring (or_reply (\<lambda>_. internal_reply) \<circ> on_store (ExpireLeases now)) w) (\<lambda>_ w.
    sbind (foldS (expire_silent_worker api worker now) (ListWorkers (fst w)) w) (\<lambda>_ w.
      if cq_SandboxID req \<noteq> '''' \<and> cq_SandboxID req \<noteq> w_SandboxID worker
      then (Inl (fail_reply 409 ''sandbox_identity_mismatch'' ''claim sandbox does not match registered worker sandbox''), w)
      else case on_store (ClaimNextJob (claim_call api worker now)) w of
        (Inr (attempt, job), w) \<Rightarrow>
          (Inl (Response 200 (ClaimedB (jobDTO job) (attemptDTO attempt) (l_ID (at_Lease attempt)) (l_ExpiresAt (at_Lease attempt)))), w)
      | (Inl e, w) \<Rightarrow>
          if e \<noteq> StoreErr ErrNotFound \<and> e \<noteq> StoreErr ErrConflict then (Inl internal_reply, w)
          else if wait = 0 \<or> e = StoreErr ErrConflict then (Inl (Response 204 NoContent), w)
          else (Inr (), w))))"

text \<open>What ends a wait; a request that is gone gets no reply.\<close>

datatype Wakeup = RequestDone | DeadlineFired | Woken

text \<open>\<open>None\<close> is a claim that still waits when the given wake-ups are used up.\<close>

fun claim_wait ::
    "'p ApiEnv \<Rightarrow> 'p API \<Rightarrow> Worker \<Rightarrow> ClaimReq \<Rightarrow> duration \<Rightarrow> (Wakeup \<times> 'p plane) list \<Rightarrow> 'p plane \<Rightarrow> Reply option \<times> 'p plane" where
  "claim_wait env api worker req wait [] w =
    (case claim_once env api worker req wait w of (Inl r, w) \<Rightarrow> (Some r, w) | (Inr _, w) \<Rightarrow> (None, w))"
| "claim_wait env api worker req wait ((e, found) # evs) w =
    (case claim_once env api worker req wait w of
       (Inl r, w) \<Rightarrow> (Some r, w)
     | (Inr _, _) \<Rightarrow>
         (case e of
            RequestDone \<Rightarrow> (Some Dropped, found)
          | DeadlineFired \<Rightarrow> (Some (Response 204 NoContent), found)
          | Woken \<Rightarrow> claim_wait env api worker req wait evs found))"

definition claimWorker ::
    "'p ApiEnv \<Rightarrow> 'p API \<Rightarrow> (Wakeup \<times> 'p plane) list \<Rightarrow> HttpRequest \<Rightarrow> 'p plane \<Rightarrow> Reply option \<times> 'p plane" where
  "claimWorker env api evs r w =
    (case sbind (authenticatedWorker env r w) (\<lambda>worker w.
          sbind (claim_request env r w) (\<lambda>req w.
            (let wait = int64 (cq_WaitSeconds req * second)
             in if wait < 0 then (Inl (fail_reply 400 ''invalid_request'' ''wait_seconds cannot be negative''), w)
                else (Inr (worker, req, if wait > api_maxClaimWait api then api_maxClaimWait api else wait), w)))) of
       (Inl reply, w) \<Rightarrow> (Some reply, w)
     | (Inr (worker, req, wait), w) \<Rightarrow> claim_wait env api worker req wait evs w)"

section \<open>Attempt reports\<close>

definition renew_duration :: "'p API \<Rightarrow> int \<Rightarrow> duration" where
  "renew_duration api seconds =
    (let asked = int64 (seconds * second) in if seconds > 0 \<and> asked < api_leaseDuration api then asked else api_leaseDuration api)"

definition renewAttempt :: "'p ApiEnv \<Rightarrow> 'p API \<Rightarrow> HttpRequest \<Rightarrow> AttemptID \<Rightarrow> Worker \<Rightarrow> time \<Rightarrow> (Reply, Reply, 'p plane) pass" where
  "renewAttempt env api r i worker now w =
    sbind (if hr_ContentLength r \<noteq> 0 then decoded (dc_Renew (ap_codec env) 1048576 (hr_Body r)) w else (Inr 0, w)) (\<lambda>seconds w.
    sbind (api_now env w) (\<lambda>t1 w.
      (let until = now + renew_duration api seconds
       in sbind (or_reply attemptStoreError (on_store (RenewLease t1 i (w_ID worker) until) w)) (\<lambda>_ w.
         (Inr (Response 200 (RenewedB until)), w)))))"

definition appendEvent :: "'p ApiEnv \<Rightarrow> HttpRequest \<Rightarrow> AttemptID \<Rightarrow> Worker \<Rightarrow> time \<Rightarrow> (Reply, Reply, 'p plane) pass" where
  "appendEvent env r i worker now w =
    sbind (decoded (dc_Event (ap_codec env) 1048576 (hr_Body r)) w) (\<lambda>req w.
      if eq_Type req = '''' then (Inl (fail_reply 400 ''invalid_request'' ''event type is required''), w)
      else
        sbind (api_now env w) (\<lambda>t1 w.
        sbind (or_reply attemptStoreError (on_store (AppendAttemptEvent t1 i (w_ID worker)
            (zero_Event\<lparr>e_Type := eq_Type req, e_Data := eq_Data req, e_OccurredAt := now, e_WorkerSequence := eq_WorkerSequence req,
              e_IdempotencyKey := eq_IdempotencyKey req\<rparr>)) w)) (\<lambda>event w.
          (Inr (Response 202 (EventB event)), w))))"

text \<open>A large result goes to the artifact store under a key made from the attempt.\<close>

definition result_key :: "AttemptID \<Rightarrow> string" where
  "result_key i = ''results/'' @ i"

definition place_result :: "'p API \<Rightarrow> AttemptID \<Rightarrow> ResultReq \<Rightarrow> time \<Rightarrow> (Reply, JobResult, 'p plane) pass" where
  "place_result api i req now w =
    (let result = \<lparr>res_JobID = '''', res_AttemptID = i, res_StatusCode = rq_StatusCode req, res_Data = rq_Data req, res_ArtifactKey = '''',
           res_Metadata = rq_Metadata req, res_CreatedAt = now\<rparr>
     in if int (length (rq_Data req)) > api_maxResultBytes api
        then (Inl (fail_reply 413 ''invalid_request'' ''result exceeds configured limit''), w)
        else if int (length (rq_Data req)) > api_inlineResultBytes api then
          (case api_artifacts api of
             None \<Rightarrow> (Inl (fail_reply 413 ''invalid_request'' ''large results require an artifact store''), w)
           | Some store \<Rightarrow>
               sbind (or_reply (\<lambda>_. internal_reply) (on_adapter (ar_Put store (result_key i) (rq_Data req)) w)) (\<lambda>_ w.
                 (Inr (result\<lparr>res_ArtifactKey := result_key i, res_Data := ''''\<rparr>), w)))
        else (Inr result, w))"

definition saveResult :: "'p ApiEnv \<Rightarrow> 'p API \<Rightarrow> HttpRequest \<Rightarrow> AttemptID \<Rightarrow> Worker \<Rightarrow> time \<Rightarrow> (Reply, Reply, 'p plane) pass" where
  "saveResult env api r i worker now w =
    sbind (decoded (dc_Result (ap_codec env) 1048576 (hr_Body r)) w) (\<lambda>req w.
    sbind (place_result api i req now w) (\<lambda>result w.
    sbind (or_reply attemptStoreError (on_store (SaveResult i (w_ID worker) result) w)) (\<lambda>_ w.
      (Inr (Response 202 (StatusB ''accepted'')), w))))"

text \<open>A session that checkpoints after each success takes the worker's state before the attempt is completed.\<close>

definition success_checkpoint :: "'p ApiEnv \<Rightarrow> 'p API \<Rightarrow> Job \<Rightarrow> string \<Rightarrow> time \<Rightarrow> (Reply, unit, 'p plane) pass" where
  "success_checkpoint env api job state now w =
    (if j_SessionID job = '''' then (Inr (), w)
     else case GetSession (j_SessionID job) (fst w) of
       Inl _ \<Rightarrow> (Inr (), w)
     | Inr v \<Rightarrow>
         if s_RecoveryPolicy v = RecoveryCheckpoint \<and> s_CheckpointMode v = CheckpointAfterSuccess then
           (if state = '''' then (Inl (fail_reply 409 ''checkpoint_required'' ''after_success session requires worker-exported application state''), w)
            else sbind (or_reply (unless_panic (\<lambda>e. fail_reply 500 ''checkpoint_failed'' (ap_text env e)))
              (saveCheckpoint env api (s_ID v) (s_Epoch v) state now w)) (\<lambda>_ w. (Inr (), w)))
         else (Inr (), w))"

definition success_completion :: "AttemptID \<Rightarrow> Worker \<Rightarrow> time \<Rightarrow> Completion" where
  "success_completion i worker now = \<lparr>cm_AttemptID = i, cm_WorkerID = w_ID worker, cm_AttemptState = AttemptSucceeded,
     cm_JobState = Some JobSucceeded, cm_Failure = None, cm_At = now,
     cm_Event = zero_Event\<lparr>e_Type := EventAttemptTransition, e_Data := [(''state'', ''succeeded'')]\<rparr>\<rparr>"

definition completeAttempt :: "'p ApiEnv \<Rightarrow> 'p API \<Rightarrow> HttpRequest \<Rightarrow> AttemptID \<Rightarrow> Worker \<Rightarrow> time \<Rightarrow> (Reply, Reply, 'p plane) pass" where
  "completeAttempt env api r i worker now w =
    sbind (or_reply attemptStoreError (query (getAttempt i) w)) (\<lambda>attempt w.
    sbind (or_reply attemptStoreError (query (GetJob (at_JobID attempt)) w)) (\<lambda>job w.
    sbind (if hr_ContentLength r \<noteq> 0 then decoded (dc_Complete (ap_codec env) 1048576 (hr_Body r)) w else (Inr '''', w)) (\<lambda>state w.
    sbind (success_checkpoint env api job state now w) (\<lambda>_ w.
    sbind (or_reply attemptStoreError (on_store (CompleteAttempt (success_completion i worker now)) w)) (\<lambda>_ w.
      (Inr (Response 200 (StatusB ''succeeded'')), w))))))"

definition failure_completion :: "AttemptID \<Rightarrow> Worker \<Rightarrow> time \<Rightarrow> Failure \<Rightarrow> Completion" where
  "failure_completion i worker now f = \<lparr>cm_AttemptID = i, cm_WorkerID = w_ID worker, cm_AttemptState = AttemptFailed,
     cm_JobState = None, cm_Failure = Some f, cm_At = now,
     cm_Event = zero_Event\<lparr>e_Type := EventAttemptTransition, e_Data := [(''state'', ''failed''), (''code'', f_Code f)]\<rparr>\<rparr>"

definition failAttempt :: "'p ApiEnv \<Rightarrow> HttpRequest \<Rightarrow> AttemptID \<Rightarrow> Worker \<Rightarrow> time \<Rightarrow> (Reply, Reply, 'p plane) pass" where
  "failAttempt env r i worker now w =
    sbind (or_reply attemptStoreError (query (getAttempt i) w)) (\<lambda>_ w.
    sbind (decoded (dc_Failure (ap_codec env) 1048576 (hr_Body r)) w) (\<lambda>f w.
      if f_Code f = '''' \<or> (f_Class f \<noteq> FailureRetryable \<and> f_Class f \<noteq> FailureNonRetryable)
      then (Inl (fail_reply 400 ''invalid_request'' ''failure code and valid class are required''), w)
      else sbind (or_reply attemptStoreError (on_store (CompleteAttempt (failure_completion i worker now f)) w)) (\<lambda>_ w.
        (Inr (Response 200 (StatusB ''failed'')), w))))"

definition workerAttemptRoute ::
    "'p ApiEnv \<Rightarrow> 'p API \<Rightarrow> HttpRequest \<Rightarrow> AttemptID \<Rightarrow> string \<Rightarrow> (Reply, Reply, 'p plane) pass" where
  "workerAttemptRoute env api r i action w =
    sbind (authenticatedWorker env r w) (\<lambda>worker w.
    sbind (api_now env w) (\<lambda>now w.
      if action = ''renew'' then renewAttempt env api r i worker now w
      else if action = ''events'' then appendEvent env r i worker now w
      else if action = ''result'' then saveResult env api r i worker now w
      else if action = ''complete'' then completeAttempt env api r i worker now w
      else if action = ''fail'' then failAttempt env r i worker now w
      else (Inl (fail_reply 404 ''attempt_action_not_found'' ''attempt action not found''), w)))"

section \<open>The router\<close>

definition trim_slashes :: "string \<Rightarrow> string" where
  "trim_slashes p = (let cut = dropWhile (\<lambda>c. c = CHR ''/'') in rev (cut (rev (cut p))))"

text \<open>Plain HTTP is refused where TLS is required, except from a loopback peer in local mode.\<close>

definition tls_refused :: "'p API \<Rightarrow> HttpRequest \<Rightarrow> bool" where
  "tls_refused api r \<longleftrightarrow> \<not> hr_TLS r \<and> api_requireTLS api \<and> (\<not> api_insecureLocalMode api \<or> hr_Peer r \<noteq> Loopback)"

definition public_path :: "string \<Rightarrow> bool" where
  "public_path p \<longleftrightarrow> has_prefix p ''/v1/'' \<and> \<not> has_prefix p ''/v1/worker/''"

definition public_refused :: "'p ApiEnv \<Rightarrow> 'p API \<Rightarrow> HttpRequest \<Rightarrow> bool" where
  "public_refused env api r \<longleftrightarrow>
    (case api_publicTokenHash api of
       None \<Rightarrow> False
     | Some hash \<Rightarrow> public_path (hr_Path r) \<and>
         (let header = get_str (hr_Header r) ''Authorization'';
              auth = (if has_prefix header bearer then drop (length bearer) header else header)
          in auth = '''' \<or> ev_sha256 env auth \<noteq> hash))"

definition answer :: "(Reply, Reply, 'p plane) pass \<Rightarrow> 'p plane \<Rightarrow> Reply option \<times> 'p plane" where
  "answer h w = (case replying (h w) of (r, w) \<Rightarrow> (Some r, w))"

text \<open>Telemetry, and with it \<^verbatim>\<open>/metrics\<close>, is off.\<close>

definition route :: "'p ApiEnv \<Rightarrow> 'p API \<Rightarrow> (Wakeup \<times> 'p plane) list \<Rightarrow> HttpRequest \<Rightarrow> 'p plane \<Rightarrow> Reply option \<times> 'p plane" where
  "route env api evs r w =
    (let get = (hr_Method r = ''GET''); post = (hr_Method r = ''POST''); path = hr_Path r;
         p = split_slash (trim_slashes path)
     in
     if path = ''/healthz'' then (Some (Response 200 (StatusB ''ok'')), w)
     else if path = ''/readyz'' then (Some (Response 200 (StatusB ''ready'')), w)
     else if get \<and> path = ''/versionz'' then (Some (Response 200 BuildInfo), w)
     else if post \<and> path = ''/v1/sessions'' then answer (createSession env api r) w
     else if post \<and> path = ''/v1/worker/register'' then answer (registerWorker env api r) w
     else if post \<and> path = ''/v1/worker/heartbeat'' then answer (heartbeatWorker env api r) w
     else if post \<and> path = ''/v1/worker/recovery/ack'' then answer (acknowledgeRecovery env api r) w
     else if (post \<or> get) \<and> path = ''/v1/worker/claim'' then claimWorker env api evs r w
     else if get \<and> path = ''/v1/workers'' then (Some (workers w), w)
     else if get \<and> path = ''/v1/sandboxes'' then (Some (sandboxes w), w)
     else if get \<and> path = ''/v1/admin/status'' then answer (adminStatus env) w
     else if length p = 5 \<and> take 3 p = [''v1'', ''worker'', ''attempts''] \<and> post then answer (workerAttemptRoute env api r (p ! 3) (p ! 4)) w
     else if length p \<ge> 3 \<and> take 2 p = [''v1'', ''jobs''] then answer (jobRoute env api r (p ! 2) (drop 3 p)) w
     else if length p \<ge> 3 \<and> take 2 p = [''v1'', ''sessions''] then answer (sessionRoute env api r (p ! 2) (drop 3 p)) w
     else (Some (fail_reply 404 ''job_not_found'' ''job not found''), w))"

text \<open>
  The flag is the wake-up a new job sends through the buffered channel; the wake-ups a waiting claim
  receives are the argument \<open>evs\<close>.
\<close>

definition serveHTTP :: "'p ApiEnv \<Rightarrow> 'p API \<Rightarrow> (Wakeup \<times> 'p plane) list \<Rightarrow> HttpRequest \<Rightarrow> 'p plane \<Rightarrow> (Reply option \<times> bool) \<times> 'p plane" where
  "serveHTTP env api evs r w =
    (if tls_refused api r then ((Some (fail_reply 426 ''tls_required'' ''TLS is required''), False), w)
     else if public_refused env api r then ((Some (fail_reply 401 ''invalid_public_token'' ''public API credential is invalid''), False), w)
     else if hr_Method r = ''POST'' \<and> hr_Path r = ''/v1/jobs'' then
       (case submit env r w of
          (Inl reply, w) \<Rightarrow> ((Some reply, False), w)
        | (Inr (reply, wake), w) \<Rightarrow> ((Some reply, wake), w))
     else (case route env api evs r w of (reply, w) \<Rightarrow> ((reply, False), w)))"

end
