(* ===== verification/SR_Cloud.thy ===== *)
theory SR_Cloud
  imports SR_ApiWorker SR_Executors
begin

text \<open>
  The two adapters that run sandboxes: Fly Machines (\<^verbatim>\<open>internal/sandbox/fly/fly.go\<close>) over an HTTP API and Docker
  (\<^verbatim>\<open>internal/sandbox/localdocker/localdocker.go\<close>) over its command line.

  The service behind an adapter is a parameter: it answers every request as it likes, and the state \<open>'w\<close> of the outside
  changes with each call. So are JSON, the parsers of the standard library, the clock and the random source. The exchanges
  with the service are kept beside the state of the adapter; the code does not read them.
\<close>

section \<open>The outside\<close>

text \<open>The context of a request: the caller's, the one with the startup deadline, or the background.\<close>

datatype FlyCtx = CallerCtx | StartupCtx | BackgroundCtx

record FlyRequest =
  fr_Method :: string
  fr_Path :: string
  fr_Query :: strmap
  fr_Token :: string
  fr_Body :: string

text \<open>A request that cannot be made, one without an answer, or an answer with its body.\<close>

datatype FlyAnswer = NoRequest string | NoAnswer string | Answered HttpAnswer

record Machine =
  mc_ID :: string
  mc_Name :: string
  mc_State :: string
  mc_Region :: string
  mc_InstanceID :: string
  mc_CreatedAt :: string
  mc_Image :: string
  mc_Metadata :: strmap

record FlyCreate =
  fq_Name :: string
  fq_Region :: string
  fq_Image :: string
  fq_Env :: strmap
  fq_Metadata :: strmap
  fq_Exec :: "string list option"
  fq_CPUKind :: string
  fq_CPUs :: int
  fq_MemoryMB :: int
  fq_Restart :: string

record DockerState =
  do_Status :: string
  do_Running :: bool
  do_Dead :: bool
  do_OOMKilled :: bool
  do_Error :: string

record DockerContainer =
  dk_ID :: string
  dk_Name :: string
  dk_Created :: string
  dk_State :: DockerState
  dk_Image :: string
  dk_Labels :: strmap

text \<open>The error of a command: the process ended with a status, or was never run.\<close>

datatype CommandErr = ExitStatus string | NotRun string

text \<open>
  A decoder that writes into a value takes the value; \<^verbatim>\<open>json.Unmarshal\<close> of labels and capabilities is called with its error
  ignored.
\<close>

record 'w Outer =
  ou_rand :: "nat \<Rightarrow> 'w \<Rightarrow> (string + string) \<times> 'w"
  ou_now :: "'w \<Rightarrow> time \<times> 'w"
  ou_Getenv :: "string \<Rightarrow> string"
  ou_ParseDuration :: "string \<Rightarrow> string + duration"
  ou_Parse :: "string \<Rightarrow> ParsedURL option"
  ou_ParseRequestURI :: "string \<Rightarrow> ParsedURL option"
  ou_PathEscape :: "string \<Rightarrow> string"
  ou_quote :: "string \<Rightarrow> string"
  ou_StatusText :: "int \<Rightarrow> string"
  ou_caps :: "Capabilities \<Rightarrow> string"
  ou_labels :: "strmap \<Rightarrow> string"
  ou_readCaps :: "string \<Rightarrow> Capabilities \<Rightarrow> Capabilities"
  ou_readLabels :: "string \<Rightarrow> strmap \<Rightarrow> strmap"
  ou_formatTime :: "time \<Rightarrow> string"
  ou_parseTime :: "string \<Rightarrow> time option"
  ou_createBody :: "FlyCreate \<Rightarrow> string"
  ou_machine :: "string \<Rightarrow> string + Machine"
  ou_machines :: "string \<Rightarrow> string + Machine list"
  ou_container :: "string \<Rightarrow> string + DockerContainer"
  ou_Do :: "FlyCtx \<Rightarrow> FlyRequest \<Rightarrow> 'w \<Rightarrow> FlyAnswer \<times> 'w"
  ou_Sleep :: "FlyCtx \<Rightarrow> duration \<Rightarrow> 'w \<Rightarrow> string option \<times> 'w"
  ou_deadline :: "'w \<Rightarrow> bool"
  ou_Run :: "string \<Rightarrow> string list \<Rightarrow> 'w \<Rightarrow> (string \<times> CommandErr option) \<times> 'w"
  ou_sha256 :: "string \<Rightarrow> string"

text \<open>The sandboxes an adapter remembers, the outside, and the exchanges so far.\<close>

record 'w Cloud =
  kn_known :: "(SandboxID \<times> PSandbox) list"
  kn_world :: 'w
  kn_sent :: "(FlyRequest \<times> FlyAnswer) list"
  kn_ran :: "(string list \<times> bool) list"

definition remember :: "PSandbox \<Rightarrow> 'w Cloud \<Rightarrow> 'w Cloud" where
  "remember item s = s\<lparr>kn_known := AList.update (ps_ID item) item (kn_known s)\<rparr>"

definition forget_running :: "SandboxID \<Rightarrow> 'w Cloud \<Rightarrow> 'w Cloud" where
  "forget_running i s =
    (case map_of (kn_known s) i of
       None \<Rightarrow> s
     | Some item \<Rightarrow> s\<lparr>kn_known := AList.update i (item\<lparr>ps_State := ''terminated''\<rparr>) (kn_known s)\<rparr>)"

definition draw_id :: "'w Outer \<Rightarrow> (string, SandboxID, 'w Cloud) pass" where
  "draw_id ou s =
    (case ou_rand ou 12 (kn_world s) of
       (Inl e, w) \<Rightarrow> (Inl e, s\<lparr>kn_world := w\<rparr>)
     | (Inr b, w) \<Rightarrow> (Inr (hex_EncodeToString b), s\<lparr>kn_world := w\<rparr>))"

definition expiry_stamp :: "'w Outer \<Rightarrow> duration \<Rightarrow> 'w Cloud \<Rightarrow> string \<times> 'w Cloud" where
  "expiry_stamp ou d s = (case ou_now ou (kn_world s) of (t, w) \<Rightarrow> (ou_formatTime ou (t + d), s\<lparr>kn_world := w\<rparr>))"

fun join_with :: "string \<Rightarrow> string list \<Rightarrow> string" where
  "join_with sep [] = ''''"
| "join_with sep [x] = x"
| "join_with sep (x # xs) = x @ sep @ join_with sep xs"

fun split_char :: "char \<Rightarrow> string \<Rightarrow> string list" where
  "split_char c [] = [[]]"
| "split_char c (x # xs) =
    (if x = c then [] # split_char c xs else (case split_char c xs of [] \<Rightarrow> [[x]] | p # ps \<Rightarrow> (x # p) # ps))"

section \<open>Fly: configuration\<close>

record FlyConfig =
  fc_App :: string
  fc_Token :: string
  fc_TokenEnv :: string
  fc_APIURL :: string
  fc_Image :: string
  fc_RequestTimeout :: duration
  fc_StartupTimeout :: duration
  fc_MaxRetries :: int
  fc_RetryBackoff :: duration

definition fly_invalid :: "string \<Rightarrow> string \<Rightarrow> SbError" where
  "fly_invalid operation message = NewError ''fly'' operation CodeInvalid (OtherErr message)"

definition fly_duration :: "'w Outer \<Rightarrow> string \<Rightarrow> duration \<Rightarrow> SbError + duration" where
  "fly_duration ou v fallback =
    (if v = '''' then Inr fallback
     else case ou_ParseDuration ou v of
       Inl e \<Rightarrow> Inl (OtherErr (''invalid duration '' @ ou_quote ou v))
     | Inr d \<Rightarrow> if d \<le> 0 then Inl (OtherErr (''invalid duration '' @ ou_quote ou v)) else Inr d)"

definition positive_else :: "duration \<Rightarrow> duration \<Rightarrow> duration" where
  "positive_else fallback d = (if d \<le> 0 then fallback else d)"

definition fly_newProvider :: "'w Outer \<Rightarrow> FlyConfig \<Rightarrow> SbError + FlyConfig" where
  "fly_newProvider ou c0 =
    (let c1 = c0\<lparr>fc_TokenEnv := (if fc_TokenEnv c0 = '''' then ''FLY_API_TOKEN'' else fc_TokenEnv c0)\<rparr>;
         c2 = c1\<lparr>fc_Token := (if fc_Token c1 = '''' then ou_Getenv ou (fc_TokenEnv c1) else fc_Token c1),
           fc_APIURL := (if fc_APIURL c1 = '''' then ''https://api.machines.dev'' else fc_APIURL c1),
           fc_RequestTimeout := positive_else (15 * second) (fc_RequestTimeout c1),
           fc_StartupTimeout := positive_else (90 * second) (fc_StartupTimeout c1),
           fc_RetryBackoff := positive_else 500000000 (fc_RetryBackoff c1)\<rparr>
     in if fc_MaxRetries c2 < 0 then Inl (fly_invalid ''configure'' ''max_retries cannot be negative'')
        else if (case ou_Parse ou (fc_APIURL c2) of None \<Rightarrow> True | Some u \<Rightarrow> url_Scheme u = '''' \<or> url_Host u = '''') \<or> TrimSpace (fc_App c2) = ''''
        then Inl (fly_invalid ''configure'' ''app and an absolute api_url are required'')
        else if fc_Token c2 = ''''
        then Inl (ProviderError ''fly'' ''configure'' '''' CodeAuthentication (Some (OtherErr ''API token is required via token_env'')))
        else Inr c2)"

definition fly_Factory :: "'w Outer \<Rightarrow> strmap \<Rightarrow> SbError + FlyConfig" where
  "fly_Factory ou values =
    rbind (fly_duration ou (get_str values ''request_timeout'') (15 * second)) (\<lambda>request.
    rbind (fly_duration ou (get_str values ''startup_timeout'') (90 * second)) (\<lambda>startup.
    rbind (fly_duration ou (get_str values ''retry_backoff'') 500000000) (\<lambda>backoff.
    rbind (if get_str values ''max_retries'' = '''' then Inr 3
           else (case Atoi (get_str values ''max_retries'') of
             None \<Rightarrow> Inl (OtherErr (''max_retries: strconv.Atoi: parsing '' @ ou_quote ou (get_str values ''max_retries'')))
           | Some n \<Rightarrow> Inr n)) (\<lambda>retries.
      fly_newProvider ou \<lparr>fc_App = get_str values ''app'', fc_Token = get_str values ''token'', fc_TokenEnv = get_str values ''token_env'',
        fc_APIURL = get_str values ''api_url'', fc_Image = get_str values ''image'', fc_RequestTimeout = request, fc_StartupTimeout = startup,
        fc_MaxRetries = retries, fc_RetryBackoff = backoff\<rparr>))))"

section \<open>Fly: requests\<close>

fun fly_classify :: "FlyAnswer \<Rightarrow> ErrorCode" where
  "fly_classify (NoRequest e) = CodeInternal"
| "fly_classify (NoAnswer e) = CodeUnavailable"
| "fly_classify (Answered a) =
    (case read_limited 65536 a of
       Inl _ \<Rightarrow> CodeUnavailable
     | Inr _ \<Rightarrow>
         if ha_Status a = 400 \<or> ha_Status a = 422 then CodeInvalid
         else if ha_Status a = 401 \<or> ha_Status a = 403 then CodeAuthentication
         else if ha_Status a = 404 then CodeNotFound
         else if ha_Status a = 408 \<or> ha_Status a = 429 then CodeCapacity
         else if ha_Status a \<ge> 500 then CodeUnavailable
         else CodeInternal)"

fun safeAPIError :: "'w Outer \<Rightarrow> FlyAnswer \<Rightarrow> SbError" where
  "safeAPIError ou (NoRequest e) = OtherErr e"
| "safeAPIError ou (NoAnswer e) = OtherErr e"
| "safeAPIError ou (Answered a) =
    (case read_limited 65536 a of
       Inl e \<Rightarrow> OtherErr e
     | Inr _ \<Rightarrow> OtherErr (''Machines API status '' @ show_int (ha_Status a) @ '': '' @ ou_StatusText ou (ha_Status a)))"

text \<open>The body of a success, and a deletion of what is already gone.\<close>

fun fly_success :: "FlyAnswer \<Rightarrow> string option" where
  "fly_success (Answered a) =
    (case read_limited 65536 a of
       Inl _ \<Rightarrow> None
     | Inr data \<Rightarrow> if 200 \<le> ha_Status a \<and> ha_Status a < 300 then Some data else None)"
| "fly_success _ = None"

fun fly_gone :: "string \<Rightarrow> FlyAnswer \<Rightarrow> bool" where
  "fly_gone verb (Answered a) \<longleftrightarrow> verb = ''DELETE'' \<and> ha_Status a = 404"
| "fly_gone verb _ \<longleftrightarrow> False"

definition fly_send :: "'w Outer \<Rightarrow> FlyCtx \<Rightarrow> FlyRequest \<Rightarrow> 'w Cloud \<Rightarrow> FlyAnswer \<times> 'w Cloud" where
  "fly_send ou ctx r s = (case ou_Do ou ctx r (kn_world s) of (a, w) \<Rightarrow> (a, s\<lparr>kn_world := w, kn_sent := kn_sent s @ [(r, a)]\<rparr>))"

text \<open>The delay doubles with every attempt, in 64 bits.\<close>

definition retry_wait :: "FlyConfig \<Rightarrow> nat \<Rightarrow> duration" where
  "retry_wait cfg attempt = int64 (fc_RetryBackoff cfg * int64 (2 ^ attempt))"

text \<open>\<open>left\<close> is how many retries remain; \<open>none\<close> is the value an empty body leaves in place.\<close>

fun fly_do :: "'w Outer \<Rightarrow> FlyConfig \<Rightarrow> FlyCtx \<Rightarrow> string \<Rightarrow> SandboxID \<Rightarrow> FlyRequest \<Rightarrow> (string \<Rightarrow> string + 'a) \<Rightarrow> 'a
    \<Rightarrow> nat \<Rightarrow> nat \<Rightarrow> (SbError, 'a, 'w Cloud) pass" where
  "fly_do ou cfg ctx operation i r decode none left attempt s =
    (case fly_send ou ctx r s of
       (NoRequest e, s) \<Rightarrow> (Inl (NewError ''fly'' operation CodeInternal (OtherErr e)), s)
     | (a, s) \<Rightarrow>
         (case fly_success a of
            Some data \<Rightarrow>
              if data = '''' then (Inr none, s)
              else (case decode data of
                  Inl e \<Rightarrow> (Inl (NewError ''fly'' operation CodeInternal (OtherErr (''decode response: '' @ e))), s)
                | Inr x \<Rightarrow> (Inr x, s))
          | None \<Rightarrow>
              if fly_gone (fr_Method r) a then (Inr none, s)
              else if left = 0 \<or> (fly_classify a \<noteq> CodeUnavailable \<and> fly_classify a \<noteq> CodeCapacity)
              then (Inl (ProviderError ''fly'' operation i (fly_classify a) (Some (safeAPIError ou a))), s)
              else (case ou_Sleep ou ctx (retry_wait cfg attempt) (kn_world s) of
                  (Some e, w) \<Rightarrow> (Inl (ProviderError ''fly'' operation i CodeUnavailable (Some (OtherErr e))), s\<lparr>kn_world := w\<rparr>)
                | (None, w) \<Rightarrow> fly_do ou cfg ctx operation i r decode none (left - 1) (attempt + 1) (s\<lparr>kn_world := w\<rparr>))))"

declare fly_do.simps [simp del]

definition machinesPath :: "'w Outer \<Rightarrow> FlyConfig \<Rightarrow> string" where
  "machinesPath ou cfg = ''/v1/apps/'' @ ou_PathEscape ou (fc_App cfg) @ ''/machines''"

definition fly_call ::
    "'w Outer \<Rightarrow> FlyConfig \<Rightarrow> FlyCtx \<Rightarrow> string \<Rightarrow> SandboxID \<Rightarrow> string \<Rightarrow> string \<Rightarrow> strmap \<Rightarrow> string \<Rightarrow> (string \<Rightarrow> string + 'a) \<Rightarrow> 'a
      \<Rightarrow> (SbError, 'a, 'w Cloud) pass" where
  "fly_call ou cfg ctx operation i verb path q body decode none =
    fly_do ou cfg ctx operation i \<lparr>fr_Method = verb, fr_Path = path, fr_Query = q, fr_Token = fc_Token cfg, fr_Body = body\<rparr>
      decode none (nat (fc_MaxRetries cfg)) 0"

definition listManaged :: "'w Outer \<Rightarrow> FlyConfig \<Rightarrow> SandboxID \<Rightarrow> (SbError, Machine list, 'w Cloud) pass" where
  "listManaged ou cfg i = fly_call ou cfg CallerCtx ''list'' i ''GET'' (machinesPath ou cfg)
     ((''metadata.smart-route-managed'', ''true'') # (if i \<noteq> '''' then [(''metadata.smart-route-sandbox-id'', i)] else [])) '''' (ou_machines ou) []"

definition fly_delete :: "'w Outer \<Rightarrow> FlyConfig \<Rightarrow> FlyCtx \<Rightarrow> SandboxID \<Rightarrow> string \<Rightarrow> (SbError, unit, 'w Cloud) pass" where
  "fly_delete ou cfg ctx i external = fly_call ou cfg ctx ''terminate'' i ''DELETE'' (machinesPath ou cfg @ ''/'' @ ou_PathEscape ou external)
     [(''force'', ''true'')] '''' (\<lambda>_. Inr ()) ()"

definition waitStarted :: "'w Outer \<Rightarrow> FlyConfig \<Rightarrow> SandboxID \<Rightarrow> string \<Rightarrow> (SbError, unit, 'w Cloud) pass" where
  "waitStarted ou cfg i external s =
    (case fly_call ou cfg StartupCtx ''wait'' i ''GET'' (machinesPath ou cfg @ ''/'' @ ou_PathEscape ou external @ ''/wait'')
        [(''state'', ''started''), (''timeout'', show_int (max 1 (go_div (fc_StartupTimeout cfg) second)))] '''' (\<lambda>_. Inr ()) () s of
       (res, s) \<Rightarrow>
         (if ou_deadline ou (kn_world s)
          then Inl (ProviderError ''fly'' ''wait'' i CodeUnavailable (Some (OtherErr ''startup deadline exceeded''))) else res, s))"

section \<open>Fly: sandboxes\<close>

definition fly_state :: "string \<Rightarrow> string" where
  "fly_state state =
    (if state = ''created'' \<or> state = ''starting'' then ''creating''
     else if state = ''started'' then ''running''
     else if state = ''stopped'' \<or> state = ''suspended'' then ''stopped''
     else if state = ''destroyed'' \<or> state = ''destroying'' then ''terminated''
     else if state = ''failed'' then ''failed''
     else ''unknown'')"

definition fromMachine :: "'w Outer \<Rightarrow> Machine \<Rightarrow> PSandbox" where
  "fromMachine ou m = \<lparr>ps_ID = get_str (mc_Metadata m) ''smart-route-sandbox-id'', ps_Provider = ''fly'', ps_ExternalID = mc_ID m,
     ps_WorkerID = get_str (mc_Metadata m) ''smart-route-worker-id'', ps_State = fly_state (mc_State m),
     ps_Capabilities = ou_readCaps ou (get_str (mc_Metadata m) ''smart-route-capabilities'') zero_Capabilities,
     ps_Labels = ou_readLabels ou (get_str (mc_Metadata m) ''smart-route-labels'') [],
     ps_Metadata = [(''image'', mc_Image m), (''region'', mc_Region m), (''instance_id'', mc_InstanceID m)],
     ps_CreatedAt = (case ou_parseTime ou (mc_CreatedAt m) of None \<Rightarrow> 0 | Some t \<Rightarrow> t)\<rparr>"

definition validate_target :: "'w Outer \<Rightarrow> CreateSpec \<Rightarrow> string option" where
  "validate_target ou spec =
    (if sp_WorkerID spec = '''' then Some ''worker ID is required''
     else if (case ou_ParseRequestURI ou (sp_ControlPlaneURL spec) of None \<Rightarrow> True | Some u \<Rightarrow> url_Scheme u = '''' \<or> url_Host u = '''')
     then Some ''valid control-plane URL is required''
     else if sp_BootstrapToken spec = '''' then Some ''bootstrap token is required''
     else None)"

definition fly_validateSpec :: "'w Outer \<Rightarrow> CreateSpec \<Rightarrow> string option" where
  "fly_validateSpec ou spec =
    (case validate_target ou spec of
       Some e \<Rightarrow> Some e
     | None \<Rightarrow> if sp_Architecture spec \<noteq> '''' \<and> sp_Architecture spec \<noteq> ''amd64'' then Some ''Fly Machines adapter currently supports amd64'' else None)"

definition fly_cpu :: "'w Outer \<Rightarrow> string \<Rightarrow> string + string \<times> int" where
  "fly_cpu ou v =
    (if v = '''' then Inr (''shared'', 1)
     else
       (let parts = split_char (CHR ''-'') v; kind = hd parts in
        if kind \<noteq> ''shared'' \<and> kind \<noteq> ''performance'' then Inl ''cpu_class must be shared[-N] or performance[-N]''
        else if length parts = 2 then
          (case Atoi (parts ! 1) of
             None \<Rightarrow> Inl (''invalid cpu_class '' @ ou_quote ou v)
           | Some n \<Rightarrow> if n < 1 then Inl (''invalid cpu_class '' @ ou_quote ou v) else Inr (kind, n))
        else if length parts > 2 then Inl (''invalid cpu_class '' @ ou_quote ou v)
        else Inr (kind, 1)))"

definition cut_suffix :: "string \<Rightarrow> string \<Rightarrow> string" where
  "cut_suffix s x = take (length s - length x) s"

definition fly_memoryMB :: "'w Outer \<Rightarrow> string \<Rightarrow> string + int" where
  "fly_memoryMB ou v =
    (if v = '''' then Inr 256
     else
       (let lower = to_lower (TrimSpace v);
            (digits, mult) =
              (if has_suffix lower ''gb'' then (cut_suffix lower ''gb'', 1024)
               else if has_suffix lower ''g'' then (cut_suffix lower ''g'', 1024)
               else if has_suffix lower ''mb'' then (cut_suffix lower ''mb'', 1)
               else if has_suffix lower ''m'' then (cut_suffix lower ''m'', 1)
               else (lower, 1))
        in case Atoi digits of
             None \<Rightarrow> Inl (''invalid memory_class '' @ ou_quote ou v)
           | Some n \<Rightarrow> if n < 1 then Inl (''invalid memory_class '' @ ou_quote ou v) else Inr (int64 (n * mult))))"

definition fly_metadata :: "'w Outer \<Rightarrow> CreateSpec \<Rightarrow> SandboxID \<Rightarrow> strmap" where
  "fly_metadata ou spec i = [(''smart-route-managed'', ''true''), (''smart-route-sandbox-id'', i), (''smart-route-worker-id'', sp_WorkerID spec),
     (''smart-route-labels'', ou_labels ou (sp_Labels spec)), (''smart-route-capabilities'', ou_caps ou (sp_Capabilities spec))]"

definition fly_env :: "'w Outer \<Rightarrow> CreateSpec \<Rightarrow> SandboxID \<Rightarrow> strmap" where
  "fly_env ou spec i =
    (let caps = sp_Capabilities spec;
         env = [(''SMART_ROUTE_CONTROL_PLANE_URL'', sp_ControlPlaneURL spec), (''SMART_ROUTE_BOOTSTRAP_TOKEN'', sp_BootstrapToken spec),
           (''SMART_ROUTE_WORKER_ID'', sp_WorkerID spec), (''SMART_ROUTE_SANDBOX_ID'', i),
           (''SMART_ROUTE_SANDBOX_PROVIDER'', if sp_SandboxProvider spec = '''' then ''fly'' else sp_SandboxProvider spec),
           (''SMART_ROUTE_MAX_CONCURRENCY'', show_int (max 1 (sp_WorkerMaxConcurrency spec))),
           (''SMART_ROUTE_CAPABILITIES'', join_with '','' (cap_Capabilities caps)), (''SMART_ROUTE_UPSTREAMS'', join_with '','' (cap_Upstreams caps)),
           (''SMART_ROUTE_REGION'', cap_Region caps), (''SMART_ROUTE_LABELS'', ou_labels ou (cap_Labels caps))];
         refs = fold (\<lambda>(key, ref). AList.update (''SMART_ROUTE_ENV_REF_'' @ key) ref) (sp_Environment spec) env
     in if sp_BootstrapArtifact spec \<noteq> '''' then AList.update ''SMART_ROUTE_BOOTSTRAP_ARTIFACT'' (sp_BootstrapArtifact spec) refs else refs)"

definition fly_image :: "FlyConfig \<Rightarrow> CreateSpec \<Rightarrow> string" where
  "fly_image cfg spec = (if sp_Image spec \<noteq> '''' then sp_Image spec else if sp_Template spec \<noteq> '''' then sp_Template spec else fc_Image cfg)"

definition zero_Machine :: Machine where
  "zero_Machine = \<lparr>mc_ID = '''', mc_Name = '''', mc_State = '''', mc_Region = '''', mc_InstanceID = '''', mc_CreatedAt = '''', mc_Image = '''', mc_Metadata = []\<rparr>"

text \<open>What the creation asks for, before anything is sent.\<close>

definition fly_plan :: "'w Outer \<Rightarrow> FlyConfig \<Rightarrow> CreateSpec \<Rightarrow> (SbError, SandboxID \<times> FlyCreate, 'w Cloud) pass" where
  "fly_plan ou cfg spec s0 =
    (case fly_validateSpec ou spec of
       Some e \<Rightarrow> (Inl (NewError ''fly'' ''create'' CodeInvalid (OtherErr e)), s0)
     | None \<Rightarrow>
         (case (if sp_SandboxID spec = '''' then draw_id ou s0 else (Inr (sp_SandboxID spec), s0)) of
            (Inl e, s) \<Rightarrow> (Inl (NewError ''fly'' ''create'' CodeInternal (OtherErr e)), s)
          | (Inr i, s) \<Rightarrow>
              (let image = fly_image cfg spec in
               if image = '''' \<or> has_suffix image '':latest''
               then (Inl (fly_invalid ''create'' ''a versioned worker image (digest or non-latest tag) is required''), s)
               else case fly_cpu ou (sp_CPUClass spec) of
                 Inl e \<Rightarrow> (Inl (fly_invalid ''create'' e), s)
               | Inr (kind, cpus) \<Rightarrow>
                   (case fly_memoryMB ou (sp_MemoryClass spec) of
                      Inl e \<Rightarrow> (Inl (fly_invalid ''create'' e), s)
                    | Inr memory \<Rightarrow>
                        (case (if sp_MaxLifetime spec > 0
                               then (case expiry_stamp ou (sp_MaxLifetime spec) s of (t, s) \<Rightarrow> ([(''smart-route-expires-at'', t)], s)) else ([], s)) of
                           (expires, s) \<Rightarrow>
                             (Inr (i, \<lparr>fq_Name = ''smart-route-'' @ i, fq_Region = sp_Region spec, fq_Image = image, fq_Env = fly_env ou spec i,
                                fq_Metadata = fly_metadata ou spec i @ expires,
                                fq_Exec = (if sp_BootstrapCommand spec \<noteq> [] then Some (sp_BootstrapCommand spec) else None),
                                fq_CPUKind = kind, fq_CPUs = cpus, fq_MemoryMB = memory, fq_Restart = ''on-failure''\<rparr>), s))))))"

definition fly_Create :: "'w Outer \<Rightarrow> FlyConfig \<Rightarrow> CreateSpec \<Rightarrow> 'w Cloud \<Rightarrow> (SbError + PSandbox) \<times> 'w Cloud" where
  "fly_Create ou cfg spec s =
    sbind (fly_plan ou cfg spec s) (\<lambda>(i, req) s.
    sbind (fly_call ou cfg CallerCtx ''create'' i ''POST'' (machinesPath ou cfg) [] (ou_createBody ou req) (ou_machine ou) zero_Machine s) (\<lambda>created s.
      case waitStarted ou cfg i (mc_ID created) s of
        (Inl e, s) \<Rightarrow> (Inl e, snd (fly_delete ou cfg BackgroundCtx i (mc_ID created) s))
      | (Inr _, s) \<Rightarrow> (let item = fromMachine ou (created\<lparr>mc_State := ''started''\<rparr>) in (Inr item, remember item s))))"

definition fly_Get :: "'w Outer \<Rightarrow> FlyConfig \<Rightarrow> SandboxID \<Rightarrow> 'w Cloud \<Rightarrow> (SbError + PSandbox) \<times> 'w Cloud" where
  "fly_Get ou cfg i s =
    sbind (listManaged ou cfg i s) (\<lambda>machines s.
      case machines of
        m # _ \<Rightarrow> (Inr (fromMachine ou m), s)
      | [] \<Rightarrow>
          (case map_of (kn_known s) i of
             Some known \<Rightarrow> (let item = known\<lparr>ps_State := ''terminated''\<rparr> in (Inr item, remember item s))
           | None \<Rightarrow> (Inl (ProviderError ''fly'' ''get'' i CodeNotFound None), s)))"

definition fly_List :: "'w Outer \<Rightarrow> FlyConfig \<Rightarrow> Filter \<Rightarrow> 'w Cloud \<Rightarrow> (SbError + PSandbox list) \<times> 'w Cloud" where
  "fly_List ou cfg filt s =
    sbind (listManaged ou cfg '''' s) (\<lambda>machines s.
      (Inr (sort_key ps_ID (filter (\<lambda>item. ps_ID item \<noteq> '''' \<and> Matches item filt) (map (fromMachine ou) machines))), s))"

fun fly_delete_all :: "'w Outer \<Rightarrow> FlyConfig \<Rightarrow> SandboxID \<Rightarrow> Machine list \<Rightarrow> (SbError, unit, 'w Cloud) pass" where
  "fly_delete_all ou cfg i [] s = (Inr (), s)"
| "fly_delete_all ou cfg i (m # ms) s =
    (case fly_delete ou cfg CallerCtx i (mc_ID m) s of
       (Inl e, s) \<Rightarrow> if errors_Is e SbErrNotFound then fly_delete_all ou cfg i ms s else (Inl e, s)
     | (Inr _, s) \<Rightarrow> fly_delete_all ou cfg i ms s)"

definition fly_Terminate :: "'w Outer \<Rightarrow> FlyConfig \<Rightarrow> SandboxID \<Rightarrow> 'w Cloud \<Rightarrow> (SbError + unit) \<times> 'w Cloud" where
  "fly_Terminate ou cfg i s =
    sbind (listManaged ou cfg i s) (\<lambda>machines s.
    sbind (fly_delete_all ou cfg i machines s) (\<lambda>_ s. (Inr (), forget_running i s)))"

definition fly_provider :: "'w Outer \<Rightarrow> FlyConfig \<Rightarrow> 'w Cloud Provider" where
  "fly_provider ou cfg = \<lparr>pv_Create = fly_Create ou cfg, pv_Get = fly_Get ou cfg, pv_List = fly_List ou cfg, pv_Terminate = fly_Terminate ou cfg,
     pv_CreateSnapshot = None, pv_RestoreSnapshot = None\<rparr>"

section \<open>Docker\<close>

record DockerConfig =
  dc_Image :: string
  dc_Binary :: string
  dc_Network :: string

definition docker_newProvider :: "DockerConfig \<Rightarrow> SbError + DockerConfig" where
  "docker_newProvider c0 =
    (let c = c0\<lparr>dc_Image := (if dc_Image c0 = '''' then ''smart-route-worker:latest'' else dc_Image c0),
           dc_Binary := (if dc_Binary c0 = '''' then ''docker'' else dc_Binary c0)\<rparr>
     in if TrimSpace (dc_Image c) = '''' \<or> has_prefix (dc_Image c) ''-''
        then Inl (NewError ''localdocker'' ''configure'' CodeInvalid (OtherErr ''invalid image''))
        else Inr c)"

definition docker_Factory :: "strmap \<Rightarrow> SbError + DockerConfig" where
  "docker_Factory values = docker_newProvider \<lparr>dc_Image = get_str values ''image'', dc_Binary = get_str values ''docker_binary'', dc_Network = get_str values ''network''\<rparr>"

definition containerName :: "SandboxID \<Rightarrow> string" where
  "containerName i = ''smart-route-worker-'' @ i"

text \<open>The identity of the worker in a sandbox, a version 4 UUID made of the digest of the sandbox's identifier.\<close>

definition set_low :: "nat \<Rightarrow> nat \<Rightarrow> char \<Rightarrow> char" where
  "set_low keep mark c = char_of ((of_char c :: nat) mod keep + mark)"

definition uuid_form :: "string \<Rightarrow> string" where
  "uuid_form hex = take 8 hex @ ''-'' @ take 4 (drop 8 hex) @ ''-'' @ take 4 (drop 12 hex) @ ''-'' @ take 4 (drop 16 hex) @ ''-'' @ drop 20 hex"

definition docker_instanceID :: "(string \<Rightarrow> string) \<Rightarrow> SandboxID \<Rightarrow> string" where
  "docker_instanceID sha256 i =
    (let s0 = sha256 i;
         s1 = s0[6 := set_low 16 64 (s0 ! 6)];
         s2 = s1[8 := set_low 64 128 (s1 ! 8)]
     in uuid_form (hex_EncodeToString (take 16 s2)))"

definition flagged :: "string \<Rightarrow> string \<Rightarrow> string \<Rightarrow> string list" where
  "flagged flag name v = [flag, name @ ''='' @ v]"

definition optional_flag :: "bool \<Rightarrow> string list \<Rightarrow> string list" where
  "optional_flag c args = (if c then args else [])"

definition docker_image :: "DockerConfig \<Rightarrow> CreateSpec \<Rightarrow> string" where
  "docker_image cfg spec = (if sp_Image spec \<noteq> '''' then sp_Image spec else if sp_Template spec \<noteq> '''' then sp_Template spec else dc_Image cfg)"

definition docker_labels :: "'w Outer \<Rightarrow> CreateSpec \<Rightarrow> SandboxID \<Rightarrow> string option \<Rightarrow> strmap" where
  "docker_labels ou spec i expires =
    (let region = (if sp_Region spec = '''' then cap_Region (sp_Capabilities spec) else sp_Region spec) in
     [(''smart-route.managed'', ''true''), (''smart-route.sandbox-id'', i), (''smart-route.worker-id'', sp_WorkerID spec),
      (''smart-route.capabilities'', ou_caps ou (sp_Capabilities spec)), (''smart-route.labels'', ou_labels ou (sp_Labels spec))]
     @ (if sp_Template spec \<noteq> '''' then [(''smart-route.template'', sp_Template spec)] else [])
     @ (if region \<noteq> '''' then [(''smart-route.region'', region)] else [])
     @ (case expires of None \<Rightarrow> [] | Some t \<Rightarrow> [(''smart-route.expires-at'', t)]))"

definition docker_env :: "'w Outer \<Rightarrow> CreateSpec \<Rightarrow> SandboxID \<Rightarrow> strmap" where
  "docker_env ou spec i =
    (let caps = sp_Capabilities spec in
     [(''SMART_ROUTE_CONTROL_PLANE_URL'', sp_ControlPlaneURL spec), (''SMART_ROUTE_BOOTSTRAP_TOKEN'', sp_BootstrapToken spec),
      (''SMART_ROUTE_WORKER_ID'', sp_WorkerID spec), (''SMART_ROUTE_INSTANCE_ID'', docker_instanceID (ou_sha256 ou) i), (''SMART_ROUTE_SANDBOX_ID'', i),
      (''SMART_ROUTE_SANDBOX_PROVIDER'', if sp_SandboxProvider spec = '''' then ''localdocker'' else sp_SandboxProvider spec),
      (''SMART_ROUTE_MAX_CONCURRENCY'', show_int (if sp_WorkerMaxConcurrency spec < 1 then 1 else sp_WorkerMaxConcurrency spec)),
      (''SMART_ROUTE_CAPABILITIES'', join_with '','' (cap_Capabilities caps)), (''SMART_ROUTE_LABELS'', ou_labels ou (cap_Labels caps)),
      (''SMART_ROUTE_UPSTREAMS'', join_with '','' (cap_Upstreams caps)), (''SMART_ROUTE_REGION'', cap_Region caps)])"

text \<open>The arguments of \<^verbatim>\<open>docker run\<close>, in the order of the code.\<close>

definition docker_args :: "'w Outer \<Rightarrow> DockerConfig \<Rightarrow> CreateSpec \<Rightarrow> SandboxID \<Rightarrow> string option \<Rightarrow> string list" where
  "docker_args ou cfg spec i expires =
    (let labels = docker_labels ou spec i expires; env = docker_env ou spec i;
         architecture = (if sp_Architecture spec = '''' then cap_Architecture (sp_Capabilities spec) else sp_Architecture spec)
     in [''run'', ''--detach'', ''--name'', containerName i]
        @ concat (map (\<lambda>(k, v). flagged ''--label'' k v) (take 3 labels))
        @ concat (map (\<lambda>(k, v). flagged ''--env'' k v) (take 7 env))
        @ optional_flag (dc_Network cfg \<noteq> '''') [''--network'', dc_Network cfg]
        @ concat (map (\<lambda>(k, v). flagged ''--env'' k v) (drop 7 env))
        @ concat (map (\<lambda>(k, v). flagged ''--label'' k v) (drop 3 labels))
        @ optional_flag (architecture \<noteq> '''') [''--platform'', ''linux/'' @ architecture]
        @ optional_flag (sp_CPUClass spec \<noteq> '''') [''--cpus'', sp_CPUClass spec]
        @ optional_flag (sp_MemoryClass spec \<noteq> '''') [''--memory'', sp_MemoryClass spec]
        @ concat (map (\<lambda>key. flagged ''--env'' (''SMART_ROUTE_ENV_REF_'' @ key) (get_str (sp_Environment spec) key)) (sort (map fst (sp_Environment spec))))
        @ optional_flag (sp_BootstrapArtifact spec \<noteq> '''') (flagged ''--env'' ''SMART_ROUTE_BOOTSTRAP_ARTIFACT'' (sp_BootstrapArtifact spec))
        @ docker_image cfg spec # sp_BootstrapCommand spec)"

definition docker_run :: "'w Outer \<Rightarrow> DockerConfig \<Rightarrow> string list \<Rightarrow> 'w Cloud \<Rightarrow> (string \<times> CommandErr option) \<times> 'w Cloud" where
  "docker_run ou cfg args s =
    (case ou_Run ou (dc_Binary cfg) args (kn_world s) of (r, w) \<Rightarrow> (r, s\<lparr>kn_world := w, kn_ran := kn_ran s @ [(args, snd r = None)]\<rparr>))"

definition commandError :: "string \<Rightarrow> SandboxID \<Rightarrow> string \<Rightarrow> CommandErr \<Rightarrow> SbError" where
  "commandError operation i output cause =
    (let detail = TrimSpace output;
         text = (case cause of ExitStatus e \<Rightarrow> e | NotRun e \<Rightarrow> e)
     in ProviderError ''localdocker'' operation i (case cause of ExitStatus _ \<Rightarrow> CodeInternal | NotRun _ \<Rightarrow> CodeUnavailable)
          (Some (OtherErr (if detail = '''' then text else detail))))"

definition missing :: "string \<Rightarrow> bool" where
  "missing output \<longleftrightarrow> contains_str (to_lower output) ''no such container'' \<or> contains_str (to_lower output) ''no such object''"

definition clock :: "'w Outer \<Rightarrow> 'w Cloud \<Rightarrow> time \<times> 'w Cloud" where
  "clock ou s = (case ou_now ou (kn_world s) of (t, w) \<Rightarrow> (t, s\<lparr>kn_world := w\<rparr>))"

definition docker_Create :: "'w Outer \<Rightarrow> DockerConfig \<Rightarrow> CreateSpec \<Rightarrow> 'w Cloud \<Rightarrow> (SbError + PSandbox) \<times> 'w Cloud" where
  "docker_Create ou cfg spec s0 =
    (case validate_target ou spec of
       Some e \<Rightarrow> (Inl (NewError ''localdocker'' ''create'' CodeInvalid (OtherErr e)), s0)
     | None \<Rightarrow>
         (case (if sp_SandboxID spec = '''' then draw_id ou s0 else (Inr (sp_SandboxID spec), s0)) of
            (Inl e, s) \<Rightarrow> (Inl (NewError ''localdocker'' ''create'' CodeInternal (OtherErr e)), s)
          | (Inr i, s) \<Rightarrow>
              (case (if sp_MaxLifetime spec > 0 then (case expiry_stamp ou (sp_MaxLifetime spec) s of (t, s) \<Rightarrow> (Some t, s)) else (None, s)) of
                 (expires, s) \<Rightarrow>
                   (case docker_run ou cfg (docker_args ou cfg spec i expires) s of
                      ((output, Some cause), s) \<Rightarrow> (Inl (commandError ''create'' i output cause), s)
                    | ((output, None), s) \<Rightarrow>
                        (case clock ou s of (now, s) \<Rightarrow>
                          (let item = \<lparr>ps_ID = i, ps_Provider = ''localdocker'', ps_ExternalID = TrimSpace output, ps_WorkerID = sp_WorkerID spec,
                             ps_State = ''running'', ps_Capabilities = sp_Capabilities spec, ps_Labels = sp_Labels spec,
                             ps_Metadata = [(''image'', docker_image cfg spec), (''template'', sp_Template spec)], ps_CreatedAt = now\<rparr>
                           in (Inr item, remember item s)))))))"

definition normalizeState :: "DockerState \<Rightarrow> string" where
  "normalizeState st =
    (if do_Dead st \<or> do_OOMKilled st \<or> do_Error st \<noteq> '''' then ''failed''
     else if do_Running st \<or> do_Status st = ''running'' then ''running''
     else if do_Status st = ''created'' \<or> do_Status st = ''restarting'' then ''creating''
     else if do_Status st = ''exited'' \<or> do_Status st = ''paused'' then ''stopped''
     else if do_Status st = ''removing'' then ''terminated''
     else ''unknown'')"

definition zero_PSandbox :: PSandbox where
  "zero_PSandbox = \<lparr>ps_ID = '''', ps_Provider = '''', ps_ExternalID = '''', ps_WorkerID = '''', ps_State = '''', ps_Capabilities = zero_Capabilities,
     ps_Labels = [], ps_Metadata = [], ps_CreatedAt = 0\<rparr>"

definition trim_slash :: "string \<Rightarrow> string" where
  "trim_slash s = (if has_prefix s ''/'' then tl s else s)"

definition sandboxFromContainer :: "'w Outer \<Rightarrow> DockerContainer \<Rightarrow> PSandbox \<Rightarrow> PSandbox" where
  "sandboxFromContainer ou k fallback =
    (let labels = dk_Labels k; i = get_str labels ''smart-route.sandbox-id''; w = get_str labels ''smart-route.worker-id'' in
     fallback\<lparr>ps_Provider := ''localdocker'', ps_ExternalID := dk_ID k, ps_State := normalizeState (dk_State k),
       ps_ID := (if i \<noteq> '''' then i else ps_ID fallback), ps_WorkerID := (if w \<noteq> '''' then w else ps_WorkerID fallback),
       ps_Capabilities := ou_readCaps ou (get_str labels ''smart-route.capabilities'') (ps_Capabilities fallback),
       ps_Labels := ou_readLabels ou (get_str labels ''smart-route.labels'') (ps_Labels fallback),
       ps_Metadata := [(''image'', dk_Image k), (''name'', trim_slash (dk_Name k)), (''template'', get_str labels ''smart-route.template'')],
       ps_CreatedAt := (case ou_parseTime ou (dk_Created k) of None \<Rightarrow> ps_CreatedAt fallback | Some t \<Rightarrow> t)\<rparr>)"

definition docker_expired :: "'w Outer \<Rightarrow> DockerContainer \<Rightarrow> time \<Rightarrow> bool" where
  "docker_expired ou k now \<longleftrightarrow> (case ou_parseTime ou (get_str (dk_Labels k) ''smart-route.expires-at'') of None \<Rightarrow> False | Some t \<Rightarrow> \<not> now < t)"

definition removing :: DockerState where
  "removing = \<lparr>do_Status = ''removing'', do_Running = False, do_Dead = False, do_OOMKilled = False, do_Error = ''''\<rparr>"

text \<open>A container past its expiry is removed when it is looked at.\<close>

definition expire_container :: "'w Outer \<Rightarrow> DockerConfig \<Rightarrow> SandboxID \<Rightarrow> string \<Rightarrow> DockerContainer \<Rightarrow> (SbError, DockerContainer, 'w Cloud) pass" where
  "expire_container ou cfg i name k s =
    (case clock ou s of (now, s) \<Rightarrow>
       if \<not> docker_expired ou k now then (Inr k, s)
       else (case docker_run ou cfg [''rm'', ''--force'', name] s of
           ((output, Some cause), s) \<Rightarrow> if missing output then (Inr (k\<lparr>dk_State := removing\<rparr>), s) else (Inl (commandError ''expire'' i output cause), s)
         | ((output, None), s) \<Rightarrow> (Inr (k\<lparr>dk_State := removing\<rparr>), s)))"

definition docker_Get :: "'w Outer \<Rightarrow> DockerConfig \<Rightarrow> SandboxID \<Rightarrow> 'w Cloud \<Rightarrow> (SbError + PSandbox) \<times> 'w Cloud" where
  "docker_Get ou cfg i s0 =
    (let known = map_of (kn_known s0) i in
     case docker_run ou cfg [''inspect'', ''--format'', ''{{json .}}'', containerName i] s0 of
       ((output, Some cause), s) \<Rightarrow>
         if missing output
         then (case known of
             None \<Rightarrow> (Inl (ProviderError ''localdocker'' ''get'' i CodeNotFound None), s)
           | Some item \<Rightarrow> (let gone = item\<lparr>ps_State := ''terminated''\<rparr> in (Inr gone, remember gone s)))
         else (Inl (commandError ''get'' i output cause), s)
     | ((output, None), s) \<Rightarrow>
         (case ou_container ou output of
            Inl e \<Rightarrow> (Inl (NewError ''localdocker'' ''get'' CodeInternal (OtherErr (''decode docker state: '' @ e))), s)
          | Inr k \<Rightarrow> sbind (expire_container ou cfg i (containerName i) k s) (\<lambda>k s.
              (let item = sandboxFromContainer ou k (case known of None \<Rightarrow> zero_PSandbox | Some item \<Rightarrow> item) in (Inr item, remember item s)))))"

text \<open>\<^verbatim>\<open>strings.Fields\<close> on ASCII.\<close>

fun words_of :: "string \<Rightarrow> string \<Rightarrow> string list" where
  "words_of cur [] = (if cur = [] then [] else [rev cur])"
| "words_of cur (x # xs) = (if is_space x then (if cur = [] then words_of [] xs else rev cur # words_of [] xs) else words_of (x # cur) xs)"

fun docker_inspect_all :: "'w Outer \<Rightarrow> DockerConfig \<Rightarrow> Filter \<Rightarrow> string list \<Rightarrow> (SbError, PSandbox list, 'w Cloud) pass" where
  "docker_inspect_all ou cfg filt [] s = (Inr [], s)"
| "docker_inspect_all ou cfg filt (external # rest) s =
    (case docker_run ou cfg [''inspect'', ''--format'', ''{{json .}}'', external] s of
       ((output, Some cause), s) \<Rightarrow> if missing output then docker_inspect_all ou cfg filt rest s else (Inl (commandError ''list'' '''' output cause), s)
     | ((output, None), s) \<Rightarrow>
         (case ou_container ou output of
            Inl e \<Rightarrow> (Inl (NewError ''localdocker'' ''list'' CodeInternal (OtherErr e)), s)
          | Inr k \<Rightarrow> sbind (expire_container ou cfg '''' external k s) (\<lambda>k s.
              (let item = sandboxFromContainer ou k zero_PSandbox; keep = (ps_ID item \<noteq> '''' \<and> Matches item filt) in
               sbind (docker_inspect_all ou cfg filt rest (if keep then remember item s else s)) (\<lambda>items s. (Inr ((if keep then [item] else []) @ items), s))))))"

definition docker_List :: "'w Outer \<Rightarrow> DockerConfig \<Rightarrow> Filter \<Rightarrow> 'w Cloud \<Rightarrow> (SbError + PSandbox list) \<times> 'w Cloud" where
  "docker_List ou cfg filt s =
    (case docker_run ou cfg [''ps'', ''--all'', ''--quiet'', ''--filter'', ''label=smart-route.managed=true''] s of
       ((output, Some cause), s) \<Rightarrow> (Inl (commandError ''list'' '''' output cause), s)
     | ((output, None), s) \<Rightarrow> docker_inspect_all ou cfg filt (words_of [] output) s)"

definition docker_Terminate :: "'w Outer \<Rightarrow> DockerConfig \<Rightarrow> SandboxID \<Rightarrow> 'w Cloud \<Rightarrow> (SbError + unit) \<times> 'w Cloud" where
  "docker_Terminate ou cfg i s =
    (case docker_run ou cfg [''rm'', ''--force'', containerName i] s of
       ((output, Some cause), s) \<Rightarrow> if missing output then (Inr (), forget_running i s) else (Inl (commandError ''terminate'' i output cause), s)
     | ((output, None), s) \<Rightarrow> (Inr (), forget_running i s))"

definition docker_provider :: "'w Outer \<Rightarrow> DockerConfig \<Rightarrow> 'w Cloud Provider" where
  "docker_provider ou cfg = \<lparr>pv_Create = docker_Create ou cfg, pv_Get = docker_Get ou cfg, pv_List = docker_List ou cfg, pv_Terminate = docker_Terminate ou cfg,
     pv_CreateSnapshot = None, pv_RestoreSnapshot = None\<rparr>"

section \<open>What the Fly adapter sends\<close>

text \<open>The answer that ends a call with a value.\<close>

definition answered :: "(string \<Rightarrow> string + 'a) \<Rightarrow> 'a \<Rightarrow> string \<Rightarrow> FlyAnswer \<Rightarrow> 'a \<Rightarrow> bool" where
  "answered decode none verb a x \<longleftrightarrow>
    (case fly_success a of
       Some data \<Rightarrow> if data = '''' then x = none else decode data = Inr x
     | None \<Rightarrow> fly_gone verb a \<and> x = none)"

definition fly_error :: "SbError \<Rightarrow> bool" where
  "fly_error e \<longleftrightarrow> (\<exists>operation i code cause. e = ProviderError ''fly'' operation i code cause \<and> code \<noteq> CodeUnset)"

lemma fly_error_simps [simp]: "fly_error (ProviderError ''fly'' operation i code cause) \<longleftrightarrow> code \<noteq> CodeUnset" "fly_error (fly_invalid operation m)"
    "fly_error (NewError ''fly'' operation code err) \<longleftrightarrow> code \<noteq> CodeUnset"
  by (simp_all add: fly_error_def fly_invalid_def NewError_def)

lemma classified [simp]: "fly_classify a \<noteq> CodeUnset"
  by (cases a) (auto split: sum.split)

text \<open>The exchanges of one call: the same request, refused but for the last time, at most one more than the retries.\<close>

definition call_trace :: "FlyRequest \<Rightarrow> nat \<Rightarrow> (FlyAnswer \<Rightarrow> 'a \<Rightarrow> bool) \<Rightarrow> 'w Cloud \<Rightarrow> SbError + 'a \<Rightarrow> 'w Cloud \<Rightarrow> FlyAnswer list \<Rightarrow> bool" where
  "call_trace r left ok s res s' as \<longleftrightarrow> kn_sent s' = kn_sent s @ map (Pair r) as \<and> kn_known s' = kn_known s \<and> length as \<le> left + 1 \<and> as \<noteq> []
     \<and> (\<forall>a \<in> set (butlast as). \<forall>x. \<not> ok a x)
     \<and> (case res of Inr x \<Rightarrow> ok (last as) x | Inl e \<Rightarrow> fly_error e \<and> (\<forall>x. \<not> ok (last as) x))"

lemma fly_do_trace:
  assumes "fly_do ou cfg ctx operation i r decode none left attempt s = (res, s')"
  shows "\<exists>as. call_trace r left (answered decode none (fr_Method r)) s res s' as"
  using assms
proof (induction left arbitrary: attempt s)
  case 0
  obtain a s1 where send: "fly_send ou ctx r s = (a, s1)" by (metis surj_pair)
  then have s1: "kn_sent s1 = kn_sent s @ [(r, a)]" "kn_known s1 = kn_known s" by (auto simp: fly_send_def split: prod.splits)
  from 0 send s1 show ?case
    by (intro exI [of _ "[a]"]) (auto simp: call_trace_def answered_def fly_do.simps split: FlyAnswer.splits option.splits if_splits sum.splits)
next
  case (Suc left)
  obtain a s1 where send: "fly_send ou ctx r s = (a, s1)" by (metis surj_pair)
  then have s1: "kn_sent s1 = kn_sent s @ [(r, a)]" "kn_known s1 = kn_known s" by (auto simp: fly_send_def split: prod.splits)
  show ?case
  proof (cases "fly_success a = None \<and> \<not> fly_gone (fr_Method r) a \<and> (fly_classify a = CodeUnavailable \<or> fly_classify a = CodeCapacity) \<and> (\<forall>e. a \<noteq> NoRequest e)
      \<and> fst (ou_Sleep ou ctx (retry_wait cfg attempt) (kn_world s1)) = None")
    case True
    obtain w where w: "ou_Sleep ou ctx (retry_wait cfg attempt) (kn_world s1) = (None, w)" using True by (metis prod.collapse)
    with Suc.prems send True have "fly_do ou cfg ctx operation i r decode none left (attempt + 1) (s1\<lparr>kn_world := w\<rparr>) = (res, s')"
      by (subst (asm) fly_do.simps) (auto split: FlyAnswer.splits)
    from Suc.IH [OF this] obtain as where "call_trace r left (answered decode none (fr_Method r)) (s1\<lparr>kn_world := w\<rparr>) res s' as" by blast
    moreover have "\<not> answered decode none (fr_Method r) a x" for x using True by (simp add: answered_def)
    ultimately show ?thesis using s1 by (intro exI [of _ "a # as"]) (auto simp: call_trace_def split: sum.splits)
  next
    case False
    with Suc.prems send s1 show ?thesis
      by (intro exI [of _ "[a]"]; subst (asm) fly_do.simps)
         (auto simp: call_trace_def answered_def split: FlyAnswer.splits option.splits if_splits sum.splits prod.splits)
  qed
qed

definition fly_request :: "FlyConfig \<Rightarrow> string \<Rightarrow> string \<Rightarrow> strmap \<Rightarrow> string \<Rightarrow> FlyRequest" where
  "fly_request cfg verb path q body = \<lparr>fr_Method = verb, fr_Path = path, fr_Query = q, fr_Token = fc_Token cfg, fr_Body = body\<rparr>"

definition delete_request :: "'w Outer \<Rightarrow> FlyConfig \<Rightarrow> Machine \<Rightarrow> FlyRequest" where
  "delete_request ou cfg m = fly_request cfg ''DELETE'' (machinesPath ou cfg @ ''/'' @ ou_PathEscape ou (mc_ID m)) [(''force'', ''true'')] ''''"

lemma fly_call_trace:
  assumes "fly_call ou cfg ctx operation i verb path q body decode none s = (res, s')"
  shows "\<exists>as. call_trace (fly_request cfg verb path q body) (nat (fc_MaxRetries cfg)) (answered decode none verb) s res s' as"
  using fly_do_trace [OF assms [unfolded fly_call_def]] by (simp add: fly_request_def)

lemma fly_delete_trace:
  assumes "fly_delete ou cfg ctx i (mc_ID m) s = (res, s')"
  shows "\<exists>as. call_trace (delete_request ou cfg m) (nat (fc_MaxRetries cfg)) (answered (\<lambda>_. Inr ()) () ''DELETE'') s res s' as"
  using fly_call_trace [OF assms [unfolded fly_delete_def]] by (simp add: delete_request_def)

lemma waitStarted_trace:
  assumes "waitStarted ou cfg i external s = (res, s')"
  shows "\<exists>r as. fr_Method r = ''GET'' \<and> fr_Path r = machinesPath ou cfg @ ''/'' @ ou_PathEscape ou external @ ''/wait'' \<and> kn_sent s' = kn_sent s @ map (Pair r) as
    \<and> kn_known s' = kn_known s \<and> (case res of Inr _ \<Rightarrow> as \<noteq> [] \<and> fly_success (last as) \<noteq> None | Inl e \<Rightarrow> fly_error e)"
proof -
  let ?path = "machinesPath ou cfg @ ''/'' @ ou_PathEscape ou external @ ''/wait''"
  let ?q = "[(''state'', ''started''), (''timeout'', show_int (max 1 (go_div (fc_StartupTimeout cfg) second)))]"
  let ?r = "fly_request cfg ''GET'' ?path ?q ''''"
  obtain out where call: "fly_call ou cfg StartupCtx ''wait'' i ''GET'' ?path ?q '''' (\<lambda>_. Inr ()) () s = (out, s')"
    and res: "res = out \<or> (\<exists>e. fly_error e \<and> res = Inl e)"
    using assms by (auto simp: waitStarted_def split: prod.splits if_splits)
  from fly_call_trace [OF call] obtain as where t: "call_trace ?r (nat (fc_MaxRetries cfg)) (answered (\<lambda>_. Inr ()) () ''GET'') s out s' as" by blast
  have "fly_success (last as) \<noteq> None" if "out = Inr u" for u
    using t that by (cases "last as") (auto simp: call_trace_def answered_def split: option.splits)
  with t res show ?thesis
    by (intro exI [of _ ?r] exI [of _ as]) (auto simp: fly_request_def call_trace_def split: sum.splits)
qed

lemma fly_plan_silent:
  assumes "fly_plan ou cfg spec s = (res, s')"
  shows "kn_sent s' = kn_sent s \<and> kn_known s' = kn_known s \<and> (\<forall>e. res = Inl e \<longrightarrow> fly_error e)"
  using assms by (auto simp: fly_plan_def draw_id_def expiry_stamp_def Let_def split: option.splits prod.splits sum.splits if_splits)

lemma answered_functional: "answered decode none verb a x \<Longrightarrow> answered decode none verb a y \<Longrightarrow> x = y"
  by (auto simp: answered_def split: option.splits if_splits)

lemma set_butlast_last: "as \<noteq> [] \<Longrightarrow> set as = insert (last as) (set (butlast as))"
  by (induction as) auto

text \<open>The one answer that counts is the last.\<close>

lemma call_trace_only:
  assumes "call_trace r left (answered decode none verb) s res s' as" and "a \<in> set as" and "answered decode none verb a y"
  shows "res = Inr y"
proof -
  have "as \<noteq> []" using assms(1) by (simp add: call_trace_def)
  then have "set as = insert (last as) (set (butlast as))" by (rule set_butlast_last)
  with assms(2) have "a \<in> set (butlast as) \<or> a = last as" by blast
  with assms(1,3) have ok: "answered decode none verb (last as) y" "\<And>e. res \<noteq> Inl e" by (auto simp: call_trace_def)
  show ?thesis
  proof (cases res)
    case (Inr x)
    with assms(1) have "answered decode none verb (last as) x" by (simp add: call_trace_def)
    from answered_functional [OF this ok(1)] Inr show ?thesis by simp
  qed (use ok in simp)
qed

lemma filter_exchanges [simp]: "filter (\<lambda>(r, _). P r) (map (Pair r) as) = (if P r then map (Pair r) as else [])"
  by (induction as) auto

lemma fst_exchanges: "as \<noteq> [] \<Longrightarrow> r \<in> fst ` set (map (Pair r) as)"
  by (cases as) auto

text \<open>
  C39: a machine that Fly acknowledged is accounted for, whatever the service answers: a creation posts its request at most once more
  than the configured retries; if it returns a sandbox, then that is the acknowledged machine, Fly confirmed that it started, nothing
  was deleted and the adapter remembers it; if it fails, then the error is classified and every machine Fly acknowledged was
  asked to be deleted.
\<close>

theorem fly_create_accounted:
  assumes "fly_Create ou cfg spec s = (res, s')"
  shows "\<exists>sent. kn_sent s' = kn_sent s @ sent \<and> length (filter (\<lambda>(r, _). fr_Method r = ''POST'') sent) \<le> nat (fc_MaxRetries cfg) + 1
    \<and> (case res of
         Inr item \<Rightarrow> \<exists>m. item = fromMachine ou (m\<lparr>mc_State := ''started''\<rparr>) \<and> map_of (kn_known s') (ps_ID item) = Some item
           \<and> (\<exists>(r, a) \<in> set sent. fr_Method r = ''POST'' \<and> answered (ou_machine ou) zero_Machine ''POST'' a m)
           \<and> (\<exists>(r, a) \<in> set sent. fr_Path r = machinesPath ou cfg @ ''/'' @ ou_PathEscape ou (mc_ID m) @ ''/wait'' \<and> fly_success a \<noteq> None)
           \<and> (\<forall>(r, _) \<in> set sent. fr_Method r \<noteq> ''DELETE'')
       | Inl e \<Rightarrow> fly_error e \<and> kn_known s' = kn_known s
           \<and> (\<forall>(r, a) \<in> set sent. \<forall>m. fr_Method r = ''POST'' \<and> answered (ou_machine ou) zero_Machine ''POST'' a m
                \<longrightarrow> delete_request ou cfg m \<in> fst ` set sent))"
proof (cases "fly_plan ou cfg spec s")
  case (Pair plan s1)
  note silent = fly_plan_silent [OF Pair]
  show ?thesis
  proof (cases plan)
    case (Inl e)
    with Pair assms silent show ?thesis by (intro exI [of _ "[]"]) (auto simp: fly_Create_def sbind_def)
  next
    case Planned: (Inr iq)
    obtain i req where iq: "iq = (i, req)" by (cases iq)
    let ?r = "fly_request cfg ''POST'' (machinesPath ou cfg) [] (ou_createBody ou req)"
    obtain posted s2 where call: "fly_call ou cfg CallerCtx ''create'' i ''POST'' (machinesPath ou cfg) [] (ou_createBody ou req) (ou_machine ou) zero_Machine s1 = (posted, s2)"
      by (metis surj_pair)
    from fly_call_trace [OF call] obtain as where t: "call_trace ?r (nat (fc_MaxRetries cfg)) (answered (ou_machine ou) zero_Machine ''POST'') s1 posted s2 as" by blast
    have sent: "kn_sent s2 = kn_sent s @ map (Pair ?r) as" "length as \<le> nat (fc_MaxRetries cfg) + 1" "kn_known s2 = kn_known s"
      and verb: "fr_Method ?r = ''POST''" using t silent by (auto simp: call_trace_def fly_request_def)
    note only = call_trace_only [OF t]
    show ?thesis
    proof (cases posted)
      case Refused: (Inl e)
      with assms Pair Planned iq call have "res = Inl e" "s' = s2" by (auto simp: fly_Create_def sbind_def)
      moreover have "fly_error e" using t Refused by (simp add: call_trace_def)
      ultimately show ?thesis using sent verb only Refused by (intro exI [of _ "map (Pair ?r) as"]) auto
    next
      case Created: (Inr m)
      then have made: "answered (ou_machine ou) zero_Machine ''POST'' (last as) m" "last as \<in> set as" using t by (auto simp: call_trace_def)
      obtain started s3 where wait: "waitStarted ou cfg i (mc_ID m) s2 = (started, s3)" by (metis surj_pair)
      from waitStarted_trace [OF wait] obtain q bs where q: "fr_Method q = ''GET''" "fr_Path q = machinesPath ou cfg @ ''/'' @ ou_PathEscape ou (mc_ID m) @ ''/wait''"
        and s3: "kn_sent s3 = kn_sent s2 @ map (Pair q) bs" "kn_known s3 = kn_known s2"
        and ended: "case started of Inr _ \<Rightarrow> bs \<noteq> [] \<and> fly_success (last bs) \<noteq> None | Inl e \<Rightarrow> fly_error e" by blast
      show ?thesis
      proof (cases started)
        case (Inl e)
        obtain gone s4 where del: "fly_delete ou cfg BackgroundCtx i (mc_ID m) s3 = (gone, s4)" by (metis surj_pair)
        from fly_delete_trace [OF del] obtain ds where ds: "kn_sent s4 = kn_sent s3 @ map (Pair (delete_request ou cfg m)) ds" "ds \<noteq> []" "kn_known s4 = kn_known s3"
          by (auto simp: call_trace_def)
        have "res = Inl e" "s' = s4" using assms Pair Planned iq call Created wait del Inl by (auto simp: fly_Create_def sbind_def)
        moreover have "delete_request ou cfg m \<in> fst ` set (map (Pair (delete_request ou cfg m)) ds)" using ds(2) by (rule fst_exchanges)
        moreover have "fr_Method (delete_request ou cfg m) = ''DELETE''" by (simp add: delete_request_def fly_request_def)
        ultimately show ?thesis using Inl ended sent verb only Created s3 ds q
          by (intro exI [of _ "map (Pair ?r) as @ map (Pair q) bs @ map (Pair (delete_request ou cfg m)) ds"]) (auto simp: image_Un image_image image_constant_conv)
      next
        case (Inr u)
        let ?item = "fromMachine ou (m\<lparr>mc_State := ''started''\<rparr>)"
        have "res = Inr ?item" "s' = remember ?item s3" using assms Pair Planned iq call Created wait Inr by (auto simp: fly_Create_def sbind_def Let_def)
        moreover have "last bs \<in> set bs" "fly_success (last bs) \<noteq> None" using ended Inr by auto
        ultimately show ?thesis using sent verb made s3 q
          by (intro exI [of _ "map (Pair ?r) as @ map (Pair q) bs"])
             (simp add: remember_def update_conv' bex_Un ball_Un, rule exI [of _ m], auto)
      qed
    qed
  qed
qed

lemma delete_never_missing:
  assumes "fly_do ou cfg ctx operation i r decode none left attempt s = (Inl e, s')" and "fr_Method r = ''DELETE''"
  shows "\<not> errors_Is e SbErrNotFound"
  using assms(1)
proof (induction left arbitrary: attempt s)
  case 0
  then show ?case using assms(2)
    by (subst (asm) fly_do.simps) (auto simp: NewError_def split: prod.splits FlyAnswer.splits option.splits if_splits sum.splits)
next
  case (Suc left)
  show ?case using Suc.prems assms(2)
    by (subst (asm) fly_do.simps)
       (auto simp: NewError_def dest: Suc.IH split: prod.splits FlyAnswer.splits option.splits if_splits sum.splits)
qed

definition deleted :: "'w Outer \<Rightarrow> FlyConfig \<Rightarrow> (FlyRequest \<times> FlyAnswer) list \<Rightarrow> Machine \<Rightarrow> bool" where
  "deleted ou cfg sent m \<longleftrightarrow> (\<exists>a. (delete_request ou cfg m, a) \<in> set sent \<and> (fly_success a \<noteq> None \<or> fly_gone ''DELETE'' a))"

lemma deleted_mono: "deleted ou cfg sent m \<Longrightarrow> deleted ou cfg (before @ sent) m"
  by (auto simp: deleted_def)

lemma fly_delete_all_trace:
  assumes "fly_delete_all ou cfg i ms s = (Inr (), s')"
  shows "\<exists>sent. kn_sent s' = kn_sent s @ sent \<and> kn_known s' = kn_known s
    \<and> (\<forall>m \<in> set ms. deleted ou cfg sent m)"
  using assms
proof (induction ms arbitrary: s)
  case (Cons m ms)
  obtain res s1 where del: "fly_delete ou cfg CallerCtx i (mc_ID m) s = (res, s1)" by (metis surj_pair)
  have "\<not> errors_Is e SbErrNotFound" if "res = Inl e" for e
    using delete_never_missing del that by (fastforce simp: fly_delete_def fly_call_def)
  with Cons.prems del have ok: "res = Inr ()" and rest: "fly_delete_all ou cfg i ms s1 = (Inr (), s')" by (auto split: sum.splits if_splits)
  from fly_delete_trace [OF del] ok obtain as where as: "kn_sent s1 = kn_sent s @ map (Pair (delete_request ou cfg m)) as" "kn_known s1 = kn_known s" "last as \<in> set as"
    "answered (\<lambda>_. Inr ()) () ''DELETE'' (last as) ()" by (auto simp: call_trace_def)
  from Cons.IH [OF rest] obtain sent where "kn_sent s' = kn_sent s1 @ sent" "kn_known s' = kn_known s1"
    "\<forall>m \<in> set ms. deleted ou cfg sent m" by blast
  moreover have "deleted ou cfg (map (Pair (delete_request ou cfg m)) as @ sent) m"
    using as(3,4) unfolding deleted_def by (intro exI [of _ "last as"]) (auto simp: answered_def split: option.splits)
  ultimately show ?case using as by (intro exI [of _ "map (Pair (delete_request ou cfg m)) as @ sent"]) (auto intro: deleted_mono)
qed simp

text \<open>
  A termination that succeeds deleted every machine of the sandbox: each one that the listing named was answered as deleted
  or as gone already, and a sandbox the adapter knew is remembered as terminated.
\<close>

theorem fly_terminate_complete:
  assumes "fly_Terminate ou cfg i s = (Inr (), s')"
  shows "\<exists>machines sent. kn_sent s' = kn_sent s @ sent
    \<and> (\<exists>(r, a) \<in> set sent. fr_Method r = ''GET'' \<and> answered (ou_machines ou) [] ''GET'' a machines)
    \<and> (\<forall>m \<in> set machines. deleted ou cfg sent m)
    \<and> map_of (kn_known s') i = map_option (\<lambda>item. item\<lparr>ps_State := ''terminated''\<rparr>) (map_of (kn_known s) i)"
proof -
  from assms obtain machines s1 s2 where l: "listManaged ou cfg i s = (Inr machines, s1)" and d: "fly_delete_all ou cfg i machines s1 = (Inr (), s2)"
    and s': "s' = forget_running i s2"
    by (auto simp: fly_Terminate_def sbind_def split: prod.splits sum.splits)
  from fly_call_trace [OF l [unfolded listManaged_def]] obtain r as where as: "kn_sent s1 = kn_sent s @ map (Pair r) as" "kn_known s1 = kn_known s" "last as \<in> set as"
    "fr_Method r = ''GET''" "answered (ou_machines ou) [] ''GET'' (last as) machines" by (auto simp: call_trace_def fly_request_def)
  from fly_delete_all_trace [OF d] obtain sent where "kn_sent s2 = kn_sent s1 @ sent" "kn_known s2 = kn_known s1"
    "\<forall>m \<in> set machines. deleted ou cfg sent m" by blast
  with as s' show ?thesis
    by (intro exI [of _ machines] exI [of _ "map (Pair r) as @ sent"]) (auto simp: forget_running_def update_conv' bex_Un intro: deleted_mono split: option.split)
qed

section \<open>The identity of a Docker worker\<close>

lemma hex_digit_ok: "n < 16 \<Longrightarrow> is_hex (hex_digit n) \<and> hex_digit n \<noteq> CHR ''-''"
proof (cases "n < 10")
  case True
  then have "of_char (hex_digit n) = 48 + n" by (simp add: hex_digit_def)
  with True show ?thesis by (auto simp: is_hex_def is_digit_def digit_value_def)
next
  case False
  assume "n < 16"
  with False have c: "of_char (hex_digit n) = 87 + n" by (simp add: hex_digit_def)
  with False \<open>n < 16\<close> have "CHR ''a'' \<le> hex_digit n" "hex_digit n \<le> CHR ''f''" by (simp_all add: less_eq_char_def)
  with c show ?thesis by (auto simp: is_hex_def)
qed

lemma hex_chars: "c \<in> set (hex_EncodeToString bs) \<Longrightarrow> is_hex c \<and> c \<noteq> CHR ''-''"
proof -
  have "of_char b div 16 < (16 :: nat)" "of_char b mod 16 < (16 :: nat)" for b :: char
    by (simp_all add: div_less_iff_less_mult)
  then show "c \<in> set (hex_EncodeToString bs) \<Longrightarrow> ?thesis" by (auto simp: hex_EncodeToString_def hex_digit_ok)
qed

lemma hex_length: "length (hex_EncodeToString bs) = 2 * length bs"
  by (induction bs) (auto simp: hex_EncodeToString_def)

lemma uuid_form_valid:
  assumes len: "length hex = 32" and ok: "\<And>c. c \<in> set hex \<Longrightarrow> is_hex c \<and> c \<noteq> CHR ''-''"
  shows "validInstanceUUID (uuid_form hex)"
proof -
  have part: "filter (\<lambda>c. c \<noteq> CHR ''-'') xs = xs" "list_all is_hex xs" if "set xs \<subseteq> set hex" for xs
    using that ok by (auto simp: filter_id_conv list_all_iff)
  have sub: "set (take m (drop n hex)) \<subseteq> set hex" "set (take m hex) \<subseteq> set hex" "set (drop n hex) \<subseteq> set hex" for m n
    by (meson order_trans set_take_subset set_drop_subset)+
  have "filter (\<lambda>c. c \<noteq> CHR ''-'') (uuid_form hex) = take 8 hex @ take 4 (drop 8 hex) @ take 4 (drop 12 hex) @ take 4 (drop 16 hex) @ drop 20 hex"
    unfolding uuid_form_def using part sub by simp
  moreover have "list_all is_hex (take 8 hex @ take 4 (drop 8 hex) @ take 4 (drop 12 hex) @ take 4 (drop 16 hex) @ drop 20 hex)"
    using part sub by simp
  ultimately show ?thesis unfolding validInstanceUUID_def Let_def using len by (simp add: uuid_form_def nth_append)
qed

text \<open>
  A worker that Docker starts has an identity the server accepts: the instance identifier passed to the
  container is a UUID in the form that the registration demands.
\<close>

lemma docker_instance_valid:
  assumes "length (sha256 i) = 32"
  shows "validInstanceUUID (docker_instanceID sha256 i)"
  using assms hex_chars unfolding docker_instanceID_def Let_def by (intro uuid_form_valid) (auto simp: hex_length)

section \<open>What an adapter reports of its sandboxes\<close>

text \<open>
  The identity of a sandbox lives in the metadata of its machine and in the labels of its container alone: a control plane that
  restarted, and remembers nothing, reads back the identifier, the worker, the labels and the capabilities that the creation wrote.
\<close>

theorem adapters_report_what_they_created:
  assumes "\<And>c old. ou_readCaps ou (ou_caps ou c) old = c" and "\<And>l. ou_readLabels ou (ou_labels ou l) [] = l" and "i \<noteq> ''''" and "sp_WorkerID spec \<noteq> ''''"
  shows "mc_Metadata m = fly_metadata ou spec i @ expires \<Longrightarrow> mc_State m = ''started'' \<Longrightarrow>
      (let item = fromMachine ou m in ps_ID item = i \<and> ps_WorkerID item = sp_WorkerID spec \<and> ps_Labels item = sp_Labels spec
        \<and> ps_Capabilities item = sp_Capabilities spec \<and> ps_State item = ''running'')"
    and "dk_Labels k = docker_labels ou spec i stamp \<Longrightarrow> do_Status (dk_State k) = ''running'' \<Longrightarrow> \<not> do_Dead (dk_State k) \<Longrightarrow> \<not> do_OOMKilled (dk_State k)
      \<Longrightarrow> do_Error (dk_State k) = '''' \<Longrightarrow>
      (let item = sandboxFromContainer ou k zero_PSandbox in ps_ID item = i \<and> ps_WorkerID item = sp_WorkerID spec \<and> ps_Labels item = sp_Labels spec
        \<and> ps_Capabilities item = sp_Capabilities spec \<and> ps_State item = ''running'')"
  using assms
  by (simp_all add: Let_def fromMachine_def fly_metadata_def fly_state_def get_str_def sandboxFromContainer_def docker_labels_def normalizeState_def zero_PSandbox_def)

section \<open>A concrete service\<close>

text \<open>A service that creates the machine and then has no answer to the wait.\<close>

definition demo_machine :: Machine where
  "demo_machine = zero_Machine\<lparr>mc_ID := ''m1'', mc_Metadata := [(''smart-route-sandbox-id'', ''b'')]\<rparr>"

definition demo_outer :: "nat Outer" where
  "demo_outer = \<lparr>ou_rand = (\<lambda>n w. (Inr ''r'', w)), ou_now = (\<lambda>w. (1, w)), ou_Getenv = (\<lambda>_. ''t''), ou_ParseDuration = (\<lambda>_. Inl ''''),
     ou_Parse = (\<lambda>s. Some \<lparr>url_Scheme = ''https'', url_Host = s\<rparr>), ou_ParseRequestURI = (\<lambda>s. Some \<lparr>url_Scheme = ''https'', url_Host = s\<rparr>),
     ou_PathEscape = (\<lambda>s. s), ou_quote = (\<lambda>s. s), ou_StatusText = (\<lambda>_. ''''), ou_caps = (\<lambda>_. ''''), ou_labels = (\<lambda>_. ''''),
     ou_readCaps = (\<lambda>_ c. c), ou_readLabels = (\<lambda>_ l. l), ou_formatTime = (\<lambda>_. ''''), ou_parseTime = (\<lambda>_. None), ou_createBody = fq_Name,
     ou_machine = (\<lambda>_. Inr demo_machine), ou_machines = (\<lambda>_. Inr [demo_machine]), ou_container = Inl,
     ou_Do = (\<lambda>_ r w. (if fr_Method r = ''GET'' then NoAnswer ''timeout'' else Answered \<lparr>ha_Status = 200, ha_ContentType = '''', ha_Body = ''{}'', ha_BodyErr = None\<rparr>, w + 1)),
     ou_Sleep = (\<lambda>_ _ w. (None, w)), ou_deadline = (\<lambda>w. w > 2), ou_Run = (\<lambda>_ _ w. (('''', None), w)), ou_sha256 = (\<lambda>_. replicate 32 (CHR ''x''))\<rparr>"

definition demo_fly :: FlyConfig where
  "demo_fly = \<lparr>fc_App = ''app'', fc_Token = ''t'', fc_TokenEnv = '''', fc_APIURL = ''https://f'', fc_Image = ''worker:1'', fc_RequestTimeout = second,
     fc_StartupTimeout = second, fc_MaxRetries = 1, fc_RetryBackoff = second\<rparr>"

theorem fly_create_accounted_witness:
  "\<exists>s' e. fly_Create demo_outer demo_fly demo_spec \<lparr>kn_known = [], kn_world = 0, kn_sent = [], kn_ran = []\<rparr> = (Inl e, s') \<and> fly_error e
     \<and> delete_request demo_outer demo_fly demo_machine \<in> fst ` set (kn_sent s')"
proof -
  let ?s = "\<lparr>kn_known = [], kn_world = 0 :: nat, kn_sent = [], kn_ran = []\<rparr>"
  let ?m = "fly_Create demo_outer demo_fly demo_spec ?s"
  have failed: "case fst ?m of Inl _ \<Rightarrow> True | Inr _ \<Rightarrow> False" by code_simp
  have posted: "case kn_sent (snd ?m) of (r, a) # _ \<Rightarrow> fr_Method r = ''POST'' \<and> fly_success a = Some ''{}'' | [] \<Rightarrow> False" by code_simp
  obtain res s' where m: "?m = (res, s')" by (metis surj_pair)
  then obtain e where e: "res = Inl e" using failed by (cases res) auto
  from posted m obtain r a where "(r, a) \<in> set (kn_sent s')" "fr_Method r = ''POST''" "fly_success a = Some ''{}''" by (auto split: list.splits)
  moreover have "ou_machine demo_outer ''{}'' = Inr demo_machine" by (simp add: demo_outer_def)
  ultimately have "(r, a) \<in> set (kn_sent s')" "fr_Method r = ''POST''" "answered (ou_machine demo_outer) zero_Machine ''POST'' a demo_machine"
    by (simp_all add: answered_def)
  with fly_create_accounted [OF m] e m show ?thesis by auto
qed

end
