(* ===== verification/SR_App.thy ===== *)
theory SR_App
  imports SR_Config SR_Cloud
begin

text \<open>
  The rest of \<^verbatim>\<open>internal/app/app.go\<close>: the factories of the two adapters, the check of a deployment (\<^verbatim>\<open>Doctor\<close>) and the life of the
  process (\<^verbatim>\<open>Run\<close>), in which the startup passes come before everything else.
\<close>

section \<open>Providers\<close>

definition providerFactories :: "'w Outer \<Rightarrow> (string \<times> (strmap \<Rightarrow> SbError + 'w Cloud Provider)) list" where
  "providerFactories ou =
    [(''localdocker'', \<lambda>values. rbind (docker_Factory values) (\<lambda>cfg. Inr (docker_provider ou cfg))),
     (''fly'', \<lambda>values. rbind (fly_Factory ou values) (\<lambda>cfg. Inr (fly_provider ou cfg)))]"

section \<open>The check of a deployment\<close>

datatype DoctorError = DoctorInvalid "complaint list" | DoctorDatabase string | DoctorRegistry SbError | DoctorProvider string SbError | DoctorSecret string string

fun list_providers :: "'v Registry \<Rightarrow> ('v \<Rightarrow> Filter \<Rightarrow> 'p \<Rightarrow> (SbError + PSandbox list) \<times> 'p) \<Rightarrow> string list \<Rightarrow> (DoctorError, unit, 'p) pass" where
  "list_providers r ls [] p = (Inr (), p)"
| "list_providers r ls (name # names) p =
    (case Registry_Get r name of
       Inl _ \<Rightarrow> list_providers r ls names p
     | Inr provider \<Rightarrow>
         (case ls provider no_filter p of
            (Inl e, p) \<Rightarrow> (Inl (DoctorProvider name e), p)
          | (Inr _, p) \<Rightarrow> list_providers r ls names p))"

fun check_secrets :: "string list \<Rightarrow> (string \<times> string \<times> string) list \<Rightarrow> DoctorError + unit" where
  "check_secrets environ [] = Inr ()"
| "check_secrets environ ((ref, key, variable) # rest) =
    (if LookupEnv environ variable = None then Inl (DoctorSecret ref key) else check_secrets environ rest)"

text \<open>\<open>opened\<close> is the error of opening the database; the secrets are visited in the order of the lists.\<close>

definition Doctor :: "Decoders \<Rightarrow> string list \<Rightarrow> string option \<Rightarrow> (string \<times> (strmap \<Rightarrow> SbError + 'p Provider)) list \<Rightarrow> Config \<Rightarrow> (DoctorError, unit, 'p) pass" where
  "Doctor de environ opened factories c p =
    (let complaints = Validate de environ c in
     if complaints \<noteq> [] then (Inl (DoctorInvalid complaints), p)
     else case opened of
       Some e \<Rightarrow> (Inl (DoctorDatabase e), p)
     | None \<Rightarrow>
         (case NewRegistry (cf_Providers c) factories of
            Inl e \<Rightarrow> (Inl (DoctorRegistry e), p)
          | Inr r \<Rightarrow> sbind (list_providers r pv_List (Registry_Names r) p) (\<lambda>_ p.
              (check_secrets environ (concat (map (\<lambda>(ref, names). map (\<lambda>(key, variable). (ref, key, variable)) names) (cf_Secrets c))), p))))"

section \<open>The life of the process\<close>

text \<open>What a goroutine of the group returns.\<close>

datatype Ret = RetNil | RetCanceled | RetServerClosed | RetErr string

fun controller_ret :: "Ret \<Rightarrow> string option" where
  "controller_ret (RetErr e) = Some e"
| "controller_ret RetServerClosed = Some ''http: Server closed''"
| "controller_ret _ = None"

fun server_ret :: "Ret \<Rightarrow> string option" where
  "server_ret (RetErr e) = Some e"
| "server_ret RetCanceled = Some ''context canceled''"
| "server_ret _ = None"

text \<open>The group reports the first error in the order its members returned.\<close>

fun group_error :: "string option list \<Rightarrow> string option" where
  "group_error [] = None"
| "group_error (Some e # rs) = Some e"
| "group_error (None # rs) = group_error rs"

fun startup_passes :: "('e, unit, 's) pass list \<Rightarrow> ('e, unit, 's) pass" where
  "startup_passes [] s = (Inr (), s)"
| "startup_passes (run # runs) s = sbind (run s) (\<lambda>_. startup_passes runs)"

text \<open>
  \<open>members\<close> is everything that runs after the startup: it gets the state the startup left and gives what the members of the
  group returned, in order. The errors of the group and of closing the database are joined.
\<close>

definition app_Run :: "('e, unit, 's) pass list \<Rightarrow> ('s \<Rightarrow> string option list \<times> 's) \<Rightarrow> ('s \<Rightarrow> string option) \<Rightarrow> 's \<Rightarrow> ('e + string list) \<times> 's" where
  "app_Run startup members shut s =
    (case startup_passes startup s of
       (Inl e, s) \<Rightarrow> (Inl e, s)
     | (Inr _, s) \<Rightarrow> (case members s of (rets, s) \<Rightarrow>
         (Inr (List.map_filter (\<lambda>x. x) [group_error rets, shut s]), s)))"

section \<open>A deployment that passes the check starts\<close>

lemma registry_names: "NewRegistry ps factories = Inr r \<Longrightarrow> map fst r = map fst ps"
proof (induction ps arbitrary: r)
  case (Cons np ps)
  obtain name entry where np: "np = (name, entry)" by (cases np)
  from Cons.prems obtain provider r' where "NewRegistry ps factories = Inr r'" "r = (name, provider) # r'"
    by (auto simp: np rbind_def split: if_splits option.splits sum.splits)
  with Cons.IH np show ?case by simp
qed simp

lemma list_providers_ok:
  assumes "list_providers r ls names p = (Inr (), p')" and "name \<in> set names" and "Registry_Get r name = Inr provider"
  shows "\<exists>q q' items. ls provider no_filter q = (Inr items, q')"
  using assms(1,2)
proof (induction names arbitrary: p)
  case (Cons n ns)
  show ?case
  proof (cases "n = name")
    case True
    with Cons.prems(1) assms(3) show ?thesis by (auto split: prod.splits sum.splits)
  next
    case False
    with Cons.prems have "name \<in> set ns" by simp
    moreover obtain p1 where "list_providers r ls ns p1 = (Inr (), p')"
      using Cons.prems(1) by (auto split: prod.splits sum.splits)
    ultimately show ?thesis using Cons.IH by blast
  qed
qed simp

text \<open>
  A deployment that passes the check starts: with application checkpoints, if \<^verbatim>\<open>doctor\<close> finds nothing then the wiring succeeds,
  the autoscaler accepts the pools, and every pool's provider is registered and answered a listing.
\<close>

theorem doctor_accepts_what_starts:
  assumes "Doctor de environ opened factories c p = (Inr (), p')" and "\<forall>u. de_Parse de '''' = Some u \<longrightarrow> url_Scheme u = ''''"
    and "cr_Strategy (cf_Recovery c) = ''application''"
  shows "\<exists>app. Build environ opened factories files art c = Inr app \<and> validatePools (app_pools app) = Inr ()
    \<and> (\<forall>pool \<in> set (app_pools app). \<exists>provider q q' items. Registry_Get (app_registry app) (po_Provider pool) = Inr provider
        \<and> pv_List provider no_filter q = (Inr items, q'))"
proof -
  from assms(1) obtain r p1 where v: "Validate de environ c = []" and o: "opened = None" and r: "NewRegistry (cf_Providers c) factories = Inr r"
    and l: "list_providers r pv_List (Registry_Names r) p = (Inr (), p1)"
    by (auto simp: Doctor_def Let_def sbind_def split: if_splits option.splits sum.splits prod.splits)
  from v have checks: "concat (map validate_provider (cf_Providers c)) = []" "validate_pool_settings c 0 [] (cf_Pools c) = []"
      "\<not> bad_url (de_Parse de (ch_PublicURL (cf_HTTP c)))"
    unfolding Validate_def Let_def append_is_Nil_conv complain_Nil need_positive_Nil by auto
  have url: "ch_PublicURL (cf_HTTP c) \<noteq> ''''" using checks(3) assms(2) by (auto simp: bad_url_def split: option.splits)
  note pools = valid_pools [OF checks(2,1) url]
  have names: "map fst r = map fst (cf_Providers c)" using r by (rule registry_names)
  have "\<exists>provider q q' items. Registry_Get r (po_Provider pool) = Inr provider \<and> pv_List provider no_filter q = (Inr items, q')"
    if "pool \<in> set (map (build_pool c) (cf_Pools c))" for pool
  proof -
    from that pools have "po_Provider pool \<in> fst ` set (cf_Providers c)" by (auto simp: build_pool_def Let_def)
    then have known: "po_Provider pool \<in> set (map fst r)" using names by (metis list.set_map)
    then obtain provider where g: "Registry_Get r (po_Provider pool) = Inr provider" using registry_has by blast
    have "po_Provider pool \<in> set (Registry_Names r)" using known by (simp add: Registry_Names_def)
    from list_providers_ok [OF l this g] g show ?thesis by blast
  qed
  with r o pools assms(3) show ?thesis by (auto simp: Build_def Let_def validatePools_def)
qed

definition demo_factories :: "(string \<times> (strmap \<Rightarrow> SbError + FakeProvider Provider)) list" where
  "demo_factories = [(''localdocker'', \<lambda>_. Inr (fake_provider background 0)), (''fly'', \<lambda>_. Inr (fake_provider background 0))]"

theorem doctor_accepts_what_starts_witness:
  "\<forall>files art. \<exists>p' app. Doctor demo_decoders [] None demo_factories demo_config fake_New = (Inr (), p')
     \<and> Build [] None demo_factories files art demo_config = Inr app \<and> validatePools (app_pools app) = Inr ()"
proof (intro allI)
  fix files art
  let ?m = "Doctor demo_decoders [] None demo_factories demo_config fake_New"
  have "case fst ?m of Inr _ \<Rightarrow> True | Inl _ \<Rightarrow> False" by code_simp
  then obtain p' where m: "?m = (Inr (), p')" by (cases ?m; cases "fst ?m") auto
  have "\<forall>u. de_Parse demo_decoders '''' = Some u \<longrightarrow> url_Scheme u = ''''" "cr_Strategy (cf_Recovery demo_config) = ''application''"
    by (simp_all add: demo_decoders_def demo_config_def Default_def)
  from doctor_accepts_what_starts [OF m this, of files art] m
  show "\<exists>p' app. ?m = (Inr (), p') \<and> Build [] None demo_factories files art demo_config = Inr app \<and> validatePools (app_pools app) = Inr ()" by blast
qed

end
