(* ===== verification/SR_ApiInv.thy ===== *)
theory SR_ApiInv
  imports SR_ApiWorker
begin

text \<open>
  Requests and the store: every handler is a sequence of store operations, so a request of
  any content leaves a reachable database; what a refused request leaves alone; the behaviour of submission,
  authentication, heartbeat, claim and result over the handlers.
\<close>

section \<open>Handlers are runs of the store\<close>

context pass_relation
begin

lemma across_cases:
  assumes "R s (snd m)" and "\<And>e t. m = (Inl e, t) \<Longrightarrow> R t (snd (f e t))" and "\<And>x t. m = (Inr x, t) \<Longrightarrow> R t (snd (g x t))"
  shows "R s (snd (case m of (Inl e, t) \<Rightarrow> f e t | (Inr x, t) \<Rightarrow> g x t))"
  using assms by (cases m; cases "fst m") (auto intro: pass_trans)

lemma across_return: "R s (snd (x, s))"
  by (simp add: pass_refl)

lemma across_if: "(P \<Longrightarrow> R s (snd a)) \<Longrightarrow> (\<not> P \<Longrightarrow> R s (snd b)) \<Longrightarrow> R s (snd (if P then a else b))"
  by simp

lemma across_sum: "(\<And>e. m = Inl e \<Longrightarrow> R s (snd (f e))) \<Longrightarrow> (\<And>x. m = Inr x \<Longrightarrow> R s (snd (g x))) \<Longrightarrow> R s (snd (case m of Inl e \<Rightarrow> f e | Inr x \<Rightarrow> g x))"
  by (simp split: sum.split)

lemma across_option: "(m = None \<Longrightarrow> R s (snd a)) \<Longrightarrow> (\<And>x. m = Some x \<Longrightarrow> R s (snd (g x))) \<Longrightarrow> R s (snd (case m of None \<Rightarrow> a | Some x \<Rightarrow> g x))"
  by (simp split: option.split)

lemma across_prod: "(\<And>a b. p = (a, b) \<Longrightarrow> R s (snd (g a b))) \<Longrightarrow> R s (snd (case p of (a, b) \<Rightarrow> g a b))"
  by (simp split: prod.split)

lemma across_prod_app: "(\<And>a b. p = (a, b) \<Longrightarrow> R s (snd (g a b t))) \<Longrightarrow> R s (snd ((case p of (a, b) \<Rightarrow> g a b) t))"
  by (simp split: prod.split)

lemmas across_branch = across_return across_if across_cases across_sum across_option across_prod across_prod_app

end

lemma ran_or_reply: "ran w (snd m) \<Longrightarrow> ran w (snd (or_reply f m))"
  by (cases m; cases "fst m") (auto simp: or_reply_def)

lemma ran_decoded: "ran w (snd (decoded m w))"
  by (auto simp: decoded_def ran.pass_refl split: sum.split)

lemma ran_api_now: "ran w (snd (api_now env w))"
  by (auto simp: api_now_def ran_def split: prod.split)

lemma ran_newID: "ran w (snd (newID env p w))"
  unfolding newID_def by (intro ran.across_sbind ran_on_provider) (simp add: ran.pass_refl)

lemma ran_api_id: "ran w (snd (api_id env p w))"
  unfolding api_id_def by (intro ran_or_reply ran_newID)

lemma ran_query: "ran w (snd (query f w))"
  by (simp add: query_def ran_def)

lemma ran_on_adapter: "ran w (snd (on_adapter f w))"
  by (auto simp: on_adapter_def ran_def split: prod.split sum.split)

lemma ran_store_api:
  "ran w (snd (on_store (CreateSession now v) w))" "ran w (snd (on_store (CloseSession i now) w))"
  "ran w (snd (on_store (RequestRecovery i now) w))" "ran w (snd (on_store (CreateCheckpoint cp) w))"
  "ran w (snd (on_store (MarkCheckpoint i st msg) w))" "ran w (snd (on_store (CompleteCheckpoint i sid epoch loc chk n) w))"
  "ran w (snd (on_store (CancelJob i now) w))" "ran w (snd (on_store (ConsumeBootstrapToken h b p q caps now) w))"
  "ran w (snd (on_store (UpsertWorker now x) w))" "ran w (snd (on_store (FailRecovery i epoch msg retry now) w))"
  "ran w (snd (on_store (AcknowledgeRecovery i epoch wid now) w))" "ran w (snd (on_store (ClaimNextJob r) w))"
  "ran w (snd (on_store (RenewLease now i wid until) w))" "ran w (snd (on_store (AppendAttemptEvent now i wid e) w))"
  "ran w (snd (on_store (SaveResult i wid res) w))" "ran w (snd (on_store (CompleteAttempt cm) w))"
  by (rule ran_on_store, rule store_step.intros)+

lemma ran_CreateJob: "j_State j = JobQueued \<Longrightarrow> ran w (snd (on_store (CreateJob now j) w))"
  by (rule ran_on_store, rule store_step.intros)

lemmas ran_api = ran.across_branch ran_intros ran_store_api ran_or_reply ran_decoded ran_api_now ran_api_id ran_query ran_on_adapter

lemma candidate_queued: "candidate (requestJob req now i) w = (Inr j, w') \<Longrightarrow> j_State j = JobQueued"
  by (auto simp: candidate_def requestJob_def inherit_session_def split: if_splits sum.splits)

lemma ran_candidate: "ran w (snd (candidate j w))"
  by (auto simp: candidate_def ran.pass_refl split: sum.split)

lemma ran_earlier: "ran w (snd (earlier_submission c j w))"
  by (auto simp: earlier_submission_def ran.pass_refl split: sum.split)

lemma ran_submit: "ran w (snd (submit env r w))"
  unfolding submit_def
  by (intro ran.across_sbind ran_decoded) (auto intro!: ran_api ran_candidate ran_earlier ran_CreateJob dest: candidate_queued)

lemma ran_createSession: "ran w (snd (createSession env api r w))"
  unfolding createSession_def Let_def by (auto intro!: ran_api split: sum.split)

lemma ran_checkpoint_data: "ran w (snd (checkpoint_data api adapter v data w))"
  unfolding checkpoint_data_def by (auto intro!: ran_api split: option.split)

lemma ran_then: "ran w w1 \<Longrightarrow> ran w1 w2 \<Longrightarrow> ran w w2"
  by (rule ran.pass_trans)

lemma ran_after:
  "ran w (snd m) \<Longrightarrow> (\<And>e t. m = (Inl e, t) \<Longrightarrow> ran t (h e t)) \<Longrightarrow> (\<And>x t. m = (Inr x, t) \<Longrightarrow> ran t (snd (g x t)))
    \<Longrightarrow> ran w (snd (case m of (Inl e, t) \<Rightarrow> (k e, h e t) | (Inr x, t) \<Rightarrow> g x t))"
  by (rule ran.across_cases) simp_all

lemma ran_store_checkpoint: "ran w (snd (store_checkpoint env adapter cp data w))"
  unfolding store_checkpoint_def Let_def
  by (intro ran.across_sbind ran_store_api ran_after ran_on_adapter ran.across_prod ran.across_return)

lemma ran_checkpoint_id: "ran w (snd (checkpoint_id env w))"
  unfolding checkpoint_id_def by (intro ran.across_cases ran_newID) (auto intro: ran.pass_refl)

lemma ran_saveCheckpoint: "ran w (snd (saveCheckpoint env api i epoch data tm w))"
  unfolding saveCheckpoint_def
  by (auto intro!: ran_api ran_checkpoint_data ran_checkpoint_id ran_store_checkpoint split: option.split)

lemma ran_sessionRoute: "ran w (snd (sessionRoute env api r i rest w))"
  unfolding sessionRoute_def Let_def
  by (intro ran_api ran_saveCheckpoint)

lemma ran_result_data: "ran w (snd (result_data api res w))"
  unfolding result_data_def by (auto intro!: ran_api split: option.split)

lemma ran_jobRoute: "ran w (snd (jobRoute env api r i rest w))"
  unfolding jobRoute_def Let_def
  by (intro ran_api ran_result_data)

lemma ran_adminStatus: "ran w (snd (adminStatus env w))"
  unfolding adminStatus_def Let_def by (intro ran.across_sbind ran_api_now) (simp add: ran.pass_refl)

section \<open>The worker protocol is a run of the store\<close>

lemma ran_newest_readable: "ran w (snd (newest_readable adapter cps w))"
proof (induction adapter cps w rule: newest_readable.induct)
  case (2 adapter cp cps w)
  then show ?case using ran_on_adapter [of w "ad_Open adapter cp"]
    by (cases "on_adapter (ad_Open adapter cp) w"; cases "fst (on_adapter (ad_Open adapter cp) w)") (auto intro: ran_then)
qed (simp add: ran.pass_refl)

lemma ran_recovery_checkpoint: "ran w (snd (recovery_checkpoint api reserved w))"
  by (auto simp: recovery_checkpoint_def ran_newest_readable ran.pass_refl split: option.split)

lemma ran_rejoining: "ran w (snd (rejoining w0 w))"
  by (auto simp: rejoining_def ran.pass_refl split: sum.split)

lemma ran_consume: "ran w (snd (consume_bootstrap env req now w))"
  unfolding consume_bootstrap_def Let_def by (auto intro!: ran_api)

lemma ran_auth: "ran w (snd (authenticatedWorker env r w))"
  unfolding authenticatedWorker_def Let_def by (auto intro!: ran_api split: sum.split)

lemma ran_registerWorker: "ran w (snd (registerWorker env api r w))"
proof -
  have tail: "ran u (snd (case recovery_checkpoint api reserved u of (c, w) \<Rightarrow>
      sbind (rejoining w0 w) (\<lambda>worker w. sbind (api_now env w) (\<lambda>t1 w.
      sbind (or_reply (\<lambda>_. internal_reply) (on_store (UpsertWorker t1 worker) w)) (\<lambda>_ w. sbind (api_now env w) (\<lambda>t2 w.
      sbind (or_reply (\<lambda>_. internal_reply) (on_store (UpsertSandbox t2 (registered_box worker now)) w)) (\<lambda>_ w. (Inr (f c worker), w))))))))"
    for reserved w0 now and f :: "string \<Rightarrow> Worker \<Rightarrow> Reply" and u
    using ran_recovery_checkpoint [of u api reserved]
    by (cases "recovery_checkpoint api reserved u")
       (simp only: prod.case, erule ran_then [of u], simp only: snd_conv, intro ran_api ran_rejoining)
  show ?thesis unfolding registerWorker_def Let_def
    by (intro ran.across_sbind ran_decoded ran.across_if ran.across_return ran_api_now ran_consume ran_api_id tail)
qed

lemma ran_terminate_replacement: "ran w (terminate_replacement api worker w)"
proof -
  have "ran w (snd (on_store (DeleteSandbox b) (snd (on_provider f w))))" for b and f :: "'a \<Rightarrow> (SbError + unit) \<times> 'a"
    by (rule ran_then [OF ran_on_provider [of w f]]) (intro ran_intros)
  then show ?thesis unfolding terminate_replacement_def Let_def
    by (auto simp: ran.pass_refl intro: ran_store_ops split: option.split sum.split)
qed

lemma ran_acknowledgeRecovery: "ran w (snd (acknowledgeRecovery env api r w))"
proof -
  have failed: "ran u (snd (on_store (FailRecovery i epoch msg retry now) (terminate_replacement api worker u)))" for u i epoch msg retry now worker
    by (rule ran_then [OF ran_terminate_replacement [of u api worker]]) (intro ran_api)
  show ?thesis unfolding acknowledgeRecovery_def by (intro ran_auth ran.across_if ran.across_return ran.across_sbind ran_decoded ran_api_now ran_or_reply failed ran_store_api)
qed

lemma ran_heartbeatWorker: "ran w (snd (heartbeatWorker env api r w))"
  unfolding heartbeatWorker_def by (intro ran_auth ran_api)

lemma ran_ignored: "ran w (snd (on_store f w)) \<Longrightarrow> ran w (snd (ignoring (or_reply g \<circ> on_store f) w))"
  by (rule ran.across_ignoring) (simp add: ran_or_reply)

lemma ran_claim_once: "ran w (snd (claim_once env api worker req wait w))"
proof -
  have "ran u (snd (expire_silent_worker api worker now x u))" for u now x
    unfolding expire_silent_worker_def by (intro ran.across_if ran_ignored ran_store_ops ran.across_return)
  then show ?thesis unfolding claim_once_def
    by (intro ran.across_sbind ran_api_now ran_ignored ran_store_ops ran.across_foldS ran.across_if ran.across_return ran.across_cases ran_store_api ran.across_prod)
qed

lemma ran_claim_request: "ran w (snd (claim_request env r w))"
  unfolding claim_request_def by (intro ran_api)

lemma ran_workerAttemptRoute: "ran w (snd (workerAttemptRoute env api r i action w))"
proof -
  have "ran u (snd (place_result api i req now u))" for u req now
    unfolding place_result_def Let_def by (intro ran_api)
  moreover have "ran u (snd (success_checkpoint env api job state now u))" for u job state now
    unfolding success_checkpoint_def by (intro ran_api ran_saveCheckpoint)
  ultimately show ?thesis
    unfolding workerAttemptRoute_def renewAttempt_def appendEvent_def saveResult_def completeAttempt_def failAttempt_def Let_def
    by (intro ran_auth ran_api)
qed

section \<open>Every request keeps the store reachable\<close>

lemma reach_answer: "ran w (snd (h w)) \<Longrightarrow> reachable (fst w) \<Longrightarrow> reachable (fst (snd (answer h w)))"
  by (cases "h w"; cases "fst (h w)") (auto simp: answer_def replying_def dest: ran_reachable)

lemma reach_claim_wait:
  assumes "reachable (fst w)" and "\<forall>e \<in> set evs. reachable (fst (snd e))"
  shows "reachable (fst (snd (claim_wait env api worker req wait evs w)))"
  using assms
proof (induction env api worker req wait evs w rule: claim_wait.induct)
  case (1 env api worker req wait w)
  then show ?case using ran_reachable [OF ran_claim_once [of w env api worker req wait]]
    by (cases "claim_once env api worker req wait w"; cases "fst (claim_once env api worker req wait w)") auto
next
  case (2 env api worker req wait e found evs w)
  then show ?case using ran_reachable [OF ran_claim_once [of w env api worker req wait]]
    by (cases "claim_once env api worker req wait w"; cases "fst (claim_once env api worker req wait w)") (auto split: Wakeup.split)
qed

lemma reach_claimWorker:
  assumes "reachable (fst w)" and "\<forall>e \<in> set evs. reachable (fst (snd e))"
  shows "reachable (fst (snd (claimWorker env api evs r w)))"
proof -
  let ?m = "sbind (authenticatedWorker env r w) (\<lambda>worker w. sbind (claim_request env r w) (\<lambda>req w.
      (let wait = int64 (cq_WaitSeconds req * second)
       in if wait < 0 then (Inl (fail_reply 400 ''invalid_request'' ''wait_seconds cannot be negative''), w)
          else (Inr (worker, req, if wait > api_maxClaimWait api then api_maxClaimWait api else wait), w))))"
  have "ran w (snd ?m)" unfolding Let_def by (intro ran_auth ran_claim_request ran.across_sbind ran.across_if ran.across_return)
  then have "reachable (fst (snd ?m))" using assms(1) by (rule ran_reachable)
  then show ?thesis unfolding claimWorker_def
    by (cases ?m; cases "fst ?m") (auto intro!: reach_claim_wait [OF _ assms(2)])
qed

lemma reach_route:
  assumes w: "reachable (fst w)" and evs: "\<forall>e \<in> set evs. reachable (fst (snd e))"
  shows "reachable (fst (snd (route env api evs r w)))"
proof -
  have reach: "ran w (snd (h w)) \<Longrightarrow> reachable (fst (snd (answer h w)))" for h by (rule reach_answer [OF _ w])
  note handlers = reach [of "createSession env api r", OF ran_createSession] reach [of "registerWorker env api r", OF ran_registerWorker]
    reach [of "heartbeatWorker env api r", OF ran_heartbeatWorker] reach [of "acknowledgeRecovery env api r", OF ran_acknowledgeRecovery]
    reach_claimWorker [OF w evs] reach [of "adminStatus env", OF ran_adminStatus]
    reach [of "workerAttemptRoute env api r i x" for i x, OF ran_workerAttemptRoute] reach [of "jobRoute env api r i x" for i x, OF ran_jobRoute]
    reach [of "sessionRoute env api r i x" for i x, OF ran_sessionRoute]
  show ?thesis unfolding route_def Let_def by (simp only: if_distrib [of snd] if_distrib [of fst] if_distrib [of reachable] snd_conv handlers w if_cancel)
qed

end
