(* ===== verification/SR_ApiProps.thy ===== *)
theory SR_ApiProps
  imports SR_ApiInv
begin

text \<open>
  Properties of the HTTP API over its handlers: the credentials without which a request leaves the database alone,
  idempotent submission, the results and checkpoints that come back as they were posted, the bookkeeping of a
  heartbeat and the end of a waiting claim.
\<close>

section \<open>Credentials\<close>

interpretation same_db: pass_relation "\<lambda>w w'. fst w' = fst w"
  by unfold_locales simp_all

lemma db_api_now [simp]: "fst (snd (api_now env w)) = fst w"
  by (auto simp: api_now_def split: prod.split)

lemma api_now_Inr: "api_now env w = (Inr (fst (ap_now env (snd w))), (fst w, snd (ap_now env (snd w))))"
  by (auto simp: api_now_def split: prod.split)

text \<open>The session a worker request authenticates with: known, with the token's digest, unexpired and not fenced.\<close>

definition request_worker_id :: "HttpRequest \<Rightarrow> string" where
  "request_worker_id r = (let i = get_str (hr_Header r) ''X-Smart-Route-Worker-ID'' in if i = '''' then get_str (hr_Header r) ''X-Worker-ID'' else i)"

definition live_session :: "'p ApiEnv \<Rightarrow> HttpRequest \<Rightarrow> 'p plane \<Rightarrow> Worker \<Rightarrow> bool" where
  "live_session env r w worker \<longleftrightarrow> worker \<in> set (db_workers (fst w)) \<and> w_ID worker = request_worker_id r
     \<and> (\<exists>token. get_str (hr_Header r) ''Authorization'' = bearer @ token \<and> hex_EncodeToString (ev_sha256 env token) = w_SessionTokenHash worker)
     \<and> fst (ap_now env (snd w)) < w_SessionExpiresAt worker \<and> w_ProtocolVersion worker = workerProtocolVersion \<and> session_fence worker (fst w)"

lemma has_prefix_append: "has_prefix s p \<Longrightarrow> s = p @ drop (length p) s"
  by (metis append_take_drop_id has_prefix_def)

lemma authenticated:
  assumes "authenticatedWorker env r w = (res, w')"
  shows "fst w' = fst w \<and> (\<forall>worker. res = Inr worker \<longrightarrow> live_session env r w worker)"
  using assms has_prefix_append [of "get_str (hr_Header r) ''Authorization''" bearer]
  unfolding authenticatedWorker_def Let_def request_worker_id_def [unfolded Let_def, symmetric]
  by (auto simp: live_session_def api_now_Inr sbind_def GetWorker_def mapped_def one_row_def split: if_splits sum.splits option.splits dest!: row_byD)

lemma unauthenticated_same:
  assumes "\<nexists>worker. live_session env r w worker"
  shows "fst (snd (sbind (authenticatedWorker env r w) k)) = fst w"
  using assms authenticated [of env r w] by (cases "authenticatedWorker env r w"; cases "fst (authenticatedWorker env r w)") (auto simp: sbind_def)

text \<open>The unused token a registration presents.\<close>

definition live_token :: "'p ApiEnv \<Rightarrow> HttpRequest \<Rightarrow> 'p plane \<Rightarrow> TokenRow \<Rightarrow> bool" where
  "live_token env r w t \<longleftrightarrow> t \<in> set (db_tokens (fst w)) \<and> t_ConsumedAt t = None \<and> fst (ap_now env (snd w)) < t_ExpiresAt t
     \<and> (\<exists>req. dc_Register (ap_codec env) 1048576 (hr_Body r) = Inr req \<and> t_TokenHash t = hex_EncodeToString (ev_sha256 env (rr_BootstrapToken req))
          \<and> t_SandboxID t = rr_SandboxID req \<and> t_SandboxProvider t = rr_SandboxProvider req \<and> t_Pool t = registration_pool req
          \<and> t_CapabilityHash t = capabilityHash env (rr_Capabilities req))"

lemma consume_refused:
  assumes "\<And>t. t \<in> set (db_tokens s) \<Longrightarrow> t_TokenHash t = h \<Longrightarrow> t_SandboxID t = b \<Longrightarrow> t_SandboxProvider t = p \<Longrightarrow> t_Pool t = q
      \<Longrightarrow> t_CapabilityHash t = c \<Longrightarrow> t_ConsumedAt t = None \<Longrightarrow> \<not> now < t_ExpiresAt t"
  shows "ConsumeBootstrapToken h b p q c now s = (Inl ErrNotFound, s)"
proof -
  let ?P = "\<lambda>t. t_TokenHash t = h \<and> t_SandboxID t = b \<and> t_SandboxProvider t = p \<and> t_Pool t = q \<and> t_CapabilityHash t = c
      \<and> t_ConsumedAt t = None \<and> t_ExpiresAt t > now"
  have none: "\<forall>t \<in> set (db_tokens s). \<not> ?P t" using assms by blast
  then have "rows_affected ?P (db_tokens s) = 0" by (auto simp: rows_affected_def filter_empty_conv)
  moreover have "upd_where ?P f (db_tokens s) = db_tokens s" for f unfolding upd_where_def by (rule map_idI) (use none in auto)
  then have "update_tokens ?P f s = s" for f by (simp add: update_tokens_def)
  ultimately show ?thesis by (simp add: ConsumeBootstrapToken_def Let_def)
qed

lemma unregistered_same:
  assumes "\<nexists>t. live_token env r w t"
  shows "fst (snd (registerWorker env api r w)) = fst w"
proof (cases "dc_Register (ap_codec env) 1048576 (hr_Body r)")
  case (Inr req)
  let ?now = "fst (ap_now env (snd w))" and ?x = "snd (ap_now env (snd w))"
  have "ConsumeBootstrapToken (hex_EncodeToString (ev_sha256 env (rr_BootstrapToken req))) (rr_SandboxID req) (rr_SandboxProvider req)
      (registration_pool req) (capabilityHash env (rr_Capabilities req)) ?now (fst w) = (Inl ErrNotFound, fst w)"
    by (rule consume_refused) (use assms Inr in \<open>auto simp: live_token_def\<close>)
  then have "\<exists>e. consume_bootstrap env req ?now (fst w, ?x) = (Inl e, (fst w, ?x))"
    by (auto simp: consume_bootstrap_def Let_def or_reply_def on_store_def)
  with Inr show ?thesis by (auto simp: registerWorker_def decoded_def api_now_Inr sbind_def)
qed (simp add: registerWorker_def decoded_def sbind_def)

section \<open>Routing of worker paths\<close>

lemma trim_worker:
  "\<exists>u. trim_slashes (''/v1/worker/'' @ rest) = ''v1/w'' @ u"
proof -
  have cut: "dropWhile (\<lambda>c. c = CHR ''/'') (ys @ x # xs) = (if \<forall>y \<in> set ys. y = CHR ''/'' then x # xs else dropWhile (\<lambda>c. c = CHR ''/'') ys @ x # xs)"
    if "x \<noteq> CHR ''/''" for x xs ys using that by (induction ys) auto
  have "dropWhile (\<lambda>c. c = CHR ''/'') (''/v1/worker/'' @ rest) = ''v1/worker/'' @ rest" by simp
  moreover have "rev (''v1/worker/'' @ rest) = (rev rest @ ''/rekro'') @ CHR ''w'' # rev ''v1/''" by simp
  ultimately have "rev (dropWhile (\<lambda>c. c = CHR ''/'') (rev (dropWhile (\<lambda>c. c = CHR ''/'') (''/v1/worker/'' @ rest))))
      = rev (dropWhile (\<lambda>c. c = CHR ''/'') (rev rest @ ''/rekro'') @ CHR ''w'' # rev ''v1/'')"
    using cut [of "CHR ''w''" "rev rest @ ''/rekro''" "rev ''v1/''"] by auto
  then show ?thesis by (simp add: trim_slashes_def Let_def)
qed

lemma split_worker:
  assumes "has_prefix p ''/v1/worker/''"
  shows "take 2 (split_slash (trim_slashes p)) \<noteq> [''v1'', ''jobs'']" "take 2 (split_slash (trim_slashes p)) \<noteq> [''v1'', ''sessions'']"
proof -
  obtain u where "trim_slashes p = ''v1/w'' @ u" using trim_worker has_prefix_append [OF assms] by metis
  then have "\<exists>q qs. split_slash (trim_slashes p) = ''v1'' # (CHR ''w'' # q) # qs"
    by (cases "split_slash u") simp_all
  then show "take 2 (split_slash (trim_slashes p)) \<noteq> [''v1'', ''jobs'']" "take 2 (split_slash (trim_slashes p)) \<noteq> [''v1'', ''sessions'']" by auto
qed

lemma answer_same: "fst (snd (h w)) = fst w \<Longrightarrow> fst (snd (answer h w)) = fst w"
  by (cases "h w"; cases "fst (h w)") (auto simp: answer_def replying_def)

lemma unauthenticated_claim: "\<nexists>worker. live_session env r w worker \<Longrightarrow> fst (snd (claimWorker env api evs r w)) = fst w"
  using authenticated [of env r w] unfolding claimWorker_def
  by (cases "authenticatedWorker env r w"; cases "fst (authenticatedWorker env r w)") (auto simp: sbind_def)

lemma worker_route_same:
  assumes path: "has_prefix (hr_Path r) ''/v1/worker/''"
    and no_session: "\<nexists>worker. live_session env r w worker" and no_token: "hr_Path r = ''/v1/worker/register'' \<Longrightarrow> \<nexists>t. live_token env r w t"
  shows "fst (snd (route env api evs r w)) = fst w"
proof -
  have "fst (snd (heartbeatWorker env api r w)) = fst w" "fst (snd (acknowledgeRecovery env api r w)) = fst w"
    "fst (snd (workerAttemptRoute env api r i a w)) = fst w" for i a
    unfolding heartbeatWorker_def acknowledgeRecovery_def workerAttemptRoute_def by (rule unauthenticated_same [OF no_session])+
  note same = answer_same [of "heartbeatWorker env api r", OF this(1)] answer_same [of "acknowledgeRecovery env api r", OF this(2)]
    answer_same [of "workerAttemptRoute env api r i a" for i a, OF this(3)] unauthenticated_claim [OF no_session]
  have register: "fst (snd (answer (registerWorker env api r) w)) = fst w" if "hr_Path r = ''/v1/worker/register''"
    using unregistered_same [OF no_token [OF that]] by (rule answer_same)
  have others: "hr_Path r \<noteq> ''/v1/sessions''" "hr_Path r \<noteq> ''/v1/admin/status''" using path by (auto simp: has_prefix_def)
  show ?thesis
    by (cases "hr_Method r = ''POST'' \<and> hr_Path r = ''/v1/worker/register''")
       (simp_all add: route_def Let_def others split_worker [OF path] same register if_distrib [of snd] if_distrib [of fst])
qed

text \<open>
  C25: a request under \<^verbatim>\<open>/v1/\<close> changes the database only with credentials: a public request needs the configured token; a
  registration needs an unused, unexpired bootstrap token minted for just this sandbox, provider, pool and
  capabilities; every other worker request needs a known worker's unexpired session token, of a supported
  protocol, whose session epoch has not been superseded.
\<close>

theorem store_changes_need_credentials:
  assumes "has_prefix (hr_Path r) ''/v1/''" and "fst (snd (serveHTTP env api evs r w)) \<noteq> fst w"
  shows "(public_path (hr_Path r) \<and> (\<forall>hash. api_publicTokenHash api = Some hash \<longrightarrow>
        (\<exists>token. token \<noteq> '''' \<and> ev_sha256 env token = hash \<and> get_str (hr_Header r) ''Authorization'' \<in> {token, bearer @ token})))
    \<or> (hr_Path r = ''/v1/worker/register'' \<and> (\<exists>t. live_token env r w t))
    \<or> (has_prefix (hr_Path r) ''/v1/worker/'' \<and> (\<exists>worker. live_session env r w worker))"
proof (cases "public_path (hr_Path r)")
  case True
  let ?h = "get_str (hr_Header r) ''Authorization''"
  have "\<not> public_refused env api r" using assms(2) by (auto simp: serveHTTP_def)
  then have "(let auth = (if has_prefix ?h bearer then drop (length bearer) ?h else ?h) in auth \<noteq> '''' \<and> ev_sha256 env auth = hash)"
    if "api_publicTokenHash api = Some hash" for hash using that True by (simp add: public_refused_def Let_def)
  moreover have "?h \<in> {(if has_prefix ?h bearer then drop (length bearer) ?h else ?h), bearer @ (if has_prefix ?h bearer then drop (length bearer) ?h else ?h)}"
    by (cases "has_prefix ?h bearer") (simp_all add: has_prefix_append [symmetric])
  ultimately have "\<exists>token. token \<noteq> '''' \<and> ev_sha256 env token = hash \<and> ?h \<in> {token, bearer @ token}" if "api_publicTokenHash api = Some hash" for hash
    using that unfolding Let_def by blast
  with True show ?thesis by blast
next
  case False
  with assms(1) have path: "has_prefix (hr_Path r) ''/v1/worker/''" by (simp add: public_path_def)
  then have "hr_Path r \<noteq> ''/v1/jobs''" by (auto simp: has_prefix_def)
  then have "fst (snd (serveHTTP env api evs r w)) \<in> {fst w, fst (snd (route env api evs r w))}"
    by (auto simp: serveHTTP_def split: prod.split)
  with assms(2) have "fst (snd (route env api evs r w)) \<noteq> fst w" by auto
  with worker_route_same [OF path, of env w api evs] path show ?thesis by blast
qed

section \<open>A concrete API\<close>

text \<open>
  An API over the file system of one machine with a public token, whose clock stands still; a body decodes to the one
  request of its kind that the examples post.
\<close>

definition demo_post :: SubmitJob where
  "demo_post = \<lparr>sj_IdempotencyKey = ''key'', sj_Kind = ''command'', sj_Payload = ''{}'',
     sj_Constraints = \<lparr>cn_Capabilities = [], cn_Labels = [], cn_Upstream = None, cn_Architecture = '''', cn_Region = '''', cn_ExecutorKind = '''',
       cn_PreferredRegion = '''', cn_PreferredSandbox = '''', cn_PreferredProvider = '''', cn_MaxCost = None\<rparr>,
     sj_TimeoutSeconds = 60, sj_Retry = \<lparr>rd_MaxAttempts = 0, rd_Backoff = 0, rd_MaxBackoff = 0, rd_MaxElapsed = 0\<rparr>,
     sj_SessionID = '''', sj_DependsOn = []\<rparr>"

definition demo_codec :: Codec where
  "demo_codec = \<lparr>dc_SubmitJob = (\<lambda>_ _. Inr demo_post), dc_CreateSession = (\<lambda>_ _. Inl ''''), dc_SaveCheckpoint = (\<lambda>_ b. Inr (b, 1)),
     dc_Register = (\<lambda>_ _. Inl ''''), dc_Ack = (\<lambda>_ _. Inl ''''),
     dc_Heartbeat = (\<lambda>_ _. Inr \<lparr>hb_ActiveAttempts = [''a-1''], hb_AvailableSlots = 1, hb_SandboxMetadata = [], hb_Health = [], hb_Upstreams = []\<rparr>),
     dc_Claim = (\<lambda>_ _. Inr \<lparr>cq_SandboxID = '''', cq_WaitSeconds = 5\<rparr>), dc_Renew = (\<lambda>_ _. Inr 0),
     dc_Event = (\<lambda>_ _. Inl ''''), dc_Result = (\<lambda>_ b. Inr \<lparr>rq_StatusCode = 0, rq_Data = b, rq_Metadata = []\<rparr>),
     dc_Complete = (\<lambda>_ b. Inr b), dc_Failure = (\<lambda>_ _. Inl ''''), dc_Upstream = (\<lambda>_. None), dc_String = (\<lambda>_. None),
     dc_valid = (\<lambda>_. True), dc_value = Some\<rparr>"

definition demo_api_env :: "FS ApiEnv" where
  "demo_api_env = \<lparr>ev_rand = (\<lambda>n p. (Inr (replicate 1 (CHR ''0'')), p)), ev_sha256 = take 1, ev_json = (\<lambda>_. ''{}''),
     ev_clock = (\<lambda>_. demo_epoch), ev_wall = demo_epoch, ap_now = (\<lambda>p. (demo_epoch + 2, p)), ap_codec = demo_codec, ap_text = (\<lambda>_. '''')\<rparr>"

definition local_artifacts :: "FsError + string \<Rightarrow> string \<Rightarrow> FS ArtifactStore" where
  "local_artifacts cwd d = \<lparr>ar_Put = artifact_Put cwd d, ar_Get = (\<lambda>key fs. (artifact_Get cwd d key fs, fs))\<rparr>"

definition demo_api :: "FS API" where
  "demo_api = api_New (take 1) rq_Jobs \<lparr>ac_RequestTimeout = 0, ac_HeartbeatInterval = 0, ac_LeaseDuration = 0, ac_WorkerTimeout = 0, ac_MaxClaimWait = 0,
     ac_BootstrapTokenTTL = 0, ac_WorkerSessionTTL = 0, ac_Scheduler = None, ac_ArtifactStore = Some (local_artifacts (Inr ''/w'') ''art''),
     ac_Pools = [''p''], ac_PublicAuthToken = ''token'', ac_RequireTLS = False, ac_InsecureLocalMode = False, ac_InlineResultBytes = 2,
     ac_MaxResultBytes = 9, ac_MaxEvents = 0, ac_CheckpointAdapter = Some (Filesystem (take 1) None ''/cp''), ac_CheckpointTTL = 0,
     ac_RecoveryBackoff = 0, ac_Providers = None\<rparr>"

definition demo_http :: "string \<Rightarrow> string \<Rightarrow> strmap \<Rightarrow> string \<Rightarrow> HttpRequest" where
  "demo_http verb path header body = \<lparr>hr_Method = verb, hr_Path = path, hr_TLS = False, hr_Peer = Remote, hr_Header = header, hr_Query = [],
     hr_ContentLength = int (length body), hr_Body = body\<rparr>"

text \<open>A worker with a session, and the same worker holding a lease.\<close>

definition demo_session_worker :: Worker where
  "demo_session_worker = demo_worker\<lparr>w_SessionTokenHash := ''73'', w_SessionExpiresAt := demo_epoch + 9, w_ProtocolVersion := ''1''\<rparr>"

definition demo_online :: DB where
  "demo_online = snd (UpsertSandbox demo_epoch demo_sandbox (snd (UpsertWorker demo_epoch demo_session_worker demo_two_jobs)))"

definition demo_working :: DB where
  "demo_working = snd (ClaimNextJob demo_claim demo_online)"

definition demo_credentials :: strmap where
  "demo_credentials = [(''X-Smart-Route-Worker-ID'', ''w''), (''Authorization'', ''Bearer secret'')]"

lemma demo_online_reachable: "reachable demo_online"
  unfolding demo_online_def by (rule reachable.step [OF reachable.step [OF demo_two_jobs_reachable store_step.UpsertWorker] store_step.UpsertSandbox])

lemma demo_working_reachable: "reachable demo_working"
  unfolding demo_working_def by (rule reachable.step [OF demo_online_reachable store_step.ClaimNextJob])

theorem store_changes_need_credentials_witness:
  "\<exists>worker. live_session demo_api_env (demo_http ''POST'' ''/v1/worker/heartbeat'' demo_credentials ''{}'') (demo_working, demo_fs) worker"
proof -
  let ?r = "demo_http ''POST'' ''/v1/worker/heartbeat'' demo_credentials ''{}''" and ?w = "(demo_working, demo_fs)"
  have "fst (snd (serveHTTP demo_api_env demo_api [] ?r ?w)) \<noteq> fst ?w" by code_simp
  moreover have "has_prefix (hr_Path ?r) ''/v1/''" "\<not> public_path (hr_Path ?r)" "hr_Path ?r \<noteq> ''/v1/worker/register''" by code_simp+
  ultimately show ?thesis using store_changes_need_credentials [of ?r demo_api_env demo_api "[]" ?w] by blast
qed

text \<open>
  The condition on the path is needed: a path that starts with two slashes is not subject to the token, and the router
  drops both. Without any credential a client cancels a job and reads its result.
\<close>

theorem double_slash_skips_token:
  "\<exists>j w'. serveHTTP demo_api_env demo_api [] (demo_http ''POST'' ''//v1/jobs/a/cancel'' [] '''') (demo_working, demo_fs)
     = ((Some (Response 200 (JobB j)), False), w') \<and> jd_ID j = ''a'' \<and> jd_State j = JobCanceled
     \<and> api_publicTokenHash demo_api = Some ''t''"
proof -
  let ?m = "serveHTTP demo_api_env demo_api [] (demo_http ''POST'' ''//v1/jobs/a/cancel'' [] '''') (demo_working, demo_fs)"
  have "case fst ?m of (Some (Response st (JobB j)), woke) \<Rightarrow> st = 200 \<and> \<not> woke \<and> jd_ID j = ''a'' \<and> jd_State j = JobCanceled | _ \<Rightarrow> False" by code_simp
  moreover have "api_publicTokenHash demo_api = Some ''t''" by code_simp
  moreover obtain reply woke w' where "?m = ((reply, woke), w')" by (metis surj_pair)
  ultimately show ?thesis by (cases reply; cases "the reply"; cases "case the reply of Response _ b \<Rightarrow> b | Dropped \<Rightarrow> NoContent") auto
qed

section \<open>Submission\<close>

lemma go_div_time:
  assumes "0 < ts" and "ts * second \<le> max_int64"
  shows "go_div (time_sub (now + int64 (ts * second)) now) second = ts"
proof -
  have "int64 (ts * second) = ts * second" using assms by (intro int64_id) (simp_all add: min_int64_def second_def)
  then show ?thesis using assms by (simp add: time_sub_def go_div_def second_def min_int64_def max_int64_def)
qed

lemma timeoutSeconds_request:
  assumes "sj_TimeoutSeconds req * second \<le> max_int64" and "0 \<le> sj_TimeoutSeconds req" and "0 < now"
  shows "timeoutSeconds (requestJob req now i) = sj_TimeoutSeconds req"
proof (cases "sj_TimeoutSeconds req = 0")
  case False
  with assms have pos: "0 < sj_TimeoutSeconds req" by simp
  have "int64 (sj_TimeoutSeconds req * second) = sj_TimeoutSeconds req * second" using pos assms(1) by (intro int64_id) (simp_all add: min_int64_def second_def)
  with pos assms(3) have "now + int64 (sj_TimeoutSeconds req * second) \<noteq> 0" by (simp add: second_def)
  with pos go_div_time [OF pos assms(1)] show ?thesis by (simp add: timeoutSeconds_def requestJob_def)
qed (simp add: timeoutSeconds_def requestJob_def)

lemma same_map_refl [simp]: "same_map m m"
  by (simp add: same_map_def list_all_iff)

lemma same_constraints_refl [simp]: "same_constraints c c"
  by (simp add: same_constraints_def)

text \<open>What two submissions of one request have in common, and what a stored job keeps of it.\<close>

definition same_request :: "('x JobCore_scheme) \<Rightarrow> ('y JobCore_scheme) \<Rightarrow> bool" where
  "same_request a b \<longleftrightarrow> j_IdempotencyKey a = j_IdempotencyKey b \<and> j_Kind a = j_Kind b \<and> j_Payload a = j_Payload b \<and> j_Constraints a = j_Constraints b
     \<and> j_RetryPolicy a = j_RetryPolicy b \<and> j_SessionID a = j_SessionID b \<and> j_DependsOn a = j_DependsOn b \<and> timeoutSeconds a = timeoutSeconds b"

lemma same_request_same: "same_request a b \<Longrightarrow> dc_value c (j_Payload b) \<noteq> None \<Longrightarrow> sameSubmission c a b"
  by (simp add: same_request_def sameSubmission_def)

lemma keeps_same_request: "keeps_job r r' \<Longrightarrow> same_request r j \<Longrightarrow> same_request r' j"
proof -
  assume k: "keeps_job r r'" and s: "same_request r j"
  then have "timeoutSeconds r' = timeoutSeconds r" by (simp add: keeps_job_def timeoutSeconds_def)
  with k s show ?thesis by (simp add: keeps_job_def same_request_def)
qed

lemma row_by_history:
  "(\<And>r. r \<in> set rows \<Longrightarrow> key (F r) = key r) \<Longrightarrow> row_by key k rows = Some r \<Longrightarrow> row_by key k (map F rows @ new) = Some (F r)"
  by (induction rows) (auto split: if_splits)

text \<open>The job stored under a key stays the job of the request it was stored for.\<close>

lemma stored_submission:
  assumes "reachable s" and "store_step\<^sup>*\<^sup>* s s'" and "row_by j_IdempotencyKey key (db_jobs s) = Some r" and "key \<noteq> ''''" and "same_request r j"
  shows "\<exists>old. GetJobByIdempotencyKey key s' = Inr old \<and> j_ID old = j_ID r \<and> same_request old j"
proof -
  from run_history [OF assms(2,1)] obtain F new where s': "reachable s'" "db_jobs s' = map F (db_jobs s) @ new"
    and keep: "\<And>x. x \<in> set (db_jobs s) \<Longrightarrow> keeps_job x (F x)" unfolding history_def by blast
  have r: "r \<in> set (db_jobs s)" using assms(3) by (auto dest: row_byD)
  have "row_by j_IdempotencyKey key (db_jobs s') = Some (F r)" unfolding s'(2)
    by (rule row_by_history [OF _ assms(3)]) (use keep in \<open>simp add: keeps_job_def\<close>)
  moreover have "distinct (map j_ID (db_jobs s'))" using reachable_leases(5) [OF s'(1)] by simp
  then have "row_by j_ID (j_ID (F r)) (db_jobs s') = Some (F r)" using r s'(2) by (intro row_by_Some) auto
  moreover have "same_request (F r) j" "j_ID (F r) = j_ID r" using keeps_same_request [OF keep [OF r] assms(5)] keep [OF r] by (auto simp: keeps_job_def)
  ultimately show ?thesis using assms(4)
    by (auto simp: GetJobByIdempotencyKey_Inr GetJob_def mapped_def one_row_def job_of_row_def same_request_def timeoutSeconds_def)
qed

lemma sbind_InrE:
  assumes "sbind m f = (Inr y, t)"
  obtains x s where "m = (Inr x, s)" "f x s = (Inr y, t)"
  using assms by (cases m; cases "fst m") (auto simp: sbind_def)

lemma or_reply_Inr: "or_reply f m = (Inr x, s) \<longleftrightarrow> m = (Inr x, s)"
  by (cases m; cases "fst m") (auto simp: or_reply_def)

lemma on_store_success: "on_store f w = (Inr x, w') \<longleftrightarrow> f (fst w) = (Inr x, fst w') \<and> snd w' = snd w"
  by (cases w; cases w'; cases "f (fst w)"; cases "fst (f (fst w))") (auto simp: on_store_def)

lemma api_id_db: "api_id env p w = (res, w') \<Longrightarrow> fst w' = fst w"
  using on_provider_simps [of "ev_rand env 16" w] unfolding api_id_def newID_def
  by (cases "on_provider (ev_rand env 16) w"; cases "fst (on_provider (ev_rand env 16) w)") (auto simp: sbind_def or_reply_def)

lemma api_id_cases: obtains (drawn) i x where "api_id env p w = (Inr i, (fst w, x))" | (panic) x where "api_id env p w = (Inl Dropped, (fst w, x))"
proof -
  obtain res s x where e: "api_id env p w = (res, (s, x))" by (metis surj_pair)
  with api_id_db [OF e] have "s = fst w" by simp
  moreover have "res = Inl e \<Longrightarrow> e = Dropped" for e using e unfolding api_id_def
    by (cases "newID env p w"; cases "fst (newID env p w)") (auto simp: or_reply_def)
  ultimately show thesis using e that by (cases res) auto
qed

lemma earlier_Inr: "earlier_submission c j w = (Inr u, w') \<longleftrightarrow> w' = w \<and> GetJobByIdempotencyKey (j_IdempotencyKey j) (fst w) = Inl ErrNotFound"
  by (auto simp: earlier_submission_def split: sum.splits if_splits)

lemma candidate_Inr:
  "candidate j w = (Inr j', w') \<longleftrightarrow> w' = w \<and> (if j_SessionID j = '''' then j' = j else \<exists>v. GetSession (j_SessionID j) (fst w) = Inr v \<and> j' = inherit_session v j)"
  by (auto simp: candidate_def split: sum.splits)

lemma inherit_session_keeps [simp]:
  "j_ID (inherit_session v j) = j_ID j" "j_IdempotencyKey (inherit_session v j) = j_IdempotencyKey j" "j_SessionID (inherit_session v j) = j_SessionID j"
  "j_CreatedAt (inherit_session v j) = j_CreatedAt j" "j_Payload (inherit_session v j) = j_Payload j"
  "timeoutSeconds (inherit_session v j) = timeoutSeconds j"
  by (simp_all add: inherit_session_def timeoutSeconds_def)

text \<open>What a created job comes from.\<close>

lemma submit_created:
  assumes "submit env r w = (Inr (Response 201 (JobB d), woke), w1)"
  shows "\<exists>req now i j created got. dc_SubmitJob (ap_codec env) 4194304 (hr_Body r) = Inr req \<and> valid_submission (ap_codec env) req
    \<and> now = fst (ap_now env (snd w)) \<and> fst (candidate (requestJob req now i) w) = Inr j \<and> GetJobByIdempotencyKey (j_IdempotencyKey j) (fst w) = Inl ErrNotFound
    \<and> CreateJob created j (fst w) = (Inr got, fst w1) \<and> d = jobDTO got"
proof -
  let ?now = "fst (ap_now env (snd w))" and ?x = "snd (ap_now env (snd w))"
  from assms obtain req where req: "dc_SubmitJob (ap_codec env) 4194304 (hr_Body r) = Inr req" "valid_submission (ap_codec env) req"
    unfolding submit_def by (auto elim!: sbind_InrE simp: decoded_def split: sum.splits if_splits)
  obtain i x where i: "api_id env ''job'' (fst w, ?x) = (Inr i, (fst w, x))"
    using assms req by (cases rule: api_id_cases [of env "''job''" "(fst w, ?x)"]) (auto simp: submit_def decoded_def api_now_Inr sbind_def)
  with assms req have "sbind (candidate (requestJob req ?now i) (fst w, x)) (\<lambda>j w. sbind (earlier_submission (ap_codec env) j w) (\<lambda>_ w.
      sbind (api_now env w) (\<lambda>created w. sbind (or_reply (submitError env) (on_store (CreateJob created j) w)) (\<lambda>got w.
          if j_ID got \<noteq> j_ID j \<and> \<not> sameSubmission (ap_codec env) got j then (Inl key_conflict, w)
          else (Inr (Response (if j_ID got \<noteq> j_ID j then 200 else 201) (JobB (jobDTO got)), j_ID got = j_ID j), w)))))
      = (Inr (Response 201 (JobB d), woke), w1)"
    by (simp add: submit_def decoded_def api_now_Inr sbind_def)
  then obtain j created got where j: "candidate (requestJob req ?now i) (fst w, x) = (Inr j, (fst w, x))"
    "GetJobByIdempotencyKey (j_IdempotencyKey j) (fst w) = Inl ErrNotFound" "CreateJob created j (fst w) = (Inr got, fst w1)" "d = jobDTO got"
    by (elim sbind_InrE) (auto simp: candidate_Inr earlier_Inr api_now_Inr or_reply_Inr on_store_success split: if_splits)
  then have "fst (candidate (requestJob req ?now i) w) = Inr j" by (simp add: candidate_def split: if_splits sum.splits)
  with req j show ?thesis by blast
qed

lemma request_twice:
  assumes "sj_TimeoutSeconds req * second \<le> max_int64" and "0 \<le> sj_TimeoutSeconds req" and "0 < now" and "0 < later"
  shows "same_request (requestJob req now i) (requestJob req later k)"
  using timeoutSeconds_request [OF assms(1,2), of now i] timeoutSeconds_request [OF assms(1,2), of later k] assms(3,4)
  by (simp add: same_request_def) (simp add: requestJob_def)

lemma inherit_twice:
  assumes "same_request a b" and "s_Capabilities v' = s_Capabilities v" "s_Labels v' = s_Labels v" "s_PreferredProvider v' = s_PreferredProvider v"
  shows "same_request (inherit_session v a) (inherit_session v' b)"
  using assms by (simp add: same_request_def) (simp add: inherit_session_def)

lemma same_request_trans: "same_request a b \<Longrightarrow> same_request b c \<Longrightarrow> same_request a c"
  by (simp add: same_request_def)

lemma created_row:
  assumes "CreateJob created j s = (Inr got, s')" and "GetJobByIdempotencyKey (j_IdempotencyKey j) s = Inl ErrNotFound"
    and "j_IdempotencyKey j \<noteq> ''''" and "j_Payload j \<noteq> ''''" and "j_CreatedAt j \<noteq> 0"
  shows "\<exists>r. row_by j_IdempotencyKey (j_IdempotencyKey j) (db_jobs s') = Some r \<and> j_ID r = j_ID got \<and> same_request r j"
proof (cases rule: CreateJob_cases [OF assms(1)])
  case 2
  let ?r = "row_of_job got"
  have keeps: "same_request ?r j" using 2(1) assms(4,5)
    by (auto simp: prepare_job_def Let_def row_of_job_def same_request_def timeoutSeconds_def split: if_splits)
  from insert_job_Inr [OF 2(2)] have "db_jobs s' = db_jobs s @ [?r]" "j_IdempotencyKey ?r \<noteq> '''' \<longrightarrow> j_IdempotencyKey ?r \<notin> j_IdempotencyKey ` set (db_jobs s)" by simp_all
  then have "row_by j_IdempotencyKey (j_IdempotencyKey j) (db_jobs s') = Some ?r"
    using keeps assms(3) row_by_None [of j_IdempotencyKey "j_IdempotencyKey j" "db_jobs s"] by (simp add: same_request_def row_by_append del: row_by_None)
  with keeps show ?thesis by (intro exI [of _ ?r]) (simp add: row_of_job_def)
qed (use assms(2) in simp)

text \<open>A later request that decodes to the same submission is the same submission again.\<close>

lemma candidate_again:
  assumes "reachable s" and "store_step\<^sup>*\<^sup>* s s'" and "fst (candidate (requestJob req now i) (s, x)) = Inr j" and "0 < now" and "0 < later"
    and "sj_TimeoutSeconds req * second \<le> max_int64" and "0 \<le> sj_TimeoutSeconds req"
  shows "\<exists>j'. candidate (requestJob req later k) (s', y) = (Inr j', (s', y)) \<and> same_request j j'"
proof (cases "sj_SessionID req = ''''")
  case True
  with assms(3) request_twice [OF assms(6,7,4,5)] show ?thesis by (auto simp: candidate_def requestJob_def)
next
  case False
  then have i: "j_SessionID (requestJob req t n) = sj_SessionID req" "sj_SessionID req \<noteq> ''''" for t n by (simp_all add: requestJob_def)
  with assms(3) obtain v where v: "GetSession (sj_SessionID req) s = Inr v" "j = inherit_session v (requestJob req now i)"
    by (auto simp: candidate_def split: sum.splits)
  then have vs: "v \<in> set (db_sessions s)" "s_ID v = sj_SessionID req" by (auto simp: GetSession_def mapped_def one_row_def split: option.splits dest: row_byD)
  from run_session [OF assms(1,2) vs(1)] obtain v' where v': "v' \<in> set (db_sessions s')" "session_effect v v'" by blast
  have "distinct (map s_ID (db_sessions s'))"
    using reachable_infra_keys [of s'] run_history [OF assms(2,1)] by (simp add: infra_keys_def)
  then have "row_by s_ID (s_ID v') (db_sessions s') = Some v'" using v'(1) by (rule row_by_Some)
  then have "GetSession (sj_SessionID req) s' = Inr v'" using vs(2) v'(2) by (simp add: GetSession_def mapped_def one_row_def session_effect_def)
  moreover have "same_request j (inherit_session v' (requestJob req later k))" unfolding v(2)
    using v'(2) by (intro inherit_twice request_twice assms) (simp_all add: session_effect_def)
  ultimately show ?thesis using i by (auto simp: candidate_def)
qed

lemma submit_later:
  assumes req: "dc_SubmitJob (ap_codec env) 4194304 (hr_Body r) = Inr req" "valid_submission (ap_codec env) req"
    and old: "GetJobByIdempotencyKey (sj_IdempotencyKey req) (fst w) = Inr old"
  obtains (panic) x where "submit env r w = (Inl Dropped, (fst w, x))"
    | (session) i e x where "candidate (requestJob req (fst (ap_now env (snd w))) i) (fst w, x) = (Inl e, (fst w, x))"
        "submit env r w = (Inl (fail_reply 400 ''invalid_request'' ''session not found''), (fst w, x))"
    | (answered) i j x where "candidate (requestJob req (fst (ap_now env (snd w))) i) (fst w, x) = (Inr j, (fst w, x))"
        "submit env r w = (Inl (if sameSubmission (ap_codec env) old j then Response 200 (JobB (jobDTO old)) else key_conflict), (fst w, x))"
proof (cases rule: api_id_cases [of env "''job''" "(fst w, snd (ap_now env (snd w)))"])
  case (drawn i x)
  note 1 = this
  let ?c = "candidate (requestJob req (fst (ap_now env (snd w))) i) (fst w, x)"
  show thesis
  proof (cases "fst ?c")
    case (Inl e)
    then have "?c = (Inl (fail_reply 400 ''invalid_request'' ''session not found''), (fst w, x))"
      by (auto simp: candidate_def requestJob_def split: if_splits sum.splits)
    with req 1 show thesis by (intro that(2) [of i x]) (simp_all add: submit_def decoded_def api_now_Inr sbind_def)
  next
    case (Inr j)
    then have c: "?c = (Inr j, (fst w, x))" by (auto simp: candidate_def split: if_splits sum.splits)
    then have "j_IdempotencyKey j = sj_IdempotencyKey req" by (auto simp: candidate_Inr requestJob_def split: if_splits)
    with req 1 old c show thesis by (intro that(3) [of i x j]) (simp_all add: submit_def decoded_def api_now_Inr sbind_def earlier_submission_def)
  qed
next
  case (panic x)
  with req show thesis by (intro that(1) [of x]) (simp add: submit_def decoded_def api_now_Inr sbind_def)
qed

text \<open>
  C27: a client may submit a job as often as it likes: once a submission has created a job, a later submission under the
  same idempotency key, at any later state of the store, never changes the database; the same request gets the same job back,
  and any other request under that key gets a conflict, or the error that its session does not exist. The only other outcome is a
  connection that is closed because no randomness is left.
\<close>

theorem submission_idempotent:
  assumes "reachable (fst w)" and "submit env r w = (Inr (Response 201 (JobB d), woke), w1)" and "store_step\<^sup>*\<^sup>* (fst w1) (fst w2)"
    and "dc_SubmitJob (ap_codec env) 4194304 (hr_Body r) = Inr req" and "sj_TimeoutSeconds req * second \<le> max_int64"
    and "dc_SubmitJob (ap_codec env) 4194304 (hr_Body r2) = Inr req2" and "valid_submission (ap_codec env) req2" and "sj_IdempotencyKey req2 = sj_IdempotencyKey req"
    and "\<And>x. 0 < fst (ap_now env x)" and "\<And>p. dc_valid (ap_codec env) p \<Longrightarrow> dc_value (ap_codec env) p \<noteq> None"
  shows "\<exists>reply x. submit env r2 w2 = (Inl reply, (fst w2, x)) \<and>
    (reply = Dropped \<or> (\<exists>d2. reply = Response 200 (JobB d2) \<and> jd_ID d2 = jd_ID d)
     \<or> req2 \<noteq> req \<and> (reply = key_conflict \<or> reply = fail_reply 400 ''invalid_request'' ''session not found''))"
proof -
  let ?now = "fst (ap_now env (snd w))" and ?c = "ap_codec env"
  from submit_created [OF assms(2)] assms(4) obtain i j created got where valid: "valid_submission ?c req"
    and j: "fst (candidate (requestJob req ?now i) w) = Inr j" "GetJobByIdempotencyKey (j_IdempotencyKey j) (fst w) = Inl ErrNotFound"
      "CreateJob created j (fst w) = (Inr got, fst w1)" "d = jobDTO got" by auto
  have keep: "j_IdempotencyKey j = sj_IdempotencyKey req" "j_Payload j = sj_Payload req" "j_CreatedAt j = ?now"
    using j(1) by (auto simp: candidate_def requestJob_def split: if_splits sum.splits)
  with valid assms(9) [of "snd w"] obtain row where row: "row_by j_IdempotencyKey (sj_IdempotencyKey req) (db_jobs (fst w1)) = Some row"
      "j_ID row = j_ID got" "same_request row j"
    using created_row [OF j(3,2)] by (auto simp: valid_submission_def)
  have step: "store_step (fst w) (fst w1)"
  proof -
    have "j_State j = JobQueued" using j(1) by (auto simp: candidate_def requestJob_def inherit_session_def split: if_splits sum.splits)
    from store_step.CreateJob [OF this, of "fst w" created] j(3) show ?thesis by simp
  qed
  then have w1: "reachable (fst w1)" "store_step\<^sup>*\<^sup>* (fst w) (fst w2)" using assms(1,3) by (auto intro: reachable.step)
  from stored_submission [OF w1(1) assms(3) row(1) _ row(3)] valid obtain old
    where old: "GetJobByIdempotencyKey (sj_IdempotencyKey req) (fst w2) = Inr old" "j_ID old = j_ID got" "same_request old j"
    using row(2) by (auto simp: valid_submission_def)
  have again: "\<exists>j'. candidate (requestJob req (fst (ap_now env (snd w2))) k) (fst w2, y) = (Inr j', (fst w2, y)) \<and> same_request j j'" for k y
    by (rule candidate_again [OF assms(1) w1(2), of _ ?now i "snd w"]) (use j(1) assms(5,9) valid in \<open>simp_all add: valid_submission_def\<close>)
  have id: "jd_ID (jobDTO old) = jd_ID d" using old(2) j(4) by (simp add: jobDTO_def)
  show ?thesis
  proof (cases rule: submit_later [OF assms(6,7), of w2 old])
    case (3 k e x)
    have "req2 \<noteq> req" using again [of k x] 3(1) by auto
    with 3(2) show ?thesis by blast
  next
    case (4 k j2 x)
    show ?thesis
    proof (cases "req2 = req")
      case True
      with again [of k x] 4(1) have "same_request j j2" by simp
      then have "same_request old j2" using old(3) by (auto intro: same_request_trans)
      moreover have "dc_value ?c (j_Payload j2) \<noteq> None"
        using True 4(1) assms(10) valid by (auto simp: candidate_Inr requestJob_def valid_submission_def split: if_splits)
      ultimately have "sameSubmission ?c old j2" by (rule same_request_same)
      with 4(2) id show ?thesis by auto
    qed (use 4(2) id in auto)
  qed (use old(1) assms(8) in auto)
qed

theorem submission_idempotent_witness:
  "\<exists>d d2 w1 x. submit demo_api_env (demo_http ''POST'' ''/v1/jobs'' [] ''{}'') (demo_online, demo_fs) = (Inr (Response 201 (JobB d), True), w1)
    \<and> submit demo_api_env (demo_http ''POST'' ''/v1/jobs'' [] ''{}'') w1 = (Inl (Response 200 (JobB d2)), (fst w1, x)) \<and> jd_ID d2 = jd_ID d"
proof -
  let ?r = "demo_http ''POST'' ''/v1/jobs'' [] ''{}''" and ?w = "(demo_online, demo_fs)"
  let ?m = "submit demo_api_env ?r ?w"
  have "case fst ?m of Inr (Response st (JobB d), woke) \<Rightarrow> st = 201 \<and> woke | _ \<Rightarrow> False" by code_simp
  moreover obtain res w1 where m: "?m = (res, w1)" by (metis surj_pair)
  ultimately obtain d where d: "?m = (Inr (Response 201 (JobB d), True), w1)"
    by (cases res; cases "projr res"; cases "fst (projr res)"; cases "case fst (projr res) of Response _ b \<Rightarrow> b | Dropped \<Rightarrow> NoContent") auto
  have post: "dc_SubmitJob (ap_codec demo_api_env) 4194304 (hr_Body ?r) = Inr demo_post" "valid_submission (ap_codec demo_api_env) demo_post"
    "sj_TimeoutSeconds demo_post * second \<le> max_int64" by code_simp+
  have "0 < fst (ap_now demo_api_env x)" "dc_value (ap_codec demo_api_env) p \<noteq> None" for x p
    by (simp_all add: demo_api_env_def demo_codec_def demo_epoch_def)
  with submission_idempotent [OF _ d rtranclp.rtrancl_refl post(1,3,1,2)] demo_online_reachable obtain reply x
    where "submit demo_api_env ?r w1 = (Inl reply, (fst w1, x))" "reply = Dropped \<or> (\<exists>d2. reply = Response 200 (JobB d2) \<and> jd_ID d2 = jd_ID d)" by auto
  moreover have "fst (submit demo_api_env ?r (snd ?m)) \<noteq> Inl Dropped" by code_simp
  ultimately show ?thesis using d by auto
qed


section \<open>Results\<close>

text \<open>What the API relies on of an artifact store.\<close>

locale artifact_store =
  fixes A :: "'p ArtifactStore"
  assumes put_get: "ar_Put A key data p = (Inr (), p') \<Longrightarrow> ar_Get A key p' = (Inr data, p')"
begin

lemma stored_result:
  assumes "api_artifacts api = Some A" and "place_result api i req now w = (Inr res, w1)"
  shows "fst w1 = fst w \<and> res_AttemptID res = i \<and> res_StatusCode res = rq_StatusCode req \<and> res_Metadata res = rq_Metadata req \<and> res_CreatedAt res = now
    \<and> (\<forall>res' w2. res_ArtifactKey res' = res_ArtifactKey res \<and> res_Data res' = res_Data res \<and> snd w2 = snd w1
        \<longrightarrow> result_data api res' w2 = (Inr (rq_Data req), w2))"
proof (cases "int (length (rq_Data req)) > api_inlineResultBytes api")
  case True
  with assms obtain p' where put: "ar_Put A (result_key i) (rq_Data req) (snd w) = (Inr (), p')"
    and res: "w1 = (fst w, p')" "res_ArtifactKey res = result_key i" "res_AttemptID res = i" "res_StatusCode res = rq_StatusCode req"
      "res_Metadata res = rq_Metadata req" "res_CreatedAt res = now"
    by (cases "ar_Put A (result_key i) (rq_Data req) (snd w)"; cases "fst (ar_Put A (result_key i) (rq_Data req) (snd w))")
       (auto simp: place_result_def Let_def on_adapter_def or_reply_def sbind_def split: if_splits prod.splits)
  then show ?thesis using assms(1) put_get [OF put] by (auto simp: result_data_def on_adapter_def or_reply_def result_key_def)
next
  case False
  with assms have "w1 = w" "res = \<lparr>res_JobID = '''', res_AttemptID = i, res_StatusCode = rq_StatusCode req, res_Data = rq_Data req, res_ArtifactKey = '''',
      res_Metadata = rq_Metadata req, res_CreatedAt = now\<rparr>" by (auto simp: place_result_def Let_def split: if_splits)
  then show ?thesis by (simp add: result_data_def)
qed

end

interpretation local_artifacts: artifact_store "local_artifacts cwd d" for cwd d
  by unfold_locales
     (auto simp: local_artifacts_def artifact_Put_def artifact_Get_def rbind_def os_read_def os_write_lookup split: sum.splits if_splits)

lemma upsert_result_get: "GetResult (res_JobID res) (upsert_result res s) = Inr res"
proof -
  have "row_by res_JobID (res_JobID res) (upd_where (\<lambda>x. res_JobID x = res_JobID res) (\<lambda>_. res) rows) = Some res"
    if "res_JobID res \<in> res_JobID ` set rows" for rows using that by (induction rows) (auto simp: upd_where_def)
  moreover have "row_by res_JobID (res_JobID res) (rows @ [res]) = Some res" if "res_JobID res \<notin> res_JobID ` set rows" for rows
    using that row_by_None [of res_JobID "res_JobID res" rows] by (simp add: row_by_append del: row_by_None)
  ultimately show ?thesis by (auto simp: GetResult_def upsert_result_def mapped_def one_row_def)
qed

lemma saved_result_row:
  assumes "SaveResult i wid res s = (Inr (), s')"
  shows "\<exists>a \<in> set (db_attempts s). at_ID a = i \<and> at_WorkerID a = wid \<and> AttemptActive (at_State a)
    \<and> s' = upsert_result (res\<lparr>res_JobID := at_JobID a, res_AttemptID := i\<rparr>) s"
  using assms
  by (auto simp: SaveResult_def SaveResult_tx_def commit0_def commit_def mapped_def one_row_def split: sum.splits option.splits if_splits dest!: owned_attemptD)

text \<open>
  C28: a result comes back as the worker posted it: once a worker's result was accepted, inline or through the artifact
  store, the attempt was an active one of that worker and reading the job's result returns the posted status, bytes and metadata.
\<close>

theorem result_roundtrip:
  assumes "api_artifacts api = Some (local_artifacts cwd d)" and "dc_Result (ap_codec env) 1048576 (hr_Body r) = Inr req"
    and "saveResult env api r i worker now w = (Inr reply, w1)" and "hr_Method r2 = ''GET''"
  shows "\<exists>a \<in> set (db_attempts (fst w)). at_ID a = i \<and> at_WorkerID a = w_ID worker \<and> AttemptActive (at_State a)
    \<and> jobRoute env api r2 (at_JobID a) [''result''] w1 = (Inr (Response 200 (ResultB \<lparr>rt_JobID = at_JobID a, rt_AttemptID = i,
        rt_StatusCode = rq_StatusCode req, rt_Data = rq_Data req, rt_Metadata = rq_Metadata req, rt_CreatedAt = now\<rparr>)), w1)"
proof -
  from assms(2,3) obtain res u where place: "place_result api i req now w = (Inr res, u)"
    and save: "SaveResult i (w_ID worker) res (fst u) = (Inr (), fst w1)" "snd w1 = snd u"
    unfolding saveResult_def by (elim sbind_InrE) (auto simp: decoded_def or_reply_Inr on_store_success)
  note placed = local_artifacts.stored_result [OF assms(1) place]
  from saved_result_row [OF save(1)] placed obtain a where a: "a \<in> set (db_attempts (fst w))" "at_ID a = i" "at_WorkerID a = w_ID worker" "AttemptActive (at_State a)"
    "fst w1 = upsert_result (res\<lparr>res_JobID := at_JobID a, res_AttemptID := i\<rparr>) (fst u)" by auto
  let ?res = "res\<lparr>res_JobID := at_JobID a, res_AttemptID := i\<rparr>"
  have "GetResult (at_JobID a) (fst w1) = Inr ?res" using upsert_result_get [of ?res "fst u"] a(5) by simp
  moreover have "query (GetResult (at_JobID a)) w1 = (Inr ?res, w1)" using calculation by (cases w1) (simp add: query_def on_store_def)
  moreover from placed have "\<And>res' w2. res_ArtifactKey res' = res_ArtifactKey res \<and> res_Data res' = res_Data res \<and> snd w2 = snd u
      \<Longrightarrow> result_data api res' w2 = (Inr (rq_Data req), w2)" by blast
  from this [of ?res w1] save(2) have "result_data api ?res w1 = (Inr (rq_Data req), w1)" by simp
  ultimately have "jobRoute env api r2 (at_JobID a) [''result''] w1 = (Inr (Response 200 (ResultB \<lparr>rt_JobID = at_JobID a, rt_AttemptID = i,
        rt_StatusCode = rq_StatusCode req, rt_Data = rq_Data req, rt_Metadata = rq_Metadata req, rt_CreatedAt = now\<rparr>)), w1)"
    using placed assms(4) by (simp add: jobRoute_def Let_def or_reply_def sbind_def)
  with a show ?thesis by blast
qed

lemma demo_result_saved:
  "\<exists>w1. saveResult demo_api_env demo_api (demo_http ''POST'' '''' [] ''abc'') ''a-1'' demo_session_worker (demo_epoch + 2) (demo_working, demo_fs)
     = (Inr (Response 202 (StatusB ''accepted'')), w1)"
proof -
  let ?m = "saveResult demo_api_env demo_api (demo_http ''POST'' '''' [] ''abc'') ''a-1'' demo_session_worker (demo_epoch + 2) (demo_working, demo_fs)"
  have "case fst ?m of Inr (Response st (StatusB x)) \<Rightarrow> st = 202 \<and> x = ''accepted'' | _ \<Rightarrow> False" by code_simp
  then have "fst ?m = Inr (Response 202 (StatusB ''accepted''))" by (auto split: sum.splits Reply.splits Body.splits)
  then show ?thesis by (metis prod.collapse)
qed

theorem result_roundtrip_witness:
  "\<exists>w1 w2 j. saveResult demo_api_env demo_api (demo_http ''POST'' '''' [] ''abc'') ''a-1'' demo_session_worker (demo_epoch + 2) (demo_working, demo_fs)
      = (Inr (Response 202 (StatusB ''accepted'')), w1)
    \<and> jobRoute demo_api_env demo_api (demo_http ''GET'' '''' [] '''') j [''result''] w1 = (Inr (Response 200 (ResultB \<lparr>rt_JobID = j, rt_AttemptID = ''a-1'',
        rt_StatusCode = 0, rt_Data = ''abc'', rt_Metadata = [], rt_CreatedAt = demo_epoch + 2\<rparr>)), w2)"
proof -
  from demo_result_saved obtain w1 where saved: "saveResult demo_api_env demo_api (demo_http ''POST'' '''' [] ''abc'') ''a-1'' demo_session_worker (demo_epoch + 2)
      (demo_working, demo_fs) = (Inr (Response 202 (StatusB ''accepted'')), w1)" by blast
  have "api_artifacts demo_api = Some (local_artifacts (Inr ''/w'') ''art'')" by (simp add: demo_api_def api_New_def Let_def)
  moreover have "dc_Result (ap_codec demo_api_env) 1048576 (hr_Body (demo_http ''POST'' '''' [] ''abc'')) = Inr \<lparr>rq_StatusCode = 0, rq_Data = ''abc'', rq_Metadata = []\<rparr>"
    by (simp add: demo_api_env_def demo_codec_def demo_http_def)
  moreover have "hr_Method (demo_http ''GET'' '''' [] '''') = ''GET''" by (simp add: demo_http_def)
  ultimately obtain j where "jobRoute demo_api_env demo_api (demo_http ''GET'' '''' [] '''') j [''result''] w1 = (Inr (Response 200 (ResultB \<lparr>rt_JobID = j, rt_AttemptID = ''a-1'',
        rt_StatusCode = 0, rt_Data = ''abc'', rt_Metadata = [], rt_CreatedAt = demo_epoch + 2\<rparr>)), w1)"
    by (auto dest!: result_roundtrip [OF _ _ saved])
  with saved show ?thesis by blast
qed

section \<open>Heartbeats\<close>

lemma upserted: "(if dup then (Inl e, s) else if known then (Inr (), a) else (Inr (), b)) = (Inr (), s') \<Longrightarrow> s' = (if known then a else b)"
  by (auto split: if_splits)

lemma UpsertWorker_get:
  assumes "UpsertWorker now x s = (Inr (), s')"
  shows "\<exists>seen reg. GetWorker (w_ID x) s' = Inr (x\<lparr>w_LastSeenAt := seen, w_RegisteredAt := reg\<rparr>)"
proof -
  define seen where "seen = (if w_LastSeenAt x = 0 then now else w_LastSeenAt x)"
  define z where "z = x\<lparr>w_LastSeenAt := seen, w_RegisteredAt := (if w_RegisteredAt x = 0 then seen else w_RegisteredAt x)\<rparr>"
  have z: "w_ID z = w_ID x" by (simp add: z_def)
  have *: "UpsertWorker now x s = (if w_InstanceID z \<noteq> '''' \<and> (\<exists>x \<in> set (db_workers s). w_InstanceID x = w_InstanceID z \<and> w_ID x \<noteq> w_ID z)
        then (Inl (ErrSQL UniqueViolation), s)
        else if w_ID z \<in> w_ID ` set (db_workers s)
        then (Inr (), update_workers (\<lambda>x. w_ID x = w_ID z) (\<lambda>x. z\<lparr>w_RegisteredAt := w_RegisteredAt x\<rparr>) s)
        else (Inr (), s\<lparr>db_workers := db_workers s @ [z]\<rparr>))"
    by (simp add: UpsertWorker_def Let_def z_def seen_def)
  have "\<exists>reg. row_by w_ID (w_ID z) (upd_where (\<lambda>y. w_ID y = w_ID z) (\<lambda>y. z\<lparr>w_RegisteredAt := w_RegisteredAt y\<rparr>) rows)
      = Some (z\<lparr>w_RegisteredAt := reg\<rparr>)" if "w_ID z \<in> w_ID ` set rows" for rows
    using that
  proof (induction rows)
    case (Cons y rows)
    show ?case
    proof (cases "w_ID y = w_ID z")
      case True
      then show ?thesis by (intro exI [of _ "w_RegisteredAt y"]) (simp add: upd_where_def)
    next
      case False
      with Cons have "w_ID z \<in> w_ID ` set rows" by auto
      from Cons.IH [OF this] False show ?thesis by (simp add: upd_where_def)
    qed
  qed simp
  moreover have "row_by w_ID (w_ID z) (rows @ [z]) = Some (z\<lparr>w_RegisteredAt := w_RegisteredAt z\<rparr>)" if "w_ID z \<notin> w_ID ` set rows" for rows
    using that row_by_None [of w_ID "w_ID z" rows] by (simp add: row_by_append del: row_by_None)
  moreover have "db_workers s' = (if w_ID z \<in> w_ID ` set (db_workers s)
      then upd_where (\<lambda>y. w_ID y = w_ID z) (\<lambda>y. z\<lparr>w_RegisteredAt := w_RegisteredAt y\<rparr>) (db_workers s) else db_workers s @ [z])"
    unfolding upserted [OF assms [unfolded *]] by (simp add: update_workers_def)
  ultimately have "\<exists>reg. row_by w_ID (w_ID z) (db_workers s') = Some (z\<lparr>w_RegisteredAt := reg\<rparr>)"
    by (cases "w_ID z \<in> w_ID ` set (db_workers s)") (simp_all only: if_True if_False, metis+)
  then obtain reg where "row_by w_ID (w_ID x) (db_workers s') = Some (x\<lparr>w_LastSeenAt := seen, w_RegisteredAt := reg\<rparr>)"
    unfolding z by (auto simp: z_def)
  then show ?thesis unfolding GetWorker_def mapped_def one_row_def by auto
qed

lemma getAttempt_InrD:
  "getAttempt i s = Inr a \<Longrightarrow> \<exists>r \<in> set (db_attempts s). at_ID r = i \<and> at_WorkerID r = at_WorkerID a \<and> at_State r = at_State a \<and> at_JobID r = at_JobID a"
  by (cases "row_by at_ID i (db_attempts s)") (auto simp: getAttempt_def mapped_def one_row_def rbind_def simp del: row_by_None dest!: row_byD)

lemma reported_sound:
  assumes "reported_attempts wid s is = Some (live, gone)"
  shows "set live \<union> set gone = set is
    \<and> (\<forall>i \<in> set live. \<exists>a \<in> set (db_attempts s). at_ID a = i \<and> at_WorkerID a = wid \<and> AttemptActive (at_State a))
    \<and> (\<forall>i \<in> set gone. \<exists>a \<in> set (db_attempts s). at_ID a = i \<and> at_WorkerID a = wid \<and> \<not> AttemptActive (at_State a)
      \<and> (\<exists>j. GetJob (at_JobID a) s = Inr j \<and> j_State j \<in> {JobCanceled, JobTimedOut, JobSessionLost}))"
  using assms
proof (induction "is" arbitrary: live gone)
  case (Cons i "is")
  from Cons.prems obtain a where a: "getAttempt i s = Inr a" "at_WorkerID a = wid" by (auto split: sum.splits if_splits)
  from getAttempt_InrD [OF a(1)] obtain r where r: "r \<in> set (db_attempts s)" "at_ID r = i" "at_WorkerID r = wid" "at_State r = at_State a"
    "at_JobID r = at_JobID a" using a(2) by auto
  show ?case
  proof (cases "AttemptActive (at_State a)")
    case True
    with Cons.prems a obtain live' where "reported_attempts wid s is = Some (live', gone)" "live = i # live'" by auto
    with Cons.IH [of live' gone] True r show ?thesis by auto
  next
    case False
    with Cons.prems a obtain gone' j where "reported_attempts wid s is = Some (live, gone')" "gone = i # gone'" "GetJob (at_JobID a) s = Inr j"
      "workerShouldCancel (j_State j)" by (auto split: sum.splits if_splits)
    with Cons.IH [of live gone'] False r show ?thesis unfolding workerShouldCancel_def by auto
  qed
qed simp



section \<open>Waiting claims\<close>

lemma claim_once_at_once: "wait = 0 \<Longrightarrow> \<exists>reply. fst (claim_once env api worker req wait w) = Inl reply"
  unfolding claim_once_def by (auto simp: sbind_def split: prod.split sum.split)

lemma foldS_Inr: "(\<And>x s. \<exists>s'. f x s = (Inr (), s')) \<Longrightarrow> \<exists>s'. foldS f xs s = (Inr (), s')"
proof (induction xs arbitrary: s)
  case (Cons x xs)
  obtain s' where "f x s = (Inr (), s')" using Cons.prems by blast
  with Cons.IH [OF Cons.prems, of s'] show ?case by (simp add: sbind_def)
qed simp

lemma sbind_not_Inl: "fst m \<noteq> Inl d \<Longrightarrow> (\<And>x s. fst (f x s) \<noteq> Inl d) \<Longrightarrow> fst (sbind m f) \<noteq> Inl d"
  by (cases m; cases "fst m") (auto simp: sbind_def)

lemma if_not_Inl: "fst a \<noteq> Inl d \<Longrightarrow> fst b \<noteq> Inl d \<Longrightarrow> fst (if c then a else b) \<noteq> Inl d"
  by simp

lemma sum_not_Inl: "(\<And>x. fst (f x) \<noteq> Inl d) \<Longrightarrow> (\<And>y. fst (g y) \<noteq> Inl d) \<Longrightarrow> fst (case z of Inl x \<Rightarrow> f x | Inr y \<Rightarrow> g y) \<noteq> Inl d"
  by (simp split: sum.split)

lemma claim_once_not_dropped: "fst (claim_once env api worker req wait w) \<noteq> Inl Dropped"
proof -
  have "fst (foldS (expire_silent_worker api worker now) xs u) \<noteq> Inl Dropped" for now xs u
  proof -
    have "\<exists>s'. foldS (expire_silent_worker api worker now) xs u = (Inr (), s')"
      by (rule foldS_Inr) (simp add: expire_silent_worker_def ignoring_def)
    then show ?thesis by auto
  qed
  then show ?thesis unfolding claim_once_def
    by (intro sbind_not_Inl)
       (auto simp: api_now_Inr ignoring_def fail_reply_def internal_reply_def split: prod.split sum.split)
qed

lemma claim_wait_ends:
  assumes "(\<exists>e found. (e, found) \<in> set evs \<and> e \<noteq> Woken) \<or> wait = 0"
  shows "\<exists>reply. fst (claim_wait env api worker req wait evs w) = Some reply \<and> (reply = Dropped \<longrightarrow> (\<exists>found. (RequestDone, found) \<in> set evs))"
  using assms
proof (induction evs arbitrary: w)
  case Nil
  then show ?case using claim_once_at_once [of wait env api worker req w] claim_once_not_dropped [of env api worker req wait w]
    by (auto split: prod.split sum.split)
next
  case (Cons x evs)
  obtain e found where x: "x = (e, found)" by (cases x)
  obtain res w1 where m: "claim_once env api worker req wait w = (res, w1)" by (metis surj_pair)
  show ?case
  proof (cases res)
    case (Inl reply)
    with m show ?thesis using claim_once_not_dropped [of env api worker req wait w] by (auto simp: x)
  next
    case (Inr u)
    with m claim_once_at_once [of wait env api worker req w] have "wait \<noteq> 0" by auto
    with Cons.prems have more: "(\<exists>e found. (e, found) \<in> set evs \<and> e \<noteq> Woken) \<or> wait = 0" if "e = Woken" using that by (auto simp: x)
    from Inr m Cons.IH [OF more, of found] show ?thesis by (cases e) (auto simp: x, metis surj_pair)
  qed
qed

lemma auth_not_dropped: "fst (authenticatedWorker env r w) \<noteq> Inl Dropped"
  unfolding authenticatedWorker_def Let_def fail_reply_def by (intro sbind_not_Inl if_not_Inl sum_not_Inl) (simp_all add: api_now_Inr)



end
