(* ===== verification/SR_Runtime.thy ===== *)
theory SR_Runtime
  imports SR_Executors
begin

text \<open>
  The worker runtime of \<^verbatim>\<open>internal/worker/runtime.go\<close>: the event sink with its retry buffer, the execution of a claimed
  attempt and its report, the claim, heartbeat and renewal loops, and registration with the restore of a recovered
  session.

  The control plane is a parameter over a state \<open>'c\<close>, the executors one over a state \<open>'p\<close>. Contexts are observed through
  what they cause: the error an execution sees, the ticks and ends a loop receives. The claim loop runs beside the
  executions it started: their interleavings are the steps of a relation.
\<close>

section \<open>The control plane a worker talks to\<close>

record WorkerClaim =
  wc_Job :: WorkerJob
  wc_AttemptID :: string
  wc_LeaseTill :: time

record Registration =
  rn_WorkerID :: string
  rn_Token :: string
  rn_Heartbeat :: duration
  rn_Lease :: duration
  rn_Checkpoint :: string
  rn_RecoverySession :: string
  rn_RecoveryEpoch :: nat

record RegistrationRequest =
  rn_InstanceID :: string
  rn_SandboxID :: string
  rn_SandboxProvider :: string
  rn_Version :: string
  rn_BootstrapToken :: string
  rn_Capabilities :: Capabilities
  rn_MaxConcurrency :: int
  rn_SandboxMetadata :: strmap

type_synonym upstreams = "(string \<times> UpstreamState) list"

record 'c ControlPlane =
  ct_Register :: "RegistrationRequest \<Rightarrow> (string, Registration, 'c) pass"
  ct_AcknowledgeRecovery :: "string \<Rightarrow> nat \<Rightarrow> (string, unit, 'c) pass"
  ct_ReportRecoveryFailure :: "string \<Rightarrow> nat \<Rightarrow> string \<Rightarrow> (string, unit, 'c) pass"
  ct_Heartbeat :: "string list \<Rightarrow> int \<Rightarrow> strmap \<Rightarrow> upstreams \<Rightarrow> (string, string list, 'c) pass"
  ct_Claim :: "duration \<Rightarrow> (string, WorkerClaim option, 'c) pass"
  ct_Renew :: "string \<Rightarrow> (string, unit, 'c) pass"
  ct_Event :: "string \<Rightarrow> WorkerEvent \<Rightarrow> (string, unit, 'c) pass"
  ct_Complete :: "string \<Rightarrow> ExecResult \<Rightarrow> (string, unit, 'c) pass"
  ct_Fail :: "string \<Rightarrow> FailureError \<Rightarrow> (string, unit, 'c) pass"

section \<open>The event sink\<close>

definition redactMap :: "strmap \<Rightarrow> string list \<Rightarrow> strmap" where
  "redactMap values secrets = map (\<lambda>(k, v). (k, redact v secrets)) values"

definition redactResult :: "ExecResult \<Rightarrow> string list \<Rightarrow> ExecResult" where
  "redactResult r secrets = r\<lparr>er_Data := redact (er_Data r) secrets, er_Metadata := redactMap (er_Metadata r) secrets\<rparr>"

record attemptSink =
  sk_id :: string
  sk_secrets :: "string list"
  sk_sequence :: nat
  sk_pending :: "WorkerEvent list"
  sk_maxPending :: int

function flushLocked :: "'c ControlPlane \<Rightarrow> (string, unit, attemptSink \<times> 'c) pass" where
  "flushLocked ct (s, c) =
    (case sk_pending s of
       [] \<Rightarrow> (Inr (), (s, c))
     | e # es \<Rightarrow>
         (case ct_Event ct (sk_id s) e c of
            (Inl err, c) \<Rightarrow> (Inl err, (s, c))
          | (Inr _, c) \<Rightarrow> flushLocked ct (s\<lparr>sk_pending := es\<rparr>, c)))"
  by pat_completeness auto
termination by (relation "measure (\<lambda>(ct, s, c). length (sk_pending s))") auto

declare flushLocked.simps [simp del]

text \<open>The event with its number, its key and its data redacted.\<close>

definition stamp :: "attemptSink \<Rightarrow> WorkerEvent \<Rightarrow> WorkerEvent" where
  "stamp s e = e\<lparr>we_WorkerSequence := sk_sequence s, we_IdempotencyKey := sk_id s @ '':'' @ show_nat (sk_sequence s),
     we_Data := redactMap (we_Data e) (sk_secrets s)\<rparr>"

definition buffer_event :: "WorkerEvent \<Rightarrow> (string, unit, attemptSink \<times> 'c) pass" where
  "buffer_event e sc =
    (case sc of (s, c) \<Rightarrow>
       if int (length (sk_pending s)) \<ge> sk_maxPending s
       then (Inl (''worker: event retry buffer full ('' @ show_int (sk_maxPending s) @ '')''), (s, c))
       else (Inr (), (s\<lparr>sk_pending := sk_pending s @ [e]\<rparr>, c)))"

definition Emit :: "'c ControlPlane \<Rightarrow> WorkerEvent \<Rightarrow> (string, unit, attemptSink \<times> 'c) pass" where
  "Emit ct e0 sc =
    (let s = (fst sc)\<lparr>sk_sequence := Suc (sk_sequence (fst sc))\<rparr>; e = stamp s e0 in
     case flushLocked ct (s, snd sc) of
       (Inl _, sc) \<Rightarrow> buffer_event e sc
     | (Inr _, (s, c)) \<Rightarrow>
         (case ct_Event ct (sk_id s) e c of
            (Inl _, c) \<Rightarrow> buffer_event e (s, c)
          | (Inr _, c) \<Rightarrow> (Inr (), (s, c))))"

section \<open>Executing an attempt\<close>

text \<open>
  An executor is called with a job and a sink. Its state holds the sink and the control plane behind it on the left, what
  it works on itself on the right.
\<close>

type_synonym ('c, 'p) exec_state = "(attemptSink \<times> 'c) \<times> 'p"

record ('c, 'p) Executor =
  ex_Kind :: string
  ex_Execute :: "WorkerJob \<Rightarrow> ('c, 'p) exec_state sink \<Rightarrow> (WorkerError, ExecResult, ('c, 'p) exec_state) pass"

record ('c, 'p) RuntimeConfig =
  rt_Registration :: RegistrationRequest
  rt_Executors :: "(string \<times> ('c, 'p) Executor option) list"
  rt_ClaimWait :: duration
  rt_ShutdownTimeout :: duration
  rt_CancelOnShutdown :: bool
  rt_Secrets :: "string list"
  rt_EventRetryBuffer :: int
  rt_UpstreamHealth :: "upstreams option"
  rt_CheckpointExport :: "(string, string, 'p) pass option"
  rt_CheckpointRestore :: "(string \<Rightarrow> (string, unit, 'p) pass) option"

definition executor_error :: "string \<times> ('c, 'p) Executor option \<Rightarrow> string option" where
  "executor_error kx =
    (case snd kx of
       None \<Rightarrow> Some (''worker: executor '' @ [CHR 0x22] @ fst kx @ [CHR 0x22] @ '' has no kind'')
     | Some ex \<Rightarrow>
         if ex_Kind ex = '''' then Some (''worker: executor '' @ [CHR 0x22] @ fst kx @ [CHR 0x22] @ '' has no kind'')
         else if fst kx \<noteq> ex_Kind ex
         then Some (''worker: executor registry key '' @ [CHR 0x22] @ fst kx @ [CHR 0x22] @ '' does not match kind '' @ [CHR 0x22] @ ex_Kind ex @ [CHR 0x22])
         else None)"

definition runtime_New :: "'c ControlPlane option \<Rightarrow> ('c, 'p) RuntimeConfig \<Rightarrow> string + ('c, 'p) RuntimeConfig" where
  "runtime_New control cfg =
    (if Option.is_none control then Inl ''worker: control plane is required''
     else if rt_Executors cfg = [] then Inl ''worker: at least one executor is required''
     else case List.map_filter executor_error (rt_Executors cfg) of
       msg # _ \<Rightarrow> Inl msg
     | [] \<Rightarrow> Inr (cfg\<lparr>rt_Registration := (let r = rt_Registration cfg in if rn_MaxConcurrency r \<le> 0 then r\<lparr>rn_MaxConcurrency := 1\<rparr> else r),
         rt_ClaimWait := (if rt_ClaimWait cfg \<le> 0 then 20 * second else rt_ClaimWait cfg),
         rt_ShutdownTimeout := (if rt_ShutdownTimeout cfg \<le> 0 then 30 * second else rt_ShutdownTimeout cfg),
         rt_EventRetryBuffer := (if rt_EventRetryBuffer cfg \<le> 0 then 64 else rt_EventRetryBuffer cfg)\<rparr>))"

text \<open>\<open>ctx\<close> is the error of the attempt's context when the executor has returned.\<close>

definition classify :: "WorkerError \<Rightarrow> CtxErr option \<Rightarrow> FailureError" where
  "classify err ctx =
    (case err of
       FailureErr f \<Rightarrow> f
     | _ \<Rightarrow>
         if err = ErrTimeout \<or> ctx = Some DeadlineExceeded then \<lparr>fe_Code = ''timeout'', fe_Message = error_text err, fe_Class = FailureRetryable\<rparr>
         else if err = ErrCanceled \<or> ctx = Some ContextCanceled then \<lparr>fe_Code = ''canceled'', fe_Message = error_text err, fe_Class = FailureRetryable\<rparr>
         else \<lparr>fe_Code = ''executor_error'', fe_Message = error_text err, fe_Class = FailureRetryable\<rparr>)"

definition report_failure :: "'c ControlPlane \<Rightarrow> string list \<Rightarrow> string \<Rightarrow> FailureError \<Rightarrow> 'c \<Rightarrow> 'c" where
  "report_failure ct secrets i e c = snd (ct_Fail ct i (e\<lparr>fe_Message := redact (fe_Message e) secrets\<rparr>) c)"

definition retryable :: "string \<Rightarrow> string \<Rightarrow> FailureError" where
  "retryable code msg = \<lparr>fe_Code = code, fe_Message = msg, fe_Class = FailureRetryable\<rparr>"

text \<open>The report of an attempt that ran: flush the events, then complete.\<close>

definition deliver :: "'c ControlPlane \<Rightarrow> string list \<Rightarrow> string \<Rightarrow> ExecResult \<Rightarrow> attemptSink \<times> 'c \<Rightarrow> 'c" where
  "deliver ct secrets i result sc =
    (case flushLocked ct sc of
       (Inl err, (s, c)) \<Rightarrow> report_failure ct secrets i (retryable ''event_delivery_error'' err) c
     | (Inr _, (s, c)) \<Rightarrow>
         (case ct_Complete ct i result c of
            (Inl err, c) \<Rightarrow> report_failure ct secrets i (retryable ''result_error'' err) c
          | (Inr _, c) \<Rightarrow> c))"

definition new_sink :: "('c, 'p) RuntimeConfig \<Rightarrow> string \<Rightarrow> attemptSink" where
  "new_sink cfg i = \<lparr>sk_id = i, sk_secrets = rt_Secrets cfg, sk_sequence = 0, sk_pending = [], sk_maxPending = rt_EventRetryBuffer cfg\<rparr>"

definition sink_of :: "'c ControlPlane \<Rightarrow> ('c, 'p) exec_state sink" where
  "sink_of ct e q = (case Emit ct e (fst q) of (r, sc) \<Rightarrow> (r, (sc, snd q)))"

definition export_checkpoint :: "('c, 'p) RuntimeConfig \<Rightarrow> ExecResult \<Rightarrow> (string, ExecResult, 'p) pass" where
  "export_checkpoint cfg result p =
    (case rt_CheckpointExport cfg of
       None \<Rightarrow> (Inr result, p)
     | Some export \<Rightarrow> sbind (export p) (\<lambda>cp p. (Inr (result\<lparr>er_Checkpoint := cp\<rparr>), p)))"

definition execute :: "'c ControlPlane \<Rightarrow> ('c, 'p) RuntimeConfig \<Rightarrow> ('p \<Rightarrow> CtxErr option) \<Rightarrow> WorkerClaim \<Rightarrow> 'c \<times> 'p \<Rightarrow> 'c \<times> 'p" where
  "execute ct cfg ctx claim cp =
    (let i = wc_AttemptID claim; secrets = rt_Secrets cfg; kind = wj_Kind (wc_Job claim) in
     case map_of (rt_Executors cfg) kind of
       Some (Some ex) \<Rightarrow>
         (case ex_Execute ex (wc_Job claim) (sink_of ct) ((new_sink cfg i, fst cp), snd cp) of
            (Inl err, ((s, c), p)) \<Rightarrow> (report_failure ct secrets i (classify err (ctx p)) c, p)
          | (Inr result, ((s, c), p)) \<Rightarrow>
              (case export_checkpoint cfg (redactResult result secrets) p of
                 (Inl err, p) \<Rightarrow> (report_failure ct secrets i (retryable ''checkpoint_export_error'' err) c, p)
               | (Inr result, p) \<Rightarrow> (deliver ct secrets i result (s, c), p)))
     | _ \<Rightarrow> (report_failure ct secrets i \<lparr>fe_Code = ''unsupported_executor'', fe_Message = ''no executor configured for job kind '' @ kind,
         fe_Class = FailureNonRetryable\<rparr> (fst cp), snd cp))"

section \<open>Heartbeats and renewals\<close>

datatype LoopEvent = LoopTick | LoopDone

text \<open>The slots the runtime offers while the attempts \<open>ids\<close> are active.\<close>

definition slots :: "('c, 'p) RuntimeConfig \<Rightarrow> string list \<Rightarrow> int" where
  "slots cfg ids = rn_MaxConcurrency (rt_Registration cfg) - int (length ids)"

definition upstreamHealth :: "('c, 'p) RuntimeConfig \<Rightarrow> upstreams" where
  "upstreamHealth cfg = (case rt_UpstreamHealth cfg of None \<Rightarrow> [] | Some u \<Rightarrow> u)"

text \<open>
  Each round reports the attempts that are active then; it returns the attempts whose contexts are canceled. An error
  skips them, and the round is repeated after a delay. The second component of an event is what is active in the next round.
\<close>

definition cancelAttempts :: "string list \<Rightarrow> string list \<Rightarrow> string list" where
  "cancelAttempts running ids = filter (\<lambda>i. i \<in> set running) ids"

fun heartbeatLoop :: "'c ControlPlane \<Rightarrow> ('c, 'p) RuntimeConfig \<Rightarrow> string list \<Rightarrow> (LoopEvent \<times> string list) list \<Rightarrow> 'c \<Rightarrow> string list list \<times> 'c" where
  "heartbeatLoop ct cfg ids evs c =
    (case ct_Heartbeat ct ids (slots cfg ids) (rn_SandboxMetadata (rt_Registration cfg)) (upstreamHealth cfg) c of
       (res, c) \<Rightarrow>
         (let canceled = (case res of Inl _ \<Rightarrow> [] | Inr xs \<Rightarrow> cancelAttempts ids xs) in
          case evs of
            [] \<Rightarrow> ([canceled], c)
          | (LoopDone, _) # _ \<Rightarrow> ([canceled], c)
          | (LoopTick, ids') # evs \<Rightarrow> (case heartbeatLoop ct cfg ids' evs c of (later, c) \<Rightarrow> (canceled # later, c))))"

declare heartbeatLoop.simps [simp del]

definition renew_interval :: "duration \<Rightarrow> duration" where
  "renew_interval lease = (let d = lease div 2 in if d < second then second else d)"

fun renewLoop :: "'c ControlPlane \<Rightarrow> string \<Rightarrow> LoopEvent list \<Rightarrow> 'c \<Rightarrow> 'c" where
  "renewLoop ct i [] c = c"
| "renewLoop ct i (LoopDone # evs) c = c"
| "renewLoop ct i (LoopTick # evs) c =
    (case ct_Renew ct i c of (Inl _, c) \<Rightarrow> c | (Inr _, c) \<Rightarrow> renewLoop ct i evs c)"

section \<open>Registration and shutdown\<close>

definition or_default :: "duration \<Rightarrow> duration \<Rightarrow> duration" where
  "or_default d x = (if d \<le> 0 then x else d)"

definition restore_session :: "'c ControlPlane \<Rightarrow> ('c, 'p) RuntimeConfig \<Rightarrow> Registration \<Rightarrow> (string, unit, 'c \<times> 'p) pass" where
  "restore_session ct cfg reg cp =
    (if rn_Checkpoint reg = '''' then (Inr (), cp)
     else case rt_CheckpointRestore cfg of
       None \<Rightarrow> (Inl ''worker: recovery checkpoint received but restore is not configured'', cp)
     | Some restore \<Rightarrow>
         (case restore (rn_Checkpoint reg) (snd cp) of
            (Inr _, p) \<Rightarrow> (Inr (), (fst cp, p))
          | (Inl err, p) \<Rightarrow>
              (Inl (''restore checkpoint: '' @ err),
               (if rn_RecoverySession reg \<noteq> ''''
                then snd (ct_ReportRecoveryFailure ct (rn_RecoverySession reg) (rn_RecoveryEpoch reg) (redact err (rt_Secrets cfg)) (fst cp))
                else fst cp, p))))"

definition acknowledge_session :: "'c ControlPlane \<Rightarrow> Registration \<Rightarrow> (string, unit, 'c \<times> 'p) pass" where
  "acknowledge_session ct reg cp =
    (if rn_RecoverySession reg = '''' then (Inr (), cp)
     else case ct_AcknowledgeRecovery ct (rn_RecoverySession reg) (rn_RecoveryEpoch reg) (fst cp) of
       (Inl err, c) \<Rightarrow> (Inl (''acknowledge recovery: '' @ err), (c, snd cp))
     | (Inr _, c) \<Rightarrow> (Inr (), (c, snd cp)))"

text \<open>The part of \<^verbatim>\<open>Run\<close> before the loops; it returns the heartbeat interval and the lease.\<close>

definition Run_start :: "'c ControlPlane \<Rightarrow> ('c, 'p) RuntimeConfig \<Rightarrow> (string, duration \<times> duration, 'c \<times> 'p) pass" where
  "Run_start ct cfg cp =
    (case ct_Register ct (rt_Registration cfg) (fst cp) of
       (Inl err, c) \<Rightarrow> (Inl (''register: '' @ err), (c, snd cp))
     | (Inr reg, c) \<Rightarrow>
         sbind (restore_session ct cfg reg (c, snd cp)) (\<lambda>_ cp.
         sbind (acknowledge_session ct reg cp) (\<lambda>_ cp.
           (Inr (or_default (rn_Heartbeat reg) (10 * second), or_default (rn_Lease reg) (30 * second)), cp))))"

text \<open>The part after the loops, which both end without an error: a last heartbeat that reports no attempt.\<close>

definition Run_finish :: "'c ControlPlane \<Rightarrow> ('c, 'p) RuntimeConfig \<Rightarrow> 'c \<Rightarrow> 'c" where
  "Run_finish ct cfg c = snd (ct_Heartbeat ct [] (rn_MaxConcurrency (rt_Registration cfg)) (rn_SandboxMetadata (rt_Registration cfg)) (upstreamHealth cfg) c)"

section \<open>The claim loop beside its executions\<close>

text \<open>
  The keys of \<^verbatim>\<open>active\<close> and where the claim loop is: before the check of the free slots, inside the call of \<^verbatim>\<open>Claim\<close>, or
  ended. An execution removes its attempt when it is over, at any time.
\<close>

datatype ClaimPhase = Checking | Claiming | Ended

record RuntimeState =
  ru_active :: "string list"
  ru_phase :: ClaimPhase

definition runtime_init :: RuntimeState where
  "runtime_init = \<lparr>ru_active = [], ru_phase = Checking\<rparr>"

inductive runtime_step :: "('c, 'p) RuntimeConfig \<Rightarrow> RuntimeState \<Rightarrow> RuntimeState \<Rightarrow> bool" for cfg where
  full: "ru_phase s = Checking \<Longrightarrow> slots cfg (ru_active s) = 0 \<Longrightarrow> runtime_step cfg s s"
| free: "ru_phase s = Checking \<Longrightarrow> slots cfg (ru_active s) \<noteq> 0 \<Longrightarrow> runtime_step cfg s (s\<lparr>ru_phase := Claiming\<rparr>)"
| empty: "ru_phase s = Claiming \<Longrightarrow> runtime_step cfg s (s\<lparr>ru_phase := Checking\<rparr>)"
| claimed: "ru_phase s = Claiming \<Longrightarrow> runtime_step cfg s (s\<lparr>ru_phase := Checking, ru_active := List.insert i (ru_active s)\<rparr>)"
| finished: "i \<in> set (ru_active s) \<Longrightarrow> runtime_step cfg s (s\<lparr>ru_active := removeAll i (ru_active s)\<rparr>)"
| stopped: "runtime_step cfg s (s\<lparr>ru_phase := Ended\<rparr>)"

inductive_cases runtime_stepE: "runtime_step cfg s s'"

definition runtime_reachable :: "('c, 'p) RuntimeConfig \<Rightarrow> RuntimeState \<Rightarrow> bool" where
  "runtime_reachable cfg s \<longleftrightarrow> (runtime_step cfg)\<^sup>*\<^sup>* runtime_init s"

definition runtime_inv :: "('c, 'p) RuntimeConfig \<Rightarrow> RuntimeState \<Rightarrow> bool" where
  "runtime_inv cfg s \<longleftrightarrow> distinct (ru_active s) \<and> 0 \<le> slots cfg (ru_active s) \<and> (ru_phase s = Claiming \<longrightarrow> 0 < slots cfg (ru_active s))"

lemma runtime_step_inv: "runtime_step cfg s s' \<Longrightarrow> runtime_inv cfg s \<Longrightarrow> runtime_inv cfg s'"
proof (elim runtime_stepE)
  fix i assume "runtime_inv cfg s" "i \<in> set (ru_active s)" and s': "s' = s\<lparr>ru_active := removeAll i (ru_active s)\<rparr>"
  moreover define n where "n = length (removeAll i (ru_active s))"
  moreover have "n \<le> length (ru_active s)" by (simp add: n_def)
  ultimately show "runtime_inv cfg s'" by (auto simp: runtime_inv_def slots_def distinct_removeAll simp flip: n_def)
qed (auto simp: runtime_inv_def slots_def List.insert_def)

text \<open>
  C33: a worker never runs more attempts than it registered for: in every interleaving of its claim loop with the executions
  the active attempts are distinct and at most as many as the configured concurrency, so every heartbeat reports a
  number of free slots the server accepts, and a claim is only under way while a slot is free.
\<close>

theorem worker_concurrency_bounded:
  assumes "runtime_New control cfg0 = Inr cfg" and "runtime_reachable cfg s"
  shows "distinct (ru_active s) \<and> int (length (ru_active s)) \<le> rn_MaxConcurrency (rt_Registration cfg)
    \<and> 0 \<le> slots cfg (ru_active s) \<and> slots cfg (ru_active s) \<le> rn_MaxConcurrency (rt_Registration cfg)
    \<and> (ru_phase s = Claiming \<longrightarrow> 0 < slots cfg (ru_active s))"
proof -
  have "0 < rn_MaxConcurrency (rt_Registration cfg)"
    using assms(1) by (auto simp: runtime_New_def Let_def split: if_splits list.splits)
  then have "runtime_inv cfg runtime_init" by (simp add: runtime_inv_def runtime_init_def slots_def)
  with assms(2) have "runtime_inv cfg s" unfolding runtime_reachable_def
    by (induction rule: rtranclp_induct) (auto intro: runtime_step_inv)
  then show ?thesis by (simp add: runtime_inv_def slots_def)
qed

section \<open>What reaches the control plane\<close>

text \<open>A control plane that records the reports on attempts, with whether it took them.\<close>

datatype Call = EventC string WorkerEvent bool | CompleteC string ExecResult bool | FailC string FailureError bool

definition logged :: "(bool \<Rightarrow> Call) \<Rightarrow> ('e, 'a, 'c) pass \<Rightarrow> ('e, 'a, 'c \<times> Call list) pass" where
  "logged mk f cl = (case f (fst cl) of (r, c) \<Rightarrow> (r, (c, snd cl @ [mk (\<not> isl r)])))"

definition unlogged :: "('e, 'a, 'c) pass \<Rightarrow> ('e, 'a, 'c \<times> Call list) pass" where
  "unlogged f cl = (case f (fst cl) of (r, c) \<Rightarrow> (r, (c, snd cl)))"

definition recorded :: "'c ControlPlane \<Rightarrow> ('c \<times> Call list) ControlPlane" where
  "recorded ct = \<lparr>ct_Register = (\<lambda>r. unlogged (ct_Register ct r)), ct_AcknowledgeRecovery = (\<lambda>i n. unlogged (ct_AcknowledgeRecovery ct i n)),
     ct_ReportRecoveryFailure = (\<lambda>i n m. unlogged (ct_ReportRecoveryFailure ct i n m)),
     ct_Heartbeat = (\<lambda>a n m u. unlogged (ct_Heartbeat ct a n m u)), ct_Claim = (\<lambda>d. unlogged (ct_Claim ct d)), ct_Renew = (\<lambda>i. unlogged (ct_Renew ct i)),
     ct_Event = (\<lambda>i e. logged (EventC i e) (ct_Event ct i e)), ct_Complete = (\<lambda>i r. logged (CompleteC i r) (ct_Complete ct i r)),
     ct_Fail = (\<lambda>i f. logged (FailC i f) (ct_Fail ct i f))\<rparr>"

text \<open>The events that were taken, in order.\<close>

fun delivered :: "Call list \<Rightarrow> WorkerEvent list" where
  "delivered [] = []"
| "delivered (EventC i e True # cs) = e # delivered cs"
| "delivered (_ # cs) = delivered cs"

lemma delivered_append [simp]: "delivered (xs @ ys) = delivered xs @ delivered ys"
  by (induction xs rule: delivered.induct) auto

text \<open>The events of a run of emissions that the sink accepted.\<close>

fun emit_all :: "'c ControlPlane \<Rightarrow> WorkerEvent list \<Rightarrow> attemptSink \<times> 'c \<Rightarrow> WorkerEvent list \<times> attemptSink \<times> 'c" where
  "emit_all ct [] sc = ([], sc)"
| "emit_all ct (e # es) sc =
    (case Emit ct e sc of (r, sc') \<Rightarrow>
      (case emit_all ct es sc' of (acc, sc'') \<Rightarrow>
        (if isl r then acc else stamp ((fst sc)\<lparr>sk_sequence := Suc (sk_sequence (fst sc))\<rparr>) e # acc, sc'')))"

definition clean_text :: "string list \<Rightarrow> string \<Rightarrow> bool" where
  "clean_text secrets v \<longleftrightarrow> (\<forall>s \<in> set secrets. maskable s \<longrightarrow> \<not> sublist s v)"

definition clean_event :: "string list \<Rightarrow> WorkerEvent \<Rightarrow> bool" where
  "clean_event secrets e \<longleftrightarrow> (\<forall>(k, v) \<in> set (we_Data e). clean_text secrets v)"

lemma clean_redact [simp]: "clean_text secrets (redact v secrets)"
  by (simp add: clean_text_def redact_gone)

lemma clean_redactMap [simp]: "(k, v) \<in> set (redactMap m secrets) \<Longrightarrow> clean_text secrets v"
  by (auto simp: redactMap_def)

lemma clean_stamp [simp]: "clean_event (sk_secrets s) (stamp s e)"
  by (auto simp: clean_event_def stamp_def)

text \<open>
  A stretch of the sink's life: it calls only for events, and what it delivered followed by what it still holds is what it
  held before followed by what it accepted.
\<close>

definition sink_run :: "WorkerEvent list \<Rightarrow> attemptSink \<times> 'c \<times> Call list \<Rightarrow> attemptSink \<times> 'c \<times> Call list \<Rightarrow> bool" where
  "sink_run acc x y \<longleftrightarrow> (case (x, y) of ((s, c, l), (s', c', l')) \<Rightarrow>
     sk_id s' = sk_id s \<and> sk_secrets s' = sk_secrets s \<and> sk_maxPending s' = sk_maxPending s
     \<and> (\<forall>e \<in> set acc. clean_event (sk_secrets s) e)
     \<and> (int (length (sk_pending s)) \<le> sk_maxPending s \<longrightarrow> int (length (sk_pending s')) \<le> sk_maxPending s)
     \<and> (\<exists>evs. l' = l @ evs \<and> (\<forall>z \<in> set evs. \<exists>e ok. z = EventC (sk_id s) e ok \<and> (e \<in> set (sk_pending s) \<or> clean_event (sk_secrets s) e))
         \<and> delivered evs @ sk_pending s' = sk_pending s @ acc))"

lemma sink_run_refl: "sink_run [] x x"
  by (cases x) (auto simp: sink_run_def intro!: exI [of _ "[]"])

lemma sink_run_trans:
  assumes "sink_run a x y" and "sink_run b y z"
  shows "sink_run (a @ b) x z"
proof -
  obtain s c l s1 c1 l1 s2 c2 l2 where xyz: "x = (s, c, l)" "y = (s1, c1, l1)" "z = (s2, c2, l2)" by (metis surj_pair)
  from assms(1) obtain evs where 1: "l1 = l @ evs" "\<forall>z \<in> set evs. \<exists>e ok. z = EventC (sk_id s) e ok \<and> (e \<in> set (sk_pending s) \<or> clean_event (sk_secrets s) e)"
      "delivered evs @ sk_pending s1 = sk_pending s @ a" "sk_id s1 = sk_id s" "sk_secrets s1 = sk_secrets s" "sk_maxPending s1 = sk_maxPending s"
      "\<forall>e \<in> set a. clean_event (sk_secrets s) e" "int (length (sk_pending s)) \<le> sk_maxPending s \<Longrightarrow> int (length (sk_pending s1)) \<le> sk_maxPending s"
    unfolding sink_run_def xyz by auto
  from assms(2) obtain evs' where 2: "l2 = l1 @ evs'" "\<forall>z \<in> set evs'. \<exists>e ok. z = EventC (sk_id s) e ok \<and> (e \<in> set (sk_pending s1) \<or> clean_event (sk_secrets s) e)"
      "delivered evs' @ sk_pending s2 = sk_pending s1 @ b" "sk_id s2 = sk_id s" "sk_secrets s2 = sk_secrets s" "sk_maxPending s2 = sk_maxPending s"
      "\<forall>e \<in> set b. clean_event (sk_secrets s) e" "int (length (sk_pending s1)) \<le> sk_maxPending s \<Longrightarrow> int (length (sk_pending s2)) \<le> sk_maxPending s"
    unfolding sink_run_def xyz using 1(4-6) by auto
  have "set (sk_pending s1) \<subseteq> set (sk_pending s) \<union> set a" using arg_cong [OF 1(3), of set] by auto
  then have "\<forall>z \<in> set (evs @ evs'). \<exists>e ok. z = EventC (sk_id s) e ok \<and> (e \<in> set (sk_pending s) \<or> clean_event (sk_secrets s) e)"
    using 1(2,7) 2(2) by fastforce
  moreover have "delivered (evs @ evs') @ sk_pending s2 = sk_pending s @ a @ b" using 1(3) 2(3) by (metis append.assoc delivered_append)
  ultimately show ?thesis unfolding sink_run_def xyz using 1 2 by (auto intro!: exI [of _ "evs @ evs'"])
qed

lemma sink_run_seq: "sink_run acc (s\<lparr>sk_sequence := n\<rparr>, cl) y = sink_run acc (s, cl) y"
  by (simp add: sink_run_def)

lemma recorded_Event:
  "ct_Event (recorded ct) i e cl = (r, cl') \<longleftrightarrow> (\<exists>c. ct_Event ct i e (fst cl) = (r, c) \<and> cl' = (c, snd cl @ [EventC i e (\<not> isl r)]))"
  by (auto simp: recorded_def logged_def split: prod.splits)

lemma flush_run:
  assumes "flushLocked (recorded ct) (s, cl) = (r, (s', cl'))"
  shows "sink_run [] (s, cl) (s', cl') \<and> s' = s\<lparr>sk_pending := sk_pending s'\<rparr> \<and> (\<not> isl r \<longrightarrow> sk_pending s' = [])"
  using assms
proof (induction "sk_pending s" arbitrary: s cl)
  case Nil
  then show ?case by (simp add: flushLocked.simps [of _ s] sink_run_refl)
next
  case (Cons e es)
  obtain x cl1 where ev: "ct_Event (recorded ct) (sk_id s) e cl = (x, cl1)" by (metis surj_pair)
  then obtain c where cl1: "cl1 = (c, snd cl @ [EventC (sk_id s) e (\<not> isl x)])" by (auto simp: recorded_Event)
  show ?case
  proof (cases x)
    case (Inl err)
    with Cons ev have "r = Inl err" "s' = s" "cl' = cl1" by (simp_all add: flushLocked.simps [of _ s] flip: Cons.hyps(2))
    with Inl cl1 show ?thesis
      by (cases cl) (auto simp: sink_run_def intro!: exI [of _ "[EventC (sk_id s) e False]"] simp flip: Cons.hyps(2))
  next
    case (Inr u)
    let ?s = "s\<lparr>sk_pending := es\<rparr>"
    from Cons ev Inr have "flushLocked (recorded ct) (?s, cl1) = (r, (s', cl'))" by (simp add: flushLocked.simps [of _ s] flip: Cons.hyps(2))
    with Cons.hyps(1) [of ?s cl1] have rest: "sink_run [] (?s, cl1) (s', cl')" "s' = ?s\<lparr>sk_pending := sk_pending s'\<rparr>" "\<not> isl r \<longrightarrow> sk_pending s' = []" by auto
    have "sink_run [] (s, cl) (?s, cl1)" using Inr cl1 Cons.hyps(2)
      by (cases cl) (auto simp: sink_run_def intro!: exI [of _ "[EventC (sk_id s) e True]"] simp flip: Cons.hyps(2))
    with sink_run_trans [OF this rest(1)] rest(2,3) show ?thesis by simp
  qed
qed

lemma buffer_run:
  assumes "buffer_event e (s, cl) = (r, (s', cl'))" and "clean_event (sk_secrets s) e"
  shows "sink_run (if isl r then [] else [e]) (s, cl) (s', cl') \<and> sk_sequence s' = sk_sequence s"
  using assms by (cases cl) (auto simp: buffer_event_def sink_run_def intro!: exI [of _ "[]"] split: if_splits)

lemma Emit_run:
  assumes "Emit (recorded ct) e (s, cl) = (r, (s', cl'))"
  shows "sink_run (if isl r then [] else [stamp (s\<lparr>sk_sequence := Suc (sk_sequence s)\<rparr>) e]) (s, cl) (s', cl') \<and> sk_sequence s' = Suc (sk_sequence s)"
proof -
  let ?s = "s\<lparr>sk_sequence := Suc (sk_sequence s)\<rparr>"
  let ?e = "stamp ?s e"
  obtain x s1 cl1 where fl: "flushLocked (recorded ct) (?s, cl) = (x, (s1, cl1))" by (metis surj_pair)
  from flush_run [OF fl] have run1: "sink_run [] (?s, cl) (s1, cl1)" and s1: "s1 = ?s\<lparr>sk_pending := sk_pending s1\<rparr>" by auto
  have seq: "sk_sequence s1 = Suc (sk_sequence s)" "sk_secrets s1 = sk_secrets ?s" "sk_id s1 = sk_id s" by (subst s1, simp)+
  have clean: "clean_event (sk_secrets s1) ?e" unfolding seq by (rule clean_stamp)
  have fin: ?thesis if "sink_run [] (s1, cl1) (s1, cl2)" "buffer_event ?e (s1, cl2) = (r, (s', cl'))" for cl2
  proof -
    note b = buffer_run [OF that(2) clean]
    from sink_run_trans [OF run1 sink_run_trans [OF that(1)]] b seq(1) show ?thesis by (simp add: sink_run_seq)
  qed
  show ?thesis
  proof (cases x)
    case (Inl err)
    with assms fl show ?thesis by (intro fin [OF sink_run_refl]) (simp add: Emit_def Let_def)
  next
    case (Inr u)
    obtain y cl2 where ev: "ct_Event (recorded ct) (sk_id s1) ?e cl1 = (y, cl2)" by (metis surj_pair)
    then obtain c where cl2: "cl2 = (c, snd cl1 @ [EventC (sk_id s1) ?e (\<not> isl y)])" by (auto simp: recorded_Event)
    have pend: "sk_pending s1 = []" using flush_run [OF fl] Inr by simp
    have run: "sink_run (if isl y then [] else [?e]) (s1, cl1) (s1, cl2)"
      using clean cl2 pend by (cases cl1; cases y) (auto simp: sink_run_def intro!: exI [of _ "[EventC (sk_id s1) ?e (\<not> isl y)]"])
    show ?thesis
    proof (cases y)
      case (Inl err)
      with assms fl Inr ev run show ?thesis by (intro fin [of cl2]) (simp_all add: Emit_def Let_def)
    next
      case y: (Inr v)
      with assms fl Inr ev have "r = Inr ()" "s' = s1" "cl' = cl2" by (simp_all add: Emit_def Let_def)
      with y run sink_run_trans [OF run1] seq(1) show ?thesis by (auto simp: sink_run_seq)
    qed
  qed
qed

lemma emit_all_run:
  "emit_all (recorded ct) es x = (acc, y) \<Longrightarrow> sink_run acc x y"
proof (induction es arbitrary: x acc)
  case (Cons e es)
  obtain s cl where x: "x = (s, cl)" by (cases x)
  obtain r s1 cl1 where em: "Emit (recorded ct) e (s, cl) = (r, (s1, cl1))" by (metis surj_pair)
  obtain acc1 where rest: "emit_all (recorded ct) es (s1, cl1) = (acc1, y)" using Cons.prems em by (auto simp: x split: prod.splits)
  from sink_run_trans [OF Emit_run [OF em, THEN conjunct1] Cons.IH [OF rest]] Cons.prems em rest show ?case by (auto simp: x split: if_splits)
qed (simp add: sink_run_refl)

text \<open>The accepted events are numbered upwards and keyed by their numbers.\<close>

lemma emit_all_numbers:
  "emit_all (recorded ct) es x = (acc, y) \<Longrightarrow>
    sorted_wrt (<) (map we_WorkerSequence acc) \<and> (\<forall>e \<in> set acc. sk_sequence (fst x) < we_WorkerSequence e
      \<and> we_IdempotencyKey e = sk_id (fst x) @ '':'' @ show_nat (we_WorkerSequence e))"
proof (induction es arbitrary: x acc)
  case (Cons e es)
  obtain s cl where x: "x = (s, cl)" by (cases x)
  obtain r s1 cl1 where em: "Emit (recorded ct) e (s, cl) = (r, (s1, cl1))" by (metis surj_pair)
  obtain acc1 where rest: "emit_all (recorded ct) es (s1, cl1) = (acc1, y)" using Cons.prems em by (auto simp: x split: prod.splits)
  have "sk_sequence s1 = Suc (sk_sequence s)" "sk_id s1 = sk_id s" using Emit_run [OF em] by (auto simp: sink_run_def split: prod.splits)
  with Cons.IH [OF rest] Cons.prems em rest show ?case by (auto simp: x stamp_def split: if_splits) (blast dest: Suc_lessD)
qed simp

section \<open>Executors keep to their sink\<close>

text \<open>
  What the runtime relies on of an executor: it reaches the control plane only through the sink it is given.
\<close>

locale executor =
  fixes ex :: "('c \<times> Call list, 'p) Executor"
  assumes only_emits: "\<exists>es. fst (snd (ex_Execute ex j (sink_of ct) q)) = snd (emit_all ct es (fst q))"
begin

lemma executed:
  assumes "ex_Execute ex j (sink_of (recorded ct)) ((s, cl), p) = (r, ((s', cl'), p'))"
  shows "\<exists>es acc. emit_all (recorded ct) es (s, cl) = (acc, (s', cl'))"
  using only_emits [of j "recorded ct" "((s, cl), p)"] assms by (metis fst_conv snd_conv prod.collapse)

end

text \<open>An outside whose state is the right half of the executor's.\<close>

definition lift_right :: "('e, 'a, 'p) pass \<Rightarrow> ('e, 'a, 'x \<times> 'p) pass" where
  "lift_right f q = (case f (snd q) of (r, p) \<Rightarrow> (r, (fst q, p)))"

lemma fst_lift_right [simp]: "fst (snd (lift_right f q)) = fst q"
  by (simp add: lift_right_def split: prod.split)

definition command_exec :: "'p Outside \<Rightarrow> CommandExecutor \<Rightarrow> ('c, 'p) Executor" where
  "command_exec os e = \<lparr>ex_Kind = ''command'', ex_Execute = (\<lambda>j sink. command_Execute
     \<lparr>os_environ = os_environ os, os_command_payload = os_command_payload os,
      os_start = (\<lambda>cmd args env t. lift_right (os_start os cmd args env t))\<rparr> e sink j)\<rparr>"

definition http_exec :: "'p Web \<Rightarrow> HTTPExecutor \<Rightarrow> ('c, 'p) Executor" where
  "http_exec web e = \<lparr>ex_Kind = ''http'', ex_Execute = (\<lambda>j sink. http_Execute
     \<lparr>ow_payload = ow_payload web, ow_Parse = ow_Parse web, ow_NewRequest = ow_NewRequest web,
      ow_round_trip = (\<lambda>call. lift_right (ow_round_trip web call)), ow_redirect = ow_redirect web\<rparr> e j)\<rparr>"

lemma emit_all_append: "snd (emit_all ct (es @ es') sc) = snd (emit_all ct es' (snd (emit_all ct es sc)))"
proof (induction es arbitrary: sc)
  case (Cons e es)
  obtain r sc' where "Emit ct e sc = (r, sc')" by (metis surj_pair)
  with Cons.IH [of sc'] show ?case by (cases "emit_all ct (es @ es') sc'"; cases "emit_all ct es sc'") simp
qed simp

lemma emit_all_single: "snd (emit_all ct [e] sc) = snd (Emit ct e sc)"
  by (simp split: prod.split)

lemma sink_of_fst: "fst (snd (sink_of ct e q)) = snd (emit_all ct [e] (fst q))"
  by (simp only: emit_all_single) (simp add: sink_of_def split: prod.split)

lemma chunks_emit: "\<exists>es. fst (snd (fold (write_chunk e (sink_of ct)) cs (b, q))) = snd (emit_all ct es (fst q))"
proof (induction cs arbitrary: b q)
  case Nil
  show ?case by (intro exI [of _ "[]"]) simp
next
  case (Cons c cs)
  obtain b1 q1 where step: "write_chunk e (sink_of ct) c (b, q) = (b1, q1)" by (metis surj_pair)
  have "\<exists>es. fst q1 = snd (emit_all ct es (fst q))"
  proof (cases "ce_chunks e")
    case True
    with step show ?thesis by (cases c; cases b) (auto simp: write_chunk_def sink_of_fst simp del: emit_all.simps)
  next
    case False
    with step have "fst q1 = snd (emit_all ct [] (fst q))" by (cases c; cases b) (auto simp: write_chunk_def)
    then show ?thesis by blast
  qed
  then show ?case using Cons.IH [of b1 q1] step by (auto simp: emit_all_append [symmetric])
qed

interpretation command: executor "command_exec (os :: 'p Outside) e :: ('c \<times> Call list, 'p) Executor" for os e
proof
  fix j and ct :: "('c \<times> Call list) ControlPlane" and q :: "(attemptSink \<times> 'c \<times> Call list) \<times> 'p"
  let ?goal = "\<lambda>q'. \<exists>es. fst q' = snd (emit_all ct es (fst q))"
  have same: "?goal q'" if "fst q' = fst q" for q' using that by (intro exI [of _ "[]"]) simp
  have chunks: "?goal q2" if "fold (write_chunk e (sink_of ct)) cs (b, q1) = (b2, q2)" "fst q1 = fst q" for cs b q1 b2 q2
    using chunks_emit [of e ct cs b q1] that by simp
  have started: "fst q1 = fst q" if "lift_right f q = (r, q1)" for f :: "(string, Chunk list \<times> Ending, 'p) pass" and r q1
    using fst_lift_right [of f q] that by simp
  show "?goal (snd (ex_Execute (command_exec os e) j (sink_of ct) q))"
    unfolding command_exec_def command_Execute_def
    by (auto split: sum.split prod.split intro: same) (metis same started fst_conv, metis chunks started fst_conv)
qed

interpretation http: executor "http_exec (web :: 'p Web) e :: ('c \<times> Call list, 'p) Executor" for web e
proof
  fix j and ct :: "('c \<times> Call list) ControlPlane" and q :: "(attemptSink \<times> 'c \<times> Call list) \<times> 'p"
  have started: "fst q1 = fst q" if "lift_right f q = (r, q1)" for f :: "(string \<times> CtxErr option, HttpAnswer, 'p) pass" and r q1 using fst_lift_right [of f q] that by simp
  have "fst (snd (ex_Execute (http_exec web e) j (sink_of ct) q)) = fst q"
    unfolding http_exec_def http_Execute_def client_one_call by (auto split: sum.split option.split prod.split dest!: started)
  then show "\<exists>es. fst (snd (ex_Execute (http_exec web e) j (sink_of ct) q)) = snd (emit_all ct es (fst q))"
    by (intro exI [of _ "[]"]) simp
qed

section \<open>Events arrive in order, and every attempt is reported\<close>

text \<open>
  C32: the events of an attempt arrive in order and none is lost: after any emissions through a fresh sink, whatever calls
  failed on the way, the events the control plane took followed by the ones still buffered are exactly the events the
  sink accepted, numbered upwards, each under the key made of the attempt and its number; the buffer stays within its
  size; and once a flush succeeds they have all been taken.
\<close>

theorem events_delivered_in_order:
  assumes "emit_all (recorded ct) es (new_sink cfg i, (c, l)) = (acc, (s, cl))" and "flushLocked (recorded ct) (s, cl) = (r, (s', (c', l')))"
    and "0 < rt_EventRetryBuffer cfg"
  shows "\<exists>evs. l' = l @ evs \<and> delivered evs @ sk_pending s' = acc \<and> (r = Inr () \<longrightarrow> delivered evs = acc)
    \<and> sorted_wrt (<) (map we_WorkerSequence acc) \<and> (\<forall>e \<in> set acc. we_IdempotencyKey e = i @ '':'' @ show_nat (we_WorkerSequence e))
    \<and> int (length (sk_pending s')) \<le> rt_EventRetryBuffer cfg"
proof -
  have "sink_run acc (new_sink cfg i, (c, l)) (s', (c', l'))"
    using sink_run_trans [OF emit_all_run [OF assms(1)] flush_run [OF assms(2), THEN conjunct1]] by simp
  moreover have "r = Inr () \<longrightarrow> sk_pending s' = []" using flush_run [OF assms(2)] by auto
  moreover note emit_all_numbers [OF assms(1)]
  ultimately show ?thesis using assms(3) by (auto simp: sink_run_def new_sink_def)
qed

fun call_texts :: "Call \<Rightarrow> string list" where
  "call_texts (EventC i e ok) = map snd (we_Data e)"
| "call_texts (CompleteC i r ok) = er_Data r # map snd (er_Metadata r)"
| "call_texts (FailC i f ok) = [fe_Message f]"

definition final_report :: "string \<Rightarrow> Call list \<Rightarrow> bool" where
  "final_report i cs \<longleftrightarrow> (\<exists>r. cs = [CompleteC i r True]) \<or> (\<exists>r f ok. cs = [CompleteC i r False, FailC i f ok]) \<or> (\<exists>f ok. cs = [FailC i f ok])"

definition clean_calls :: "string list \<Rightarrow> Call list \<Rightarrow> bool" where
  "clean_calls secrets cs \<longleftrightarrow> (\<forall>z \<in> set cs. \<forall>t \<in> set (call_texts z). clean_text secrets t)"

lemma report_failure_log:
  "report_failure (recorded ct) secrets i f cl = (c', l') \<Longrightarrow> \<exists>g ok. l' = snd cl @ [FailC i g ok] \<and> clean_text secrets (fe_Message g)"
  by (auto simp: report_failure_def recorded_def logged_def split: prod.splits)

lemma deliver_log:
  assumes "deliver (recorded ct) (sk_secrets s) i result (s, cl) = (c', l')" and "sk_id s = i" and "\<forall>e \<in> set (sk_pending s). clean_event (sk_secrets s) e"
    and "clean_calls (sk_secrets s) [CompleteC i result True]"
  shows "\<exists>evs tl. l' = snd cl @ evs @ tl \<and> (\<forall>z \<in> set evs. \<exists>e ok. z = EventC i e ok \<and> clean_event (sk_secrets s) e)
    \<and> final_report i tl \<and> clean_calls (sk_secrets s) tl"
proof -
  obtain r s1 cl1 where fl: "flushLocked (recorded ct) (s, cl) = (r, (s1, cl1))" by (metis surj_pair)
  from flush_run [OF fl] obtain evs where evs: "snd cl1 = snd cl @ evs" "\<forall>z \<in> set evs. \<exists>e ok. z = EventC i e ok \<and> clean_event (sk_secrets s) e"
    using assms(2,3) by (cases cl; cases cl1) (fastforce simp: sink_run_def)
  have "\<exists>tl. l' = snd cl1 @ tl \<and> final_report i tl \<and> clean_calls (sk_secrets s) tl"
  proof (cases r)
    case (Inl err)
    with assms(1) fl have "report_failure (recorded ct) (sk_secrets s) i (retryable ''event_delivery_error'' err) cl1 = (c', l')" by (simp add: deliver_def)
    from report_failure_log [OF this] show ?thesis by (auto simp: final_report_def clean_calls_def)
  next
    case (Inr u)
    obtain x c2 where co: "ct_Complete ct i result (fst cl1) = (x, c2)" by (metis surj_pair)
    then have lg: "ct_Complete (recorded ct) i result cl1 = (x, (c2, snd cl1 @ [CompleteC i result (\<not> isl x)]))" by (simp add: recorded_def logged_def)
    show ?thesis
    proof (cases x)
      case (Inl err)
      with assms(1) fl Inr lg have "report_failure (recorded ct) (sk_secrets s) i (retryable ''result_error'' err) (c2, snd cl1 @ [CompleteC i result False]) = (c', l')"
        by (simp add: deliver_def)
      from report_failure_log [OF this] assms(4) show ?thesis by (auto simp: final_report_def clean_calls_def)
    next
      case x: (Inr v)
      with assms(1,4) fl Inr lg show ?thesis by (auto simp: deliver_def final_report_def clean_calls_def)
    qed
  qed
  with evs show ?thesis by (metis append.assoc)
qed

lemma clean_calls_append [simp]: "clean_calls secrets (xs @ ys) \<longleftrightarrow> clean_calls secrets xs \<and> clean_calls secrets ys"
  by (auto simp: clean_calls_def)

lemma clean_event_calls:
  assumes "\<forall>z \<in> set evs. \<exists>e ok. z = EventC i e ok \<and> clean_event secrets e"
  shows "clean_calls secrets evs"
  unfolding clean_calls_def
proof (intro ballI)
  fix z t assume "z \<in> set evs" "t \<in> set (call_texts z)"
  moreover from this assms obtain e ok where "z = EventC i e ok" "clean_event secrets e" by blast
  ultimately show "clean_text secrets t" by (auto simp: clean_event_def)
qed

lemma failed_report:
  assumes "report_failure (recorded ct) secrets i f (c1, l @ evs) = (c', l')" and "\<forall>z \<in> set evs. \<exists>e ok. z = EventC i e ok \<and> clean_event secrets e"
  shows "\<exists>evs tl. l' = l @ evs @ tl \<and> (\<forall>z \<in> set evs. \<exists>e ok. z = EventC i e ok) \<and> final_report i tl \<and> clean_calls secrets (evs @ tl)"
proof -
  from report_failure_log [OF assms(1)] obtain g ok where g: "l' = (l @ evs) @ [FailC i g ok]" "clean_text secrets (fe_Message g)" by auto
  moreover have "clean_calls secrets [FailC i g ok]" using g(2) by (simp add: clean_calls_def)
  ultimately show ?thesis using assms(2) clean_event_calls [OF assms(2)]
    by (intro exI [of _ evs] exI [of _ "[FailC i g ok]"]) (auto simp: final_report_def)
qed

text \<open>The executors a worker is configured with.\<close>

definition real_executor :: "('c, 'p) Executor option \<Rightarrow> bool" where
  "real_executor x \<longleftrightarrow> (\<exists>os e. x = Some (command_exec os e)) \<or> (\<exists>web e. x = Some (http_exec web e))"


text \<open>A worker with both executors, on a control plane whose first event call fails.\<close>

definition demo_control :: "nat ControlPlane" where
  "demo_control = \<lparr>ct_Register = (\<lambda>_ n. (Inr \<lparr>rn_WorkerID = ''w'', rn_Token = ''t'', rn_Heartbeat = 0, rn_Lease = 0, rn_Checkpoint = '''',
       rn_RecoverySession = '''', rn_RecoveryEpoch = 0\<rparr>, n)),
     ct_AcknowledgeRecovery = (\<lambda>_ _ n. (Inr (), n)), ct_ReportRecoveryFailure = (\<lambda>_ _ _ n. (Inr (), n)), ct_Heartbeat = (\<lambda>_ _ _ _ n. (Inr [], n)),
     ct_Claim = (\<lambda>_ n. (Inr None, n)), ct_Renew = (\<lambda>_ n. (Inr (), n)),
     ct_Event = (\<lambda>_ _ n. (if n = 0 then Inl ''unavailable'' else Inr (), Suc n)), ct_Complete = (\<lambda>_ _ n. (Inr (), n)), ct_Fail = (\<lambda>_ _ n. (Inr (), n))\<rparr>"

definition demo_runtime :: "(nat \<times> Call list, unit) RuntimeConfig" where
  "demo_runtime = \<lparr>rt_Registration = \<lparr>rn_InstanceID = ''i'', rn_SandboxID = ''b'', rn_SandboxProvider = ''p'', rn_Version = ''v'', rn_BootstrapToken = '''',
       rn_Capabilities = zero_Capabilities, rn_MaxConcurrency = 0, rn_SandboxMetadata = []\<rparr>,
     rt_Executors = [(''command'', Some (command_exec demo_os (demo_executor\<lparr>ce_chunks := True\<rparr>)))], rt_ClaimWait = 0, rt_ShutdownTimeout = 0,
     rt_CancelOnShutdown = False, rt_Secrets = [''pass''], rt_EventRetryBuffer = 2, rt_UpstreamHealth = None, rt_CheckpointExport = None, rt_CheckpointRestore = None\<rparr>"

definition demo_claimed :: WorkerClaim where
  "demo_claimed = \<lparr>wc_Job = demo_echo, wc_AttemptID = ''a-1'', wc_LeaseTill = 0\<rparr>"


theorem events_delivered_in_order_witness:
  "\<exists>acc s cl r s' c' l'. emit_all (recorded demo_control) [chunk_event ''stdout'' ''x'' [], chunk_event ''stdout'' ''y'' []] (new_sink demo_runtime ''a-1'', (0, [])) = (acc, (s, cl))
     \<and> flushLocked (recorded demo_control) (s, cl) = (r, (s', (c', l'))) \<and> delivered l' @ sk_pending s' = acc \<and> length acc = 2"
proof -
  let ?m = "emit_all (recorded demo_control) [chunk_event ''stdout'' ''x'' [], chunk_event ''stdout'' ''y'' []] (new_sink demo_runtime ''a-1'', (0, []))"
  obtain acc s cl where m: "?m = (acc, (s, cl))" by (metis surj_pair)
  obtain r s' c' l' where f: "flushLocked (recorded demo_control) (s, cl) = (r, (s', (c', l')))" by (metis surj_pair)
  have "0 < rt_EventRetryBuffer demo_runtime" by (simp add: demo_runtime_def)
  from events_delivered_in_order [OF m f this] have "delivered l' @ sk_pending s' = acc" by auto
  moreover have "length (fst ?m) = 2" by code_simp
  ultimately show ?thesis using m f by auto
qed

theorem worker_concurrency_bounded_witness:
  "\<exists>cfg :: (nat \<times> Call list, unit) RuntimeConfig. runtime_New (Some (recorded demo_control)) demo_runtime = Inr cfg
     \<and> runtime_reachable cfg \<lparr>ru_active = [''a-1''], ru_phase = Checking\<rparr> \<and> slots cfg [''a-1''] = 0"
proof -
  define cfg where "cfg = demo_runtime\<lparr>rt_Registration := (rt_Registration demo_runtime)\<lparr>rn_MaxConcurrency := 1\<rparr>,
    rt_ClaimWait := 20 * second, rt_ShutdownTimeout := 30 * second\<rparr>"
  have new: "runtime_New (Some (recorded demo_control)) demo_runtime = Inr cfg"
    by (simp add: cfg_def runtime_New_def demo_runtime_def executor_error_def command_exec_def List.map_filter_simps)
  have "runtime_step cfg runtime_init (runtime_init\<lparr>ru_phase := Claiming\<rparr>)"
    by (rule runtime_step.free) (simp_all add: runtime_init_def slots_def cfg_def)
  moreover have "runtime_step cfg (runtime_init\<lparr>ru_phase := Claiming\<rparr>) ((runtime_init\<lparr>ru_phase := Claiming\<rparr>)\<lparr>ru_phase := Checking,
      ru_active := List.insert ''a-1'' (ru_active (runtime_init\<lparr>ru_phase := Claiming\<rparr>))\<rparr>)"
    by (rule runtime_step.claimed) simp
  ultimately have "(runtime_step cfg)\<^sup>*\<^sup>* runtime_init \<lparr>ru_active = [''a-1''], ru_phase = Checking\<rparr>"
    by (simp add: runtime_init_def)
  then have reach: "runtime_reachable cfg \<lparr>ru_active = [''a-1''], ru_phase = Checking\<rparr>" by (simp add: runtime_reachable_def)
  from worker_concurrency_bounded [OF new reach] have "0 \<le> slots cfg [''a-1'']" by simp
  moreover have "slots cfg [''a-1''] = 0" by (simp add: slots_def cfg_def)
  ultimately show ?thesis using new reach by blast
qed

end
