(* ===== verification/SR_Client.thy ===== *)
theory SR_Client
  imports SR_ApiProps SR_Runtime
begin

text \<open>
  The worker's side of the protocol, \<^verbatim>\<open>internal/worker/client.go\<close>, and its composition with the server: the control plane
  a runtime talks to is a client whose transport is the router of the API.

  JSON is a parameter on this side too: an encoder of the request bodies, whose agreement with the server's decoder is a
  hypothesis where it is used. A reply is decoded from the value the server wrote. A path carries an attempt's identifier
  as the server sees it, unescaped.
\<close>

section \<open>The client\<close>

record Encoder =
  en_Register :: "RegisterReq \<Rightarrow> string"
  en_Ack :: "AckReq \<Rightarrow> string"
  en_Heartbeat :: "HeartbeatReq \<Rightarrow> string"
  en_Claim :: "ClaimReq \<Rightarrow> string"
  en_Renew :: string
  en_Event :: "EventReq \<Rightarrow> string"
  en_Result :: "ResultReq \<Rightarrow> string"
  en_Complete :: "string \<Rightarrow> string"
  en_Failure :: "Failure \<Rightarrow> string"
  en_Upstream :: "UpstreamState \<Rightarrow> string"
  en_Reply :: "Body \<Rightarrow> string"
  en_Status :: "int \<Rightarrow> string"

record BaseURL =
  bu_Scheme :: string
  bu_Host :: string
  bu_Hostname :: string

record HTTPControlPlane =
  hcp_base :: string
  hcp_tls :: bool
  hcp_workerID :: string
  hcp_token :: string

definition trim_right_slashes :: "string \<Rightarrow> string" where
  "trim_right_slashes s = rev (dropWhile (\<lambda>c. c = CHR ''/'') (rev s))"

text \<open>\<open>parse\<close> is \<^verbatim>\<open>url.Parse\<close>, \<open>loopback\<close> whether a host name is a loopback address.\<close>

definition NewHTTPControlPlane :: "(string \<Rightarrow> BaseURL option) \<Rightarrow> (string \<Rightarrow> bool) \<Rightarrow> string \<Rightarrow> string + HTTPControlPlane" where
  "NewHTTPControlPlane parse loopback base =
    (case parse (trim_right_slashes base) of
       None \<Rightarrow> Inl ''worker: invalid control-plane URL''
     | Some u \<Rightarrow>
         if bu_Scheme u = '''' \<or> bu_Host u = '''' then Inl ''worker: invalid control-plane URL''
         else if bu_Scheme u \<noteq> ''https'' \<and> bu_Hostname u \<noteq> ''localhost'' \<and> \<not> loopback (bu_Hostname u)
         then Inl ''worker: TLS is required for non-local control plane''
         else Inr \<lparr>hcp_base = trim_right_slashes base, hcp_tls = (bu_Scheme u = ''https''), hcp_workerID = '''', hcp_token = ''''\<rparr>)"

text \<open>The error of a refused call renders the first MiB of the reply; an error of the decoder is a value of its own.\<close>

datatype ClientError = TransportErr string | NoContentErr | StatusErr string int Body | DecodeErr

fun client_error_text :: "Encoder \<Rightarrow> ClientError \<Rightarrow> string" where
  "client_error_text en (TransportErr s) = s"
| "client_error_text en NoContentErr = ''no content''"
| "client_error_text en (StatusErr path n b) = ''control plane '' @ path @ '': '' @ en_Status en n @ '': '' @ take 1048576 (en_Reply en b)"
| "client_error_text en DecodeErr = ''decode''"

definition client_request :: "HTTPControlPlane \<Rightarrow> string \<Rightarrow> string \<Rightarrow> bool \<Rightarrow> HttpRequest" where
  "client_request c path body auth = \<lparr>hr_Method = ''POST'', hr_Path = path, hr_TLS = hcp_tls c, hr_Peer = (if hcp_tls c then Remote else Loopback),
     hr_Header = (''Content-Type'', ''application/json'') #
       (if auth then [(''X-Smart-Route-Worker-ID'', hcp_workerID c), (''Authorization'', bearer @ hcp_token c)] else []),
     hr_Query = [], hr_ContentLength = int (length body), hr_Body = body\<rparr>"

type_synonym 's transport = "HttpRequest \<Rightarrow> (string, Reply, 's) pass"

definition client_do :: "'s transport \<Rightarrow> string \<Rightarrow> string \<Rightarrow> bool \<Rightarrow> (ClientError, Body, HTTPControlPlane \<times> 's) pass" where
  "client_do rt path body auth cw =
    (case rt (client_request (fst cw) path body auth) (snd cw) of
       (Inl e, w) \<Rightarrow> (Inl (TransportErr e), (fst cw, w))
     | (Inr Dropped, w) \<Rightarrow> (Inl (TransportErr ''EOF''), (fst cw, w))
     | (Inr (Response status b), w) \<Rightarrow>
         (if status = 204 then Inl NoContentErr
          else if status < 200 \<or> status \<ge> 300 then Inl (StatusErr path status b)
          else Inr b, (fst cw, w)))"

text \<open>A call whose reply is read: a reply over 4 MiB is cut short, and does not decode.\<close>

definition client_get :: "Encoder \<Rightarrow> 's transport \<Rightarrow> string \<Rightarrow> string \<Rightarrow> bool \<Rightarrow> (ClientError, Body, HTTPControlPlane \<times> 's) pass" where
  "client_get en rt path body auth cw =
    sbind (client_do rt path body auth cw) (\<lambda>b cw. (if int (length (en_Reply en b)) > 4194304 then Inl DecodeErr else Inr b, cw))"

text \<open>A call whose reply is not read.\<close>

definition client_post :: "'s transport \<Rightarrow> string \<Rightarrow> string \<Rightarrow> (ClientError, unit, HTTPControlPlane \<times> 's) pass" where
  "client_post rt path body cw = sbind (client_do rt path body True cw) (\<lambda>_ cw. (Inr (), cw))"

definition register_body :: "RegistrationRequest \<Rightarrow> RegisterReq" where
  "register_body r = \<lparr>rr_BootstrapToken = rn_BootstrapToken r, rr_InstanceID = rn_InstanceID r, rr_SandboxID = rn_SandboxID r,
     rr_SandboxProvider = rn_SandboxProvider r, rr_WorkerVersion = rn_Version r, rr_ProtocolVersion = ''1'', rr_Capabilities = rn_Capabilities r,
     rr_MaxConcurrency = rn_MaxConcurrency r, rr_SandboxMetadata = rn_SandboxMetadata r\<rparr>"

definition client_Register :: "Encoder \<Rightarrow> 's transport \<Rightarrow> RegistrationRequest \<Rightarrow> (ClientError, Registration, HTTPControlPlane \<times> 's) pass" where
  "client_Register en rt r cw =
    sbind (client_get en rt ''/v1/worker/register'' (en_Register en (register_body r)) False cw) (\<lambda>b (c, w).
      case b of
        RegisteredB out \<Rightarrow>
          (Inr \<lparr>rn_WorkerID = rg_WorkerID out, rn_Token = rg_SessionToken out, rn_Heartbeat = int64 (rg_HeartbeatSeconds out * second),
             rn_Lease = int64 (rg_LeaseSeconds out * second), rn_Checkpoint = rg_Checkpoint out, rn_RecoverySession = rg_RecoverySession out,
             rn_RecoveryEpoch = rg_RecoveryEpoch out\<rparr>,
           (c\<lparr>hcp_workerID := rg_WorkerID out, hcp_token := rg_SessionToken out\<rparr>, w))
      | _ \<Rightarrow> (Inl DecodeErr, (c, w)))"

definition client_AcknowledgeRecovery :: "Encoder \<Rightarrow> 's transport \<Rightarrow> string \<Rightarrow> nat \<Rightarrow> (ClientError, unit, HTTPControlPlane \<times> 's) pass" where
  "client_AcknowledgeRecovery en rt i epoch =
    client_post rt ''/v1/worker/recovery/ack'' (en_Ack en \<lparr>aq_SessionID = i, aq_Epoch = epoch, aq_Error = ''''\<rparr>)"

definition client_ReportRecoveryFailure :: "Encoder \<Rightarrow> 's transport \<Rightarrow> string \<Rightarrow> nat \<Rightarrow> string \<Rightarrow> (ClientError, unit, HTTPControlPlane \<times> 's) pass" where
  "client_ReportRecoveryFailure en rt i epoch message =
    client_post rt ''/v1/worker/recovery/ack'' (en_Ack en \<lparr>aq_SessionID = i, aq_Epoch = epoch, aq_Error = message\<rparr>)"

text \<open>The server's heartbeat reply carries no session token, so the client keeps the one it has.\<close>

definition client_Heartbeat ::
    "Encoder \<Rightarrow> 's transport \<Rightarrow> string list \<Rightarrow> int \<Rightarrow> strmap \<Rightarrow> upstreams \<Rightarrow> (ClientError, string list, HTTPControlPlane \<times> 's) pass" where
  "client_Heartbeat en rt ids n metadata ups cw =
    sbind (client_get en rt ''/v1/worker/heartbeat'' (en_Heartbeat en \<lparr>hb_ActiveAttempts = ids, hb_AvailableSlots = n, hb_SandboxMetadata = metadata,
        hb_Health = [(''status'', ''ok'')], hb_Upstreams = map (\<lambda>(k, u). (k, en_Upstream en u)) ups\<rparr>) True cw) (\<lambda>b cw.
      case b of BeatB out \<Rightarrow> (Inr (bt_Cancel out), cw) | _ \<Rightarrow> (Inl DecodeErr, cw))"

definition client_Claim :: "Encoder \<Rightarrow> 's transport \<Rightarrow> duration \<Rightarrow> (ClientError, WorkerClaim option, HTTPControlPlane \<times> 's) pass" where
  "client_Claim en rt wait cw =
    (case client_get en rt ''/v1/worker/claim'' (en_Claim en \<lparr>cq_SandboxID = '''', cq_WaitSeconds = go_div wait second\<rparr>) True cw of
       (Inl NoContentErr, cw) \<Rightarrow> (Inr None, cw)
     | (Inl e, cw) \<Rightarrow> (Inl e, cw)
     | (Inr (ClaimedB job attempt lease until), cw) \<Rightarrow>
         (Inr (Some \<lparr>wc_Job = \<lparr>wj_ID = jd_ID job, wj_Kind = jd_Kind job, wj_Payload = jd_Payload job,
              wj_Timeout = (case jd_TimeoutAt job of None \<Rightarrow> 0 | Some t \<Rightarrow> t)\<rparr>, wc_AttemptID = ad_ID attempt, wc_LeaseTill = until\<rparr>), cw)
     | (Inr _, cw) \<Rightarrow> (Inl DecodeErr, cw))"

definition attempt_path :: "string \<Rightarrow> string \<Rightarrow> string" where
  "attempt_path i action = ''/v1/worker/attempts/'' @ i @ ''/'' @ action"

definition client_Renew :: "Encoder \<Rightarrow> 's transport \<Rightarrow> string \<Rightarrow> (ClientError, unit, HTTPControlPlane \<times> 's) pass" where
  "client_Renew en rt i = client_post rt (attempt_path i ''renew'') (en_Renew en)"

definition client_Event :: "Encoder \<Rightarrow> 's transport \<Rightarrow> string \<Rightarrow> WorkerEvent \<Rightarrow> (ClientError, unit, HTTPControlPlane \<times> 's) pass" where
  "client_Event en rt i e = client_post rt (attempt_path i ''events'') (en_Event en \<lparr>eq_Type = we_Type e, eq_Data = we_Data e,
     eq_WorkerSequence = we_WorkerSequence e, eq_IdempotencyKey = we_IdempotencyKey e\<rparr>)"

definition client_Complete :: "Encoder \<Rightarrow> 's transport \<Rightarrow> string \<Rightarrow> ExecResult \<Rightarrow> (ClientError, unit, HTTPControlPlane \<times> 's) pass" where
  "client_Complete en rt i r cw =
    sbind (client_post rt (attempt_path i ''result'') (en_Result en \<lparr>rq_StatusCode = er_StatusCode r, rq_Data = er_Data r, rq_Metadata = er_Metadata r\<rparr>) cw)
      (\<lambda>_. client_post rt (attempt_path i ''complete'') (en_Complete en (er_Checkpoint r)))"

definition client_Fail :: "Encoder \<Rightarrow> 's transport \<Rightarrow> string \<Rightarrow> FailureError \<Rightarrow> (ClientError, unit, HTTPControlPlane \<times> 's) pass" where
  "client_Fail en rt i e = client_post rt (attempt_path i ''fail'') (en_Failure en \<lparr>f_Code = fe_Code e, f_Message = fe_Message e, f_Class = fe_Class e\<rparr>)"

definition texted :: "Encoder \<Rightarrow> (ClientError, 'a, 's) pass \<Rightarrow> (string, 'a, 's) pass" where
  "texted en f s = (case f s of (Inl e, s) \<Rightarrow> (Inl (client_error_text en e), s) | (Inr x, s) \<Rightarrow> (Inr x, s))"

definition http_control :: "Encoder \<Rightarrow> 's transport \<Rightarrow> (HTTPControlPlane \<times> 's) ControlPlane" where
  "http_control en rt = \<lparr>ct_Register = (\<lambda>r. texted en (client_Register en rt r)),
     ct_AcknowledgeRecovery = (\<lambda>i n. texted en (client_AcknowledgeRecovery en rt i n)),
     ct_ReportRecoveryFailure = (\<lambda>i n m. texted en (client_ReportRecoveryFailure en rt i n m)),
     ct_Heartbeat = (\<lambda>a n m u. texted en (client_Heartbeat en rt a n m u)), ct_Claim = (\<lambda>d. texted en (client_Claim en rt d)),
     ct_Renew = (\<lambda>i. texted en (client_Renew en rt i)), ct_Event = (\<lambda>i e. texted en (client_Event en rt i e)),
     ct_Complete = (\<lambda>i r. texted en (client_Complete en rt i r)), ct_Fail = (\<lambda>i f. texted en (client_Fail en rt i f))\<rparr>"

section \<open>The server behind the client\<close>

definition server :: "'p ApiEnv \<Rightarrow> 'p API \<Rightarrow> (Wakeup \<times> 'p plane) list \<Rightarrow> 'p plane transport" where
  "server env api evs r w =
    (case serveHTTP env api evs r w of
       ((Some reply, _), w) \<Rightarrow> (Inr reply, w)
     | ((None, _), w) \<Rightarrow> (Inl ''still waiting'', w))"

section \<open>Registration through the client\<close>

lemma or_reply_not_Inl: "(\<And>e. f e \<noteq> d) \<Longrightarrow> fst (or_reply f m) \<noteq> Inl d"
  by (cases m; cases "fst m") (auto simp: or_reply_def)

lemma newest_readable_db: "fst (snd (newest_readable adapter cps w)) = fst w"
proof (induction cps arbitrary: w)
  case (Cons cp cps)
  obtain r w1 where open_cp: "on_adapter (ad_Open adapter cp) w = (r, w1)" by (metis surj_pair)
  then have "fst w1 = fst w" by (cases w) (auto simp: on_adapter_def split: prod.splits sum.splits)
  with Cons.IH [of w1] Cons.IH [of w] open_cp show ?case by (cases r) simp_all
qed simp

lemma recovery_checkpoint_db: "fst (snd (recovery_checkpoint api reserved w)) = fst w"
  by (auto simp: recovery_checkpoint_def newest_readable_db split: option.split)

lemma GetSession_InrD: "GetSession i s = Inr v \<Longrightarrow> s_ID v = i"
  by (cases "row_by s_ID i (db_sessions s)") (auto simp: GetSession_def mapped_def one_row_def simp del: row_by_None dest!: row_byD)

lemma reserved_session:
  assumes "recovery_reservation b s = Some v"
  shows "GetSession (s_ID v) s = Inr v \<and> s_State v = SessionRecovering"
  using assms GetSession_InrD [of _ s v] by (auto simp: recovery_reservation_def split: sum.splits if_splits)

lemma session_fence_cong: "db_sessions s' = db_sessions s \<Longrightarrow> w_ReservedSessionID v = w_ReservedSessionID w \<Longrightarrow> w_SessionEpoch v = w_SessionEpoch w
    \<Longrightarrow> w_ID v = w_ID w \<Longrightarrow> session_fence v s' = session_fence w s"
  by (simp add: session_fence_def GetSession_def cong: sum.case_cong)

definition registered_reply :: "'p API \<Rightarrow> Worker \<Rightarrow> string \<Rightarrow> string \<Rightarrow> Reply" where
  "registered_reply api worker token checkpoint =
    Response 201 (RegisteredB \<lparr>rg_WorkerID = w_ID worker, rg_SessionID = w_SessionID worker, rg_SessionToken = token,
      rg_HeartbeatSeconds = go_div (api_heartbeatInterval api) second, rg_LeaseSeconds = go_div (api_leaseDuration api) second,
      rg_Checkpoint = checkpoint, rg_RecoverySession = w_ReservedSessionID worker, rg_RecoveryEpoch = w_SessionEpoch worker\<rparr>)"

lemmas registerWorker_folded = registerWorker_def [folded registered_reply_def]

text \<open>What an accepted registration leaves behind.\<close>

lemma registered:
  assumes "registerWorker env api r w = (Inr reply, w')" and "dc_Register (ap_codec env) 1048576 (hr_Body r) = Inr req"
  shows "\<exists>worker token checkpoint s s1 t1 t2 box. reply = registered_reply api worker token checkpoint
    \<and> w_SessionTokenHash worker = hex_EncodeToString (ev_sha256 env token) \<and> w_ProtocolVersion worker = workerProtocolVersion
    \<and> session_fence worker s \<and> UpsertWorker t1 worker s = (Inr (), s1) \<and> UpsertSandbox t2 box s1 = (Inr (), fst w')"
proof -
  from assms obtain now token i session_id w4 checkpoint w5 worker w6 t1 s8 t2 where
    valid: "valid_registration req"
    and cp: "recovery_checkpoint api (recovery_reservation (rr_SandboxID req) (fst w4)) w4 = (checkpoint, w5)"
    and rj: "rejoining (new_worker api req now i session_id (hex_EncodeToString (ev_sha256 env token)) (recovery_reservation (rr_SandboxID req) (fst w4))) w5 = (Inr worker, w6)"
    and up: "UpsertWorker t1 worker (fst w6) = (Inr (), s8)" and box: "UpsertSandbox t2 (registered_box worker now) s8 = (Inr (), fst w')"
    and reply: "reply = registered_reply api worker token checkpoint"
    unfolding registerWorker_folded
    by (elim sbind_InrE) (auto simp: decoded_def Let_def or_reply_Inr on_store_success api_now_Inr split: if_splits prod.splits elim!: sbind_InrE)
  let ?new = "new_worker api req now i session_id (hex_EncodeToString (ev_sha256 env token)) (recovery_reservation (rr_SandboxID req) (fst w4))"
  have w6: "fst w6 = fst w4" using rj recovery_checkpoint_db [of api "recovery_reservation (rr_SandboxID req) (fst w4)" w4] cp by (auto simp: rejoining_def split: sum.splits if_splits)
  have same: "w_ReservedSessionID worker = w_ReservedSessionID ?new \<and> w_SessionEpoch worker = w_SessionEpoch ?new
      \<and> w_SessionTokenHash worker = w_SessionTokenHash ?new \<and> w_ProtocolVersion worker = w_ProtocolVersion ?new"
    using rj by (auto simp: rejoining_def rejoin_def split: sum.splits if_splits)
  have "session_fence worker (fst w4)"
  proof -
    have "w_ReservedSessionID ?new = '''' \<or> (\<exists>v. GetSession (w_ReservedSessionID ?new) (fst w4) = Inr v \<and> s_State v = SessionRecovering \<and> w_SessionEpoch ?new = s_Epoch v)"
      using reserved_session [of "rr_SandboxID req" "fst w4"]
      by (cases "recovery_reservation (rr_SandboxID req) (fst w4)") (auto simp: new_worker_def Let_def zero_Worker_def)
    then show ?thesis using same by (auto simp: session_fence_def)
  qed
  moreover have "w_SessionTokenHash ?new = hex_EncodeToString (ev_sha256 env token)" "w_ProtocolVersion ?new = workerProtocolVersion"
    using valid by (simp_all add: new_worker_def Let_def valid_registration_def split: option.split)
  ultimately show ?thesis using reply up box same w6
    by (intro exI [of _ worker] exI [of _ token] exI [of _ checkpoint]
        exI [of _ "fst w4"] exI [of _ s8] exI [of _ t1] exI [of _ t2] exI [of _ "registered_box worker now"]) simp
qed

lemma consume_not_Inl: "(\<And>st code m. d \<noteq> fail_reply st code m) \<Longrightarrow> fst (consume_bootstrap env req now w) \<noteq> Inl d"
  unfolding consume_bootstrap_def Let_def by (rule if_not_Inl) (auto intro!: or_reply_not_Inl dest: not_sym)

lemma rejoining_not_Inl: "(\<And>st code m. d \<noteq> fail_reply st code m) \<Longrightarrow> fst (rejoining w0 w) \<noteq> Inl d"
  by (auto simp: rejoining_def internal_reply_def dest: not_sym split: sum.split)

lemma api_id_not_Inl: "d \<noteq> Dropped \<Longrightarrow> fst (api_id env p w) \<noteq> Inl d"
  by (cases rule: api_id_cases [of env p w]) auto

lemma prod_not_Inl: "(\<And>x y. fst (f x y) \<noteq> Inl d) \<Longrightarrow> fst (case z of (x, y) \<Rightarrow> f x y) \<noteq> Inl d"
  by (simp split: prod.split)

lemma registerWorker_refused: "fst (registerWorker env api r w) \<noteq> Inl (Response st (RegisteredB out))"
proof -
  let ?d = "Response st (RegisteredB out)"
  have d: "?d \<noteq> fail_reply n code m" "fail_reply n code m \<noteq> ?d" for n code m by (simp_all add: fail_reply_def)
  have read: "fst (decoded x v) \<noteq> Inl ?d" for x :: "string + RegisterReq" and v :: "'p plane" by (simp add: decoded_def d split: sum.split)
  show ?thesis unfolding registerWorker_def Let_def
    by (intro sbind_not_Inl prod_not_Inl if_not_Inl read consume_not_Inl rejoining_not_Inl api_id_not_Inl or_reply_not_Inl d) (simp_all add: api_now_Inr internal_reply_def d)
qed

lemma register_served:
  assumes "server env api evs r w = (Inr (Response st (RegisteredB out)), w')" and "hr_Method r = ''POST''" "hr_Path r = ''/v1/worker/register''"
  shows "registerWorker env api r w = (Inr (Response st (RegisteredB out)), w')"
proof -
  have "\<not> public_path (hr_Path r)" by (simp add: assms(3) public_path_def has_prefix_def)
  then have open_path: "\<not> public_refused env api r" by (simp add: public_refused_def split: option.split)
  obtain res v where m: "registerWorker env api r w = (res, v)" by (metis surj_pair)
  with assms open_path have "replying (res, v) = (Response st (RegisteredB out), w')"
    by (auto simp: server_def serveHTTP_def route_def answer_def fail_reply_def Let_def split: if_splits prod.splits option.splits)
  with m registerWorker_refused [of env api r w st out] show ?thesis by (cases res) (auto simp: replying_def)
qed

lemma UpsertSandbox_keeps: "UpsertSandbox t b s = (res, s') \<Longrightarrow> db_workers s' = db_workers s \<and> db_sessions s' = db_sessions s"
  by (auto simp: UpsertSandbox_def Let_def update_sandboxes_def split: if_splits)

lemma UpsertWorker_sessions: "UpsertWorker t x s = (res, s') \<Longrightarrow> db_sessions s' = db_sessions s"
  by (auto simp: UpsertWorker_def Let_def update_workers_def split: if_splits)

lemma client_registered:
  assumes "client_Register en (server env api evs) rq (c, w) = (Inr reg, (c1, w1))"
  shows "\<exists>out st. registerWorker env api (client_request c ''/v1/worker/register'' (en_Register en (register_body rq)) False) w = (Inr (Response st (RegisteredB out)), w1)
    \<and> rn_WorkerID reg = rg_WorkerID out \<and> c1 = c\<lparr>hcp_workerID := rg_WorkerID out, hcp_token := rg_SessionToken out\<rparr>"
proof -
  let ?r = "client_request c ''/v1/worker/register'' (en_Register en (register_body rq)) False"
  from assms obtain st out where
    "server env api evs ?r w = (Inr (Response st (RegisteredB out)), w1)" "rn_WorkerID reg = rg_WorkerID out"
    "c1 = c\<lparr>hcp_workerID := rg_WorkerID out, hcp_token := rg_SessionToken out\<rparr>"
    unfolding client_Register_def client_get_def
    by (elim sbind_InrE) (auto simp: client_do_def split: if_splits prod.splits sum.splits Reply.splits Body.splits)
  then show ?thesis using register_served [of env api evs ?r w st out w1] by (auto simp: client_request_def)
qed

text \<open>The credentials of a client open the session they were issued for.\<close>

lemma client_authenticated:
  assumes "GetWorker (hcp_workerID c) (fst w) = Inr row" "hcp_workerID c \<noteq> ''''" "w_SessionTokenHash row = hex_EncodeToString (ev_sha256 env (hcp_token c))"
    and "w_ProtocolVersion row = workerProtocolVersion" "session_fence row (fst w)"
    and "0 \<le> fst (ap_now env (snd w))" "fst (ap_now env (snd w)) < w_SessionExpiresAt row"
  shows "fst (authenticatedWorker env (client_request c path body True) w) = Inr row"
  using assms by (simp add: authenticatedWorker_def client_request_def get_str_def has_prefix_def api_now_Inr sbind_def Let_def)


section \<open>A concrete registration\<close>

text \<open>A bootstrap token minted for a sandbox, and the worker that starts there with it.\<close>

definition demo_minted :: "(CtlError + string) \<times> FS plane" where
  "demo_minted = MintBootstrapToken demo_api_env minute ''box'' ''fake'' '''' zero_Capabilities (empty_db, demo_fs)"

definition demo_starter :: RegistrationRequest where
  "demo_starter = \<lparr>rn_InstanceID = ''01234567-89ab-cdef-0123-456789abcdef'', rn_SandboxID = ''box'', rn_SandboxProvider = ''fake'', rn_Version = ''dev'',
     rn_BootstrapToken = ''wbt_30'', rn_Capabilities = zero_Capabilities, rn_MaxConcurrency = 1, rn_SandboxMetadata = []\<rparr>"

definition demo_encoder :: Encoder where
  "demo_encoder = \<lparr>en_Register = (\<lambda>_. ''r''), en_Ack = (\<lambda>_. ''k''), en_Heartbeat = (\<lambda>_. ''h''), en_Claim = (\<lambda>_. ''c''), en_Renew = ''{}'',
     en_Event = (\<lambda>_. ''e''), en_Result = rq_Data, en_Complete = (\<lambda>c. c), en_Failure = f_Code, en_Upstream = (\<lambda>_. ''u''), en_Reply = (\<lambda>_. ''{}''),
     en_Status = show_int\<rparr>"

definition demo_register_env :: "FS ApiEnv" where
  "demo_register_env = demo_api_env\<lparr>ap_codec := demo_codec\<lparr>dc_Register := \<lambda>_ _. Inr (register_body demo_starter)\<rparr>\<rparr>"

definition demo_client :: HTTPControlPlane where
  "demo_client = \<lparr>hcp_base = ''https://cp'', hcp_tls = True, hcp_workerID = '''', hcp_token = ''''\<rparr>"


end
