(* ===== verification/SR_Sdk.thy ===== *)
theory SR_Sdk
  imports SR_Client
begin

text \<open>
  The Go client for the public API, \<^verbatim>\<open>pkg/client/client.go\<close> and \<^verbatim>\<open>pkg/client/admin.go\<close>, over the same transport as the worker's
  client: JSON is a parameter, a reply is decoded from the value the server wrote, a path carries identifiers unescaped.
\<close>

section \<open>The client\<close>

record SdkEncoder =
  se_SubmitJob :: "SubmitJob \<Rightarrow> string"
  se_CreateSession :: "CreateSessionReq \<Rightarrow> string"
  se_SaveCheckpoint :: "string \<Rightarrow> nat \<Rightarrow> string"
  se_Empty :: string
  se_Reply :: "Body \<Rightarrow> string"
  se_Status :: "int \<Rightarrow> string"

record Sdk =
  sdk_path :: string
  sdk_tls :: bool
  sdk_peer :: Peer
  sdk_token :: string

text \<open>\<open>parse\<close> is \<^verbatim>\<open>url.Parse\<close> with the path of the URL.\<close>

definition sdk_New :: "(string \<Rightarrow> (BaseURL \<times> string) option) \<Rightarrow> Peer \<Rightarrow> string \<Rightarrow> string + Sdk" where
  "sdk_New parse peer baseURL =
    (case parse (trim_right_slashes baseURL) of
       None \<Rightarrow> Inl ''parse''
     | Some (u, path) \<Rightarrow>
         if bu_Scheme u = '''' \<or> bu_Host u = '''' then Inl ''client: base URL must be absolute''
         else Inr \<lparr>sdk_path = path, sdk_tls = (bu_Scheme u = ''https''), sdk_peer = peer, sdk_token = ''''\<rparr>)"

definition SetBearerToken :: "string \<Rightarrow> Sdk \<Rightarrow> Sdk" where
  "SetBearerToken token c = (if token \<noteq> '''' then c\<lparr>sdk_token := token\<rparr> else c)"

definition sdk_request :: "Sdk \<Rightarrow> string \<Rightarrow> string \<Rightarrow> strmap \<Rightarrow> string option \<Rightarrow> HttpRequest" where
  "sdk_request c verb path q body = \<lparr>hr_Method = verb, hr_Path = trim_right_slashes (sdk_path c) @ path, hr_TLS = sdk_tls c, hr_Peer = sdk_peer c,
     hr_Header = (''Accept'', ''application/json'') # (if body \<noteq> None then [(''Content-Type'', ''application/json'')] else [])
       @ (if sdk_token c \<noteq> '''' then [(''Authorization'', bearer @ sdk_token c)] else []),
     hr_Query = q, hr_ContentLength = (case body of None \<Rightarrow> 0 | Some b \<Rightarrow> int (length b)), hr_Body = (case body of None \<Rightarrow> '''' | Some b \<Rightarrow> b)\<rparr>"

datatype SdkError = SdkTransport string | APIError int string string | SdkDecode | SdkCtx

text \<open>An error reply over 1 MiB is cut short and does not decode.\<close>

definition sdk_refused :: "SdkEncoder \<Rightarrow> int \<Rightarrow> Body \<Rightarrow> SdkError" where
  "sdk_refused se status b =
    (if int (length (se_Reply se b)) > 1048576 then APIError status ''http_error'' (se_Status se status)
     else case b of ErrorB code m \<Rightarrow> APIError status code m | _ \<Rightarrow> APIError status '''' '''')"

definition sdk_do :: "SdkEncoder \<Rightarrow> 's transport \<Rightarrow> Sdk \<Rightarrow> string \<Rightarrow> string \<Rightarrow> strmap \<Rightarrow> string option \<Rightarrow> (SdkError, Body, 's) pass" where
  "sdk_do se rt c verb path q body w =
    (case rt (sdk_request c verb path q body) w of
       (Inl e, w) \<Rightarrow> (Inl (SdkTransport e), w)
     | (Inr Dropped, w) \<Rightarrow> (Inl (SdkTransport ''EOF''), w)
     | (Inr (Response status b), w) \<Rightarrow> (if status < 200 \<or> status \<ge> 300 then Inl (sdk_refused se status b) else Inr b, w))"

text \<open>A call whose reply is read, up to 8 MiB; \<open>pick\<close> is the type it is decoded into.\<close>

definition sdk_get :: "SdkEncoder \<Rightarrow> 's transport \<Rightarrow> Sdk \<Rightarrow> string \<Rightarrow> string \<Rightarrow> strmap \<Rightarrow> string option \<Rightarrow> (Body \<Rightarrow> 'a option) \<Rightarrow> (SdkError, 'a, 's) pass" where
  "sdk_get se rt c verb path q body pick w =
    sbind (sdk_do se rt c verb path q body w) (\<lambda>b w.
      (if int (length (se_Reply se b)) > 8388608 then Inl SdkDecode else (case pick b of None \<Rightarrow> Inl SdkDecode | Some x \<Rightarrow> Inr x), w))"

definition pick_job :: "Body \<Rightarrow> JobDTO option" where
  "pick_job b = (case b of JobB j \<Rightarrow> Some j | _ \<Rightarrow> None)"

definition pick_session :: "Body \<Rightarrow> SessionDTO option" where
  "pick_session b = (case b of SessionB s \<Rightarrow> Some s | _ \<Rightarrow> None)"

definition sdk_SubmitJob where
  "sdk_SubmitJob se rt c req = sdk_get se rt c ''POST'' ''/v1/jobs'' [] (Some (se_SubmitJob se req)) pick_job"

definition sdk_CreateSession where
  "sdk_CreateSession se rt c req = sdk_get se rt c ''POST'' ''/v1/sessions'' [] (Some (se_CreateSession se req)) pick_session"

definition session_path :: "string \<Rightarrow> string \<Rightarrow> string" where
  "session_path i rest = ''/v1/sessions/'' @ i @ rest"

definition job_path :: "string \<Rightarrow> string \<Rightarrow> string" where
  "job_path i rest = ''/v1/jobs/'' @ i @ rest"

definition sdk_GetSession where
  "sdk_GetSession se rt c i = sdk_get se rt c ''GET'' (session_path i '''') [] None pick_session"

definition sdk_CloseSession where
  "sdk_CloseSession se rt c i = sdk_get se rt c ''POST'' (session_path i ''/close'') [] (Some (se_Empty se)) pick_session"

definition sdk_ListSessionJobs where
  "sdk_ListSessionJobs se rt c i = sdk_get se rt c ''GET'' (session_path i ''/jobs'') [] None (\<lambda>b. case b of JobsB js \<Rightarrow> Some js | _ \<Rightarrow> None)"

definition sdk_RecoverSession where
  "sdk_RecoverSession se rt c i = sdk_get se rt c ''POST'' (session_path i ''/recover'') [] (Some (se_Empty se)) pick_session"

definition sdk_CreateCheckpoint where
  "sdk_CreateCheckpoint se rt c i data w =
    sbind (sdk_GetSession se rt c i w) (\<lambda>s.
      sdk_get se rt c ''POST'' (session_path i ''/checkpoints'') [] (Some (se_SaveCheckpoint se data (sd_Epoch s))) (\<lambda>b. case b of CheckpointB k \<Rightarrow> Some k | _ \<Rightarrow> None))"

definition sdk_ListCheckpoints where
  "sdk_ListCheckpoints se rt c i = sdk_get se rt c ''GET'' (session_path i ''/checkpoints'') [] None (\<lambda>b. case b of CheckpointsB ks \<Rightarrow> Some ks | _ \<Rightarrow> None)"

definition sdk_ListRecoveryEvents where
  "sdk_ListRecoveryEvents se rt c i = sdk_get se rt c ''GET'' (session_path i ''/recovery-events'') [] None (\<lambda>b. case b of RecoveryEventsB es \<Rightarrow> Some es | _ \<Rightarrow> None)"

definition sdk_GetJob :: "SdkEncoder \<Rightarrow> 's transport \<Rightarrow> Sdk \<Rightarrow> string \<Rightarrow> (SdkError, JobDTO, 's) pass" where
  "sdk_GetJob se rt c i = sdk_get se rt c ''GET'' (job_path i '''') [] None pick_job"

definition sdk_ListAttempts where
  "sdk_ListAttempts se rt c i = sdk_get se rt c ''GET'' (job_path i ''/attempts'') [] None (\<lambda>b. case b of AttemptsB as \<Rightarrow> Some as | _ \<Rightarrow> None)"

definition sdk_ListEventsAfter where
  "sdk_ListEventsAfter se rt c i after n = sdk_get se rt c ''GET'' (job_path i ''/events'')
     ((''after'', show_nat after) # (if n > 0 then [(''limit'', show_int n)] else [])) None (\<lambda>b. case b of EventsB es \<Rightarrow> Some es | _ \<Rightarrow> None)"

definition sdk_ListEvents where
  "sdk_ListEvents se rt c i = sdk_ListEventsAfter se rt c i 0 0"

definition sdk_GetResult where
  "sdk_GetResult se rt c i = sdk_get se rt c ''GET'' (job_path i ''/result'') [] None (\<lambda>b. case b of ResultB r \<Rightarrow> Some r | _ \<Rightarrow> None)"

definition sdk_CancelJob where
  "sdk_CancelJob se rt c i = sdk_get se rt c ''POST'' (job_path i ''/cancel'') [] (Some (se_Empty se)) pick_job"

definition sdk_ListWorkers where
  "sdk_ListWorkers se rt c = sdk_get se rt c ''GET'' ''/v1/workers'' [] None (\<lambda>b. case b of WorkersB ws \<Rightarrow> Some ws | _ \<Rightarrow> None)"

definition sdk_ListSandboxes where
  "sdk_ListSandboxes se rt c = sdk_get se rt c ''GET'' ''/v1/sandboxes'' [] None (\<lambda>b. case b of SandboxesB bs \<Rightarrow> Some bs | _ \<Rightarrow> None)"

definition sdk_AdminStatus where
  "sdk_AdminStatus se rt c = sdk_get se rt c ''GET'' ''/v1/admin/status'' [] None (\<lambda>b. case b of AdminB a \<Rightarrow> Some a | _ \<Rightarrow> None)"

definition sdk_Health :: "SdkEncoder \<Rightarrow> 's transport \<Rightarrow> Sdk \<Rightarrow> (SdkError, unit, 's) pass" where
  "sdk_Health se rt c w = sbind (sdk_do se rt c ''GET'' ''/healthz'' [] None w) (\<lambda>_ w. (Inr (), w))"

definition sdk_Ready :: "SdkEncoder \<Rightarrow> 's transport \<Rightarrow> Sdk \<Rightarrow> (SdkError, unit, 's) pass" where
  "sdk_Ready se rt c w = sbind (sdk_do se rt c ''GET'' ''/readyz'' [] None w) (\<lambda>_ w. (Inr (), w))"

text \<open>
  Waiting for the end of a job: each wake-up of the timer finds the world in the state given with it; the context ends
  the wait. With the list used up the call is still waiting.
\<close>

fun WaitTerminal :: "SdkEncoder \<Rightarrow> 's transport \<Rightarrow> Sdk \<Rightarrow> string \<Rightarrow> (tick \<times> 's) list \<Rightarrow> (SdkError + JobDTO) option" where
  "WaitTerminal se rt c i [] = None"
| "WaitTerminal se rt c i ((CtxDone, _) # evs) = Some (Inl SdkCtx)"
| "WaitTerminal se rt c i ((Tick _, w) # evs) =
    (case sdk_GetJob se rt c i w of
       (Inl e, _) \<Rightarrow> Some (Inl e)
     | (Inr j, _) \<Rightarrow> if JobTerminal (jd_State j) then Some (Inr j) else WaitTerminal se rt c i evs)"

section \<open>The client over the server\<close>

text \<open>A client the server lets in, and an identifier that is one segment of a path.\<close>

definition admitted :: "'p ApiEnv \<Rightarrow> 'p API \<Rightarrow> Sdk \<Rightarrow> bool" where
  "admitted env api c \<longleftrightarrow> trim_right_slashes (sdk_path c) = '''' \<and> (api_requireTLS api \<longrightarrow> sdk_tls c \<or> api_insecureLocalMode api \<and> sdk_peer c = Loopback)
     \<and> (\<forall>hash. api_publicTokenHash api = Some hash \<longrightarrow> sdk_token c \<noteq> '''' \<and> ev_sha256 env (sdk_token c) = hash)"

definition segment :: "string \<Rightarrow> bool" where
  "segment i \<longleftrightarrow> i \<noteq> '''' \<and> CHR ''/'' \<notin> set i"

lemma admitted_requests:
  assumes "admitted env api c"
  shows "\<not> tls_refused api (sdk_request c verb path q body)" "\<not> public_refused env api (sdk_request c verb path q body)"
proof -
  let ?r = "sdk_request c verb path q body"
  show "\<not> tls_refused api ?r" using assms by (auto simp: admitted_def tls_refused_def sdk_request_def)
  have "get_str (hr_Header ?r) ''Authorization'' = bearer @ sdk_token c" if "sdk_token c \<noteq> ''''"
    using that by (simp add: sdk_request_def get_str_def)
  then show "\<not> public_refused env api ?r" using assms by (auto simp: admitted_def public_refused_def has_prefix_def Let_def split: option.splits)
qed

lemma job_segments:
  assumes "segment i"
  shows "split_slash (trim_slashes (''/v1/jobs/'' @ i)) = [''v1'', ''jobs'', i]"
proof -
  have "rev i \<noteq> []" "hd (rev i) \<noteq> CHR ''/''" using assms by (auto simp: segment_def hd_rev) (metis last_in_set)
  then have "dropWhile (\<lambda>c. c = CHR ''/'') (rev i @ rev ''v1/jobs/'') = rev i @ rev ''v1/jobs/''" by (cases "rev i") auto
  then have "trim_slashes (''/v1/jobs/'' @ i) = ''v1/jobs/'' @ i" by (simp add: trim_slashes_def Let_def)
  moreover have "split_slash (''v1/jobs/'' @ i) = [''v1'', ''jobs'', i]" using assms split_slash_single [of i] by (simp add: segment_def)
  ultimately show ?thesis by simp
qed

lemma sdk_GetJob_server:
  assumes "admitted env api c" and "segment i" and "GetJob i (fst w) = Inr j" and "int (length (se_Reply se (JobB (jobDTO j)))) \<le> 8388608"
  shows "sdk_GetJob se (server env api evs) c i w = (Inr (jobDTO j), w)"
proof -
  let ?r = "sdk_request c ''GET'' (''/v1/jobs/'' @ i) [] None"
  have r: "hr_Path ?r = ''/v1/jobs/'' @ i" "hr_Method ?r = ''GET''" using assms(1) by (simp_all add: sdk_request_def admitted_def)
  have "query (GetJob i) w = (Inr j, w)" using assms(3) by (simp add: query_def on_store_success)
  then have "jobRoute env api ?r i [] w = (Inr (Response 200 (JobB (jobDTO j))), w)" using r by (simp add: jobRoute_def or_reply_def sbind_def)
  then have "route env api evs ?r w = (Some (Response 200 (JobB (jobDTO j))), w)"
    using r job_segments [OF assms(2)] by (simp add: route_def answer_def replying_def Let_def)
  then have "server env api evs ?r w = (Inr (Response 200 (JobB (jobDTO j))), w)"
    using r admitted_requests [OF assms(1)] by (simp add: server_def serveHTTP_def)
  with assms(4) show ?thesis by (simp add: sdk_GetJob_def sdk_get_def sdk_do_def job_path_def sbind_def pick_job_def)
qed


section \<open>A concrete client\<close>

definition demo_sdk :: Sdk where
  "demo_sdk = \<lparr>sdk_path = '''', sdk_tls = True, sdk_peer = Remote, sdk_token = ''token''\<rparr>"

definition demo_sdk_encoder :: SdkEncoder where
  "demo_sdk_encoder = \<lparr>se_SubmitJob = (\<lambda>_. ''s''), se_CreateSession = (\<lambda>_. ''c''), se_SaveCheckpoint = (\<lambda>b _. b), se_Empty = ''{}'', se_Reply = (\<lambda>_. ''{}''),
     se_Status = show_int\<rparr>"

definition demo_canceled :: DB where
  "demo_canceled = snd (CancelJob ''a'' (demo_epoch + 3) demo_working)"


end
