(* ===== verification/SR_WorkerMain.thy ===== *)
theory SR_WorkerMain
  imports SR_Client SR_Cloud
begin

text \<open>
  The worker program, \<^verbatim>\<open>cmd/smart-route-worker/main.go\<close>: how its settings come from the environment that a sandbox adapter gives it, and
  the way from a pool of the autoscaler through the adapter and the worker to the registration.
\<close>

section \<open>The environment\<close>

text \<open>
  The machine a worker runs on. \<open>ho_readMap\<close> is \<^verbatim>\<open>json.Unmarshal\<close> into an empty map: whether it succeeded, and what it wrote.
\<close>

record Host =
  ho_environ :: "string list"
  ho_Hostname :: string
  ho_GOARCH :: string
  ho_ParseBool :: "string \<Rightarrow> bool"
  ho_ParseDuration :: "string \<Rightarrow> string + duration"
  ho_readMap :: "string \<Rightarrow> bool \<times> strmap"
  ho_Parse :: "string \<Rightarrow> BaseURL option"
  ho_loopback :: "string \<Rightarrow> bool"
  ho_sha256 :: "string \<Rightarrow> string"
  ho_Version :: string
  ho_GitSHA :: string

definition getenv :: "Host \<Rightarrow> string \<Rightarrow> string" where
  "getenv h k = (case LookupEnv (ho_environ h) k of None \<Rightarrow> '''' | Some v \<Rightarrow> v)"

definition hostname :: "Host \<Rightarrow> string" where
  "hostname h = (if ho_Hostname h = '''' then ''unknown'' else ho_Hostname h)"

definition worker_instanceID :: "Host \<Rightarrow> string" where
  "worker_instanceID h =
    (if getenv h ''SMART_ROUTE_INSTANCE_ID'' \<noteq> '''' then getenv h ''SMART_ROUTE_INSTANCE_ID''
     else uuid_form (hex_EncodeToString (take 16 (ho_sha256 h (hostname h)))))"

definition envDefault :: "Host \<Rightarrow> string \<Rightarrow> string \<Rightarrow> string" where
  "envDefault h k d = (if getenv h k \<noteq> '''' then getenv h k else d)"

definition intEnv :: "Host \<Rightarrow> string \<Rightarrow> int \<Rightarrow> int" where
  "intEnv h k d = (case Atoi (getenv h k) of None \<Rightarrow> d | Some v \<Rightarrow> if v \<le> 0 then d else v)"

definition boolEnv :: "Host \<Rightarrow> string \<Rightarrow> bool" where
  "boolEnv h k = ho_ParseBool h (getenv h k)"

definition durationEnv :: "Host \<Rightarrow> string \<Rightarrow> duration \<Rightarrow> duration" where
  "durationEnv h k d = (case ho_ParseDuration h (getenv h k) of Inl _ \<Rightarrow> d | Inr v \<Rightarrow> if v \<le> 0 then d else v)"

definition listEnv :: "Host \<Rightarrow> string \<Rightarrow> string list" where
  "listEnv h k = filter (\<lambda>v. v \<noteq> '''') (map TrimSpace (split_char (CHR '','') (getenv h k)))"

definition put_pair :: "string \<Rightarrow> strmap \<Rightarrow> strmap" where
  "put_pair item m = (case split_entry item of None \<Rightarrow> m | Some (k, v) \<Rightarrow> AList.update (TrimSpace k) (TrimSpace v) m)"

definition stringMap :: "Host \<Rightarrow> string \<Rightarrow> strmap" where
  "stringMap h v =
    (if v = '''' then []
     else case ho_readMap h v of (ok, out) \<Rightarrow> if ok then out else fold put_pair (split_char (CHR '','') v) out)"

definition secretValues :: "Host \<Rightarrow> string list" where
  "secretValues h = List.map_filter (\<lambda>entry. case split_entry entry of
     None \<Rightarrow> None
   | Some (k, v) \<Rightarrow> if has_prefix k ''SMART_ROUTE_SECRET_'' \<or> has_prefix k ''SMART_ROUTE_CREDENTIAL_'' then Some v else None) (ho_environ h)"

section \<open>The settings of a worker\<close>

record WorkerSettings =
  ws_Registration :: RegistrationRequest
  ws_Command :: CommandConfig
  ws_HTTP :: "HTTPConfig option"
  ws_ClaimWait :: duration
  ws_ShutdownTimeout :: duration
  ws_CancelOnShutdown :: bool
  ws_Secrets :: "string list"
  ws_EventRetryBuffer :: int
  ws_CheckpointRoots :: "string list"

definition worker_command :: "Host \<Rightarrow> CommandConfig" where
  "worker_command h =
    (let allow = listEnv h ''SMART_ROUTE_COMMAND_ALLOWLIST'' in
     \<lparr>cc_Allowlist = (if allow = [] then [''/bin/sh'', ''/bin/echo''] else allow), cc_MaxOutputBytes = intEnv h ''SMART_ROUTE_MAX_OUTPUT_BYTES'' 1048576,
      cc_EmitChunks = boolEnv h ''SMART_ROUTE_EMIT_CHUNKS'', cc_Secrets = secretValues h, cc_ResolveSecret = None\<rparr>)"

definition worker_http :: "Host \<Rightarrow> HTTPConfig option" where
  "worker_http h =
    (let allowed = listEnv h ''SMART_ROUTE_HTTP_ALLOWED_HOSTS'' in
     if allowed = [] then None
     else Some \<lparr>hx_MaxRequestBytes = intEnv h ''SMART_ROUTE_MAX_HTTP_REQUEST_BYTES'' 1048576,
       hx_MaxResponseBytes = intEnv h ''SMART_ROUTE_MAX_HTTP_RESPONSE_BYTES'' 1048576, hx_AllowedHosts = allowed, hx_Secrets = secretValues h\<rparr>)"

definition executor_kinds :: "Host \<Rightarrow> string list" where
  "executor_kinds h = ''command'' # (if worker_http h \<noteq> None then [''http''] else [])"

definition worker_capabilities :: "Host \<Rightarrow> Capabilities" where
  "worker_capabilities h = \<lparr>cap_Capabilities = listEnv h ''SMART_ROUTE_CAPABILITIES'', cap_Labels = stringMap h (getenv h ''SMART_ROUTE_LABELS''),
     cap_Architecture = ho_GOARCH h, cap_Region = getenv h ''SMART_ROUTE_REGION'', cap_ExecutorKinds = executor_kinds h, cap_Upstreams = []\<rparr>"

definition worker_registration :: "Host \<Rightarrow> RegistrationRequest" where
  "worker_registration h = \<lparr>rn_InstanceID = worker_instanceID h, rn_SandboxID = envDefault h ''SMART_ROUTE_SANDBOX_ID'' (hostname h),
     rn_SandboxProvider = envDefault h ''SMART_ROUTE_SANDBOX_PROVIDER'' ''standalone'', rn_Version = ho_Version h,
     rn_BootstrapToken = getenv h ''SMART_ROUTE_BOOTSTRAP_TOKEN'', rn_Capabilities = worker_capabilities h,
     rn_MaxConcurrency = intEnv h ''SMART_ROUTE_MAX_CONCURRENCY'' 1,
     rn_SandboxMetadata = [(''runtime'', ''worker''), (''hostname'', hostname h), (''git_sha'', ho_GitSHA h), (''protocol_version'', ''1'')]\<rparr>"

definition load :: "Host \<Rightarrow> string + WorkerSettings \<times> HTTPControlPlane" where
  "load h =
    (if getenv h ''SMART_ROUTE_CONTROL_PLANE_URL'' = '''' then Inl ''SMART_ROUTE_CONTROL_PLANE_URL is required''
     else case NewHTTPControlPlane (ho_Parse h) (ho_loopback h) (getenv h ''SMART_ROUTE_CONTROL_PLANE_URL'') of
       Inl e \<Rightarrow> Inl e
     | Inr control \<Rightarrow> Inr (\<lparr>ws_Registration = worker_registration h, ws_Command = worker_command h, ws_HTTP = worker_http h,
         ws_ClaimWait = durationEnv h ''SMART_ROUTE_CLAIM_WAIT'' (20 * second), ws_ShutdownTimeout = durationEnv h ''SMART_ROUTE_SHUTDOWN_TIMEOUT'' (30 * second),
         ws_CancelOnShutdown = boolEnv h ''SMART_ROUTE_CANCEL_ON_SHUTDOWN'', ws_Secrets = secretValues h,
         ws_EventRetryBuffer = intEnv h ''SMART_ROUTE_EVENT_RETRY_BUFFER'' 64, ws_CheckpointRoots = listEnv h ''SMART_ROUTE_CHECKPOINT_PATHS''\<rparr>, control))"

section \<open>Lists in an environment variable\<close>

definition list_item :: "string \<Rightarrow> bool" where
  "list_item x \<longleftrightarrow> x \<noteq> '''' \<and> TrimSpace x = x \<and> CHR '','' \<notin> set x"

lemma split_char_single: "c \<notin> set x \<Longrightarrow> split_char c x = [x]"
  by (induction x) auto

lemma split_char_cut: "c \<notin> set x \<Longrightarrow> split_char c (x @ c # rest) = x # split_char c rest"
  by (induction x) auto

lemma split_char_join: "xs \<noteq> [] \<Longrightarrow> list_all (\<lambda>x. c \<notin> set x) xs \<Longrightarrow> split_char c (join_with [c] xs) = xs"
  by (induction "[c]" xs rule: join_with.induct) (auto simp: split_char_single split_char_cut)

lemma listEnv_join:
  assumes "getenv h k = join_with '','' xs" and "list_all list_item xs"
  shows "listEnv h k = xs"
proof (cases "xs = []")
  case False
  have "list_all (\<lambda>x. CHR '','' \<notin> set x) xs" using assms(2) by (auto simp: list_all_iff list_item_def)
  then have "split_char (CHR '','') (getenv h k) = xs" using split_char_join [OF False] assms(1) by simp
  with assms(2) show ?thesis by (simp add: listEnv_def list_all_iff list_item_def filter_id_conv map_idI)
qed (use assms in \<open>simp add: listEnv_def TrimSpace_def\<close>)

lemma intEnv_positive: "0 < d \<Longrightarrow> 0 < intEnv h k d"
  by (simp add: intEnv_def split: option.split)

section \<open>From the pool to the registration\<close>

text \<open>The token the autoscaler minted, as the store holds it.\<close>

lemma CreateBootstrapToken_Inr:
  assumes "CreateBootstrapToken t s = (Inr (), s')"
  shows "t_TokenHash t \<notin> t_TokenHash ` set (db_tokens s)" "db_tokens s' = db_tokens s @ [t\<lparr>t_ConsumedAt := None\<rparr>]"
  using assms by (auto simp: CreateBootstrapToken_def commit0_def commit_def rbind_def mapped_def insert_token_def split: sum.splits if_splits)

lemma on_provider_db: "on_provider f w = (r, w') \<Longrightarrow> fst w' = fst w"
  by (metis fst_conv on_provider_simps snd_conv)

lemma minted_token:
  assumes "MintBootstrapToken env ttl i provider pool caps w = (Inr token, w1)"
  shows "\<exists>t. db_tokens (fst w1) = db_tokens (fst w) @ [t] \<and> t_TokenHash t \<notin> t_TokenHash ` set (db_tokens (fst w))
    \<and> t = \<lparr>t_TokenHash = hex_EncodeToString (ev_sha256 env token), t_SandboxID = i, t_SandboxProvider = provider, t_Pool = pool,
        t_CapabilityHash = capabilityHash env caps, t_ExpiresAt = ev_wall env + ttl, t_ConsumedAt = None\<rparr>"
proof -
  let ?t = "\<lparr>t_TokenHash = hex_EncodeToString (ev_sha256 env token), t_SandboxID = i, t_SandboxProvider = provider, t_Pool = pool,
    t_CapabilityHash = capabilityHash env caps, t_ExpiresAt = ev_wall env + ttl, t_ConsumedAt = None\<rparr>"
  from assms obtain w0 where "fst w0 = fst w" "on_store (CreateBootstrapToken ?t) w0 = (Inr (), w1)"
    unfolding MintBootstrapToken_def newID_def by (auto elim!: sbind_InrE dest!: on_provider_db)
  then have "CreateBootstrapToken ?t (fst w) = (Inr (), fst w1)" by (simp add: on_store_success)
  from CreateBootstrapToken_Inr [OF this] show ?thesis by (intro exI [of _ ?t]) simp
qed

lemma consumed_once:
  assumes "db_tokens s = old @ [t]" and "t_TokenHash t \<notin> t_TokenHash ` set old"
  shows "fst (ConsumeBootstrapToken (t_TokenHash t) b provider pool caps now s) =
    (if t_SandboxID t = b \<and> t_SandboxProvider t = provider \<and> t_Pool t = pool \<and> t_CapabilityHash t = caps \<and> t_ConsumedAt t = None \<and> t_ExpiresAt t > now
     then Inr () else Inl ErrNotFound)"
proof -
  have "filter (\<lambda>u. t_TokenHash u = t_TokenHash t \<and> P u) old = []" for P using assms(2) by (auto simp: filter_empty_conv) (metis image_eqI)
  with assms(1) show ?thesis by (simp add: ConsumeBootstrapToken_def Let_def rows_affected_def)
qed

lemma consume_bootstrap_accepts:
  "rr_BootstrapToken req \<noteq> '''' \<Longrightarrow> fst (consume_bootstrap env req now w) = Inr ()
    \<longleftrightarrow> fst (ConsumeBootstrapToken (hex_EncodeToString (ev_sha256 env (rr_BootstrapToken req))) (rr_SandboxID req) (rr_SandboxProvider req)
      (registration_pool req) (capabilityHash env (rr_Capabilities req)) now (fst w)) = Inr ()"
  by (cases w) (auto simp: consume_bootstrap_def Let_def on_store_def or_reply_def split: prod.splits sum.splits)

text \<open>
  The host of a worker that Docker started for a sandbox: the variables of the adapter are in its environment, and its JSON
  decoder reads back the labels the adapter wrote.
\<close>

definition started_for :: "'w Outer \<Rightarrow> CreateSpec \<Rightarrow> SandboxID \<Rightarrow> Host \<Rightarrow> bool" where
  "started_for ou spec i h \<longleftrightarrow> (\<forall>(k, v) \<in> set (docker_env ou spec i). getenv h k = v)
     \<and> ou_labels ou (cap_Labels (sp_Capabilities spec)) \<noteq> '''' \<and> ho_readMap h (ou_labels ou (cap_Labels (sp_Capabilities spec))) = (True, cap_Labels (sp_Capabilities spec))
     \<and> ho_Version h \<noteq> '''' \<and> length (ou_sha256 ou i) = 32"

text \<open>The capabilities a pool may declare for its workers to present just those.\<close>

definition presentable :: "Host \<Rightarrow> Capabilities \<Rightarrow> bool" where
  "presentable h caps \<longleftrightarrow> list_all list_item (cap_Capabilities caps) \<and> cap_Architecture caps = ho_GOARCH h
     \<and> cap_ExecutorKinds caps = executor_kinds h \<and> cap_Upstreams caps = []"

lemma started_registration:
  assumes "started_for ou spec i h" and "i \<noteq> ''''"
  shows "rn_SandboxID (worker_registration h) = i" "rn_BootstrapToken (worker_registration h) = sp_BootstrapToken spec"
    "sp_SandboxProvider spec \<noteq> '''' \<Longrightarrow> rn_SandboxProvider (worker_registration h) = sp_SandboxProvider spec"
    "rn_InstanceID (worker_registration h) = docker_instanceID (ou_sha256 ou) i"
    "getenv h ''SMART_ROUTE_CONTROL_PLANE_URL'' = sp_ControlPlaneURL spec"
    "cap_Labels (worker_capabilities h) = cap_Labels (sp_Capabilities spec)"
    "cap_Region (worker_capabilities h) = cap_Region (sp_Capabilities spec)"
    "list_all list_item (cap_Capabilities (sp_Capabilities spec)) \<Longrightarrow> cap_Capabilities (worker_capabilities h) = cap_Capabilities (sp_Capabilities spec)"
proof -
  have env: "getenv h ''SMART_ROUTE_SANDBOX_ID'' = i" "getenv h ''SMART_ROUTE_BOOTSTRAP_TOKEN'' = sp_BootstrapToken spec"
    "getenv h ''SMART_ROUTE_SANDBOX_PROVIDER'' = (if sp_SandboxProvider spec = '''' then ''localdocker'' else sp_SandboxProvider spec)"
    "getenv h ''SMART_ROUTE_INSTANCE_ID'' = docker_instanceID (ou_sha256 ou) i" "getenv h ''SMART_ROUTE_CONTROL_PLANE_URL'' = sp_ControlPlaneURL spec"
    "getenv h ''SMART_ROUTE_LABELS'' = ou_labels ou (cap_Labels (sp_Capabilities spec))" "getenv h ''SMART_ROUTE_REGION'' = cap_Region (sp_Capabilities spec)"
    "getenv h ''SMART_ROUTE_CAPABILITIES'' = join_with '','' (cap_Capabilities (sp_Capabilities spec))"
    using assms(1) by (simp_all add: started_for_def docker_env_def Let_def)
  have "docker_instanceID (ou_sha256 ou) i \<noteq> ''''" by (simp add: docker_instanceID_def uuid_form_def Let_def)
  with env assms show "rn_SandboxID (worker_registration h) = i" "rn_BootstrapToken (worker_registration h) = sp_BootstrapToken spec"
    "sp_SandboxProvider spec \<noteq> '''' \<Longrightarrow> rn_SandboxProvider (worker_registration h) = sp_SandboxProvider spec"
    "rn_InstanceID (worker_registration h) = docker_instanceID (ou_sha256 ou) i" "getenv h ''SMART_ROUTE_CONTROL_PLANE_URL'' = sp_ControlPlaneURL spec"
    "cap_Labels (worker_capabilities h) = cap_Labels (sp_Capabilities spec)" "cap_Region (worker_capabilities h) = cap_Region (sp_Capabilities spec)"
    by (simp_all add: worker_registration_def worker_capabilities_def envDefault_def worker_instanceID_def stringMap_def started_for_def)
  show "list_all list_item (cap_Capabilities (sp_Capabilities spec)) \<Longrightarrow> cap_Capabilities (worker_capabilities h) = cap_Capabilities (sp_Capabilities spec)"
    using listEnv_join [OF env(8)] by (simp add: worker_capabilities_def)
qed

lemma worker_capabilities_presented:
  assumes "started_for ou spec i h" and "i \<noteq> ''''" and "presentable h (sp_Capabilities spec)"
  shows "worker_capabilities h = sp_Capabilities spec"
proof -
  have "list_all list_item (cap_Capabilities (sp_Capabilities spec))" using assms(3) by (simp add: presentable_def)
  note r = started_registration(6,7) [OF assms(1,2)] started_registration(8) [OF assms(1,2) this]
  moreover have "cap_Architecture (worker_capabilities h) = cap_Architecture (sp_Capabilities spec)"
    "cap_ExecutorKinds (worker_capabilities h) = cap_ExecutorKinds (sp_Capabilities spec)" "cap_Upstreams (worker_capabilities h) = cap_Upstreams (sp_Capabilities spec)"
    using assms(3) by (auto simp: presentable_def worker_capabilities_def)
  ultimately show ?thesis by simp
qed


section \<open>A concrete worker\<close>

definition demo_caps :: Capabilities where
  "demo_caps = \<lparr>cap_Capabilities = [''shell''], cap_Labels = [(''smart-route.pool'', ''local'')], cap_Architecture = ''amd64'', cap_Region = '''',
     cap_ExecutorKinds = [''command''], cap_Upstreams = []\<rparr>"

definition demo_worker_spec :: CreateSpec where
  "demo_worker_spec = demo_spec\<lparr>sp_SandboxID := ''box'', sp_SandboxProvider := ''docker'', sp_ControlPlaneURL := ''https://cp'', sp_BootstrapToken := ''wbt_30'',
     sp_Capabilities := demo_caps\<rparr>"

definition demo_docker :: "nat Outer" where
  "demo_docker = demo_outer\<lparr>ou_labels := \<lambda>_. ''{}''\<rparr>"

definition demo_host :: Host where
  "demo_host = \<lparr>ho_environ = map (\<lambda>(k, v). k @ ''='' @ v) (docker_env demo_docker demo_worker_spec ''box''), ho_Hostname = ''c1'', ho_GOARCH = ''amd64'',
     ho_ParseBool = (\<lambda>_. False), ho_ParseDuration = (\<lambda>_. Inl ''''), ho_readMap = (\<lambda>_. (True, cap_Labels demo_caps)),
     ho_Parse = (\<lambda>s. Some \<lparr>bu_Scheme = takeWhile (\<lambda>c. c \<noteq> CHR '':'') s, bu_Host = drop 8 s, bu_Hostname = drop 8 s\<rparr>), ho_loopback = (\<lambda>_. False),
     ho_sha256 = (\<lambda>_. replicate 32 (CHR ''x'')), ho_Version = ''dev'', ho_GitSHA = ''''\<rparr>"


section \<open>Pools whose workers are refused\<close>

text \<open>
  A pool that does not name an architecture, as in the example configuration, mints tokens no worker can use: a worker
  always presents the architecture it was built for, and the token is bound to the digest of the pool's own capabilities.
\<close>

theorem pool_without_architecture_refused:
  assumes "started_for ou spec i h" and "i \<noteq> ''''" and "sp_BootstrapToken spec \<noteq> ''''" and "cap_Architecture (sp_Capabilities spec) \<noteq> ho_GOARCH h"
    and "capabilityHash env (worker_capabilities h) = capabilityHash env (sp_Capabilities spec) \<Longrightarrow> worker_capabilities h = sp_Capabilities spec"
    and "MintBootstrapToken env ttl i provider pool (sp_Capabilities spec) w = (Inr (sp_BootstrapToken spec), w1)"
  shows "fst (consume_bootstrap env (register_body (worker_registration h)) now w1) \<noteq> Inr ()"
proof -
  let ?req = "register_body (worker_registration h)"
  have "cap_Architecture (worker_capabilities h) = ho_GOARCH h" by (simp add: worker_capabilities_def)
  with assms(4) have "worker_capabilities h \<noteq> sp_Capabilities spec" by auto
  then have "capabilityHash env (rr_Capabilities ?req) \<noteq> capabilityHash env (sp_Capabilities spec)"
    using assms(5) by (auto simp: register_body_def worker_registration_def)
  moreover from minted_token [OF assms(6)] obtain t :: TokenRow where t: "db_tokens (fst w1) = db_tokens (fst w) @ [t]" "t_TokenHash t \<notin> t_TokenHash ` set (db_tokens (fst w))"
    and row: "t_TokenHash t = hex_EncodeToString (ev_sha256 env (sp_BootstrapToken spec))" "t_CapabilityHash t = capabilityHash env (sp_Capabilities spec)"
    by fastforce
  moreover have token: "rr_BootstrapToken ?req = sp_BootstrapToken spec" using started_registration(2) [OF assms(1,2)] by (simp add: register_body_def)
  ultimately show ?thesis
    using consumed_once [OF t, of "rr_SandboxID ?req" "rr_SandboxProvider ?req" "registration_pool ?req" "capabilityHash env (rr_Capabilities ?req)" now] assms(3)
    by (auto simp: consume_bootstrap_accepts)
qed

text \<open>
  The control-plane URL of the example configuration is plain HTTP to a host name that is neither localhost nor a loopback address, and
  a worker refuses it.
\<close>

theorem example_url_refused:
  assumes "parse ''http://host.docker.internal:8080'' = Some \<lparr>bu_Scheme = ''http'', bu_Host = ''host.docker.internal:8080'', bu_Hostname = ''host.docker.internal''\<rparr>"
    and "\<not> loopback ''host.docker.internal''"
  shows "NewHTTPControlPlane parse loopback ''http://host.docker.internal:8080'' = Inl ''worker: TLS is required for non-local control plane''"
  using assms by (simp add: NewHTTPControlPlane_def trim_right_slashes_def)

end
