(* ===== verification/SR_Telemetry.thy ===== *)
theory SR_Telemetry
  imports SR_Autoscaler SR_Files
begin

text \<open>
  \<^verbatim>\<open>internal/telemetry\<close>: what reaches the logs, the traces and the metrics. The Prometheus, OpenTelemetry and slog libraries are outside: a
  metric is the list of the updates the program makes to it, a log record and a span are the attributes they are given.
\<close>

section \<open>Attributes\<close>

text \<open>A logged value: a group of attributes, a string, or a value of another kind as it is printed.\<close>

datatype AttrValue = GroupV "(string \<times> AttrValue) list" | StringV string | OtherV string

definition secret_words :: "string list" where
  "secret_words = [''token'', ''secret'', ''credential'', ''authorization'', ''payload'']"

definition sensitive :: "string \<Rightarrow> bool" where
  "sensitive key \<longleftrightarrow> list_ex (contains_str (to_lower key)) secret_words"

definition redacted :: string where
  "redacted = ''[REDACTED]''"

text \<open>A string that is cut ends with an ellipsis, three bytes of UTF-8.\<close>

definition cut_string :: "nat \<Rightarrow> string \<Rightarrow> string" where
  "cut_string n s = (if length s > n then take n s @ [CHR 0xE2, CHR 0x80, CHR 0xA6] else s)"

fun redact_value :: "nat \<Rightarrow> string \<Rightarrow> AttrValue \<Rightarrow> AttrValue" where
  "redact_value n key (GroupV vs) = GroupV (map (\<lambda>(k, v). (k, redact_value n k v)) vs)"
| "redact_value n key (StringV s) = StringV (if sensitive key then redacted else cut_string n s)"
| "redact_value n key (OtherV s) = (if sensitive key then StringV redacted else OtherV s)"

definition redact_attr :: "nat \<Rightarrow> string \<times> AttrValue \<Rightarrow> string \<times> AttrValue" where
  "redact_attr n a = (fst a, redact_value n (fst a) (snd a))"

text \<open>The handler in front of the logger: every attribute of a record, and every attribute attached to a logger, is redacted.\<close>

definition log_attrs :: "(string \<times> AttrValue) list \<Rightarrow> (string \<times> AttrValue) list" where
  "log_attrs attrs = map (redact_attr 2048) attrs"

text \<open>The arguments of a span come in pairs; a value that is none of the known kinds is left out.\<close>

datatype Arg = ArgString string | ArgStringer string | ArgInt int | ArgInt64 int | ArgBool bool | ArgOther

fun span_attr :: "string \<Rightarrow> Arg \<Rightarrow> (string \<times> Arg) list" where
  "span_attr key (ArgString v) = [(key, ArgString (if length v > 2048 then take 2048 v else v))]"
| "span_attr key (ArgStringer v) = [(key, ArgString (if length v > 2048 then take 2048 v else v))]"
| "span_attr key (ArgInt v) = [(key, ArgInt v)]"
| "span_attr key (ArgInt64 v) = [(key, ArgInt64 v)]"
| "span_attr key (ArgBool v) = [(key, ArgBool v)]"
| "span_attr key ArgOther = []"

fun traceAttrs :: "Arg list \<Rightarrow> (string \<times> Arg) list" where
  "traceAttrs (ArgString key # v # rest) = (if sensitive key then [] else span_attr key v) @ traceAttrs rest"
| "traceAttrs (_ # v # rest) = traceAttrs rest"
| "traceAttrs _ = []"

section \<open>Names of bounded number\<close>

definition normalizeReason :: "string \<Rightarrow> string" where
  "normalizeReason v =
    (if contains_str v ''demand'' then ''demand''
     else if contains_str v ''idle'' then ''idle''
     else if contains_str v ''cooldown'' then ''cooldown''
     else if contains_str v ''backoff'' then ''backoff''
     else if contains_str v ''limit'' then ''limit''
     else if contains_str v ''timeout'' then ''timeout''
     else if contains_str v ''failure'' \<or> contains_str v ''unhealthy'' then ''provider_error''
     else ''steady'')"

definition metric_route :: "string \<Rightarrow> string" where
  "metric_route p =
    (if has_prefix p ''/v1/jobs/'' then ''/v1/jobs/{id}''
     else if has_prefix p ''/v1/worker/attempts/'' then ''/v1/worker/attempts/{id}''
     else p)"

section \<open>Metrics\<close>

datatype Update = Inc | Dec | Add rat | Sub rat | SetTo rat | Observe rat

type_synonym metrics = "(string \<times> string list \<times> Update) list"

record PoolStatus =
  pl_Name :: string
  pl_Desired :: int
  pl_Current :: int
  pl_Unhealthy :: bool
  pl_Cooldown :: bool
  pl_Reason :: string

text \<open>\<open>tl_metrics\<close> is \<^term>\<open>None\<close> when metrics are off.\<close>

record Telemetry =
  tl_enabled :: bool
  tl_tracing :: bool
  tl_metrics :: "metrics option"
  tl_pools :: "(string \<times> PoolStatus) list"

definition telemetry_New :: "bool \<Rightarrow> bool \<Rightarrow> bool \<Rightarrow> Telemetry" where
  "telemetry_New enabled metrics tracing = \<lparr>tl_enabled = enabled, tl_tracing = (enabled \<and> tracing),
     tl_metrics = (if enabled \<and> metrics then Some [] else None), tl_pools = []\<rparr>"

definition emit :: "metrics \<Rightarrow> Telemetry \<Rightarrow> Telemetry" where
  "emit us t = t\<lparr>tl_metrics := map_option (\<lambda>ms. ms @ us) (tl_metrics t)\<rparr>"

definition seconds :: "duration \<Rightarrow> rat" where
  "seconds d = of_int d / of_int second"

fun action_text :: "ScaleAction \<Rightarrow> string" where
  "action_text ScaleNone = ''none''"
| "action_text ScaleProvision = ''provision''"
| "action_text ScaleDrain = ''drain''"
| "action_text ScaleTimeout = ''startup_timeout''"

definition HTTPHandler_observe :: "string \<Rightarrow> string \<Rightarrow> string \<Rightarrow> duration \<Rightarrow> Telemetry \<Rightarrow> Telemetry" where
  "HTTPHandler_observe verb path status_text took t =
    (if \<not> tl_enabled t then t
     else emit [(''smart_route_http_requests_total'', [verb, metric_route path, status_text], Inc),
        (''smart_route_http_request_duration_seconds'', [verb, metric_route path], Observe (seconds took))] t)"

definition provisioning_updates :: "ScaleDecision \<Rightarrow> metrics" where
  "provisioning_updates d =
    (if d_Changed d + d_ProvisionFailures d > 0
     then (if d_Changed d > 0 then [(''smart_route_provisioning_total'', [d_Provider d, ''success''], Add (of_int (d_Changed d)))] else [])
        @ (if d_ProvisionFailures d > 0 then [(''smart_route_provisioning_total'', [d_Provider d, ''failure''], Add (of_int (d_ProvisionFailures d)))] else [])
        @ [(''smart_route_provisioning_duration_seconds'', [d_Provider d], Observe (seconds (d_ProvisionDuration d) / of_int (d_Changed d + d_ProvisionFailures d)))]
     else [])"

definition ObserveAutoscaler :: "ScaleDecision \<Rightarrow> Telemetry \<Rightarrow> Telemetry" where
  "ObserveAutoscaler d t =
    (if \<not> tl_enabled t then t
     else
       (let reason = normalizeReason (d_Reason d);
            cool = (contains_str (d_Reason d) ''cooldown'' \<or> contains_str (d_Reason d) ''backoff'');
            unhealthy = (contains_str (d_Reason d) ''permanent'' \<or> contains_str (d_Reason d) ''unhealthy'');
            t1 = emit ([(''smart_route_autoscaler_decisions_total'', [d_Pool d, action_text (d_Action d), reason], Inc),
              (''smart_route_queue_depth'', [''all'', d_Pool d], SetTo (of_int (d_Queued d))),
              (''smart_route_pool_desired'', [d_Pool d], SetTo (of_int (d_Desired d))),
              (''smart_route_pool_current'', [d_Pool d], SetTo (of_int (d_Current d)))]
              @ provisioning_updates d @ [(''smart_route_pool_cooldown'', [d_Pool d], SetTo (if cool then 1 else 0))]) t
        in t1\<lparr>tl_pools := AList.update (d_Pool d) \<lparr>pl_Name = d_Pool d, pl_Desired = d_Desired d, pl_Current = d_Current d, pl_Unhealthy = unhealthy,
             pl_Cooldown = cool, pl_Reason = reason\<rparr> (tl_pools t1)\<rparr>))"

definition PoolStatuses :: "Telemetry \<Rightarrow> PoolStatus list" where
  "PoolStatuses t = map snd (tl_pools t)"

definition LeaseExpired :: "int \<Rightarrow> Telemetry \<Rightarrow> Telemetry" where
  "LeaseExpired n = emit [(''smart_route_lease_expirations_total'', [], Add (of_int n)), (''smart_route_active_leases'', [], Sub (of_int n))]"

definition JobEvent :: "string \<Rightarrow> Telemetry \<Rightarrow> Telemetry" where
  "JobEvent event = emit [(''smart_route_jobs_total'', [event], Inc)]"

definition QueueDelta :: "string \<Rightarrow> string \<Rightarrow> rat \<Rightarrow> Telemetry \<Rightarrow> Telemetry" where
  "QueueDelta kind pool delta = emit [(''smart_route_queue_depth'', [kind, pool], Add delta)]"

definition QueueWait :: "string \<Rightarrow> duration \<Rightarrow> Telemetry \<Rightarrow> Telemetry" where
  "QueueWait kind d = emit [(''smart_route_queue_wait_seconds'', [kind], Observe (seconds d))]"

definition AttemptEnded :: "string \<Rightarrow> duration \<Rightarrow> Telemetry \<Rightarrow> Telemetry" where
  "AttemptEnded res d = emit [(''smart_route_attempt_duration_seconds'', [res], Observe (seconds d)), (''smart_route_active_leases'', [], Dec)]"

definition LeaseStarted :: "Telemetry \<Rightarrow> Telemetry" where
  "LeaseStarted = emit [(''smart_route_active_leases'', [], Inc)]"

definition ClaimWait :: "string \<Rightarrow> duration \<Rightarrow> Telemetry \<Rightarrow> Telemetry" where
  "ClaimWait res d = emit [(''smart_route_claim_wait_seconds'', [res], Observe (seconds d))]"

definition Provision :: "string \<Rightarrow> string \<Rightarrow> duration \<Rightarrow> Telemetry \<Rightarrow> Telemetry" where
  "Provision provider res d = emit [(''smart_route_provisioning_total'', [provider, res], Inc),
     (''smart_route_provisioning_duration_seconds'', [provider], Observe (seconds d))]"

definition UpstreamCall :: "string \<Rightarrow> string \<Rightarrow> bool \<Rightarrow> Telemetry \<Rightarrow> Telemetry" where
  "UpstreamCall name outcome throttled = emit ((''smart_route_upstream_requests_total'', [name, outcome], Inc)
     # (if throttled then [(''smart_route_upstream_throttles_total'', [name], Inc)] else []))"

definition HeartbeatAge :: "duration \<Rightarrow> Telemetry \<Rightarrow> Telemetry" where
  "HeartbeatAge d = emit [(''smart_route_heartbeat_age_seconds'', [], SetTo (seconds d))]"

definition Heartbeat :: "string \<Rightarrow> Telemetry \<Rightarrow> Telemetry" where
  "Heartbeat res = emit [(''smart_route_heartbeats_total'', [res], Inc)]"

definition ClaimCount :: "string \<Rightarrow> Telemetry \<Rightarrow> Telemetry" where
  "ClaimCount res = emit [(''smart_route_claims_total'', [res], Inc)]"

definition WorkerHealth :: "string \<Rightarrow> rat \<Rightarrow> Telemetry \<Rightarrow> Telemetry" where
  "WorkerHealth health v = emit [(''smart_route_workers'', [health], SetTo v)]"

definition SandboxCount :: "string \<Rightarrow> string \<Rightarrow> string \<Rightarrow> rat \<Rightarrow> Telemetry \<Rightarrow> Telemetry" where
  "SandboxCount provider pool state v = emit [(''smart_route_sandboxes'', [provider, pool, state], SetTo v)]"

definition UpstreamState_metric :: "string \<Rightarrow> string \<Rightarrow> rat \<Rightarrow> Telemetry \<Rightarrow> Telemetry" where
  "UpstreamState_metric name state v = emit [(''smart_route_upstreams'', [name, state], SetTo v)]"

section \<open>Observed providers\<close>

text \<open>
  \<^verbatim>\<open>provider.go\<close>: a provider whose calls are timed. The state of the provider is beside that of the telemetry; \<open>took\<close> is the time
  a creation takes.
\<close>

definition observed_Create :: "duration \<Rightarrow> string \<Rightarrow> 'p Provider \<Rightarrow> CreateSpec \<Rightarrow> 'p \<times> Telemetry \<Rightarrow> (SbError + PSandbox) \<times> 'p \<times> Telemetry" where
  "observed_Create took name next_p spec pt =
    (case pv_Create next_p spec (fst pt) of (r, p) \<Rightarrow>
       (r, (p, Provision name (case r of Inl _ \<Rightarrow> ''failure'' | Inr _ \<Rightarrow> ''success'') took (snd pt))))"

definition beside :: "('p \<Rightarrow> 'a \<times> 'p) \<Rightarrow> 'p \<times> 't \<Rightarrow> 'a \<times> 'p \<times> 't" where
  "beside f pt = (case f (fst pt) of (r, p) \<Rightarrow> (r, (p, snd pt)))"

definition observedProvider :: "duration \<Rightarrow> string \<Rightarrow> 'p Provider \<Rightarrow> ('p \<times> Telemetry) Provider" where
  "observedProvider took name next_p = \<lparr>pv_Create = observed_Create took name next_p, pv_Get = (\<lambda>i. beside (pv_Get next_p i)),
     pv_List = (\<lambda>f. beside (pv_List next_p f)), pv_Terminate = (\<lambda>i. beside (pv_Terminate next_p i)), pv_CreateSnapshot = None, pv_RestoreSnapshot = None\<rparr>"

section \<open>What is logged and traced\<close>

text \<open>The attributes of a record with their own keys, at any depth of groups.\<close>

fun leaves :: "string \<Rightarrow> AttrValue \<Rightarrow> (string \<times> AttrValue) list" where
  "leaves key (GroupV vs) = concat (map (\<lambda>(k, v). leaves k v) vs)"
| "leaves key v = [(key, v)]"

lemma redact_leaves:
  "leaves key (redact_value n key v) = map (\<lambda>(k, v). (k, redact_value n k v)) (leaves key v)"
proof (induction key v rule: leaves.induct)
  case (1 key vs)
  have "concat (map (\<lambda>(k, v). leaves k v) (map (\<lambda>(k, v). (k, redact_value n k v)) vs)) = map (\<lambda>(k, v). (k, redact_value n k v)) (concat (map (\<lambda>(k, v). leaves k v) vs))"
    using 1 by (induction vs) auto
  then show ?case by simp
qed simp_all

text \<open>
  Nothing that is named a secret reaches a log or a trace: at any depth of groups, an attribute whose key speaks of a token, secret, credential,
  authorization or payload is logged as redacted, strings are cut to a bounded length and every other attribute is logged with its key; a
  span has no attribute with such a key.
\<close>

theorem telemetry_redacts:
  "(\<forall>(k, v) \<in> set (concat (map (\<lambda>(k, v). leaves k v) (log_attrs attrs))).
      (sensitive k \<longrightarrow> v = StringV redacted) \<and> (\<forall>s. v = StringV s \<longrightarrow> length s \<le> 2051))
   \<and> map fst (concat (map (\<lambda>(k, v). leaves k v) (log_attrs attrs))) = map fst (concat (map (\<lambda>(k, v). leaves k v) attrs))
   \<and> (\<forall>(k, v) \<in> set (traceAttrs args). \<not> sensitive k \<and> (\<forall>s. v = ArgString s \<longrightarrow> length s \<le> 2048))"
proof (intro conjI)
  have logged: "concat (map (\<lambda>(k, v). leaves k v) (log_attrs attrs)) = map (\<lambda>(k, v). (k, redact_value 2048 k v)) (concat (map (\<lambda>(k, v). leaves k v) attrs))"
    by (induction attrs) (auto simp: log_attrs_def redact_attr_def redact_leaves)
  then show "map fst (concat (map (\<lambda>(k, v). leaves k v) (log_attrs attrs))) = map fst (concat (map (\<lambda>(k, v). leaves k v) attrs))" by auto
  have atom: "\<exists>s. v = StringV s \<or> v = OtherV s" if "(k, v) \<in> set (leaves key u)" for k v key u
    using that by (induction key u rule: leaves.induct) auto
  show "\<forall>(k, v) \<in> set (concat (map (\<lambda>(k, v). leaves k v) (log_attrs attrs))).
      (sensitive k \<longrightarrow> v = StringV redacted) \<and> (\<forall>s. v = StringV s \<longrightarrow> length s \<le> 2051)"
    unfolding logged using atom by (fastforce simp: cut_string_def redacted_def split: if_splits)
  show "\<forall>(k, v) \<in> set (traceAttrs args). \<not> sensitive k \<and> (\<forall>s. v = ArgString s \<longrightarrow> length s \<le> 2048)"
  proof (induction args rule: traceAttrs.induct)
    case (1 key v rest)
    then show ?case by (cases v) auto
  qed auto
qed

theorem telemetry_redacts_witness:
  "concat (map (\<lambda>(k, v). leaves k v) (log_attrs [(''request'', GroupV [(''session_token'', StringV ''wst_30'')])])) = [(''session_token'', StringV redacted)]"
proof -
  let ?attrs = "[(''request'', GroupV [(''session_token'', StringV ''wst_30'')])]"
  have "map fst (concat (map (\<lambda>(k, v). leaves k v) ?attrs)) = [''session_token'']" "sensitive ''session_token''" by code_simp+
  moreover define out where "out = concat (map (\<lambda>(k, v). leaves k v) (log_attrs ?attrs))"
  ultimately have "map fst out = [''session_token'']" "\<forall>(k, v) \<in> set out. sensitive k \<longrightarrow> v = StringV redacted"
    using telemetry_redacts [of ?attrs "[]"] unfolding out_def [symmetric] by auto
  with \<open>sensitive ''session_token''\<close> have "out = [(''session_token'', StringV redacted)]" by (auto simp: map_eq_Cons_conv)
  then show ?thesis by (simp add: out_def)
qed

text \<open>The key of a group is not looked at: what is logged in a group named after a secret is logged in the clear.\<close>

theorem secret_group_logged:
  "log_attrs [(''credentials'', GroupV [(''value'', StringV ''hunter2'')])] = [(''credentials'', GroupV [(''value'', StringV ''hunter2'')])] \<and> sensitive ''credentials''"
  by code_simp

section \<open>Observed providers keep the contract\<close>

lemma observed_contract:
  assumes "sandbox_provider P ok view"
  shows "sandbox_provider (observedProvider took name P) (\<lambda>pt. ok (fst pt)) (\<lambda>pt. view (fst pt))"
proof
  fix p :: "'a \<times> Telemetry" and i item f spec p' r
  show "ok (fst p) \<Longrightarrow> distinct (map fst (view (fst p))) \<and> (\<forall>(i, item) \<in> set (view (fst p)). ps_ID item = i)"
    by (rule sandbox_provider.view_keys [OF assms])
  show "ok (fst p) \<Longrightarrow> map_of (view (fst p)) i = Some item \<Longrightarrow> pv_Get (observedProvider took name P) i p = (Inr item, p)"
    using sandbox_provider.get [OF assms] by (simp add: observedProvider_def beside_def)
  show "ok (fst p) \<Longrightarrow> map_of (view (fst p)) i = None \<Longrightarrow> \<exists>e. pv_Get (observedProvider took name P) i p = (Inl e, p) \<and> errors_Is e SbErrNotFound"
    using sandbox_provider.get_missing [OF assms, of "fst p" i] by (auto simp: observedProvider_def beside_def)
  show "ok (fst p) \<Longrightarrow> \<exists>items. pv_List (observedProvider took name P) f p = (Inr items, p) \<and> set items = {item \<in> snd ` set (view (fst p)). Matches item f}"
    using sandbox_provider.list [OF assms, of "fst p" f] by (auto simp: observedProvider_def beside_def)
  show "ok (fst p) \<Longrightarrow> pv_Create (observedProvider took name P) spec p = (Inr item, p') \<Longrightarrow>
      ok (fst p') \<and> map_of (view (fst p')) = (map_of (view (fst p)))(ps_ID item \<mapsto> item) \<and> ps_WorkerID item = sp_WorkerID spec
      \<and> ps_Labels item = sp_Labels spec \<and> ps_State item = ''running''"
    using sandbox_provider.create [OF assms, of "fst p" spec item "fst p'"] by (auto simp: observedProvider_def observed_Create_def split: prod.splits)
  show "ok (fst p) \<Longrightarrow> pv_Terminate (observedProvider took name P) i p = (r, p') \<Longrightarrow> r = Inr () \<and> ok (fst p')
      \<and> map_of (view (fst p')) = (map_of (view (fst p)))(i := map_option (\<lambda>item. item\<lparr>ps_State := ''terminated''\<rparr>) (map_of (view (fst p)) i))"
    using sandbox_provider.terminate [OF assms, of "fst p" i r "fst p'"] by (auto simp: observedProvider_def beside_def split: prod.splits)
qed

interpretation observed: sandbox_provider "observedProvider took name (fake_provider background now)" "\<lambda>pt. fake_inv (fst pt)" "\<lambda>pt. fk_items (fst pt)" for took name now
  by (rule observed_contract) (rule fake.sandbox_provider_axioms)

end
